(* ===== verification/Prelude.thy ===== *)
theory Prelude
  imports
    Main
    "HOL-Library.Char_ord"
    "HOL-Library.List_Lexorder"
    "HOL-Library.Product_Lexorder"
    "HOL-Library.Word"
begin

text \<open>
  What every component shares: the JavaScript string and array operations the sources
  call (\<open>split\<close>, \<open>join\<close>, \<open>new Set\<close>, \<open>sort\<close>), the result
  shape of a Durable Object call, and the type names of the model. A JavaScript string is
  a \<^typ>\<open>string\<close>, a \<^verbatim>\<open>Uint8Array\<close> a list of 8-bit words, a number that counts
  seconds or rows an \<^typ>\<open>int\<close>.
\<close>

named_theorems js_simps \<open>JavaScript string and array operations\<close>
named_theorems table_simps \<open>lookups in updated tables\<close>
named_theorems frame \<open>what an operation leaves unchanged\<close>

type_synonym byte = "8 word"
type_synonym bytes = "byte list"
type_synonym seconds = int


section \<open>Results of a Durable Object call\<close>

text \<open>
  A method returns a success, one of its declared failures, or throws: a statement that
  violates a table constraint raises an exception, which rolls the transaction back and
  reaches the caller as such.
\<close>

datatype ('a, 'e) do_result = Ok 'a | Fail 'e | Threw

fun is_ok :: "('a, 'e) do_result \<Rightarrow> bool" where
  "is_ok (Ok _) = True"
| "is_ok _ = False"

lemma is_ok_conv: "is_ok r \<longleftrightarrow> (\<exists>a. r = Ok a)"
  by (cases r) auto

lemma is_ok_pairE:
  assumes "is_ok (fst p)"
  obtains a s where "p = (Ok a, s)"
  using assms by (cases p) (auto simp: is_ok_conv)


section \<open>Strings and arrays\<close>

fun js_split :: "char \<Rightarrow> string \<Rightarrow> string list" where
  "js_split c [] = [[]]"
| "js_split c (x # xs) =
     (if x = c then [] # js_split c xs
      else (case js_split c xs of [] \<Rightarrow> [[x]] | w # ws \<Rightarrow> (x # w) # ws))"

fun js_join :: "string \<Rightarrow> string list \<Rightarrow> string" where
  "js_join sep [] = []"
| "js_join sep [w] = w"
| "js_join sep (w # v # ws) = w @ sep @ js_join sep (v # ws)"

text \<open>\<^verbatim>\<open>[...new Set(xs)]\<close> keeps the first occurrence of every element.\<close>

definition js_uniq :: "'a list \<Rightarrow> 'a list" where
  "js_uniq xs = rev (remdups (rev xs))"

abbreviation split_space :: "string \<Rightarrow> string list" where
  "split_space \<equiv> js_split (CHR '' '')"

abbreviation join_space :: "string list \<Rightarrow> string" where
  "join_space \<equiv> js_join '' ''"

text \<open>The tokens of a space-delimited list, empty ones dropped.\<close>

definition tokens :: "string \<Rightarrow> string list" where
  "tokens text = filter (\<lambda>s. s \<noteq> []) (split_space text)"

lemma js_split_not_Nil [simp]: "js_split c xs \<noteq> []"
  by (induction xs) (auto split: list.splits)

lemma js_split_no_sep [js_simps]: "c \<notin> set w \<Longrightarrow> js_split c w = [w]"
  by (induction w) auto

lemma js_split_append [js_simps]:
  "c \<notin> set w \<Longrightarrow> js_split c (w @ c # rest) = w # js_split c rest"
  by (induction w) auto

lemma js_split_join:
  "ws \<noteq> [] \<Longrightarrow> \<forall>w \<in> set ws. c \<notin> set w \<Longrightarrow> js_split c (js_join [c] ws) = ws"
  by (induction "[c]" ws rule: js_join.induct) (auto simp: js_simps)

lemma js_join_split: "js_join [c] (js_split c xs) = xs"
proof (induction xs)
  case Nil
  then show ?case by simp
next
  case (Cons x xs)
  obtain w ws where w: "js_split c xs = w # ws"
    by (cases "js_split c xs") auto
  show ?case
    using Cons.IH w by (cases ws) auto
qed

lemma js_split_pieces: "w \<in> set (js_split c xs) \<Longrightarrow> c \<notin> set w"
  by (induction xs arbitrary: w) (auto split: if_splits list.splits)

lemma set_js_uniq [simp]: "set (js_uniq xs) = set xs"
  by (simp add: js_uniq_def)

lemma distinct_js_uniq [simp]: "distinct (js_uniq xs)"
  by (simp add: js_uniq_def)

lemma length_js_uniq: "length (js_uniq xs) = length xs \<longleftrightarrow> distinct xs"
proof -
  have "length (js_uniq xs) = card (set xs)"
    by (simp add: js_uniq_def length_remdups_card_conv)
  then show ?thesis
    using card_distinct [of xs] distinct_card [of xs] by auto
qed

lemma tokens_join:
  assumes "\<forall>w \<in> set ws. CHR '' '' \<notin> set w"
  shows "tokens (join_space ws) = filter (\<lambda>s. s \<noteq> []) ws"
  using assms by (cases "ws = []") (auto simp: tokens_def js_split_join)

lemma tokens_no_space: "w \<in> set (tokens text) \<Longrightarrow> CHR '' '' \<notin> set w \<and> w \<noteq> []"
  by (auto simp: tokens_def dest: js_split_pieces)

text \<open>Splitting a joined token list again loses nothing: \<open>tokens\<close> is a left inverse.\<close>

lemma tokens_idem: "tokens (join_space (tokens text)) = tokens text"
  using tokens_no_space by (subst tokens_join) (auto intro!: filter_True)

end
