(* ===== verification/Machines.thy ===== *)
theory Machines
  imports Prelude
begin

text \<open>
  The interfaces of a stateful object, independent of which object it is: an invariant
  every operation keeps, a fact that once true stays true, and a credential that can be
  used at most once however the operations are ordered. \<open>codec\<close> is the contract of
  an encoding with a strict decoder.
\<close>

text \<open>How many operations of a sequence succeed as \<open>wins\<close> describes.\<close>

fun run_wins :: "('op \<Rightarrow> 's \<Rightarrow> 's) \<Rightarrow> ('op \<Rightarrow> 's \<Rightarrow> bool) \<Rightarrow> 'op list \<Rightarrow> 's \<Rightarrow> nat" where
  "run_wins step wins [] s = 0"
| "run_wins step wins (x # xs) s = (if wins x s then 1 else 0) + run_wins step wins xs (step x s)"

locale object_machine =
  fixes step :: "'op \<Rightarrow> 's \<Rightarrow> 's" and inv :: "'s \<Rightarrow> bool"
  assumes inv_step: "inv s \<Longrightarrow> inv (step x s)"
begin

lemma inv_run: "inv s \<Longrightarrow> inv (fold step xs s)"
  by (induction xs arbitrary: s) (auto intro: inv_step)

end

text \<open>
  \<open>dead\<close> is absorbing for the operations \<open>ok\<close> allows: no sequence of them
  leaves it.
\<close>

locale absorbing = object_machine step inv
  for step :: "'op \<Rightarrow> 's \<Rightarrow> 's" and inv :: "'s \<Rightarrow> bool" +
  fixes ok :: "'op \<Rightarrow> bool" and dead :: "'s \<Rightarrow> bool"
  assumes dead_step: "inv s \<Longrightarrow> ok x \<Longrightarrow> dead s \<Longrightarrow> dead (step x s)"
begin

lemma dead_run: "inv s \<Longrightarrow> list_all ok xs \<Longrightarrow> dead s \<Longrightarrow> dead (fold step xs s)"
  by (induction xs arbitrary: s) (auto intro: inv_step dead_step)

end

text \<open>
  A single-use credential: a winning operation needs it unspent and spends it, and spent is
  absorbing. Then no sequence of operations wins twice.
\<close>

locale single_use = absorbing step inv ok spent
  for step :: "'op \<Rightarrow> 's \<Rightarrow> 's" and inv :: "'s \<Rightarrow> bool" and ok :: "'op \<Rightarrow> bool"
    and spent :: "'s \<Rightarrow> bool" +
  fixes wins :: "'op \<Rightarrow> 's \<Rightarrow> bool"
  assumes wins_unspent: "inv s \<Longrightarrow> wins x s \<Longrightarrow> \<not> spent s"
    and wins_spends: "inv s \<Longrightarrow> wins x s \<Longrightarrow> spent (step x s)"
begin

lemma none_when_spent: "inv s \<Longrightarrow> list_all ok xs \<Longrightarrow> spent s \<Longrightarrow> run_wins step wins xs s = 0"
  by (induction xs arbitrary: s) (auto intro: inv_step dead_step dest: wins_unspent)

lemma at_most_once: "inv s \<Longrightarrow> list_all ok xs \<Longrightarrow> run_wins step wins xs s \<le> 1"
proof (induction xs arbitrary: s)
  case Nil
  then show ?case by simp
next
  case (Cons x xs)
  show ?case
  proof (cases "wins x s")
    case True
    with Cons.prems have "run_wins step wins xs (step x s) = 0"
      by (intro none_when_spent) (auto intro: inv_step wins_spends)
    then show ?thesis by simp
  next
    case False
    with Cons show ?thesis by (auto intro: inv_step)
  qed
qed

end

locale codec =
  fixes encode :: "'a \<Rightarrow> 'b" and decode :: "'b \<Rightarrow> 'a option"
  assumes decode_encode: "decode (encode x) = Some x"
    and decode_canonical: "decode y = Some x \<Longrightarrow> y = encode x"
begin

lemma encode_inject: "encode x = encode x' \<longleftrightarrow> x = x'"
  by (metis decode_encode option.inject)

lemma decode_Some_iff: "decode y = Some x \<longleftrightarrow> y = encode x"
  using decode_encode decode_canonical by blast

lemma decode_inject: "decode y = Some x \<Longrightarrow> decode y' = Some x \<Longrightarrow> y = y'"
  by (simp add: decode_Some_iff)

end

end
