(* ===== verification/Base64url.thy ===== *)
theory Base64url
  imports Machines
begin

text \<open>
  \<^verbatim>\<open>src/util/base64url.ts\<close>: base64url without padding, over the platform's
  \<open>btoa\<close> and \<open>atob\<close> (RFC 4648 base64, and the forgiving decoder that ignores
  the unused bits of the last character). The decoder of the source is strict: it accepts a
  text only when re-encoding reproduces it. Shown: encoding and decoding are inverse to
  each other, so the interface \<open>codec\<close> holds, and the length of an encoding.
\<close>


section \<open>The platform's base64\<close>

definition b64_alphabet :: string where
  "b64_alphabet = ''ABCDEFGHIJKLMNOPQRSTUVWXYZabcdefghijklmnopqrstuvwxyz0123456789+/''"

definition b64_char :: "nat \<Rightarrow> char" where
  "b64_char n = b64_alphabet ! n"

fun index_of :: "'a \<Rightarrow> 'a list \<Rightarrow> nat option" where
  "index_of x [] = None"
| "index_of x (y # ys) = (if x = y then Some 0 else map_option Suc (index_of x ys))"

definition b64_value :: "char \<Rightarrow> nat option" where
  "b64_value c = index_of c b64_alphabet"

fun btoa :: "bytes \<Rightarrow> string" where
  "btoa [] = []"
| "btoa [a] =
     [b64_char (unat a div 4), b64_char (unat a mod 4 * 16), CHR ''='', CHR ''='']"
| "btoa [a, b] =
     [b64_char (unat a div 4), b64_char (unat a mod 4 * 16 + unat b div 16),
      b64_char (unat b mod 16 * 4), CHR ''='']"
| "btoa (a # b # c # rest) =
     b64_char (unat a div 4) # b64_char (unat a mod 4 * 16 + unat b div 16) #
     b64_char (unat b mod 16 * 4 + unat c div 64) # b64_char (unat c mod 64) # btoa rest"

text \<open>One group of four characters; the last one of a text may end in padding.\<close>

fun atob_group :: "char \<Rightarrow> char \<Rightarrow> char \<Rightarrow> char \<Rightarrow> bool \<Rightarrow> bytes option" where
  "atob_group w x y z final =
     (case (b64_value w, b64_value x) of
        (Some i, Some j) \<Rightarrow>
          (if final \<and> y = CHR ''='' \<and> z = CHR ''='' then Some [word_of_nat (i * 4 + j div 16)]
           else (case b64_value y of
              None \<Rightarrow> None
            | Some k \<Rightarrow>
                (if final \<and> z = CHR ''='' then
                   Some [word_of_nat (i * 4 + j div 16), word_of_nat (j mod 16 * 16 + k div 4)]
                 else (case b64_value z of
                    None \<Rightarrow> None
                  | Some l \<Rightarrow>
                      Some [word_of_nat (i * 4 + j div 16), word_of_nat (j mod 16 * 16 + k div 4),
                            word_of_nat (k mod 4 * 64 + l)]))))
      | _ \<Rightarrow> None)"

fun atob :: "string \<Rightarrow> bytes option" where
  "atob [] = Some []"
| "atob (w # x # y # z # rest) =
     (case atob_group w x y z (rest = []) of
        None \<Rightarrow> None
      | Some bs \<Rightarrow> map_option (\<lambda>more. bs @ more) (atob rest))"
| "atob _ = None"


section \<open>The source's encoder and decoder\<close>

definition replaceAll :: "char \<Rightarrow> char \<Rightarrow> string \<Rightarrow> string" where
  "replaceAll c d = map (\<lambda>x. if x = c then d else x)"

definition strip_padding :: "string \<Rightarrow> string" where
  "strip_padding text = rev (dropWhile (\<lambda>c. c = CHR ''='') (rev text))"

definition encodeBase64Url :: "bytes \<Rightarrow> string" where
  "encodeBase64Url bs =
     strip_padding (replaceAll (CHR ''/'') (CHR ''_'') (replaceAll (CHR ''+'') (CHR ''-'') (btoa bs)))"

definition is_b64url_char :: "char \<Rightarrow> bool" where
  "is_b64url_char c \<longleftrightarrow>
     (CHR ''A'' \<le> c \<and> c \<le> CHR ''Z'') \<or> (CHR ''a'' \<le> c \<and> c \<le> CHR ''z'') \<or>
     (CHR ''0'' \<le> c \<and> c \<le> CHR ''9'') \<or> c = CHR ''_'' \<or> c = CHR ''-''"

definition decodeBase64Url :: "string \<Rightarrow> bytes option" where
  "decodeBase64Url text =
     (if \<not> list_all is_b64url_char text \<or> length text mod 4 = 1 then None
      else
        let padded = replaceAll (CHR ''_'') (CHR ''/'') (replaceAll (CHR ''-'') (CHR ''+'') text)
                       @ replicate ((4 - length text mod 4) mod 4) (CHR ''='')
        in (case atob padded of
              None \<Rightarrow> None
            | Some bs \<Rightarrow> if encodeBase64Url bs = text then Some bs else None))"

text \<open>
  \<^verbatim>\<open>utf8\<close>: the UTF-8 bytes of a text, whose characters are the code points
  U+0000 to U+00FF here.
\<close>

fun utf8_char :: "char \<Rightarrow> bytes" where
  "utf8_char c =
     (let n = of_char c :: nat in
      if n < 128 then [word_of_nat n] else [word_of_nat (192 + n div 64), word_of_nat (128 + n mod 64)])"

definition utf8 :: "string \<Rightarrow> bytes" where
  "utf8 text = concat (map utf8_char text)"

definition concatBytes :: "bytes list \<Rightarrow> bytes" where
  "concatBytes parts = concat parts"


section \<open>Characters of the alphabet\<close>

lemma all_sextets: "n < 64 \<Longrightarrow> P n" if "list_all P [0..<64]" for P :: "nat \<Rightarrow> bool"
  using that by (auto simp: list_all_iff)

lemma b64_value_char [simp]: "n < 64 \<Longrightarrow> b64_value (b64_char n) = Some n"
  by (rule all_sextets [where P = "\<lambda>n. b64_value (b64_char n) = Some n"]) (code_simp)

lemma b64_char_plain:
  "n < 64 \<Longrightarrow> b64_char n \<noteq> CHR ''='' \<and> b64_char n \<noteq> CHR ''-'' \<and> b64_char n \<noteq> CHR ''_''"
  by (rule all_sextets [where P = "\<lambda>n. b64_char n \<noteq> CHR ''='' \<and> b64_char n \<noteq> CHR ''-'' \<and> b64_char n \<noteq> CHR ''_''"])
     (code_simp)

definition b64url_char :: "char \<Rightarrow> char" where
  "b64url_char c = (if c = CHR ''+'' then CHR ''-'' else if c = CHR ''/'' then CHR ''_'' else c)"

lemma b64url_char_alphabet: "n < 64 \<Longrightarrow> is_b64url_char (b64url_char (b64_char n))"
  by (rule all_sextets [where P = "\<lambda>n. is_b64url_char (b64url_char (b64_char n))"]) (code_simp)


abbreviation u64 :: "nat \<Rightarrow> char" where
  "u64 n \<equiv> b64url_char (b64_char n)"

lemma byte_lt: "unat (a :: byte) < 256"
  using unsigned_less [of a] by simp

lemma sextets [simp]:
  "unat (a :: byte) div 4 < 64" "unat (a :: byte) mod 4 * 16 < 64" "unat (a :: byte) mod 16 * 4 < 64"
  "unat (a :: byte) mod 4 * 16 + unat (b :: byte) div 16 < 64"
  "unat (a :: byte) mod 16 * 4 + unat (b :: byte) div 64 < 64"
  using byte_lt [of a] byte_lt [of b] by auto

lemma u64_plain [simp]: "n < 64 \<Longrightarrow> u64 n \<noteq> CHR ''=''"
  using b64_char_plain by (auto simp: b64url_char_def)

lemma u64_back:
  "n < 64 \<Longrightarrow> (if (if u64 n = CHR ''-'' then CHR ''+'' else u64 n) = CHR ''_'' then CHR ''/''
      else (if u64 n = CHR ''-'' then CHR ''+'' else u64 n)) = b64_char n"
  using b64_char_plain by (auto simp: b64url_char_def)

lemma strip_padding_append [simp]:
  assumes "\<forall>c \<in> set xs. c \<noteq> CHR ''=''"
  shows "strip_padding (xs @ ys) = xs @ strip_padding ys"
proof -
  have "dropWhile (\<lambda>c. c = CHR ''='') (rev xs) = rev xs"
    using assms by (cases xs rule: rev_cases) auto
  then show ?thesis
    by (simp add: strip_padding_def dropWhile_append)
qed

lemma encode_map: "encodeBase64Url bs = strip_padding (map b64url_char (btoa bs))"
  proof -
  have "replaceAll (CHR ''/'') (CHR ''_'') (replaceAll (CHR ''+'') (CHR ''-'') (btoa bs)) =
      map b64url_char (btoa bs)"
    by (simp add: replaceAll_def b64url_char_def)
  then show ?thesis by (simp add: encodeBase64Url_def)
qed

lemma encode_simps:
  "encodeBase64Url [] = []"
  "encodeBase64Url [a] = [u64 (unat a div 4), u64 (unat a mod 4 * 16)]"
  "encodeBase64Url [a, b] =
     [u64 (unat a div 4), u64 (unat a mod 4 * 16 + unat b div 16), u64 (unat b mod 16 * 4)]"
  "encodeBase64Url (a # b # c # rest) =
     [u64 (unat a div 4), u64 (unat a mod 4 * 16 + unat b div 16),
      u64 (unat b mod 16 * 4 + unat c div 64), u64 (unat c mod 64)] @ encodeBase64Url rest"
proof -
  show "encodeBase64Url [] = []"
    by (simp add: encode_map strip_padding_def)
  show "encodeBase64Url [a] = [u64 (unat a div 4), u64 (unat a mod 4 * 16)]"
    by (simp add: encode_map strip_padding_def b64url_char_def [of "CHR ''=''"])
  show "encodeBase64Url [a, b] =
     [u64 (unat a div 4), u64 (unat a mod 4 * 16 + unat b div 16), u64 (unat b mod 16 * 4)]"
    by (simp add: encode_map strip_padding_def b64url_char_def [of "CHR ''=''"])
  show "encodeBase64Url (a # b # c # rest) =
     [u64 (unat a div 4), u64 (unat a mod 4 * 16 + unat b div 16),
      u64 (unat b mod 16 * 4 + unat c div 64), u64 (unat c mod 64)] @ encodeBase64Url rest"
    using strip_padding_append
      [of "[u64 (unat a div 4), u64 (unat a mod 4 * 16 + unat b div 16),
            u64 (unat b mod 16 * 4 + unat c div 64), u64 (unat c mod 64)]"
          "map b64url_char (btoa rest)"]
    by (simp add: encode_map)
qed


section \<open>Encoding and decoding are inverse\<close>

lemma encode_alphabet: "list_all is_b64url_char (encodeBase64Url bs)"
  by (induction bs rule: btoa.induct) (auto simp: encode_simps b64url_char_alphabet)

lemma encode_length: "length (encodeBase64Url bs) = (4 * length bs + 2) div 3"
  by (induction bs rule: btoa.induct) (auto simp: encode_simps)

lemma encode_pad:
  "replaceAll (CHR ''_'') (CHR ''/'') (replaceAll (CHR ''-'') (CHR ''+'') (encodeBase64Url bs))
     @ replicate ((4 - length (encodeBase64Url bs) mod 4) mod 4) (CHR ''='') = btoa bs"
  by (induction bs rule: btoa.induct)
     (auto simp: encode_simps replaceAll_def u64_back numeral_2_eq_2)

lemma btoa_Nil_iff [simp]: "btoa bs = [] \<longleftrightarrow> bs = []"
  by (cases bs rule: btoa.cases) auto

lemma high_bits [simp]:
  "unat (a :: byte) div 16 mod 16 = unat a div 16" "unat a div 16 div 16 = 0"
  "unat a div 64 mod 4 = unat a div 64" "unat a div 64 div 4 = 0"
  using byte_lt [of a] by auto

lemma atob_btoa: "atob (btoa bs) = Some bs"
  using b64_char_plain
  by (induction bs rule: btoa.induct)
     (auto simp del: of_nat_add of_nat_mult of_nat_numeral)

lemma decode_encode_base64url: "decodeBase64Url (encodeBase64Url bs) = Some bs"
proof -
  have "length (encodeBase64Url bs) mod 4 \<noteq> 1"
    unfolding encode_length by presburger
  then show ?thesis
    using encode_alphabet [of bs] encode_pad [of bs] atob_btoa [of bs]
    by (simp add: decodeBase64Url_def Let_def)
qed

lemma decode_base64url_canonical: "decodeBase64Url text = Some bs \<Longrightarrow> text = encodeBase64Url bs"
  by (auto simp: decodeBase64Url_def Let_def split: if_splits option.splits)

interpretation b64url: codec encodeBase64Url decodeBase64Url
  by unfold_locales (auto simp: decode_encode_base64url dest: decode_base64url_canonical)


section \<open>UTF-8\<close>

lemma unat_small_byte: "n < 256 \<Longrightarrow> unat (word_of_nat n :: byte) = n"
  by (simp add: unat_of_nat)

lemma byte_of_nat_inject:
  "m < 256 \<Longrightarrow> n < 256 \<Longrightarrow> (word_of_nat m :: byte) = word_of_nat n \<longleftrightarrow> m = n"
  by (metis unat_small_byte)

lemma utf8_char_prefix:
  assumes "utf8_char c @ xs = utf8_char d @ ys"
  shows "c = d \<and> xs = ys"
proof -
  let ?m = "of_char c :: nat" and ?n = "of_char d :: nat"
  have lt: "?m < 256" "?n < 256" by simp_all
  have "?m = ?n \<and> xs = ys"
  proof (cases "?m < 128"; cases "?n < 128")
    assume a: "\<not> ?m < 128" "\<not> ?n < 128"
    have b: "192 + ?m div 64 < 256" "192 + ?n div 64 < 256" "128 + ?m mod 64 < 256" "128 + ?n mod 64 < 256"
      using lt by linarith+
    have "?m div 64 = ?n div 64 \<and> ?m mod 64 = ?n mod 64 \<and> xs = ys"
      using assms a b by (simp add: Let_def byte_of_nat_inject del: of_nat_add of_nat_mod)
    then show ?thesis by (metis div_mult_mod_eq)
  qed (use assms lt in \<open>auto simp: Let_def byte_of_nat_inject simp del: of_nat_add of_nat_mod\<close>)
  then show ?thesis by simp
qed

lemma utf8_inject [simp]: "utf8 a = utf8 b \<longleftrightarrow> a = b"
proof
  assume "utf8 a = utf8 b"
  then show "a = b"
  proof (induction a b rule: list_induct2')
    case (4 x xs y ys)
    then show ?case
      using utf8_char_prefix [of x "concat (map utf8_char xs)" y "concat (map utf8_char ys)"]
      by (simp add: utf8_def)
  qed (simp_all add: utf8_def Let_def split: if_splits)
qed simp
end
