(* ===== verification/Tables.thy ===== *)
theory Tables
  imports Prelude
begin

text \<open>
  SQLite tables as lists of rows in the order they were inserted, and the statements the
  sources execute on them: \<^verbatim>\<open>SELECT\<close>, \<^verbatim>\<open>INSERT\<close> (which
  fails on a key clash), \<^verbatim>\<open>UPDATE ... WHERE\<close> and \<^verbatim>\<open>DELETE ... WHERE\<close>. The locale
  \<open>keyed_table\<close> is the contract of a table with a primary key.
\<close>


section \<open>Statements\<close>

definition select_where :: "('r \<Rightarrow> bool) \<Rightarrow> 'r list \<Rightarrow> 'r list" where
  "select_where P rows = filter P rows"

definition select_one :: "('r \<Rightarrow> bool) \<Rightarrow> 'r list \<Rightarrow> 'r option" where
  "select_one P rows = (case filter P rows of [] \<Rightarrow> None | r # _ \<Rightarrow> Some r)"

definition update_where :: "('r \<Rightarrow> bool) \<Rightarrow> ('r \<Rightarrow> 'r) \<Rightarrow> 'r list \<Rightarrow> 'r list" where
  "update_where P f rows = map (\<lambda>r. if P r then f r else r) rows"

definition delete_where :: "('r \<Rightarrow> bool) \<Rightarrow> 'r list \<Rightarrow> 'r list" where
  "delete_where P rows = filter (\<lambda>r. \<not> P r) rows"

text \<open>An insertion names the rows that clash with the new one under a key constraint.\<close>

definition insert_row :: "('r \<Rightarrow> bool) \<Rightarrow> 'r \<Rightarrow> 'r list \<Rightarrow> 'r list option" where
  "insert_row clash r rows = (if list_ex clash rows then None else Some (rows @ [r]))"

definition count_where :: "('r \<Rightarrow> bool) \<Rightarrow> 'r list \<Rightarrow> int" where
  "count_where P rows = int (length (filter P rows))"

lemma select_one_SomeD: "select_one P rows = Some r \<Longrightarrow> r \<in> set rows \<and> P r"
  unfolding select_one_def
  by (cases "filter P rows") (auto dest: filter_eq_ConsD)

lemma select_one_None: "select_one P rows = None \<longleftrightarrow> (\<forall>r \<in> set rows. \<not> P r)"
  unfolding select_one_def
  by (cases "filter P rows") (auto simp: filter_empty_conv dest: filter_eq_ConsD)

lemma select_one_Nil [simp]: "select_one P [] = None"
  by (simp add: select_one_def)

lemma select_one_Cons [simp]:
  "select_one P (r # rows) = (if P r then Some r else select_one P rows)"
  by (simp add: select_one_def)

lemma select_one_append:
  "select_one P (rows @ rows') =
     (case select_one P rows of None \<Rightarrow> select_one P rows' | Some r \<Rightarrow> Some r)"
  by (induction rows) (auto simp: select_one_def split: list.splits)

lemma set_update_where: "set (update_where P f rows) = (\<lambda>r. if P r then f r else r) ` set rows"
  by (simp add: update_where_def)

lemma ball_update_where:
  "(\<And>r. r \<in> set rows \<Longrightarrow> P r \<Longrightarrow> Q (f r)) \<Longrightarrow> (\<And>r. r \<in> set rows \<Longrightarrow> \<not> P r \<Longrightarrow> Q r) \<Longrightarrow>
   \<forall>r \<in> set (update_where P f rows). Q r"
  by (auto simp: update_where_def)

lemma set_delete_where [simp]: "set (delete_where P rows) = {r \<in> set rows. \<not> P r}"
  by (auto simp: delete_where_def)

lemma set_select_where [simp]: "set (select_where P rows) = {r \<in> set rows. P r}"
  by (auto simp: select_where_def)

lemma update_where_simps [simp]:
  "update_where P f [] = []"
  "update_where P f (r # rows) = (if P r then f r else r) # update_where P f rows"
  by (simp_all add: update_where_def)

lemma update_where_append [simp]:
  "update_where P f (rows @ rows') = update_where P f rows @ update_where P f rows'"
  by (simp add: update_where_def)

lemma delete_where_append [simp]:
  "delete_where P (rows @ rows') = delete_where P rows @ delete_where P rows'"
  by (simp add: delete_where_def)

text \<open>An update that writes no column of \<open>g\<close> leaves its projection alone.\<close>

lemma map_update_where [simp]: "(\<And>r. g (f r) = g r) \<Longrightarrow> map g (update_where P f rows) = map g rows"
  by (simp add: update_where_def)

lemma distinct_delete_where [intro]:
  "distinct (map g rows) \<Longrightarrow> distinct (map g (delete_where P rows))"
  by (simp add: delete_where_def distinct_map_filter)

lemma insert_row_Some:
  "insert_row clash r rows = Some rows' \<longleftrightarrow> (\<forall>x \<in> set rows. \<not> clash x) \<and> rows' = rows @ [r]"
  by (auto simp: insert_row_def list_ex_iff)

lemma insert_row_None: "insert_row clash r rows = None \<longleftrightarrow> (\<exists>x \<in> set rows. clash x)"
  by (auto simp: insert_row_def list_ex_iff)

lemma insert_row_distinct:
  assumes "insert_row clash r rows = Some rows'" and "distinct (map key rows)"
    and "\<And>x. key x = key r \<Longrightarrow> clash x"
  shows "distinct (map key rows')"
  using assms by (auto simp: insert_row_Some)

text \<open>The one row with identifier \<open>k\<close> takes a value no other row has in another unique column.\<close>

lemma distinct_update_fresh:
  assumes "distinct (map ident rows)" and "distinct (map key rows)"
    and "\<forall>r \<in> set rows. ident r \<noteq> k \<longrightarrow> key r \<noteq> v" and "\<And>r. key (f r) = v"
  shows "distinct (map key (update_where (\<lambda>r. ident r = k) f rows))"
  using assms(1-3)
proof (induction rows)
  case Nil
  then show ?case by simp
next
  case (Cons r rows)
  have "update_where (\<lambda>r. ident r = k) f rows = rows" if "ident r = k"
    using Cons.prems(1) that by (auto simp: update_where_def rev_image_eqI intro!: map_idI)
  then show ?case
    using Cons assms(4) by (auto simp: set_update_where rev_image_eqI)
qed

text \<open>Lookups by a key after an update or a deletion.\<close>

lemma select_one_update_where [table_simps]:
  assumes "\<And>r. Q (f r) = Q r"
  shows "select_one Q (update_where P f rows) =
           map_option (\<lambda>r. if P r then f r else r) (select_one Q rows)"
  using assms by (induction rows) auto

lemma select_one_delete_where [table_simps]:
  assumes "distinct (map key rows)"
  shows "select_one (\<lambda>r. key r = k) (delete_where P rows) =
           (case select_one (\<lambda>r. key r = k) rows of None \<Rightarrow> None
            | Some r \<Rightarrow> if P r then None else Some r)"
proof (cases "select_one (\<lambda>r. key r = k) rows")
  case None
  then have "select_one (\<lambda>r. key r = k) (delete_where P rows) = None"
    by (auto simp: select_one_None)
  with None show ?thesis by simp
next
  case (Some r)
  then have r: "r \<in> set rows" "key r = k" by (auto dest: select_one_SomeD)
  have uniq: "x = r" if "x \<in> set rows" "key x = k" for x
    using assms r that by (auto simp: distinct_map inj_on_def)
  show ?thesis
  proof (cases "P r")
    case True
    then have "\<forall>x \<in> set (delete_where P rows). key x \<noteq> k" using uniq by auto
    then have "select_one (\<lambda>r. key r = k) (delete_where P rows) = None"
      by (simp add: select_one_None)
    with True Some show ?thesis by simp
  next
    case False
    have "select_one (\<lambda>r. key r = k) (delete_where P rows) \<noteq> None"
      using r False by (auto simp: select_one_None)
    then obtain y where y: "select_one (\<lambda>r. key r = k) (delete_where P rows) = Some y" by blast
    then have "y = r" using uniq by (auto dest: select_one_SomeD)
    with y Some False show ?thesis by simp
  qed
qed

lemma select_one_key:
  assumes "distinct (map key rows)" and "r \<in> set rows"
  shows "select_one (\<lambda>x. key x = key r) rows = Some r"
  using assms by (induction rows) (auto simp: rev_image_eqI)


section \<open>The contract of a table with a primary key\<close>

text \<open>
  A component whose state \<open>s\<close> satisfies its invariant promises that no two rows of the
  table share a key; a lookup by the key then finds the row that is there, and only it.
\<close>

locale keyed_table =
  fixes inv :: "'s \<Rightarrow> bool" and rows :: "'s \<Rightarrow> 'r list" and key :: "'r \<Rightarrow> 'k"
  assumes unique: "inv s \<Longrightarrow> distinct (map key (rows s))"
begin

lemma lookup: "inv s \<Longrightarrow> r \<in> set (rows s) \<Longrightarrow> key r = k \<Longrightarrow> select_one (\<lambda>x. key x = k) (rows s) = Some r"
  using select_one_key [OF unique] by blast

lemma row_unique:
  "inv s \<Longrightarrow> r \<in> set (rows s) \<Longrightarrow> r' \<in> set (rows s) \<Longrightarrow> key r = key r' \<Longrightarrow> r = r'"
  using lookup [of s r "key r"] lookup [of s r' "key r"] by simp

end

end
