(* ===== verification/User_Types.thy ===== *)
theory User_Types
  imports Base64url Tables
begin

text \<open>
  The data of \<^verbatim>\<open>src/do/UserDO.ts\<close> and \<^verbatim>\<open>src/do/schema.ts\<close>: the rows of every
  table, the inputs and the outputs of the methods, the tables themselves and the object.
  A column that holds a JSON array of strings is the list it encodes, an
  \<^verbatim>\<open>INTEGER\<close> column that holds 0 or 1 is a Boolean, \<^verbatim>\<open>null\<close> is
  \<^term>\<open>None\<close>, and an absent property of a patch is \<^term>\<open>None\<close> around the
  property's own type. A scope column is the space-joined text the code stores.
\<close>


section \<open>Errors\<close>

datatype user_do_error =
    User_not_initialized
  | User_destroyed
  | User_id_mismatch
  | User_disabled
  | User_not_allowed
  | Session_invalid
  | Invalid_grant
  | Invalid_scope
  | Passkey_exists
  | Passkey_limit_reached
  | Passkey_verification_failed
  | Passkey_counter_regression
  | Identity_exists
  | Last_login_method
  | Too_many_attempts

datatype removal_actor = Admin | Self

datatype family_kind = Session_family | Offline_family

datatype created_via = Via_interaction | Via_me | Via_recovery


section \<open>Rows\<close>

record user_row =
  u_id :: string
  u_email :: "string option"
  u_email_norm :: "string option"
  u_email_verified :: bool
  u_display_name :: "string option"
  u_groups :: "string list"
  u_disabled_at :: "seconds option"
  u_created_at :: seconds
  u_updated_at :: seconds

record session_row =
  s_sid :: string
  s_secret_hash :: bytes
  s_created_at :: seconds
  s_last_seen_at :: seconds
  s_idle_expires_at :: seconds
  s_absolute_expires_at :: seconds
  s_auth_time :: seconds
  s_amr :: "string list"
  s_acr :: string
  s_upstream :: "string option"
  s_ip_hash :: "string option"
  s_ua_family :: "string option"
  s_country :: "string option"
  s_revoked_at :: "seconds option"
  s_revoke_reason :: "string option"

record session_client_row =
  sc_sid :: string
  sc_client_id :: string
  sc_first_at :: seconds

record code_row =
  c_secret_hash :: bytes
  c_client_id :: string
  c_redirect_uri :: string
  c_scope :: string
  c_nonce :: "string option"
  c_code_challenge :: "string option"
  c_sid :: string
  c_auth_time :: seconds
  c_amr :: "string list"
  c_acr :: string
  c_created_at :: seconds
  c_expires_at :: seconds
  c_consumed_at :: "seconds option"

record family_row =
  f_id :: string
  f_client_id :: string
  f_client_created_at :: seconds
  f_code_secret_hash :: "bytes option"
  f_kind :: family_kind
  f_sid :: "string option"
  f_scope :: string
  f_auth_time :: seconds
  f_amr :: "string list"
  f_acr :: string
  f_created_at :: seconds
  f_absolute_expires_at :: seconds
  f_idle_expires_at :: seconds
  f_current_serial :: int
  f_revoked_at :: "seconds option"
  f_revoke_reason :: "string option"

record token_row =
  t_family_id :: string
  t_secret_hash :: bytes
  t_serial :: int
  t_created_at :: seconds

record grant_row =
  g_client_id :: string
  g_client_created_at :: seconds
  g_scopes :: "string list"
  g_granted_at :: seconds
  g_updated_at :: seconds

record passkey_row =
  pk_id :: string
  pk_credential_id :: string
  pk_public_key :: bytes
  pk_alg :: int
  pk_counter :: int
  pk_transports :: "string list"
  pk_aaguid :: "string option"
  pk_backup_eligible :: bool
  pk_backed_up :: bool
  pk_name :: "string option"
  pk_created_via :: created_via
  pk_created_at :: seconds
  pk_last_used_at :: "seconds option"

record identity_row =
  i_id :: string
  i_issuer :: string
  i_subject :: string
  i_email :: "string option"
  i_email_verified :: "bool option"
  i_name :: "string option"
  i_created_at :: seconds
  i_last_login_at :: "seconds option"

record challenge_row =
  ch_key :: string
  ch_value :: string
  ch_expires_at :: seconds

record attempt_window =
  w_since :: seconds
  w_count :: int


section \<open>Inputs\<close>

record init_profile =
  ip_id :: string
  ip_email :: "string option"
  ip_email_norm :: "string option"
  ip_email_verified :: bool
  ip_display_name :: "string option"
  ip_groups :: "string list"

record client_ref =
  cr_client_id :: string
  cr_created_at :: seconds
  cr_skip_consent :: bool
  cr_allowed_groups :: "string list option"

record auth_context =
  a_auth_time :: seconds
  a_amr :: "string list"
  a_acr :: string
  a_upstream :: "string option"

record session_metadata =
  m_ip_hash :: "string option"
  m_ua_family :: "string option"
  m_country :: "string option"

record new_session =
  ns_sid :: string
  ns_secret_hash :: bytes
  ns_auth :: auth_context
  ns_metadata :: session_metadata
  ns_idle_ttl :: seconds
  ns_absolute_ttl :: seconds

record code_input =
  ci_secret_hash :: bytes
  ci_client_id :: string
  ci_redirect_uri :: string
  ci_scope :: "string list"
  ci_nonce :: "string option"
  ci_code_challenge :: "string option"

record authorize_input =
  ai_sid :: string
  ai_secret_hash :: bytes
  ai_now :: seconds
  ai_client :: client_ref
  ai_scope :: "string list"
  ai_prompt_login :: bool
  ai_prompt_consent :: bool
  ai_max_age :: "seconds option"
  ai_code :: "code_input option"
  ai_session_idle_ttl :: seconds

datatype session_change =
    Create_session new_session
  | Rotate_session string bytes auth_context

record finalize_input =
  fi_now :: seconds
  fi_session :: session_change
  fi_code :: "code_input option"
  fi_client :: "client_ref option"
  fi_session_idle_ttl :: seconds

record refresh_input =
  ri_secret_hash :: bytes
  ri_family_id :: string
  ri_offline_allowed :: bool
  ri_idle_ttl :: seconds
  ri_absolute_ttl :: seconds

record exchange_input =
  xi_secret_hash :: bytes
  xi_client :: client_ref
  xi_redirect_uri :: string
  xi_code_verifier :: "string option"
  xi_now :: seconds
  xi_refresh :: "refresh_input option"

record rotate_input =
  rt_family_id :: string
  rt_secret_hash :: bytes
  rt_client :: client_ref
  rt_now :: seconds
  rt_requested_scope :: "string list option"
  rt_new_secret_hash :: bytes
  rt_idle_ttl :: seconds
  rt_session_idle_ttl :: seconds
  rt_reuse_window :: seconds

record new_passkey =
  np_id :: string
  np_credential_id :: string
  np_public_key :: bytes
  np_alg :: int
  np_counter :: int
  np_transports :: "string list"
  np_aaguid :: "string option"
  np_backup_eligible :: bool
  np_backed_up :: bool
  np_name :: "string option"
  np_created_via :: created_via

record new_identity =
  ni_id :: string
  ni_issuer :: string
  ni_subject :: string
  ni_email :: "string option"
  ni_email_verified :: "bool option"
  ni_name :: "string option"

record identity_claims =
  ic_email :: "string option"
  ic_email_verified :: bool
  ic_name :: "string option"

record profile_patch =
  pp_email :: "string option option"
  pp_email_norm :: "string option option"
  pp_email_verified :: "bool option"
  pp_display_name :: "string option option"


section \<open>Outputs\<close>

record user_profile =
  p_id :: string
  p_email :: "string option"
  p_email_norm :: "string option"
  p_email_verified :: bool
  p_display_name :: "string option"
  p_groups :: "string list"
  p_disabled_at :: "seconds option"
  p_created_at :: seconds
  p_updated_at :: seconds

record session_snapshot =
  ss_sid :: string
  ss_auth_time :: seconds
  ss_amr :: "string list"
  ss_acr :: string
  ss_upstream :: "string option"
  ss_created_at :: seconds
  ss_last_seen_at :: seconds
  ss_idle_expires_at :: seconds
  ss_absolute_expires_at :: seconds
  ss_clients :: "string list"
  ss_country :: "string option"
  ss_ua_family :: "string option"

record revoked_session =
  rs_sid :: string
  rs_clients :: "string list"

datatype authorize_outcome = Authorized | Login_required | Consent_required

record authorize_result =
  ao_outcome :: authorize_outcome
  ao_session :: session_snapshot
  ao_profile :: user_profile

record finalize_result =
  fo_sid :: string
  fo_session :: session_snapshot
  fo_profile :: user_profile

record grant_context =
  gc_sub :: string
  gc_scope :: "string list"
  gc_sid :: "string option"
  gc_auth_time :: seconds
  gc_amr :: "string list"
  gc_acr :: string
  gc_profile :: user_profile

record exchange_result =
  xo_grant :: grant_context
  xo_nonce :: "string option"
  xo_family_id :: "string option"
  xo_kind :: "family_kind option"

record exchange_failure =
  xf_error :: user_do_error
  xf_replay :: bool

record rotate_result =
  ro_grant :: grant_context
  ro_serial :: int
  ro_kind :: family_kind

record rotate_failure =
  rf_error :: user_do_error
  rf_reuse_detected :: bool
  rf_revoked_session_clients :: "string list option"

record grant_record =
  gr_client_id :: string
  gr_client_created_at :: seconds
  gr_scopes :: "string list"
  gr_granted_at :: seconds
  gr_updated_at :: seconds

record passkey_record =
  pr_passkey :: new_passkey
  pr_created_at :: seconds
  pr_last_used_at :: "seconds option"

record identity_record =
  ir_identity :: new_identity
  ir_created_at :: seconds
  ir_last_login_at :: "seconds option"

record counter_regression =
  reg_passkey_id :: string
  reg_stored :: int
  reg_observed :: int

datatype assertion_failure =
    Assertion_error user_do_error
  | Counter_regression counter_regression

record family_snapshot =
  fs_id :: string
  fs_client_id :: string
  fs_kind :: family_kind
  fs_sid :: "string option"
  fs_scope :: "string list"
  fs_auth_time :: seconds
  fs_amr :: "string list"
  fs_acr :: string
  fs_created_at :: seconds
  fs_absolute_expires_at :: seconds
  fs_idle_expires_at :: seconds
  fs_current_serial :: int

record user_counts =
  n_passkeys :: int
  n_identities :: int
  n_sessions :: int
  n_refresh_families :: int
  n_grants :: int
  n_storage_bytes :: int

record exported_session =
  es_session :: session_snapshot
  es_metadata :: session_metadata
  es_revoked_at :: "seconds option"
  es_revoke_reason :: "string option"

record exported_family =
  ef_family :: family_snapshot
  ef_revoked_at :: "seconds option"
  ef_revoke_reason :: "string option"

text \<open>An exported passkey carries every field of a passkey record but the public key.\<close>

record exported_passkey =
  ep_id :: string
  ep_credential_id :: string
  ep_alg :: int
  ep_counter :: int
  ep_transports :: "string list"
  ep_aaguid :: "string option"
  ep_backup_eligible :: bool
  ep_backed_up :: bool
  ep_name :: "string option"
  ep_created_via :: created_via
  ep_created_at :: seconds
  ep_last_used_at :: "seconds option"

record user_export =
  ex_exported_at :: seconds
  ex_profile :: user_profile
  ex_passkeys :: "exported_passkey list"
  ex_identities :: "identity_record list"
  ex_sessions :: "exported_session list"
  ex_refresh_families :: "exported_family list"
  ex_grants :: "grant_record list"


section \<open>The object\<close>

text \<open>
  \<open>user_tables\<close> is the SQLite database of schema version 4 (the \<^verbatim>\<open>meta\<close> table by its
  three keys); \<open>user_do\<close> adds the object's fields, which live in memory only.
  \<open>lastPurgeAt\<close> is \<^term>\<open>None\<close> for minus infinity.
\<close>

record user_tables =
  meta_schema_version :: "int option"
  meta_user_id :: "string option"
  meta_passkey_attempts :: "attempt_window option"
  user_tbl :: "user_row list"
  passkeys :: "passkey_row list"
  identities :: "identity_row list"
  sessions :: "session_row list"
  session_clients :: "session_client_row list"
  auth_codes :: "code_row list"
  refresh_families :: "family_row list"
  refresh_tokens :: "token_row list"
  grants :: "grant_row list"
  challenges :: "challenge_row list"

record user_do =
  migrated :: bool
  destroyed :: bool
  lastPurgeAt :: "seconds option"
  store :: user_tables

definition empty_tables :: user_tables where
  "empty_tables =
     \<lparr>meta_schema_version = None, meta_user_id = None, meta_passkey_attempts = None,
      user_tbl = [], passkeys = [], identities = [], sessions = [], session_clients = [],
      auth_codes = [], refresh_families = [], refresh_tokens = [], grants = [], challenges = []\<rparr>"

definition fresh_user_do :: user_do where
  "fresh_user_do = \<lparr>migrated = False, destroyed = False, lastPurgeAt = None, store = empty_tables\<rparr>"

end
