(* ===== verification/User_Core.thy ===== *)
theory User_Core
  imports User_Types
begin

text \<open>
  \<^verbatim>\<open>src/do/UserDO.ts\<close>, lifecycle, purge and the private helpers every method is
  built from: migration, the guard, the transaction, the purge on write, the session rows,
  the consent grant lookup and the user predicates. A method takes the object and
  returns its result with the object afterwards; helpers that only execute statements work
  on the tables.
\<close>


section \<open>Constants\<close>

definition USER_SCHEMA_VERSION :: int where
  "USER_SCHEMA_VERSION = 4"

definition PURGE_INTERVAL_SECONDS :: seconds where
  "PURGE_INTERVAL_SECONDS = 60"

definition PURGE_GRACE_SECONDS :: seconds where
  "PURGE_GRACE_SECONDS = 86400"

definition CODE_TTL_SECONDS :: seconds where
  "CODE_TTL_SECONDS = 60"

definition SESSION_TOUCH_INTERVAL_SECONDS :: seconds where
  "SESSION_TOUCH_INTERVAL_SECONDS = 60"

definition MAX_REFRESH_FAMILIES_PER_CLIENT :: nat where
  "MAX_REFRESH_FAMILIES_PER_CLIENT = 20"

definition PASSKEY_ATTEMPT_LIMIT :: int where
  "PASSKEY_ATTEMPT_LIMIT = 10"

definition PASSKEY_ATTEMPT_WINDOW_SECONDS :: seconds where
  "PASSKEY_ATTEMPT_WINDOW_SECONDS = 600"

lemmas user_constants =
  USER_SCHEMA_VERSION_def PURGE_INTERVAL_SECONDS_def PURGE_GRACE_SECONDS_def
  CODE_TTL_SECONDS_def SESSION_TOUCH_INTERVAL_SECONDS_def
  MAX_REFRESH_FAMILIES_PER_CLIENT_def PASSKEY_ATTEMPT_LIMIT_def
  PASSKEY_ATTEMPT_WINDOW_SECONDS_def


section \<open>Transactions, migration and the guard\<close>

text \<open>
  \<^verbatim>\<open>transactionSync\<close>: an exception restores the tables. The object's fields in memory
  are not part of the database and keep what the body wrote.
\<close>

definition transactionSync ::
  "(user_do \<Rightarrow> ('a, 'e) do_result \<times> user_do) \<Rightarrow> user_do \<Rightarrow> ('a, 'e) do_result \<times> user_do" where
  "transactionSync body s =
     (case body s of
        (Threw, s') \<Rightarrow> (Threw, s'\<lparr>store := store s\<rparr>)
      | (r, s') \<Rightarrow> (r, s'))"

text \<open>
  The schema steps above the stored version create tables, which are empty in the model
  until then, or rebuild one with its rows copied, so that the rows stay and the version
  is recorded.
\<close>

definition migrate :: "user_do \<Rightarrow> user_do" where
  "migrate s =
     (if migrated s then s
      else s\<lparr>store := (store s)\<lparr>meta_schema_version := Some USER_SCHEMA_VERSION\<rparr>,
             migrated := True\<rparr>)"

definition readUser :: "user_tables \<Rightarrow> user_row option" where
  "readUser tb = (case user_tbl tb of [] \<Rightarrow> None | r # _ \<Rightarrow> Some r)"

definition guard :: "user_do \<Rightarrow> (user_do_error + user_row) \<times> user_do" where
  "guard s =
     (if destroyed s then (Inl User_destroyed, s)
      else
        let s' = migrate s in
        (case readUser (store s') of
           None \<Rightarrow> (Inl User_not_initialized, s')
         | Some row \<Rightarrow> (Inr row, s')))"

text \<open>
  The opening lines of every method, \<^verbatim>\<open>const user = this.guard(); if (typeof user
  === "string") return fail(user)\<close>; \<open>err\<close> puts the error into the method's failure type.
\<close>

definition guarded ::
  "(user_do_error \<Rightarrow> 'e) \<Rightarrow> (user_row \<Rightarrow> user_do \<Rightarrow> ('a, 'e) do_result \<times> user_do) \<Rightarrow>
   user_do \<Rightarrow> ('a, 'e) do_result \<times> user_do" where
  "guarded err body s =
     (case guard s of
        (Inl e, s') \<Rightarrow> (Fail (err e), s')
      | (Inr user, s') \<Rightarrow> body user s')"

definition profile :: "user_row \<Rightarrow> user_profile" where
  "profile row =
     \<lparr>p_id = u_id row, p_email = u_email row, p_email_norm = u_email_norm row,
      p_email_verified = u_email_verified row, p_display_name = u_display_name row,
      p_groups = u_groups row, p_disabled_at = u_disabled_at row,
      p_created_at = u_created_at row, p_updated_at = u_updated_at row\<rparr>"

text \<open>\<^verbatim>\<open>UserDO.profile(this.readUser() as UserRow)\<close>, after a statement that keeps the user row.\<close>

definition current_profile :: "user_row \<Rightarrow> user_tables \<Rightarrow> user_profile" where
  "current_profile row tb = profile (case readUser tb of Some r \<Rightarrow> r | None \<Rightarrow> row)"

definition update_user :: "string \<Rightarrow> (user_row \<Rightarrow> user_row) \<Rightarrow> user_tables \<Rightarrow> user_tables" where
  "update_user uid f tb = tb\<lparr>user_tbl := update_where (\<lambda>r. u_id r = uid) f (user_tbl tb)\<rparr>"


section \<open>Initialisation and destruction\<close>

definition identity_of :: "new_identity \<Rightarrow> seconds \<Rightarrow> identity_row" where
  "identity_of identity now =
     \<lparr>i_id = ni_id identity, i_issuer = ni_issuer identity, i_subject = ni_subject identity,
      i_email = ni_email identity, i_email_verified = ni_email_verified identity,
      i_name = ni_name identity, i_created_at = now, i_last_login_at = None\<rparr>"

definition insert_identity :: "new_identity \<Rightarrow> seconds \<Rightarrow> user_tables \<Rightarrow> user_tables option" where
  "insert_identity identity now tb =
     (case insert_row
        (\<lambda>r. i_id r = ni_id identity \<or>
             (i_issuer r = ni_issuer identity \<and> i_subject r = ni_subject identity))
        (identity_of identity now) (identities tb) of
        None \<Rightarrow> None
      | Some rows \<Rightarrow> Some (tb\<lparr>identities := rows\<rparr>))"

text \<open>The loop over the identities: \<^term>\<open>False\<close> where a statement throws, with the rows written until then.\<close>

fun insert_identities :: "new_identity list \<Rightarrow> seconds \<Rightarrow> user_tables \<Rightarrow> bool \<times> user_tables" where
  "insert_identities [] now tb = (True, tb)"
| "insert_identities (identity # rest) now tb =
     (case insert_identity identity now tb of
        None \<Rightarrow> (False, tb)
      | Some tb' \<Rightarrow> insert_identities rest now tb')"

definition user_of :: "init_profile \<Rightarrow> seconds \<Rightarrow> user_row" where
  "user_of prof now =
     \<lparr>u_id = ip_id prof, u_email = ip_email prof, u_email_norm = ip_email_norm prof,
      u_email_verified = ip_email_verified prof, u_display_name = ip_display_name prof,
      u_groups = sort (ip_groups prof), u_disabled_at = None,
      u_created_at = now, u_updated_at = now\<rparr>"

definition insertUser ::
  "init_profile \<Rightarrow> seconds \<Rightarrow> new_identity list \<Rightarrow> user_do \<Rightarrow>
   (user_profile, user_do_error) do_result \<times> user_do" where
  "insertUser prof now ids s =
     (case insert_row (\<lambda>r. u_id r = ip_id prof) (user_of prof now) (user_tbl (store s)) of
        None \<Rightarrow> (Threw, s)
      | Some rows \<Rightarrow>
          let (finished, tb) =
                insert_identities ids now ((store s)\<lparr>user_tbl := rows, meta_user_id := Some (ip_id prof)\<rparr>)
          in (if finished then Ok (current_profile (user_of prof now) tb) else Threw, s\<lparr>store := tb\<rparr>))"

definition init ::
  "init_profile \<Rightarrow> seconds \<Rightarrow> new_identity list \<Rightarrow> user_do \<Rightarrow>
   (user_profile, user_do_error) do_result \<times> user_do" where
  "init prof now ids s =
     (if destroyed s then (Fail User_destroyed, s)
      else
        let s' = migrate s in
        (case readUser (store s') of
           Some existing \<Rightarrow>
             (if u_id existing = ip_id prof then (Ok (profile existing), s')
              else (Fail User_id_mismatch, s'))
         | None \<Rightarrow> transactionSync (insertUser prof now ids) s'))"

definition destroy :: "user_do \<Rightarrow> user_do" where
  "destroy s = s\<lparr>store := empty_tables, destroyed := True, migrated := False\<rparr>"

text \<open>
  Eviction: the runtime drops an idle object from memory and constructs it again on the
  next call, over the same storage, with the field initialisers of the class.
\<close>

definition evict :: "user_do \<Rightarrow> user_do" where
  "evict s = s\<lparr>migrated := False, destroyed := False, lastPurgeAt := None\<rparr>"


section \<open>Purge on write\<close>

text \<open>
  \<^verbatim>\<open>ON DELETE CASCADE\<close>: the rows of a child table go with the parent they reference.
\<close>

definition delete_families :: "(family_row \<Rightarrow> bool) \<Rightarrow> user_tables \<Rightarrow> user_tables" where
  "delete_families P tb =
     tb\<lparr>refresh_tokens :=
          delete_where (\<lambda>t. list_ex (\<lambda>f. P f \<and> f_id f = t_family_id t) (refresh_families tb))
            (refresh_tokens tb),
        refresh_families := delete_where P (refresh_families tb)\<rparr>"

definition delete_sessions :: "(session_row \<Rightarrow> bool) \<Rightarrow> user_tables \<Rightarrow> user_tables" where
  "delete_sessions P tb =
     tb\<lparr>session_clients :=
          delete_where (\<lambda>c. list_ex (\<lambda>r. P r \<and> s_sid r = sc_sid c) (sessions tb))
            (session_clients tb),
        sessions := delete_where P (sessions tb)\<rparr>"

definition before :: "seconds option \<Rightarrow> seconds \<Rightarrow> bool" where
  "before at t = (case at of None \<Rightarrow> False | Some a \<Rightarrow> a < t)"

definition session_purgeable :: "seconds \<Rightarrow> session_row \<Rightarrow> bool" where
  "session_purgeable grace r \<longleftrightarrow>
     before (s_revoked_at r) grace \<or> s_absolute_expires_at r < grace \<or> s_idle_expires_at r < grace"

definition family_purgeable :: "seconds \<Rightarrow> family_row \<Rightarrow> bool" where
  "family_purgeable grace f \<longleftrightarrow>
     before (f_revoked_at f) grace \<or> f_absolute_expires_at f < grace \<or> f_idle_expires_at f < grace"

text \<open>A token whose successor was created before the reuse window.\<close>

definition token_purgeable :: "seconds \<Rightarrow> token_row list \<Rightarrow> token_row \<Rightarrow> bool" where
  "token_purgeable limit rows t \<longleftrightarrow>
     list_ex (\<lambda>later. t_family_id later = t_family_id t \<and> t_serial later = t_serial t + 1 \<and>
                      t_created_at later < limit) rows"

definition purge_tables :: "seconds \<Rightarrow> seconds \<Rightarrow> user_tables \<Rightarrow> user_tables" where
  "purge_tables now reuseWindow tb =
     (let grace = now - PURGE_GRACE_SECONDS;
          tb1 = tb\<lparr>auth_codes := delete_where (\<lambda>c. c_expires_at c < now) (auth_codes tb)\<rparr>;
          tb2 = tb1\<lparr>refresh_tokens :=
                      delete_where (token_purgeable (now - reuseWindow) (refresh_tokens tb1))
                        (refresh_tokens tb1)\<rparr>;
          tb3 = delete_families (family_purgeable grace) tb2;
          tb4 = delete_sessions (session_purgeable grace) tb3
      in tb4\<lparr>challenges := delete_where (\<lambda>c. ch_expires_at c < now) (challenges tb4)\<rparr>)"

definition purgeIfDue :: "seconds \<Rightarrow> seconds \<Rightarrow> user_do \<Rightarrow> user_do" where
  "purgeIfDue now reuseWindow s =
     (if (case lastPurgeAt s of None \<Rightarrow> False | Some t \<Rightarrow> now - t < PURGE_INTERVAL_SECONDS) then s
      else s\<lparr>lastPurgeAt := Some now, store := purge_tables now reuseWindow (store s)\<rparr>)"

definition touch :: "seconds \<Rightarrow> seconds \<Rightarrow> user_do \<Rightarrow> (unit, user_do_error) do_result \<times> user_do" where
  "touch now reuseWindow =
     guarded id (\<lambda>user. transactionSync (\<lambda>s. (Ok (), purgeIfDue now reuseWindow s)))"


section \<open>Session rows\<close>

definition sessionRow :: "string \<Rightarrow> user_tables \<Rightarrow> session_row option" where
  "sessionRow sid tb = select_one (\<lambda>r. s_sid r = sid) (sessions tb)"

definition sessionClients :: "string \<Rightarrow> user_tables \<Rightarrow> string list" where
  "sessionClients sid tb =
     map sc_client_id
       (sort_key (\<lambda>r. (sc_first_at r, sc_client_id r))
          (select_where (\<lambda>r. sc_sid r = sid) (session_clients tb)))"

definition snapshot :: "session_row \<Rightarrow> user_tables \<Rightarrow> session_snapshot" where
  "snapshot row tb =
     \<lparr>ss_sid = s_sid row, ss_auth_time = s_auth_time row, ss_amr = s_amr row, ss_acr = s_acr row,
      ss_upstream = s_upstream row, ss_created_at = s_created_at row,
      ss_last_seen_at = s_last_seen_at row, ss_idle_expires_at = s_idle_expires_at row,
      ss_absolute_expires_at = s_absolute_expires_at row,
      ss_clients = sessionClients (s_sid row) tb, ss_country = s_country row,
      ss_ua_family = s_ua_family row\<rparr>"

definition sameBytes :: "bytes \<Rightarrow> bytes \<Rightarrow> bool" where
  "sameBytes a b \<longleftrightarrow> length a = length b \<and> list_all (\<lambda>(x, y). x = y) (zip a b)"

lemma sameBytes_eq [simp]: "sameBytes a b \<longleftrightarrow> a = b"
  by (induction a b rule: list_induct2') (auto simp: sameBytes_def)

definition liveSession :: "string \<Rightarrow> bytes \<Rightarrow> seconds \<Rightarrow> user_tables \<Rightarrow> session_row option" where
  "liveSession sid secretHash now tb =
     (case sessionRow sid tb of
        None \<Rightarrow> None
      | Some row \<Rightarrow>
          (if s_revoked_at row \<noteq> None then None
           else if \<not> sameBytes (s_secret_hash row) secretHash then None
           else if s_idle_expires_at row \<le> now \<or> s_absolute_expires_at row \<le> now then None
           else Some row))"

definition touchSession :: "session_row \<Rightarrow> seconds \<Rightarrow> seconds \<Rightarrow> user_tables \<Rightarrow> user_tables" where
  "touchSession row now idleTtl tb =
     (if now - s_last_seen_at row < SESSION_TOUCH_INTERVAL_SECONDS then tb
      else
        let idle = min (now + idleTtl) (s_absolute_expires_at row) in
        tb\<lparr>sessions := update_where (\<lambda>r. s_sid r = s_sid row)
             (\<lambda>r. r\<lparr>s_last_seen_at := now, s_idle_expires_at := idle\<rparr>) (sessions tb)\<rparr>)"

definition session_of :: "new_session \<Rightarrow> seconds \<Rightarrow> session_row" where
  "session_of input now =
     \<lparr>s_sid = ns_sid input, s_secret_hash = ns_secret_hash input, s_created_at = now,
      s_last_seen_at = now,
      s_idle_expires_at = min (now + ns_idle_ttl input) (now + ns_absolute_ttl input),
      s_absolute_expires_at = now + ns_absolute_ttl input,
      s_auth_time = a_auth_time (ns_auth input), s_amr = a_amr (ns_auth input),
      s_acr = a_acr (ns_auth input), s_upstream = a_upstream (ns_auth input),
      s_ip_hash = m_ip_hash (ns_metadata input), s_ua_family = m_ua_family (ns_metadata input),
      s_country = m_country (ns_metadata input), s_revoked_at = None, s_revoke_reason = None\<rparr>"

definition insertSession :: "new_session \<Rightarrow> seconds \<Rightarrow> user_tables \<Rightarrow> user_tables option" where
  "insertSession input now tb =
     (case insert_row (\<lambda>r. s_sid r = ns_sid input \<or> s_secret_hash r = ns_secret_hash input)
             (session_of input now) (sessions tb) of
        None \<Rightarrow> None
      | Some rows \<Rightarrow> Some (tb\<lparr>sessions := rows\<rparr>))"

definition revoke_session_row :: "seconds \<Rightarrow> string \<Rightarrow> session_row \<Rightarrow> session_row" where
  "revoke_session_row now reason r = r\<lparr>s_revoked_at := Some now, s_revoke_reason := Some reason\<rparr>"

definition revoke_family_row :: "seconds \<Rightarrow> string \<Rightarrow> family_row \<Rightarrow> family_row" where
  "revoke_family_row now reason f = f\<lparr>f_revoked_at := Some now, f_revoke_reason := Some reason\<rparr>"

text \<open>
  \<^verbatim>\<open>UPDATE refresh_families SET revoked_at, revoke_reason WHERE ... AND revoked_at IS NULL\<close>
\<close>

definition revoke_families ::
  "(family_row \<Rightarrow> bool) \<Rightarrow> seconds \<Rightarrow> string \<Rightarrow> user_tables \<Rightarrow> user_tables" where
  "revoke_families P now reason tb =
     tb\<lparr>refresh_families :=
          update_where (\<lambda>f. P f \<and> f_revoked_at f = None) (revoke_family_row now reason)
            (refresh_families tb)\<rparr>"

definition revokeSessionRows ::
  "string \<Rightarrow> seconds \<Rightarrow> string \<Rightarrow> user_tables \<Rightarrow> string list \<times> user_tables" where
  "revokeSessionRows sid now reason tb =
     (let tb1 = tb\<lparr>sessions :=
                     update_where (\<lambda>r. s_sid r = sid \<and> s_revoked_at r = None)
                       (revoke_session_row now reason) (sessions tb)\<rparr>;
          tb2 = revoke_families (\<lambda>f. f_sid f = Some sid \<and> f_kind f = Session_family) now reason tb1
      in (sessionClients sid tb2, tb2))"

text \<open>\<^verbatim>\<open>sids.map((sid) => ({ sid, clients: this.revokeSessionRows(sid, now, reason) }))\<close>\<close>

fun revoke_each ::
  "string list \<Rightarrow> seconds \<Rightarrow> string \<Rightarrow> user_tables \<Rightarrow> revoked_session list \<times> user_tables" where
  "revoke_each [] now reason tb = ([], tb)"
| "revoke_each (sid # sids) now reason tb =
     (let (clients, tb1) = revokeSessionRows sid now reason tb;
          (rest, tb2) = revoke_each sids now reason tb1
      in (\<lparr>rs_sid = sid, rs_clients = clients\<rparr> # rest, tb2))"

definition code_of :: "code_input \<Rightarrow> session_row \<Rightarrow> seconds \<Rightarrow> code_row" where
  "code_of code session now =
     \<lparr>c_secret_hash = ci_secret_hash code, c_client_id = ci_client_id code,
      c_redirect_uri = ci_redirect_uri code, c_scope = join_space (ci_scope code),
      c_nonce = ci_nonce code, c_code_challenge = ci_code_challenge code,
      c_sid = s_sid session, c_auth_time = s_auth_time session, c_amr = s_amr session,
      c_acr = s_acr session, c_created_at = now, c_expires_at = now + CODE_TTL_SECONDS,
      c_consumed_at = None\<rparr>"

text \<open>
  The client is recorded under the session once (\<^verbatim>\<open>ON CONFLICT DO NOTHING\<close>); the
  reference to \<^verbatim>\<open>sessions\<close> must hold.
\<close>

definition record_client :: "string \<Rightarrow> string \<Rightarrow> seconds \<Rightarrow> user_tables \<Rightarrow> user_tables option" where
  "record_client sid client_id now tb =
     (if list_ex (\<lambda>r. sc_sid r = sid \<and> sc_client_id r = client_id) (session_clients tb) then Some tb
      else if \<not> list_ex (\<lambda>r. s_sid r = sid) (sessions tb) then None
      else Some (tb\<lparr>session_clients :=
             session_clients tb @ [\<lparr>sc_sid = sid, sc_client_id = client_id, sc_first_at = now\<rparr>]\<rparr>))"

definition issueCodeRows ::
  "code_input \<Rightarrow> session_row \<Rightarrow> seconds \<Rightarrow> seconds \<Rightarrow> user_tables \<Rightarrow> user_tables option" where
  "issueCodeRows code session now idleTtl tb =
     (case insert_row (\<lambda>c. c_secret_hash c = ci_secret_hash code) (code_of code session now)
             (auth_codes tb) of
        None \<Rightarrow> None
      | Some rows \<Rightarrow>
          (case record_client (s_sid session) (ci_client_id code) now (tb\<lparr>auth_codes := rows\<rparr>) of
             None \<Rightarrow> None
           | Some tb' \<Rightarrow> Some (touchSession session now idleTtl tb')))"


section \<open>What the user may do\<close>

definition allowed :: "user_row \<Rightarrow> client_ref \<Rightarrow> bool" where
  "allowed user client =
     (case cr_allowed_groups client of
        None \<Rightarrow> True
      | Some groups \<Rightarrow> list_ex (\<lambda>g. g \<in> set (u_groups user)) groups)"

definition adminAllowed :: "user_row \<Rightarrow> string list \<Rightarrow> bool" where
  "adminAllowed user scope \<longleftrightarrow> ''admin'' \<notin> set scope \<or> ''admins'' \<in> set (u_groups user)"

definition grantFor :: "client_ref \<Rightarrow> user_tables \<Rightarrow> grant_row option \<times> user_tables" where
  "grantFor client tb =
     (case select_one (\<lambda>g. g_client_id g = cr_client_id client) (grants tb) of
        None \<Rightarrow> (None, tb)
      | Some row \<Rightarrow>
          (if g_client_created_at row \<noteq> cr_created_at client then
             (None, tb\<lparr>grants := delete_where (\<lambda>g. g_client_id g = cr_client_id client) (grants tb)\<rparr>)
           else (Some row, tb)))"

definition grantContext ::
  "user_row \<Rightarrow> string \<Rightarrow> string option \<Rightarrow> seconds \<Rightarrow> string list \<Rightarrow> string \<Rightarrow> grant_context" where
  "grantContext user scope sid authTime amr acr =
     \<lparr>gc_sub = u_id user, gc_scope = tokens scope, gc_sid = sid, gc_auth_time = authTime,
      gc_amr = amr, gc_acr = acr, gc_profile = profile user\<rparr>"

definition familyRow :: "string \<Rightarrow> user_tables \<Rightarrow> family_row option" where
  "familyRow fid tb = select_one (\<lambda>f. f_id f = fid) (refresh_families tb)"

definition revokeFamily :: "string \<Rightarrow> seconds \<Rightarrow> string \<Rightarrow> user_tables \<Rightarrow> user_tables" where
  "revokeFamily fid now reason tb = revoke_families (\<lambda>f. f_id f = fid) now reason tb"

end
