(* ===== verification/User_Sessions.thy ===== *)
theory User_Sessions
  imports User_Core
begin

text \<open>
  \<^verbatim>\<open>src/do/UserDO.ts\<close>, the profile, session, challenge and attempt methods:
  \<^verbatim>\<open>getProfile\<close>, \<^verbatim>\<open>setGroups\<close>, \<^verbatim>\<open>setDisabled\<close>, \<^verbatim>\<open>updateProfile\<close>,
  \<^verbatim>\<open>authorizeWithSession\<close>, \<^verbatim>\<open>finalizeLogin\<close>, \<^verbatim>\<open>getSession\<close>,
  \<^verbatim>\<open>revokeSession\<close>, \<^verbatim>\<open>listSessions\<close>, \<^verbatim>\<open>revokeSessions\<close>, \<^verbatim>\<open>revokeAll\<close>,
  \<^verbatim>\<open>countPasskeyAttempt\<close>, \<^verbatim>\<open>putChallenge\<close> and \<^verbatim>\<open>takeChallenge\<close>.
\<close>


section \<open>Profile\<close>

definition getProfile :: "user_do \<Rightarrow> (user_profile, user_do_error) do_result \<times> user_do" where
  "getProfile = guarded id (\<lambda>row s. (Ok (profile row), s))"

definition setGroups ::
  "string list \<Rightarrow> seconds \<Rightarrow> user_do \<Rightarrow> (user_profile, user_do_error) do_result \<times> user_do" where
  "setGroups groups now =
     guarded id (\<lambda>row s.
       let tb = update_user (u_id row)
                  (\<lambda>r. r\<lparr>u_groups := sort (js_uniq groups), u_updated_at := now\<rparr>) (store s)
       in (Ok (current_profile row tb), s\<lparr>store := tb\<rparr>))"

definition setDisabled ::
  "seconds option \<Rightarrow> seconds \<Rightarrow> user_do \<Rightarrow>
   (user_profile \<times> revoked_session list, user_do_error) do_result \<times> user_do" where
  "setDisabled disabledAt now =
     guarded id (\<lambda>row. transactionSync (\<lambda>s.
       let tb1 = update_user (u_id row)
                   (\<lambda>r. r\<lparr>u_disabled_at := disabledAt, u_updated_at := now\<rparr>) (store s);
           (revoked, tb2) =
             (if disabledAt \<noteq> None then
                let sids = map s_sid (select_where (\<lambda>r. s_revoked_at r = None) (sessions tb1));
                    (revoked, tb) = revoke_each sids now ''disabled'' tb1
                in (revoked, revoke_families (\<lambda>f. True) now ''disabled'' tb)
              else ([], tb1))
       in (Ok (current_profile row tb2, revoked), s\<lparr>store := tb2\<rparr>)))"

definition updateProfile ::
  "profile_patch \<Rightarrow> seconds \<Rightarrow> user_do \<Rightarrow> (user_profile, user_do_error) do_result \<times> user_do" where
  "updateProfile patch now =
     guarded id (\<lambda>row s.
       let email = (case pp_email patch of None \<Rightarrow> u_email row | Some e \<Rightarrow> e);
           emailNorm = (case pp_email patch of
                          None \<Rightarrow> u_email_norm row
                        | Some _ \<Rightarrow> (case pp_email_norm patch of None \<Rightarrow> None | Some n \<Rightarrow> n));
           emailChanged = (email \<noteq> u_email row);
           verified = (case pp_email_verified patch of
                         Some v \<Rightarrow> v
                       | None \<Rightarrow> if emailChanged then False else u_email_verified row);
           name = (case pp_display_name patch of None \<Rightarrow> u_display_name row | Some n \<Rightarrow> n);
           tb = update_user (u_id row)
                  (\<lambda>r. r\<lparr>u_email := email, u_email_norm := emailNorm, u_email_verified := verified,
                        u_display_name := name, u_updated_at := now\<rparr>) (store s)
       in (Ok (current_profile row tb), s\<lparr>store := tb\<rparr>))"


section \<open>Authorization with a session\<close>

definition stale :: "session_row \<Rightarrow> seconds option \<Rightarrow> seconds \<Rightarrow> bool" where
  "stale session maxAge now =
     (case maxAge of None \<Rightarrow> False | Some age \<Rightarrow> s_auth_time session + age \<le> now)"

text \<open>The code, when one is asked for, and the session as it is afterwards.\<close>

definition issue_for_session ::
  "authorize_input \<Rightarrow> session_row \<Rightarrow> user_profile \<Rightarrow> user_do \<Rightarrow>
   (authorize_result, user_do_error) do_result \<times> user_do" where
  "issue_for_session input session prof s =
     (let result = (\<lambda>tb. \<lparr>ao_outcome = Authorized,
              ao_session = snapshot (case sessionRow (s_sid session) tb of
                                       Some r \<Rightarrow> r | None \<Rightarrow> session) tb,
              ao_profile = prof\<rparr>)
      in (case ai_code input of
            None \<Rightarrow> (Ok (result (store s)), s)
          | Some code \<Rightarrow>
              let s1 = purgeIfDue (ai_now input) PURGE_GRACE_SECONDS s in
              (case issueCodeRows code session (ai_now input) (ai_session_idle_ttl input) (store s1) of
                 None \<Rightarrow> (Threw, s1)
               | Some tb \<Rightarrow> (Ok (result tb), s1\<lparr>store := tb\<rparr>))))"

text \<open>The body of the transaction of \<^verbatim>\<open>authorizeWithSession\<close>.\<close>

definition authorize_body ::
  "authorize_input \<Rightarrow> user_row \<Rightarrow> user_do \<Rightarrow> (authorize_result, user_do_error) do_result \<times> user_do" where
  "authorize_body input user s =
     (case liveSession (ai_sid input) (ai_secret_hash input) (ai_now input) (store s) of
       None \<Rightarrow> (Fail Session_invalid, s)
     | Some session \<Rightarrow>
         if u_disabled_at user \<noteq> None then (Fail User_disabled, s)
         else if \<not> allowed user (ai_client input) then (Fail User_not_allowed, s)
         else if \<not> adminAllowed user (ai_scope input) then (Fail User_not_allowed, s)
         else
           let prof = profile user;
               snap = snapshot session (store s);
               outcome = (\<lambda>out. \<lparr>ao_outcome = out, ao_session = snap, ao_profile = prof\<rparr>)
           in if ai_prompt_login input \<or> stale session (ai_max_age input) (ai_now input)
              then (Ok (outcome Login_required), s)
              else if \<not> cr_skip_consent (ai_client input) then
                let (grant, tb) = grantFor (ai_client input) (store s);
                    granted = (case grant of None \<Rightarrow> [] | Some g \<Rightarrow> g_scopes g);
                    covered = list_all (\<lambda>x. x \<in> set granted) (ai_scope input)
                in if ai_prompt_consent input \<or> \<not> covered
                   then (Ok (outcome Consent_required), s\<lparr>store := tb\<rparr>)
                   else issue_for_session input session prof (s\<lparr>store := tb\<rparr>)
              else issue_for_session input session prof s)"

definition authorizeWithSession ::
  "authorize_input \<Rightarrow> user_do \<Rightarrow> (authorize_result, user_do_error) do_result \<times> user_do" where
  "authorizeWithSession input = guarded id (\<lambda>user. transactionSync (authorize_body input user))"


section \<open>Login\<close>

definition rotate_session_row ::
  "bytes \<Rightarrow> auth_context \<Rightarrow> seconds \<Rightarrow> seconds \<Rightarrow> session_row \<Rightarrow> session_row" where
  "rotate_session_row secretHash auth now idle r =
     r\<lparr>s_secret_hash := secretHash, s_auth_time := a_auth_time auth, s_amr := a_amr auth,
       s_acr := a_acr auth, s_upstream := a_upstream auth, s_last_seen_at := now,
       s_idle_expires_at := idle\<rparr>"

text \<open>
  The session part of \<^verbatim>\<open>finalizeLogin\<close>: the session's id with the tables after the
  insertion or the rotation. The rotated secret hash must stay unique among the sessions.
\<close>

definition settle_session ::
  "finalize_input \<Rightarrow> user_tables \<Rightarrow> (string \<times> user_tables, user_do_error) do_result" where
  "settle_session input tb =
     (case fi_session input of
        Create_session new \<Rightarrow>
          (case insertSession new (fi_now input) tb of
             None \<Rightarrow> Threw
           | Some tb' \<Rightarrow> Ok (ns_sid new, tb'))
      | Rotate_session sid secretHash auth \<Rightarrow>
          (case sessionRow sid tb of
             None \<Rightarrow> Fail Session_invalid
           | Some existing \<Rightarrow>
               (if s_revoked_at existing \<noteq> None \<or> s_absolute_expires_at existing \<le> fi_now input
                then Fail Session_invalid
                else if list_ex (\<lambda>r. s_sid r \<noteq> sid \<and> s_secret_hash r = secretHash) (sessions tb)
                then Threw
                else
                  let idle = min (fi_now input + fi_session_idle_ttl input)
                               (s_absolute_expires_at existing)
                  in Ok (sid, tb\<lparr>sessions :=
                       update_where (\<lambda>r. s_sid r = sid)
                         (rotate_session_row secretHash auth (fi_now input) idle) (sessions tb)\<rparr>))))"

definition finalizeLogin ::
  "finalize_input \<Rightarrow> user_do \<Rightarrow> (finalize_result, user_do_error) do_result \<times> user_do" where
  "finalizeLogin input =
     guarded id (\<lambda>user s0.
       if u_disabled_at user \<noteq> None then (Fail User_disabled, s0)
       else if (case fi_client input of None \<Rightarrow> False | Some c \<Rightarrow> \<not> allowed user c)
       then (Fail User_not_allowed, s0)
       else if (case fi_code input of None \<Rightarrow> False | Some c \<Rightarrow> \<not> adminAllowed user (ci_scope c))
       then (Fail User_not_allowed, s0)
       else transactionSync (\<lambda>s.
         let s1 = purgeIfDue (fi_now input) PURGE_GRACE_SECONDS s in
         (case settle_session input (store s1) of
            Threw \<Rightarrow> (Threw, s1)
          | Fail e \<Rightarrow> (Fail e, s1)
          | Ok (sid, tb) \<Rightarrow>
              (case sessionRow sid tb of
                 None \<Rightarrow> (Threw, s1)
               | Some session \<Rightarrow>
                   (case (case fi_code input of
                            None \<Rightarrow> Some tb
                          | Some code \<Rightarrow>
                              issueCodeRows code session (fi_now input) (fi_session_idle_ttl input) tb) of
                      None \<Rightarrow> (Threw, s1)
                    | Some tb' \<Rightarrow>
                        (Ok \<lparr>fo_sid = sid,
                             fo_session = snapshot (case sessionRow sid tb' of
                                                      Some r \<Rightarrow> r | None \<Rightarrow> session) tb',
                             fo_profile = profile user\<rparr>,
                         s1\<lparr>store := tb'\<rparr>))))) s0)"

definition getSession ::
  "string \<Rightarrow> bytes \<Rightarrow> seconds \<Rightarrow> user_do \<Rightarrow>
   (session_snapshot \<times> user_profile, user_do_error) do_result \<times> user_do" where
  "getSession sid secretHash now =
     guarded id (\<lambda>user s.
       case liveSession sid secretHash now (store s) of
         None \<Rightarrow> (Fail Session_invalid, s)
       | Some session \<Rightarrow>
           if u_disabled_at user \<noteq> None then (Fail User_disabled, s)
           else (Ok (snapshot session (store s), profile user), s))"


section \<open>Revocation\<close>

definition revokeSession ::
  "string \<Rightarrow> seconds \<Rightarrow> string \<Rightarrow> user_do \<Rightarrow>
   (revoked_session option, user_do_error) do_result \<times> user_do" where
  "revokeSession sid now reason =
     guarded id (\<lambda>user. transactionSync (\<lambda>s.
       let s1 = purgeIfDue now PURGE_GRACE_SECONDS s in
       (case sessionRow sid (store s1) of
          None \<Rightarrow> (Ok None, s1)
        | Some row \<Rightarrow>
            (if s_revoked_at row \<noteq> None then (Ok None, s1)
             else
               let (clients, tb) = revokeSessionRows sid now reason (store s1)
               in (Ok (Some \<lparr>rs_sid = sid, rs_clients = clients\<rparr>), s1\<lparr>store := tb\<rparr>)))))"

definition session_live :: "seconds \<Rightarrow> session_row \<Rightarrow> bool" where
  "session_live now r \<longleftrightarrow>
     s_revoked_at r = None \<and> s_idle_expires_at r > now \<and> s_absolute_expires_at r > now"

definition listSessions ::
  "seconds \<Rightarrow> user_do \<Rightarrow> (session_snapshot list, user_do_error) do_result \<times> user_do" where
  "listSessions now =
     guarded id (\<lambda>user s.
       let rows = sort_key s_created_at (select_where (session_live now) (sessions (store s)))
       in (Ok (map (\<lambda>r. snapshot r (store s)) rows), s))"

definition revokeSessions ::
  "string option \<Rightarrow> seconds \<Rightarrow> string \<Rightarrow> user_do \<Rightarrow>
   (revoked_session list, user_do_error) do_result \<times> user_do" where
  "revokeSessions except now reason =
     guarded id (\<lambda>user. transactionSync (\<lambda>s.
       let s1 = purgeIfDue now PURGE_GRACE_SECONDS s;
           sids = filter (\<lambda>sid. Some sid \<noteq> except)
                    (map s_sid (sort_key s_created_at
                       (select_where (session_live now) (sessions (store s1)))));
           (revoked, tb) = revoke_each sids now reason (store s1)
       in (Ok revoked, s1\<lparr>store := tb\<rparr>)))"

definition revokeAll ::
  "seconds \<Rightarrow> string \<Rightarrow> user_do \<Rightarrow> (revoked_session list, user_do_error) do_result \<times> user_do" where
  "revokeAll now reason =
     guarded id (\<lambda>user. transactionSync (\<lambda>s.
       let sids = map s_sid (select_where (\<lambda>r. s_revoked_at r = None) (sessions (store s)));
           (revoked, tb) = revoke_each sids now reason (store s)
       in (Ok revoked, s\<lparr>store := revoke_families (\<lambda>f. True) now reason tb\<rparr>)))"


section \<open>Attempts and challenges\<close>

definition countPasskeyAttempt ::
  "seconds \<Rightarrow> user_do \<Rightarrow> (int, user_do_error) do_result \<times> user_do" where
  "countPasskeyAttempt now =
     guarded id (\<lambda>user s.
       let w0 = (case meta_passkey_attempts (store s) of
                   None \<Rightarrow> \<lparr>w_since = now, w_count = 0\<rparr> | Some w \<Rightarrow> w);
           w1 = (if now - w_since w0 \<ge> PASSKEY_ATTEMPT_WINDOW_SECONDS
                 then \<lparr>w_since = now, w_count = 0\<rparr> else w0)
       in if w_count w1 \<ge> PASSKEY_ATTEMPT_LIMIT then (Fail Too_many_attempts, s)
          else
            let w2 = \<lparr>w_since = w_since w1, w_count = w_count w1 + 1\<rparr>
            in (Ok (PASSKEY_ATTEMPT_LIMIT - w_count w2),
                s\<lparr>store := (store s)\<lparr>meta_passkey_attempts := Some w2\<rparr>\<rparr>))"

definition putChallenge ::
  "string \<Rightarrow> string \<Rightarrow> seconds \<Rightarrow> user_do \<Rightarrow> (unit, user_do_error) do_result \<times> user_do" where
  "putChallenge key value expiresAt =
     guarded id (\<lambda>user s.
       let rows = challenges (store s);
           rows' = (if list_ex (\<lambda>c. ch_key c = key) rows
                    then update_where (\<lambda>c. ch_key c = key)
                           (\<lambda>c. c\<lparr>ch_value := value, ch_expires_at := expiresAt\<rparr>) rows
                    else rows @ [\<lparr>ch_key = key, ch_value = value, ch_expires_at = expiresAt\<rparr>])
       in (Ok (), s\<lparr>store := (store s)\<lparr>challenges := rows'\<rparr>\<rparr>))"

definition takeChallenge ::
  "string \<Rightarrow> seconds \<Rightarrow> user_do \<Rightarrow> (string option, user_do_error) do_result \<times> user_do" where
  "takeChallenge key now =
     guarded id (\<lambda>user. transactionSync (\<lambda>s.
       let row = select_one (\<lambda>c. ch_key c = key) (challenges (store s));
           tb = (store s)\<lparr>challenges := delete_where (\<lambda>c. ch_key c = key) (challenges (store s))\<rparr>
       in (Ok (case row of None \<Rightarrow> None
               | Some c \<Rightarrow> if ch_expires_at c > now then Some (ch_value c) else None),
           s\<lparr>store := tb\<rparr>)))"

end
