(* ===== verification/User_Codes.thy ===== *)
theory User_Codes
  imports User_Core
begin

text \<open>
  \<^verbatim>\<open>src/do/UserDO.ts\<close>, authorization codes and refresh tokens:
  \<^verbatim>\<open>exchangeCode\<close>, \<^verbatim>\<open>rotateRefreshToken\<close> and the revocations of families.
  \<^verbatim>\<open>exchangeCode\<close> awaits the digest of the verifier between the guard and the
  transaction, so other calls may run in between: it is modelled in two steps,
  \<open>exchange_challenge\<close> before the await and \<open>exchange_commit\<close> after it, and
  \<open>exchangeCode\<close> is the run of both with nothing between. SHA-256 is a parameter.
\<close>

section \<open>Code exchange\<close>

definition is_pkce_char :: "char \<Rightarrow> bool" where
  "is_pkce_char c \<longleftrightarrow>
     (CHR ''A'' \<le> c \<and> c \<le> CHR ''Z'') \<or> (CHR ''a'' \<le> c \<and> c \<le> CHR ''z'') \<or>
     (CHR ''0'' \<le> c \<and> c \<le> CHR ''9'') \<or> c \<in> set ''._~-''"

definition PKCE_VERIFIER :: "string \<Rightarrow> bool" where
  "PKCE_VERIFIER v \<longleftrightarrow> 43 \<le> length v \<and> length v \<le> 128 \<and> list_all is_pkce_char v"

definition publicLengthEqual :: "string \<Rightarrow> string \<Rightarrow> bool" where
  "publicLengthEqual a b =
     (let x = utf8 a; y = utf8 b in length x = length y \<and> x = y)"

lemma publicLengthEqual_eq [simp]: "publicLengthEqual a b \<longleftrightarrow> a = b"
  by (auto simp: publicLengthEqual_def Let_def)

definition exchange_challenge :: "(bytes \<Rightarrow> bytes) \<Rightarrow> exchange_input \<Rightarrow> string option" where
  "exchange_challenge sha256 input =
     (case xi_code_verifier input of
        None \<Rightarrow> None
      | Some v \<Rightarrow> if PKCE_VERIFIER v then Some (encodeBase64Url (sha256 (utf8 v))) else None)"

definition no_replay :: "user_do_error \<Rightarrow> exchange_failure" where
  "no_replay e = \<lparr>xf_error = e, xf_replay = False\<rparr>"

text \<open>A bound challenge needs its verifier; a code without one refuses any verifier.\<close>

definition pkce_ok :: "string option \<Rightarrow> string option \<Rightarrow> string option \<Rightarrow> bool" where
  "pkce_ok challenge verifier expected =
     (case challenge of
        None \<Rightarrow> verifier = None
      | Some ch \<Rightarrow> (case expected of None \<Rightarrow> False | Some e \<Rightarrow> publicLengthEqual e ch))"

definition family_of ::
  "exchange_input \<Rightarrow> refresh_input \<Rightarrow> code_row \<Rightarrow> session_row \<Rightarrow> family_row" where
  "family_of input r code session =
     (let kind = (if ri_offline_allowed r \<and> ''offline_access'' \<in> set (split_space (c_scope code))
                  then Offline_family else Session_family);
          absolute = (if kind = Session_family then s_absolute_expires_at session
                      else xi_now input + ri_absolute_ttl r);
          idle = min (xi_now input + ri_idle_ttl r) absolute
      in \<lparr>f_id = ri_family_id r, f_client_id = cr_client_id (xi_client input),
          f_client_created_at = cr_created_at (xi_client input),
          f_code_secret_hash = Some (xi_secret_hash input), f_kind = kind,
          f_sid = (if kind = Session_family then Some (c_sid code) else None),
          f_scope = c_scope code, f_auth_time = c_auth_time code, f_amr = c_amr code,
          f_acr = c_acr code, f_created_at = xi_now input, f_absolute_expires_at = absolute,
          f_idle_expires_at = idle, f_current_serial = 1, f_revoked_at = None,
          f_revoke_reason = None\<rparr>)"

text \<open>
  Inserting a token row: its key is the family with the secret hash, and the family must
  exist.
\<close>

definition insert_token :: "token_row \<Rightarrow> user_tables \<Rightarrow> user_tables option" where
  "insert_token t tb =
     (if \<not> list_ex (\<lambda>f. f_id f = t_family_id t) (refresh_families tb) then None
      else
        (case insert_row
           (\<lambda>x. t_family_id x = t_family_id t \<and> t_secret_hash x = t_secret_hash t) t
           (refresh_tokens tb) of
           None \<Rightarrow> None
         | Some rows \<Rightarrow> Some (tb\<lparr>refresh_tokens := rows\<rparr>)))"

definition family_live :: "seconds \<Rightarrow> family_row \<Rightarrow> bool" where
  "family_live now f \<longleftrightarrow>
     f_revoked_at f = None \<and> f_idle_expires_at f > now \<and> f_absolute_expires_at f > now"

text \<open>
  The live families of a client beyond the newest ones, \<^verbatim>\<open>ORDER BY created_at DESC, id DESC
  LIMIT -1 OFFSET ?\<close>, are revoked.
\<close>

definition excess_families :: "string \<Rightarrow> seconds \<Rightarrow> user_tables \<Rightarrow> string list" where
  "excess_families client_id now tb =
     map f_id
       (drop MAX_REFRESH_FAMILIES_PER_CLIENT
          (rev (sort_key (\<lambda>f. (f_created_at f, f_id f))
             (select_where (\<lambda>f. f_client_id f = client_id \<and> family_live now f)
                (refresh_families tb)))))"

definition limit_families :: "string \<Rightarrow> seconds \<Rightarrow> user_tables \<Rightarrow> user_tables" where
  "limit_families client_id now tb =
     (let excess = excess_families client_id now tb in
      tb\<lparr>refresh_families :=
           update_where (\<lambda>f. f_id f \<in> set excess) (revoke_family_row now ''family_limit'')
             (refresh_families tb)\<rparr>)"

definition open_family ::
  "exchange_input \<Rightarrow> refresh_input \<Rightarrow> code_row \<Rightarrow> session_row \<Rightarrow> user_tables \<Rightarrow> user_tables option" where
  "open_family input r code session tb =
     (let fam = family_of input r code session in
      (case insert_row (\<lambda>f. f_id f = f_id fam) fam (refresh_families tb) of
         None \<Rightarrow> None
       | Some rows \<Rightarrow>
           (case insert_token
                   \<lparr>t_family_id = ri_family_id r, t_secret_hash = ri_secret_hash r, t_serial = 1,
                    t_created_at = xi_now input\<rparr> (tb\<lparr>refresh_families := rows\<rparr>) of
              None \<Rightarrow> None
            | Some tb' \<Rightarrow>
                Some (limit_families (cr_client_id (xi_client input)) (xi_now input) tb'))))"

definition codeRow :: "bytes \<Rightarrow> user_tables \<Rightarrow> code_row option" where
  "codeRow h tb = select_one (\<lambda>c. c_secret_hash c = h) (auth_codes tb)"

definition consume_code :: "bytes \<Rightarrow> seconds \<Rightarrow> user_tables \<Rightarrow> user_tables" where
  "consume_code h now tb =
     tb\<lparr>auth_codes :=
          update_where (\<lambda>c. c_secret_hash c = h) (\<lambda>c. c\<lparr>c_consumed_at := Some now\<rparr>)
            (auth_codes tb)\<rparr>"

definition exchange_commit ::
  "exchange_input \<Rightarrow> user_row \<Rightarrow> string option \<Rightarrow> user_do \<Rightarrow>
   (exchange_result, exchange_failure) do_result \<times> user_do" where
  "exchange_commit input user expected =
     transactionSync (\<lambda>s0.
       let s = purgeIfDue (xi_now input) PURGE_GRACE_SECONDS s0;
           h = xi_secret_hash input;
           now = xi_now input;
           invalid = (Fail (no_replay Invalid_grant), s)
       in (case codeRow h (store s) of
             None \<Rightarrow> invalid
           | Some code \<Rightarrow>
               if c_consumed_at code \<noteq> None then
                 (Fail \<lparr>xf_error = Invalid_grant, xf_replay = True\<rparr>,
                  s\<lparr>store := revoke_families (\<lambda>f. f_code_secret_hash f = Some h) now ''code_replay''
                              (store s)\<rparr>)
               else if c_expires_at code \<le> now then invalid
               else if c_client_id code \<noteq> cr_client_id (xi_client input) then invalid
               else if c_redirect_uri code \<noteq> xi_redirect_uri input then invalid
               else if \<not> pkce_ok (c_code_challenge code) (xi_code_verifier input) expected
               then invalid
               else if u_disabled_at user \<noteq> None then invalid
               else if \<not> allowed user (xi_client input) then invalid
               else if \<not> adminAllowed user (split_space (c_scope code)) then invalid
               else
                 (case sessionRow (c_sid code) (store s) of
                    None \<Rightarrow> invalid
                  | Some session \<Rightarrow>
                      if s_revoked_at session \<noteq> None then invalid
                      else
                        let tb = consume_code h now (store s);
                            grant = grantContext user (c_scope code) (Some (c_sid code))
                                      (c_auth_time code) (c_amr code) (c_acr code)
                        in (case xi_refresh input of
                              None \<Rightarrow>
                                (Ok \<lparr>xo_grant = grant, xo_nonce = c_nonce code, xo_family_id = None,
                                     xo_kind = None\<rparr>, s\<lparr>store := tb\<rparr>)
                            | Some r \<Rightarrow>
                                (case open_family input r code session tb of
                                   None \<Rightarrow> (Threw, s)
                                 | Some tb' \<Rightarrow>
                                     (Ok \<lparr>xo_grant = grant, xo_nonce = c_nonce code,
                                          xo_family_id = Some (ri_family_id r),
                                          xo_kind = Some (f_kind (family_of input r code session))\<rparr>,
                                      s\<lparr>store := tb'\<rparr>))))))"

definition exchangeCode ::
  "(bytes \<Rightarrow> bytes) \<Rightarrow> exchange_input \<Rightarrow> user_do \<Rightarrow>
   (exchange_result, exchange_failure) do_result \<times> user_do" where
  "exchangeCode sha256 input =
     guarded no_replay (\<lambda>user. exchange_commit input user (exchange_challenge sha256 input))"


section \<open>Refresh-token rotation\<close>

definition no_reuse :: "user_do_error \<Rightarrow> rotate_failure" where
  "no_reuse e = \<lparr>rf_error = e, rf_reuse_detected = False, rf_revoked_session_clients = None\<rparr>"

definition tokenRow :: "string \<Rightarrow> bytes \<Rightarrow> user_tables \<Rightarrow> token_row option" where
  "tokenRow fid h tb =
     select_one (\<lambda>t. t_family_id t = fid \<and> t_secret_hash t = h) (refresh_tokens tb)"

text \<open>Reuse detected: the family dies, and its session when it is bound to one.\<close>

definition detect_reuse ::
  "family_row \<Rightarrow> seconds \<Rightarrow> user_do \<Rightarrow> (rotate_result, rotate_failure) do_result \<times> user_do" where
  "detect_reuse family now s =
     (let tb = revokeFamily (f_id family) now ''reuse'' (store s) in
      (case f_sid family of
         None \<Rightarrow>
           (Fail \<lparr>rf_error = Invalid_grant, rf_reuse_detected = True,
                  rf_revoked_session_clients = None\<rparr>, s\<lparr>store := tb\<rparr>)
       | Some sid \<Rightarrow>
           let (clients, tb') = revokeSessionRows sid now ''refresh_reuse'' tb
           in (Fail \<lparr>rf_error = Invalid_grant, rf_reuse_detected = True,
                     rf_revoked_session_clients = Some clients\<rparr>, s\<lparr>store := tb'\<rparr>)))"

text \<open>The new token and the family's next serial and idle expiry, then the session's touch.\<close>

definition advance_family ::
  "rotate_input \<Rightarrow> family_row \<Rightarrow> session_row option \<Rightarrow> user_tables \<Rightarrow> user_tables option" where
  "advance_family input family session tb =
     (let serial = f_current_serial family + 1;
          idle = min (rt_now input + rt_idle_ttl input) (f_absolute_expires_at family)
      in (case insert_token
                \<lparr>t_family_id = f_id family, t_secret_hash = rt_new_secret_hash input,
                 t_serial = serial, t_created_at = rt_now input\<rparr> tb of
            None \<Rightarrow> None
          | Some tb1 \<Rightarrow>
              let tb2 = tb1\<lparr>refresh_families :=
                          update_where (\<lambda>f. f_id f = f_id family)
                            (\<lambda>f. f\<lparr>f_current_serial := serial, f_idle_expires_at := idle\<rparr>)
                            (refresh_families tb1)\<rparr>
              in Some (case session of
                         None \<Rightarrow> tb2
                       | Some row \<Rightarrow> touchSession row (rt_now input) (rt_session_idle_ttl input) tb2)))"

text \<open>The session a family is bound to, when it is bound to one, must be live.\<close>

definition family_session :: "family_row \<Rightarrow> seconds \<Rightarrow> user_tables \<Rightarrow> session_row option option" where
  "family_session family now tb =
     (case f_sid family of
        None \<Rightarrow> Some None
      | Some sid \<Rightarrow>
          (case sessionRow sid tb of
             None \<Rightarrow> None
           | Some session \<Rightarrow>
               if s_revoked_at session \<noteq> None \<or> s_idle_expires_at session \<le> now
                  \<or> s_absolute_expires_at session \<le> now
               then None else Some (Some session)))"

text \<open>The body of the transaction of \<^verbatim>\<open>rotateRefreshToken\<close>.\<close>

definition rotate_body ::
  "rotate_input \<Rightarrow> user_row \<Rightarrow> user_do \<Rightarrow> (rotate_result, rotate_failure) do_result \<times> user_do" where
  "rotate_body input user s0 =
      (let now = rt_now input;
           s = purgeIfDue now (rt_reuse_window input) s0;
           invalid = (Fail (no_reuse Invalid_grant), s)
       in (case familyRow (rt_family_id input) (store s) of
             None \<Rightarrow> invalid
           | Some family \<Rightarrow>
               if f_revoked_at family \<noteq> None then invalid
               else if f_absolute_expires_at family \<le> now \<or> f_idle_expires_at family \<le> now
               then invalid
               else if f_client_id family \<noteq> cr_client_id (rt_client input) then invalid
               else if f_client_created_at family \<noteq> cr_created_at (rt_client input) then
                 (Fail (no_reuse Invalid_grant),
                  s\<lparr>store := delete_families (\<lambda>f. f_id f = f_id family) (store s)\<rparr>)
               else
                 (case tokenRow (f_id family) (rt_secret_hash input) (store s) of
                    None \<Rightarrow> invalid
                  | Some token \<Rightarrow>
                      if t_serial token < f_current_serial family then detect_reuse family now s
                      else if t_serial token \<noteq> f_current_serial family then invalid
                      else if u_disabled_at user \<noteq> None then invalid
                      else if \<not> allowed user (rt_client input) then invalid
                      else
                        (case family_session family now (store s) of
                           None \<Rightarrow> invalid
                         | Some session \<Rightarrow>
                             let familyScope = tokens (f_scope family);
                                 scope = (case rt_requested_scope input of
                                            None \<Rightarrow> familyScope | Some req \<Rightarrow> req)
                             in if (case rt_requested_scope input of
                                      None \<Rightarrow> False
                                    | Some req \<Rightarrow> \<not> list_all (\<lambda>x. x \<in> set familyScope) req)
                                then (Fail (no_reuse Invalid_scope), s)
                                else if \<not> adminAllowed user scope then invalid
                                else
                                  (case advance_family input family session (store s) of
                                     None \<Rightarrow> (Threw, s)
                                   | Some tb \<Rightarrow>
                                       (Ok \<lparr>ro_grant = grantContext user (join_space scope)
                                                          (f_sid family) (f_auth_time family)
                                                          (f_amr family) (f_acr family),
                                            ro_serial = f_current_serial family + 1,
                                            ro_kind = f_kind family\<rparr>,
                                        s\<lparr>store := tb\<rparr>))))))"

definition rotateRefreshToken ::
  "rotate_input \<Rightarrow> user_do \<Rightarrow> (rotate_result, rotate_failure) do_result \<times> user_do" where
  "rotateRefreshToken input = guarded no_reuse (\<lambda>user. transactionSync (rotate_body input user))"


section \<open>Revocation of families\<close>

definition revokeFamilyById ::
  "string \<Rightarrow> seconds \<Rightarrow> string \<Rightarrow> string option \<Rightarrow> user_do \<Rightarrow>
   (bool, user_do_error) do_result \<times> user_do" where
  "revokeFamilyById familyId now reason clientId =
     guarded id (\<lambda>user. transactionSync (\<lambda>s.
       case familyRow familyId (store s) of
         None \<Rightarrow> (Ok False, s)
       | Some family \<Rightarrow>
           if f_revoked_at family \<noteq> None then (Ok False, s)
           else if (case clientId of None \<Rightarrow> False | Some c \<Rightarrow> f_client_id family \<noteq> c)
           then (Ok False, s)
           else (Ok True, s\<lparr>store := revokeFamily familyId now reason (store s)\<rparr>)))"

text \<open>\<^verbatim>\<open>rowsWritten\<close> of an update that touches no indexed column: the rows it matched.\<close>

definition revoke_counted ::
  "(family_row \<Rightarrow> bool) \<Rightarrow> seconds \<Rightarrow> string \<Rightarrow> user_do \<Rightarrow>
   (int, user_do_error) do_result \<times> user_do" where
  "revoke_counted P now reason =
     guarded id (\<lambda>user s.
       (Ok (count_where (\<lambda>f. P f \<and> f_revoked_at f = None) (refresh_families (store s))),
        s\<lparr>store := revoke_families P now reason (store s)\<rparr>))"

definition revokeSessionFamiliesOfClient ::
  "string \<Rightarrow> string \<Rightarrow> seconds \<Rightarrow> user_do \<Rightarrow> (int, user_do_error) do_result \<times> user_do" where
  "revokeSessionFamiliesOfClient sid clientId now =
     revoke_counted (\<lambda>f. f_sid f = Some sid \<and> f_client_id f = clientId) now ''client_revoke''"

definition revokeFamiliesOfClient ::
  "string \<Rightarrow> seconds \<Rightarrow> string \<Rightarrow> user_do \<Rightarrow> (int, user_do_error) do_result \<times> user_do" where
  "revokeFamiliesOfClient clientId now reason =
     revoke_counted (\<lambda>f. f_client_id f = clientId) now reason"

definition familySnapshot :: "family_row \<Rightarrow> family_snapshot" where
  "familySnapshot row =
     \<lparr>fs_id = f_id row, fs_client_id = f_client_id row, fs_kind = f_kind row, fs_sid = f_sid row,
      fs_scope = tokens (f_scope row), fs_auth_time = f_auth_time row, fs_amr = f_amr row,
      fs_acr = f_acr row, fs_created_at = f_created_at row,
      fs_absolute_expires_at = f_absolute_expires_at row,
      fs_idle_expires_at = f_idle_expires_at row, fs_current_serial = f_current_serial row\<rparr>"

definition listFamilies ::
  "seconds \<Rightarrow> user_do \<Rightarrow> (family_snapshot list, user_do_error) do_result \<times> user_do" where
  "listFamilies now =
     guarded id (\<lambda>user s.
       (Ok (map familySnapshot
              (sort_key (\<lambda>f. (f_created_at f, f_id f))
                 (select_where (family_live now) (refresh_families (store s))))), s))"

end
