(* ===== verification/User_Credentials.thy ===== *)
theory User_Credentials
  imports User_Sessions User_Codes
begin

text \<open>
  \<^verbatim>\<open>src/do/UserDO.ts\<close>, consent grants, passkeys, identities and the administrative
  reads: \<^verbatim>\<open>grantConsent\<close>, \<^verbatim>\<open>listGrants\<close>, \<^verbatim>\<open>revokeGrant\<close>,
  \<^verbatim>\<open>addPasskey\<close>, \<^verbatim>\<open>verifyAssertion\<close>, \<^verbatim>\<open>removePasskey\<close>,
  \<^verbatim>\<open>addIdentity\<close>, \<^verbatim>\<open>touchIdentity\<close>, \<^verbatim>\<open>removeIdentity\<close>, \<^verbatim>\<open>counts\<close>,
  \<^verbatim>\<open>exportState\<close>; and \<^verbatim>\<open>counterPolicy\<close> of \<^verbatim>\<open>src/auth/passkey.ts\<close>. The
  WebAuthn signature check is a parameter.
\<close>

section \<open>Consent grants\<close>

definition grantRecord :: "grant_row \<Rightarrow> grant_record" where
  "grantRecord row =
     \<lparr>gr_client_id = g_client_id row, gr_client_created_at = g_client_created_at row,
      gr_scopes = g_scopes row, gr_granted_at = g_granted_at row, gr_updated_at = g_updated_at row\<rparr>"

text \<open>\<^verbatim>\<open>INSERT ... ON CONFLICT(client_id) DO UPDATE SET scopes, updated_at\<close>\<close>

definition upsert_grant :: "grant_row \<Rightarrow> user_tables \<Rightarrow> user_tables" where
  "upsert_grant row tb =
     (if list_ex (\<lambda>g. g_client_id g = g_client_id row) (grants tb)
      then tb\<lparr>grants := update_where (\<lambda>g. g_client_id g = g_client_id row)
                (\<lambda>g. g\<lparr>g_scopes := g_scopes row, g_updated_at := g_updated_at row\<rparr>) (grants tb)\<rparr>
      else tb\<lparr>grants := grants tb @ [row]\<rparr>)"

definition grantConsent ::
  "client_ref \<Rightarrow> string list \<Rightarrow> seconds \<Rightarrow> user_do \<Rightarrow>
   (grant_record, user_do_error) do_result \<times> user_do" where
  "grantConsent client scopes now =
     guarded id (\<lambda>user. transactionSync (\<lambda>s.
       let (existing, tb) = grantFor client (store s);
           union = sort (js_uniq ((case existing of None \<Rightarrow> [] | Some g \<Rightarrow> g_scopes g) @ scopes));
           row = \<lparr>g_client_id = cr_client_id client, g_client_created_at = cr_created_at client,
                  g_scopes = union,
                  g_granted_at = (case existing of None \<Rightarrow> now | Some g \<Rightarrow> g_granted_at g),
                  g_updated_at = now\<rparr>;
           (stored, tb') = grantFor client (upsert_grant row tb)
       in (Ok (grantRecord (case stored of Some g \<Rightarrow> g | None \<Rightarrow> row)), s\<lparr>store := tb'\<rparr>)))"

definition ordered_grants :: "user_tables \<Rightarrow> grant_row list" where
  "ordered_grants tb = sort_key (\<lambda>g. (g_granted_at g, g_client_id g)) (grants tb)"

definition grantClientIds :: "user_do \<Rightarrow> (string list, user_do_error) do_result \<times> user_do" where
  "grantClientIds = guarded id (\<lambda>user s. (Ok (map g_client_id (ordered_grants (store s))), s))"

text \<open>
  \<^verbatim>\<open>new Map(clients.map((c) => [c.client_id, c]))\<close>: the last entry of an id wins.
\<close>

definition known_client :: "client_ref list \<Rightarrow> string \<Rightarrow> client_ref option" where
  "known_client clients cid = map_of (rev (map (\<lambda>c. (cr_client_id c, c)) clients)) cid"

fun list_grant_rows ::
  "client_ref list \<Rightarrow> grant_row list \<Rightarrow> user_tables \<Rightarrow> grant_record list \<times> user_tables" where
  "list_grant_rows clients [] tb = ([], tb)"
| "list_grant_rows clients (row # rows) tb =
     (if (case known_client clients (g_client_id row) of
            None \<Rightarrow> True | Some c \<Rightarrow> cr_created_at c \<noteq> g_client_created_at row)
      then list_grant_rows clients rows
             (tb\<lparr>grants := delete_where (\<lambda>g. g_client_id g = g_client_id row) (grants tb)\<rparr>)
      else
        let (found, tb') = list_grant_rows clients rows tb in (grantRecord row # found, tb'))"

definition listGrants ::
  "client_ref list \<Rightarrow> user_do \<Rightarrow> (grant_record list, user_do_error) do_result \<times> user_do" where
  "listGrants clients =
     guarded id (\<lambda>user. transactionSync (\<lambda>s.
       let (found, tb) = list_grant_rows clients (ordered_grants (store s)) (store s)
       in (Ok found, s\<lparr>store := tb\<rparr>)))"

definition revokeGrant ::
  "string \<Rightarrow> seconds \<Rightarrow> user_do \<Rightarrow> (bool, user_do_error) do_result \<times> user_do" where
  "revokeGrant clientId now =
     guarded id (\<lambda>user. transactionSync (\<lambda>s.
       let deleted = count_where (\<lambda>g. g_client_id g = clientId) (grants (store s));
           tb = (store s)\<lparr>grants := delete_where (\<lambda>g. g_client_id g = clientId) (grants (store s))\<rparr>
       in (Ok (deleted > 0),
           s\<lparr>store := revoke_families (\<lambda>f. f_client_id f = clientId) now ''consent_revoked'' tb\<rparr>)))"


section \<open>Passkeys\<close>

definition passkeyRecord :: "passkey_row \<Rightarrow> passkey_record" where
  "passkeyRecord row =
     \<lparr>pr_passkey =
        \<lparr>np_id = pk_id row, np_credential_id = pk_credential_id row,
         np_public_key = pk_public_key row, np_alg = pk_alg row, np_counter = pk_counter row,
         np_transports = pk_transports row, np_aaguid = pk_aaguid row,
         np_backup_eligible = pk_backup_eligible row, np_backed_up = pk_backed_up row,
         np_name = pk_name row, np_created_via = pk_created_via row\<rparr>,
      pr_created_at = pk_created_at row, pr_last_used_at = pk_last_used_at row\<rparr>"

definition passkey_of :: "new_passkey \<Rightarrow> seconds \<Rightarrow> passkey_row" where
  "passkey_of p now =
     \<lparr>pk_id = np_id p, pk_credential_id = np_credential_id p, pk_public_key = np_public_key p,
      pk_alg = np_alg p, pk_counter = np_counter p, pk_transports = np_transports p,
      pk_aaguid = np_aaguid p, pk_backup_eligible = np_backup_eligible p,
      pk_backed_up = np_backed_up p, pk_name = np_name p, pk_created_via = np_created_via p,
      pk_created_at = now, pk_last_used_at = None\<rparr>"

definition addPasskey ::
  "new_passkey \<Rightarrow> seconds \<Rightarrow> int \<Rightarrow> user_do \<Rightarrow>
   (passkey_record, user_do_error) do_result \<times> user_do" where
  "addPasskey passkey now maxPerUser =
     guarded id (\<lambda>user. transactionSync (\<lambda>s.
       if int (length (passkeys (store s))) \<ge> maxPerUser then (Fail Passkey_limit_reached, s)
       else if list_ex (\<lambda>r. pk_credential_id r = np_credential_id passkey \<or> pk_id r = np_id passkey)
                 (passkeys (store s))
       then (Fail Passkey_exists, s)
       else
         let row = passkey_of passkey now
         in (Ok (passkeyRecord row),
             s\<lparr>store := (store s)\<lparr>passkeys := passkeys (store s) @ [row]\<rparr>\<rparr>)))"

datatype counter_verdict = Accept | Regression

definition counterPolicy :: "int \<Rightarrow> int \<Rightarrow> counter_verdict" where
  "counterPolicy stored observed =
     (if stored = 0 \<and> observed = 0 then Accept
      else if observed > stored then Accept else Regression)"

definition credentialRow :: "string \<Rightarrow> user_tables \<Rightarrow> passkey_row option" where
  "credentialRow cid tb = select_one (\<lambda>r. pk_credential_id r = cid) (passkeys tb)"

text \<open>
  The second half of \<^verbatim>\<open>verifyAssertion\<close>, after the signature check was awaited: the
  counter policy against the row as it is now, and the update.
\<close>

definition assertion_commit ::
  "user_row \<Rightarrow> string \<Rightarrow> int \<Rightarrow> seconds \<Rightarrow> user_do \<Rightarrow>
   (user_profile \<times> passkey_record, assertion_failure) do_result \<times> user_do" where
  "assertion_commit user credential_id newCounter now =
     transactionSync (\<lambda>s.
       case credentialRow credential_id (store s) of
         None \<Rightarrow> (Fail (Assertion_error Passkey_verification_failed), s)
       | Some row \<Rightarrow>
           if counterPolicy (pk_counter row) newCounter = Regression then
             (Fail (Counter_regression
                \<lparr>reg_passkey_id = pk_id row, reg_stored = pk_counter row,
                 reg_observed = newCounter\<rparr>), s)
           else
             let upd = (\<lambda>r. r\<lparr>pk_counter := newCounter, pk_last_used_at := Some now\<rparr>);
                 tb = (store s)\<lparr>passkeys :=
                        update_where (\<lambda>r. pk_id r = pk_id row) upd (passkeys (store s))\<rparr>
             in (Ok (current_profile user tb, passkeyRecord (upd row)), s\<lparr>store := tb\<rparr>))"

text \<open>
  \<open>verify\<close> is \<^verbatim>\<open>verifyAssertionSignature\<close> for the response and the expectations of the
  call: the new counter when the signature by the stored public key is good.
\<close>

definition verifyAssertion ::
  "(string \<Rightarrow> bytes \<Rightarrow> int option) \<Rightarrow> string \<Rightarrow> seconds \<Rightarrow> user_do \<Rightarrow>
   (user_profile \<times> passkey_record, assertion_failure) do_result \<times> user_do" where
  "verifyAssertion verify credential_id now =
     guarded Assertion_error (\<lambda>user s.
       case credentialRow credential_id (store s) of
         None \<Rightarrow> (Fail (Assertion_error Passkey_verification_failed), s)
       | Some stored \<Rightarrow>
           (case verify (pk_credential_id stored) (pk_public_key stored) of
              None \<Rightarrow> (Fail (Assertion_error Passkey_verification_failed), s)
            | Some newCounter \<Rightarrow> assertion_commit user credential_id newCounter now s))"

definition ordered_passkeys :: "user_tables \<Rightarrow> passkey_row list" where
  "ordered_passkeys tb = sort_key (\<lambda>r. (pk_created_at r, pk_id r)) (passkeys tb)"

definition listPasskeys :: "user_do \<Rightarrow> (passkey_record list, user_do_error) do_result \<times> user_do" where
  "listPasskeys = guarded id (\<lambda>user s. (Ok (map passkeyRecord (ordered_passkeys (store s))), s))"

datatype login_method = Passkey_method | Identity_method

definition isLastLoginMethod :: "login_method \<Rightarrow> string \<Rightarrow> user_tables \<Rightarrow> bool" where
  "isLastLoginMethod kind mid tb =
     (let present = (case kind of
                       Passkey_method \<Rightarrow> count_where (\<lambda>r. pk_id r = mid) (passkeys tb)
                     | Identity_method \<Rightarrow> count_where (\<lambda>r. i_id r = mid) (identities tb))
      in if present \<noteq> 1 then False
         else int (length (passkeys tb)) + int (length (identities tb)) = 1)"

definition removePasskey ::
  "string \<Rightarrow> removal_actor \<Rightarrow> user_do \<Rightarrow> (bool, user_do_error) do_result \<times> user_do" where
  "removePasskey pid actor =
     guarded id (\<lambda>user s.
       if actor = Self \<and> isLastLoginMethod Passkey_method pid (store s)
       then (Fail Last_login_method, s)
       else (Ok (count_where (\<lambda>r. pk_id r = pid) (passkeys (store s)) > 0),
             s\<lparr>store := (store s)\<lparr>passkeys := delete_where (\<lambda>r. pk_id r = pid) (passkeys (store s))\<rparr>\<rparr>))"

definition renamePasskey ::
  "string \<Rightarrow> string option \<Rightarrow> user_do \<Rightarrow> (bool, user_do_error) do_result \<times> user_do" where
  "renamePasskey pid name =
     guarded id (\<lambda>user s.
       (Ok (count_where (\<lambda>r. pk_id r = pid) (passkeys (store s)) > 0),
        s\<lparr>store := (store s)\<lparr>passkeys :=
             update_where (\<lambda>r. pk_id r = pid) (\<lambda>r. r\<lparr>pk_name := name\<rparr>) (passkeys (store s))\<rparr>\<rparr>))"


section \<open>Identities\<close>

definition identityRecord :: "identity_row \<Rightarrow> identity_record" where
  "identityRecord row =
     \<lparr>ir_identity =
        \<lparr>ni_id = i_id row, ni_issuer = i_issuer row, ni_subject = i_subject row,
         ni_email = i_email row, ni_email_verified = i_email_verified row, ni_name = i_name row\<rparr>,
      ir_created_at = i_created_at row, ir_last_login_at = i_last_login_at row\<rparr>"

definition addIdentity ::
  "new_identity \<Rightarrow> seconds \<Rightarrow> user_do \<Rightarrow> (identity_record, user_do_error) do_result \<times> user_do" where
  "addIdentity identity now =
     guarded id (\<lambda>user. transactionSync (\<lambda>s.
       if list_ex (\<lambda>r. (i_issuer r = ni_issuer identity \<and> i_subject r = ni_subject identity)
                       \<or> i_id r = ni_id identity) (identities (store s))
       then (Fail Identity_exists, s)
       else
         (case insert_identity identity now (store s) of
            None \<Rightarrow> (Threw, s)
          | Some tb \<Rightarrow> (Ok (identityRecord (identity_of identity now)), s\<lparr>store := tb\<rparr>))))"

definition touchIdentity ::
  "string \<Rightarrow> string \<Rightarrow> identity_claims \<Rightarrow> seconds \<Rightarrow> user_do \<Rightarrow>
   (bool, user_do_error) do_result \<times> user_do" where
  "touchIdentity issuer subject claims now =
     guarded id (\<lambda>user s.
       let hit = (\<lambda>r. i_issuer r = issuer \<and> i_subject r = subject)
       in (Ok (count_where hit (identities (store s)) > 0),
           s\<lparr>store := (store s)\<lparr>identities :=
                update_where hit
                  (\<lambda>r. r\<lparr>i_email := ic_email claims,
                        i_email_verified := Some (ic_email_verified claims),
                        i_name := ic_name claims, i_last_login_at := Some now\<rparr>)
                  (identities (store s))\<rparr>\<rparr>))"

definition ordered_identities :: "user_tables \<Rightarrow> identity_row list" where
  "ordered_identities tb = sort_key (\<lambda>r. (i_created_at r, i_id r)) (identities tb)"

definition listIdentities :: "user_do \<Rightarrow> (identity_record list, user_do_error) do_result \<times> user_do" where
  "listIdentities =
     guarded id (\<lambda>user s. (Ok (map identityRecord (ordered_identities (store s))), s))"

definition removeIdentity ::
  "string \<Rightarrow> removal_actor \<Rightarrow> user_do \<Rightarrow> (bool, user_do_error) do_result \<times> user_do" where
  "removeIdentity iid actor =
     guarded id (\<lambda>user s.
       if actor = Self \<and> isLastLoginMethod Identity_method iid (store s)
       then (Fail Last_login_method, s)
       else (Ok (count_where (\<lambda>r. i_id r = iid) (identities (store s)) > 0),
             s\<lparr>store := (store s)\<lparr>identities :=
                  delete_where (\<lambda>r. i_id r = iid) (identities (store s))\<rparr>\<rparr>))"


section \<open>Counts and export\<close>

text \<open>\<open>databaseSize\<close> is the storage engine's figure.\<close>

definition counts ::
  "(user_tables \<Rightarrow> int) \<Rightarrow> seconds \<Rightarrow> user_do \<Rightarrow> (user_counts, user_do_error) do_result \<times> user_do" where
  "counts databaseSize now =
     guarded id (\<lambda>user s.
       let tb = store s
       in (Ok \<lparr>n_passkeys = int (length (passkeys tb)), n_identities = int (length (identities tb)),
               n_sessions = count_where (session_live now) (sessions tb),
               n_refresh_families = count_where (family_live now) (refresh_families tb),
               n_grants = int (length (grants tb)), n_storage_bytes = databaseSize tb\<rparr>, s))"

definition export_passkey :: "passkey_row \<Rightarrow> exported_passkey" where
  "export_passkey row =
     \<lparr>ep_id = pk_id row, ep_credential_id = pk_credential_id row, ep_alg = pk_alg row,
      ep_counter = pk_counter row, ep_transports = pk_transports row, ep_aaguid = pk_aaguid row,
      ep_backup_eligible = pk_backup_eligible row, ep_backed_up = pk_backed_up row,
      ep_name = pk_name row, ep_created_via = pk_created_via row,
      ep_created_at = pk_created_at row, ep_last_used_at = pk_last_used_at row\<rparr>"

definition export_session :: "user_tables \<Rightarrow> session_row \<Rightarrow> exported_session" where
  "export_session tb row =
     \<lparr>es_session = snapshot row tb,
      es_metadata = \<lparr>m_ip_hash = s_ip_hash row, m_ua_family = s_ua_family row,
                     m_country = s_country row\<rparr>,
      es_revoked_at = s_revoked_at row, es_revoke_reason = s_revoke_reason row\<rparr>"

definition export_family :: "family_row \<Rightarrow> exported_family" where
  "export_family row =
     \<lparr>ef_family = familySnapshot row, ef_revoked_at = f_revoked_at row,
      ef_revoke_reason = f_revoke_reason row\<rparr>"

definition exportState ::
  "seconds \<Rightarrow> user_do \<Rightarrow> (user_export, user_do_error) do_result \<times> user_do" where
  "exportState now =
     guarded id (\<lambda>user s.
       let tb = store s
       in (Ok \<lparr>ex_exported_at = now, ex_profile = profile user,
               ex_passkeys = map export_passkey (ordered_passkeys tb),
               ex_identities = map identityRecord (ordered_identities tb),
               ex_sessions = map (export_session tb)
                               (sort_key (\<lambda>r. (s_created_at r, s_sid r)) (sessions tb)),
               ex_refresh_families = map export_family
                               (sort_key (\<lambda>f. (f_created_at f, f_id f)) (refresh_families tb)),
               ex_grants = map grantRecord (ordered_grants tb)\<rparr>, s))"

end
