(* ===== verification/User_Invariant.thy ===== *)
theory User_Invariant
  imports User_Credentials
begin

text \<open>
  The well-formedness of a user's tables and that every statement sequence of
  \<^verbatim>\<open>src/do/UserDO.ts\<close> keeps it: keys are unique, references resolve, an idle expiry
  never passes the absolute one, a family is bound to a session exactly when it is of kind
  \<^verbatim>\<open>session\<close>, and no token carries a serial its family has not reached.
\<close>


section \<open>The invariant\<close>

definition sessions_wf :: "user_tables \<Rightarrow> bool" where
  "sessions_wf tb \<longleftrightarrow>
     distinct (map s_sid (sessions tb)) \<and>
     distinct (map s_secret_hash (sessions tb)) \<and>
     (\<forall>r \<in> set (sessions tb). s_idle_expires_at r \<le> s_absolute_expires_at r)"

definition session_clients_wf :: "user_tables \<Rightarrow> bool" where
  "session_clients_wf tb \<longleftrightarrow>
     distinct (map (\<lambda>c. (sc_sid c, sc_client_id c)) (session_clients tb)) \<and>
     (\<forall>c \<in> set (session_clients tb). sc_sid c \<in> s_sid ` set (sessions tb))"

definition families_wf :: "user_tables \<Rightarrow> bool" where
  "families_wf tb \<longleftrightarrow>
     distinct (map f_id (refresh_families tb)) \<and>
     (\<forall>f \<in> set (refresh_families tb).
        f_idle_expires_at f \<le> f_absolute_expires_at f \<and>
        (f_kind f = Session_family \<longleftrightarrow> f_sid f \<noteq> None))"

definition tokens_wf :: "user_tables \<Rightarrow> bool" where
  "tokens_wf tb \<longleftrightarrow>
     distinct (map (\<lambda>t. (t_family_id t, t_secret_hash t)) (refresh_tokens tb)) \<and>
     distinct (map (\<lambda>t. (t_family_id t, t_serial t)) (refresh_tokens tb)) \<and>
     (\<forall>t \<in> set (refresh_tokens tb). \<exists>f \<in> set (refresh_families tb).
        f_id f = t_family_id t \<and> t_serial t \<le> f_current_serial f)"

definition records_wf :: "user_tables \<Rightarrow> bool" where
  "records_wf tb \<longleftrightarrow>
     length (user_tbl tb) \<le> 1 \<and>
     distinct (map pk_id (passkeys tb)) \<and>
     distinct (map pk_credential_id (passkeys tb)) \<and>
     distinct (map i_id (identities tb)) \<and>
     distinct (map (\<lambda>i. (i_issuer i, i_subject i)) (identities tb)) \<and>
     distinct (map c_secret_hash (auth_codes tb)) \<and>
     distinct (map g_client_id (grants tb)) \<and>
     distinct (map ch_key (challenges tb))"

definition tables_wf :: "user_tables \<Rightarrow> bool" where
  "tables_wf tb \<longleftrightarrow>
     sessions_wf tb \<and> session_clients_wf tb \<and> families_wf tb \<and> tokens_wf tb \<and> records_wf tb"

definition user_wf :: "user_do \<Rightarrow> bool" where
  "user_wf s \<longleftrightarrow> tables_wf (store s)"

lemmas wf_defs =
  sessions_wf_def session_clients_wf_def families_wf_def tokens_wf_def records_wf_def

lemma tables_wfI [intro?]:
  "sessions_wf tb \<Longrightarrow> session_clients_wf tb \<Longrightarrow> families_wf tb \<Longrightarrow> tokens_wf tb \<Longrightarrow>
   records_wf tb \<Longrightarrow> tables_wf tb"
  by (simp add: tables_wf_def)

lemma user_wf_empty: "user_wf fresh_user_do"
  by (simp add: user_wf_def tables_wf_def wf_defs fresh_user_do_def empty_tables_def)

text \<open>Every table is a table with a primary key, by the contract \<open>keyed_table\<close>.\<close>

interpretation session_table: keyed_table tables_wf sessions s_sid
  by unfold_locales (simp add: tables_wf_def sessions_wf_def)

interpretation secret_table: keyed_table tables_wf sessions s_secret_hash
  by unfold_locales (simp add: tables_wf_def sessions_wf_def)

interpretation family_table: keyed_table tables_wf refresh_families f_id
  by unfold_locales (simp add: tables_wf_def families_wf_def)

interpretation token_table:
  keyed_table tables_wf refresh_tokens "\<lambda>t. (t_family_id t, t_secret_hash t)"
  by unfold_locales (simp add: tables_wf_def tokens_wf_def)

interpretation serial_table:
  keyed_table tables_wf refresh_tokens "\<lambda>t. (t_family_id t, t_serial t)"
  by unfold_locales (simp add: tables_wf_def tokens_wf_def)

interpretation code_table: keyed_table tables_wf auth_codes c_secret_hash
  by unfold_locales (simp add: tables_wf_def records_wf_def)

interpretation grant_table: keyed_table tables_wf grants g_client_id
  by unfold_locales (simp add: tables_wf_def records_wf_def)

interpretation passkey_table: keyed_table tables_wf passkeys pk_id
  by unfold_locales (simp add: tables_wf_def records_wf_def)

interpretation credential_table: keyed_table tables_wf passkeys pk_credential_id
  by unfold_locales (simp add: tables_wf_def records_wf_def)

interpretation identity_table: keyed_table tables_wf identities i_id
  by unfold_locales (simp add: tables_wf_def records_wf_def)

interpretation challenge_table: keyed_table tables_wf challenges ch_key
  by unfold_locales (simp add: tables_wf_def records_wf_def)

lemma wf_session_idle:
  "tables_wf tb \<Longrightarrow> r \<in> set (sessions tb) \<Longrightarrow> s_idle_expires_at r \<le> s_absolute_expires_at r"
  by (simp add: tables_wf_def sessions_wf_def)

lemma wf_family:
  "tables_wf tb \<Longrightarrow> f \<in> set (refresh_families tb) \<Longrightarrow>
   f_idle_expires_at f \<le> f_absolute_expires_at f \<and> (f_kind f = Session_family \<longleftrightarrow> f_sid f \<noteq> None)"
  by (simp add: tables_wf_def families_wf_def)

lemma wf_token:
  "tables_wf tb \<Longrightarrow> t \<in> set (refresh_tokens tb) \<Longrightarrow>
   \<exists>f \<in> set (refresh_families tb). f_id f = t_family_id t \<and> t_serial t \<le> f_current_serial f"
  by (simp add: tables_wf_def tokens_wf_def)


section \<open>Method scaffolding\<close>

lemma store_migrate_wf [simp]: "tables_wf (store (migrate s)) = tables_wf (store s)"
  by (simp add: migrate_def tables_wf_def wf_defs)

lemma wf_migrate [simp]: "user_wf (migrate s) = user_wf s"
  by (simp add: user_wf_def)

lemma wf_guarded:
  assumes "user_wf s" and "\<And>user s'. user_wf s' \<Longrightarrow> user_wf (snd (body user s'))"
  shows "user_wf (snd (guarded err body s))"
  using assms by (auto simp: guarded_def guard_def Let_def split: option.splits sum.splits)

lemma wf_transaction:
  assumes "user_wf s" and "user_wf (snd (body s))"
  shows "user_wf (snd (transactionSync body s))"
  using assms
  by (auto simp: transactionSync_def user_wf_def split: do_result.splits prod.splits)

lemma wf_guarded_transaction:
  assumes "user_wf s" and "\<And>user s'. user_wf s' \<Longrightarrow> user_wf (snd (body user s'))"
  shows "user_wf (snd (guarded err (\<lambda>user. transactionSync (body user)) s))"
  using assms by (auto intro!: wf_guarded wf_transaction)


lemma fst_transaction [simp]: "fst (transactionSync body s) = fst (body s)"
  by (auto simp: transactionSync_def split: prod.splits do_result.splits)

lemma snd_transaction_Ok:
  "fst (body s) = Ok r \<Longrightarrow> snd (transactionSync body s) = snd (body s)"
  by (cases "body s") (simp add: transactionSync_def)

lemma snd_transaction_Fail:
  "fst (body s) = Fail e \<Longrightarrow> snd (transactionSync body s) = snd (body s)"
  by (cases "body s") (simp add: transactionSync_def)

lemma guarded_OkE:
  assumes "guarded err body s = (Ok r, s')"
  obtains user where "readUser (store s) = Some user" and "\<not> destroyed s" and "body user (migrate s) = (Ok r, s')"
proof -
  have "readUser (store (migrate s)) = readUser (store s)"
    by (simp add: readUser_def migrate_def)
  then show ?thesis
    using assms that
    by (auto simp: guarded_def guard_def Let_def split: if_splits option.splits)
qed

lemma migrate_fields [simp]:
  "sessions (store (migrate s)) = sessions (store s)"
  "auth_codes (store (migrate s)) = auth_codes (store s)"
  "refresh_families (store (migrate s)) = refresh_families (store s)"
  "refresh_tokens (store (migrate s)) = refresh_tokens (store s)"
  "grants (store (migrate s)) = grants (store s)"
  "challenges (store (migrate s)) = challenges (store s)"
  "user_tbl (store (migrate s)) = user_tbl (store s)"
  "passkeys (store (migrate s)) = passkeys (store s)"
  "identities (store (migrate s)) = identities (store s)"
  "meta_passkey_attempts (store (migrate s)) = meta_passkey_attempts (store s)"
  by (simp_all add: migrate_def)


section \<open>Statement sequences on the tables\<close>

lemma wf_update_user [simp]: "tables_wf (update_user uid f tb) = tables_wf tb"
  by (simp add: update_user_def tables_wf_def wf_defs update_where_def)

lemma sessions_replace_wf:
  assumes "tables_wf tb" and "map s_sid rows = map s_sid (sessions tb)"
    and "distinct (map s_secret_hash rows)"
    and "\<forall>r \<in> set rows. s_idle_expires_at r \<le> s_absolute_expires_at r"
  shows "tables_wf (tb\<lparr>sessions := rows\<rparr>)"
proof -
  have "s_sid ` set rows = s_sid ` set (sessions tb)"
    using assms(2) by (metis set_map)
  with assms show ?thesis by (auto simp: tables_wf_def wf_defs)
qed

lemma sessions_update_wf:
  assumes "tables_wf tb"
    and "\<And>r. s_sid (f r) = s_sid r" and "\<And>r. s_secret_hash (f r) = s_secret_hash r"
    and "\<And>r. r \<in> set (sessions tb) \<Longrightarrow> P r \<Longrightarrow> s_idle_expires_at (f r) \<le> s_absolute_expires_at (f r)"
  shows "tables_wf (tb\<lparr>sessions := update_where P f (sessions tb)\<rparr>)"
  using assms
  by (intro sessions_replace_wf)
     (auto simp: set_update_where tables_wf_def sessions_wf_def)

lemma families_update_wf:
  assumes "tables_wf tb"
    and "\<And>f. f_id (g f) = f_id f"
    and "\<And>f. f \<in> set (refresh_families tb) \<Longrightarrow> P f \<Longrightarrow>
           f_idle_expires_at (g f) \<le> f_absolute_expires_at (g f) \<and>
           (f_kind (g f) = Session_family \<longleftrightarrow> f_sid (g f) \<noteq> None) \<and>
           f_current_serial f \<le> f_current_serial (g f)"
  shows "tables_wf (tb\<lparr>refresh_families := update_where P g (refresh_families tb)\<rparr>)"
proof -
  have "tokens_wf (tb\<lparr>refresh_families := update_where P g (refresh_families tb)\<rparr>)"
    unfolding tokens_wf_def
  proof (intro conjI ballI)
    fix t assume "t \<in> set (refresh_tokens (tb\<lparr>refresh_families := update_where P g (refresh_families tb)\<rparr>))"
    then obtain f where "f \<in> set (refresh_families tb)" "f_id f = t_family_id t"
      "t_serial t \<le> f_current_serial f"
      using assms(1) by (auto simp: tables_wf_def tokens_wf_def)
    then show "\<exists>f \<in> set (refresh_families (tb\<lparr>refresh_families := update_where P g (refresh_families tb)\<rparr>)).
        f_id f = t_family_id t \<and> t_serial t \<le> f_current_serial f"
      using assms(2,3) [of f]
      by (intro bexI [of _ "if P f then g f else f"]) (auto simp: set_update_where)
  qed (use assms(1) in \<open>auto simp: tables_wf_def tokens_wf_def\<close>)
  with assms show ?thesis
    by (auto simp: tables_wf_def wf_defs set_update_where)
qed

lemma revoke_families_wf: "tables_wf tb \<Longrightarrow> tables_wf (revoke_families P now reason tb)"
  unfolding revoke_families_def
  by (rule families_update_wf) (auto simp: revoke_family_row_def dest: wf_family)

lemma touchSession_wf:
  assumes "tables_wf tb" and "r \<in> set (sessions tb)" and "s_sid r = s_sid row"
    and "s_absolute_expires_at r = s_absolute_expires_at row"
  shows "tables_wf (touchSession row now idleTtl tb)"
proof -
  have "s_absolute_expires_at r' = s_absolute_expires_at row"
    if "r' \<in> set (sessions tb)" "s_sid r' = s_sid row" for r'
    using session_table.row_unique [OF assms(1) that(1) assms(2)] assms(3,4) that(2) by simp
  with assms(1) show ?thesis
    unfolding touchSession_def Let_def
    by (cases "now - s_last_seen_at row < SESSION_TOUCH_INTERVAL_SECONDS")
       (simp_all add: sessions_update_wf)
qed

lemma revokeSessionRows_wf: "tables_wf tb \<Longrightarrow> tables_wf (snd (revokeSessionRows sid now reason tb))"
  unfolding revokeSessionRows_def Let_def
  by (simp, intro revoke_families_wf sessions_update_wf)
     (auto simp: revoke_session_row_def dest: wf_session_idle)

lemma revoke_each_wf: "tables_wf tb \<Longrightarrow> tables_wf (snd (revoke_each sids now reason tb))"
proof (induction sids arbitrary: tb)
  case Nil
  then show ?case by simp
next
  case (Cons sid sids)
  then have "tables_wf (snd (revoke_each sids now reason (snd (revokeSessionRows sid now reason tb))))"
    by (intro Cons.IH revokeSessionRows_wf)
  then show ?case by (simp add: Let_def split_beta)
qed

text \<open>What the purge leaves of each table.\<close>

lemma purge_fields [simp]:
  "sessions (purge_tables now w tb) =
     delete_where (session_purgeable (now - PURGE_GRACE_SECONDS)) (sessions tb)"
  "refresh_families (purge_tables now w tb) =
     delete_where (family_purgeable (now - PURGE_GRACE_SECONDS)) (refresh_families tb)"
  "auth_codes (purge_tables now w tb) = delete_where (\<lambda>c. c_expires_at c < now) (auth_codes tb)"
  "challenges (purge_tables now w tb) = delete_where (\<lambda>c. ch_expires_at c < now) (challenges tb)"
  "user_tbl (purge_tables now w tb) = user_tbl tb"
  "passkeys (purge_tables now w tb) = passkeys tb"
  "identities (purge_tables now w tb) = identities tb"
  "grants (purge_tables now w tb) = grants tb"
  "meta_passkey_attempts (purge_tables now w tb) = meta_passkey_attempts tb"
  by (simp_all add: purge_tables_def delete_sessions_def delete_families_def Let_def)

lemma delete_families_wf: "tables_wf tb \<Longrightarrow> tables_wf (delete_families P tb)"
proof (rule tables_wfI)
  assume wf: "tables_wf tb"
  show "tokens_wf (delete_families P tb)"
    unfolding tokens_wf_def
  proof (intro conjI ballI)
    fix t assume t: "t \<in> set (refresh_tokens (delete_families P tb))"
    then obtain f where "f \<in> set (refresh_families tb)" "f_id f = t_family_id t"
      "t_serial t \<le> f_current_serial f"
      using wf_token [OF wf, of t] by (auto simp: delete_families_def)
    with t show "\<exists>f \<in> set (refresh_families (delete_families P tb)).
        f_id f = t_family_id t \<and> t_serial t \<le> f_current_serial f"
      by (intro bexI [of _ f]) (auto simp: delete_families_def list_ex_iff)
  qed (use wf in \<open>auto simp: tables_wf_def tokens_wf_def delete_families_def\<close>)
qed (auto simp: tables_wf_def wf_defs delete_families_def)

lemma delete_sessions_wf: "tables_wf tb \<Longrightarrow> tables_wf (delete_sessions P tb)"
proof (rule tables_wfI)
  assume wf: "tables_wf tb"
  then show "session_clients_wf (delete_sessions P tb)"
    by (auto simp: tables_wf_def session_clients_wf_def delete_sessions_def list_ex_iff image_iff)
      metis
qed (auto simp: tables_wf_def wf_defs delete_sessions_def)

lemma delete_tokens_wf: "tables_wf tb \<Longrightarrow> tables_wf (tb\<lparr>refresh_tokens := delete_where P (refresh_tokens tb)\<rparr>)"
  by (auto simp: tables_wf_def wf_defs)

lemma delete_codes_wf: "tables_wf tb \<Longrightarrow> tables_wf (tb\<lparr>auth_codes := delete_where P (auth_codes tb)\<rparr>)"
  by (auto simp: tables_wf_def wf_defs)

lemma delete_challenges_wf: "tables_wf tb \<Longrightarrow> tables_wf (tb\<lparr>challenges := delete_where P (challenges tb)\<rparr>)"
  by (auto simp: tables_wf_def wf_defs)

lemma delete_grants_wf: "tables_wf tb \<Longrightarrow> tables_wf (tb\<lparr>grants := delete_where P (grants tb)\<rparr>)"
  by (auto simp: tables_wf_def wf_defs)

lemma purge_tables_wf: "tables_wf tb \<Longrightarrow> tables_wf (purge_tables now w tb)"
  unfolding purge_tables_def Let_def
  by (intro delete_challenges_wf delete_sessions_wf delete_families_wf delete_tokens_wf delete_codes_wf)

lemma purgeIfDue_wf: "user_wf s \<Longrightarrow> user_wf (purgeIfDue now w s)"
  by (simp add: purgeIfDue_def user_wf_def purge_tables_wf)

lemma insertSession_wf:
  assumes "tables_wf tb" and "insertSession new now tb = Some tb'"
  shows "tables_wf tb'"
proof -
  obtain rows where rows: "insert_row
      (\<lambda>r. s_sid r = ns_sid new \<or> s_secret_hash r = ns_secret_hash new) (session_of new now)
      (sessions tb) = Some rows" and tb': "tb' = tb\<lparr>sessions := rows\<rparr>"
    using assms(2) by (auto simp: insertSession_def split: option.splits)
  have "distinct (map s_sid rows)"
    by (rule insert_row_distinct [OF rows session_table.unique [OF assms(1)]])
       (simp add: session_of_def)
  moreover have "distinct (map s_secret_hash rows)"
    by (rule insert_row_distinct [OF rows secret_table.unique [OF assms(1)]])
       (simp add: session_of_def)
  moreover have "rows = sessions tb @ [session_of new now]"
    using rows by (simp add: insert_row_Some)
  ultimately show ?thesis
    using assms(1) tb' by (auto simp: tables_wf_def wf_defs session_of_def)
qed

lemma record_client_wf:
  assumes "tables_wf tb" and "record_client sid cid now tb = Some tb'"
  shows "tables_wf tb'"
proof (cases "list_ex (\<lambda>r. sc_sid r = sid \<and> sc_client_id r = cid) (session_clients tb)")
  case True
  with assms show ?thesis by (simp add: record_client_def)
next
  case False
  then have "(sid, cid) \<notin> (\<lambda>c. (sc_sid c, sc_client_id c)) ` set (session_clients tb)"
    by (auto simp: list_ex_iff)
  moreover have "sid \<in> s_sid ` set (sessions tb)"
    using assms(2) False by (auto simp: record_client_def list_ex_iff split: if_splits)
  ultimately show ?thesis
    using assms False by (auto simp: record_client_def tables_wf_def wf_defs split: if_splits)
qed

lemma record_client_sessions:
  "record_client sid cid now tb = Some tb' \<Longrightarrow> sessions tb' = sessions tb"
  by (auto simp: record_client_def split: if_splits)

lemma insert_code_wf:
  "tables_wf tb \<Longrightarrow> insert_row (\<lambda>c. c_secret_hash c = c_secret_hash row) row (auth_codes tb) = Some rows \<Longrightarrow>
   tables_wf (tb\<lparr>auth_codes := rows\<rparr>)"
  using insert_row_distinct [of "\<lambda>c. c_secret_hash c = c_secret_hash row" row "auth_codes tb" rows c_secret_hash]
  by (simp add: tables_wf_def wf_defs)

lemma issueCodeRows_wf:
  assumes "tables_wf tb" and "session \<in> set (sessions tb)"
    and "issueCodeRows code session now idleTtl tb = Some tb'"
  shows "tables_wf tb'"
proof -
  obtain rows tb1 where rows: "insert_row (\<lambda>c. c_secret_hash c = ci_secret_hash code)
      (code_of code session now) (auth_codes tb) = Some rows"
    and tb1: "record_client (s_sid session) (ci_client_id code) now (tb\<lparr>auth_codes := rows\<rparr>) = Some tb1"
    and tb': "tb' = touchSession session now idleTtl tb1"
    using assms(3) by (auto simp: issueCodeRows_def split: option.splits)
  have "tables_wf (tb\<lparr>auth_codes := rows\<rparr>)"
    using insert_code_wf [OF assms(1), of "code_of code session now"] rows
    by (simp add: code_of_def)
  then have "tables_wf tb1" by (rule record_client_wf) (rule tb1)
  then show ?thesis
    unfolding tb' using assms(2)
    by (intro touchSession_wf [of _ session]) (simp_all add: record_client_sessions [OF tb1])
qed

lemma settle_session_wf:
  assumes "tables_wf tb" and "settle_session input tb = Ok (sid, tb')"
  shows "tables_wf tb'"
proof (cases "fi_session input")
  case (Create_session new)
  with assms show ?thesis
    by (auto simp: settle_session_def intro: insertSession_wf split: option.splits)
next
  case (Rotate_session sid0 hash auth)
  with assms(2) obtain existing where ex: "sessionRow sid tb = Some existing" and sid: "sid0 = sid"
    and fresh: "\<not> list_ex (\<lambda>r. s_sid r \<noteq> sid \<and> s_secret_hash r = hash) (sessions tb)"
    and tb': "tb' = tb\<lparr>sessions := update_where (\<lambda>r. s_sid r = sid)
        (rotate_session_row hash auth (fi_now input)
           (min (fi_now input + fi_session_idle_ttl input) (s_absolute_expires_at existing)))
        (sessions tb)\<rparr>"
    by (auto simp: settle_session_def Let_def split: option.splits if_splits)
  let ?rows = "update_where (\<lambda>r. s_sid r = sid)
        (rotate_session_row hash auth (fi_now input)
           (min (fi_now input + fi_session_idle_ttl input) (s_absolute_expires_at existing)))
        (sessions tb)"
  have e: "existing \<in> set (sessions tb)" "s_sid existing = sid"
    using ex by (auto simp: sessionRow_def dest: select_one_SomeD)
  have uniq: "s_absolute_expires_at r = s_absolute_expires_at existing"
    if "r \<in> set (sessions tb)" "s_sid r = sid" for r
    using session_table.row_unique [OF assms(1) that(1) e(1)] that(2) e(2) by simp
  have sids: "map s_sid ?rows = map s_sid (sessions tb)"
    by (simp add: rotate_session_row_def)
  have "distinct (map s_secret_hash ?rows)"
    using assms(1) fresh
    by (intro distinct_update_fresh [where v = hash])
       (auto simp: tables_wf_def sessions_wf_def rotate_session_row_def list_ex_iff)
  moreover have "\<forall>r \<in> set ?rows. s_idle_expires_at r \<le> s_absolute_expires_at r"
  proof
    fix r assume "r \<in> set ?rows"
    then obtain r0 where r0: "r0 \<in> set (sessions tb)" and r: "r = (if s_sid r0 = sid then
        rotate_session_row hash auth (fi_now input)
          (min (fi_now input + fi_session_idle_ttl input) (s_absolute_expires_at existing)) r0 else r0)"
      by (auto simp: set_update_where)
    show "s_idle_expires_at r \<le> s_absolute_expires_at r"
      using wf_session_idle [OF assms(1) r0] uniq [OF r0] r
      by (cases "s_sid r0 = sid") (simp_all add: rotate_session_row_def)
  qed
  ultimately show ?thesis
    unfolding tb' by (intro sessions_replace_wf assms(1) sids)
qed

lemma consume_code_wf: "tables_wf tb \<Longrightarrow> tables_wf (consume_code h now tb)"
  by (simp add: consume_code_def tables_wf_def wf_defs)

lemma insert_token_wf:
  assumes "tables_wf tb" and "insert_token t tb = Some tb'"
    and "\<And>f. f \<in> set (refresh_families tb) \<Longrightarrow> f_id f = t_family_id t \<Longrightarrow> t_serial t \<le> f_current_serial f"
    and "\<And>x. x \<in> set (refresh_tokens tb) \<Longrightarrow> t_family_id x = t_family_id t \<Longrightarrow> t_serial x \<noteq> t_serial t"
  shows "tables_wf tb'"
proof -
  obtain rows f where rows: "insert_row
      (\<lambda>x. t_family_id x = t_family_id t \<and> t_secret_hash x = t_secret_hash t) t
      (refresh_tokens tb) = Some rows" and tb': "tb' = tb\<lparr>refresh_tokens := rows\<rparr>"
    and f: "f \<in> set (refresh_families tb)" "f_id f = t_family_id t"
    using assms(2) by (auto simp: insert_token_def list_ex_iff split: option.splits if_splits)
  have "distinct (map (\<lambda>t. (t_family_id t, t_secret_hash t)) rows)"
    by (rule insert_row_distinct [OF rows token_table.unique [OF assms(1)]]) auto
  moreover have "rows = refresh_tokens tb @ [t]"
    using rows by (simp add: insert_row_Some)
  moreover from this have "distinct (map (\<lambda>t. (t_family_id t, t_serial t)) rows)"
    using serial_table.unique [OF assms(1)] assms(4) by (simp add: image_iff) metis
  ultimately show ?thesis
    using assms(1) f assms(3) [OF f] tb' by (auto simp: tables_wf_def wf_defs)
qed

lemma limit_families_wf: "tables_wf tb \<Longrightarrow> tables_wf (limit_families cid now tb)"
  unfolding limit_families_def Let_def
  by (rule families_update_wf) (auto simp: revoke_family_row_def dest: wf_family)

lemma family_of_simps [simp]:
  "f_id (family_of input r code session) = ri_family_id r"
  "f_client_id (family_of input r code session) = cr_client_id (xi_client input)"
  "f_client_created_at (family_of input r code session) = cr_created_at (xi_client input)"
  "f_code_secret_hash (family_of input r code session) = Some (xi_secret_hash input)"
  "f_scope (family_of input r code session) = c_scope code"
  "f_current_serial (family_of input r code session) = 1"
  "f_revoked_at (family_of input r code session) = None"
  "f_created_at (family_of input r code session) = xi_now input"
  by (simp_all add: family_of_def Let_def)

lemma family_of_wf:
  "f_idle_expires_at (family_of input r code session) \<le> f_absolute_expires_at (family_of input r code session)"
  "f_kind (family_of input r code session) = Session_family \<longleftrightarrow> f_sid (family_of input r code session) \<noteq> None"
  by (simp_all add: family_of_def Let_def)

lemma open_family_wf:
  assumes "tables_wf tb" and "open_family input r code session tb = Some tb'"
  shows "tables_wf tb'"
proof -
  let ?fam = "family_of input r code session"
  let ?tok = "\<lparr>t_family_id = ri_family_id r, t_secret_hash = ri_secret_hash r, t_serial = 1,
               t_created_at = xi_now input\<rparr>"
  obtain rows tb1 where rows: "insert_row (\<lambda>f. f_id f = f_id ?fam) ?fam (refresh_families tb) = Some rows"
    and tb1: "insert_token ?tok (tb\<lparr>refresh_families := rows\<rparr>) = Some tb1"
    and tb': "tb' = limit_families (cr_client_id (xi_client input)) (xi_now input) tb1"
    using assms(2) by (auto simp: open_family_def Let_def split: option.splits)
  have app: "rows = refresh_families tb @ [?fam]"
    and new: "\<forall>f \<in> set (refresh_families tb). f_id f \<noteq> ri_family_id r"
    using rows by (auto simp: insert_row_Some)
  have "distinct (map f_id rows)"
    by (rule insert_row_distinct [OF rows family_table.unique [OF assms(1)]]) simp
  then have wf1: "tables_wf (tb\<lparr>refresh_families := rows\<rparr>)"
    using assms(1) app family_of_wf by (auto simp: tables_wf_def wf_defs)
  have "t_family_id x \<noteq> ri_family_id r" if "x \<in> set (refresh_tokens tb)" for x
    using wf_token [OF assms(1) that] new by auto
  then have "tables_wf tb1"
    using new by (intro insert_token_wf [OF wf1 tb1]) (auto simp: app)
  then show ?thesis unfolding tb' by (rule limit_families_wf)
qed

lemma insert_token_fields:
  "insert_token t tb = Some tb' \<Longrightarrow> sessions tb' = sessions tb \<and> refresh_families tb' = refresh_families tb"
  by (auto simp: insert_token_def split: option.splits if_splits)

text \<open>Inserting the token and raising the family's serial commute.\<close>

lemma insert_token_families:
  assumes "insert_token t tb = Some tb1" and "\<And>f. f_id (g f) = f_id f"
  shows "insert_token t (tb\<lparr>refresh_families := update_where P g (refresh_families tb)\<rparr>) =
         Some (tb1\<lparr>refresh_families := update_where P g (refresh_families tb1)\<rparr>)"
proof -
  have ids: "list_ex (\<lambda>f. f_id f = t_family_id t) rows \<longleftrightarrow> t_family_id t \<in> set (map f_id rows)" for rows
    by (force simp: list_ex_iff)
  have "list_ex (\<lambda>f. f_id f = t_family_id t) (update_where P g (refresh_families tb)) =
        list_ex (\<lambda>f. f_id f = t_family_id t) (refresh_families tb)"
    unfolding ids using assms(2) by (simp only: map_update_where)
  then show ?thesis
    using assms(1) by (auto simp: insert_token_def split: option.splits if_splits)
qed

lemma advance_family_wf:
  assumes wf: "tables_wf tb" and fam: "family \<in> set (refresh_families tb)"
    and ses: "\<And>row. session = Some row \<Longrightarrow> row \<in> set (sessions tb)"
    and adv: "advance_family input family session tb = Some tb'"
  shows "tables_wf tb'"
proof -
  let ?serial = "f_current_serial family + 1"
  let ?tok = "\<lparr>t_family_id = f_id family, t_secret_hash = rt_new_secret_hash input,
               t_serial = ?serial, t_created_at = rt_now input\<rparr>"
  let ?g = "\<lambda>f. f\<lparr>f_current_serial := ?serial,
      f_idle_expires_at := min (rt_now input + rt_idle_ttl input) (f_absolute_expires_at family)\<rparr>"
  let ?P = "\<lambda>f. f_id f = f_id family"
  let ?up = "\<lambda>tb. tb\<lparr>refresh_families := update_where ?P ?g (refresh_families tb)\<rparr>"
  obtain tb1 where tb1: "insert_token ?tok tb = Some tb1"
    and tb': "tb' = (case session of None \<Rightarrow> ?up tb1
                     | Some row \<Rightarrow> touchSession row (rt_now input) (rt_session_idle_ttl input) (?up tb1))"
    using adv by (auto simp: advance_family_def Let_def split: option.splits)
  have same: "f = family" if "f \<in> set (refresh_families tb)" "f_id f = f_id family" for f
    by (rule family_table.row_unique [OF wf that(1) fam that(2)])
  have wf1: "tables_wf (?up tb)"
  proof (rule families_update_wf [OF wf])
    fix f assume f: "f \<in> set (refresh_families tb)" "f_id f = f_id family"
    show "f_idle_expires_at (?g f) \<le> f_absolute_expires_at (?g f) \<and>
          (f_kind (?g f) = Session_family \<longleftrightarrow> f_sid (?g f) \<noteq> None) \<and>
          f_current_serial f \<le> f_current_serial (?g f)"
      using wf_family [OF wf fam] unfolding same [OF f] by simp
  qed simp
  have "insert_token ?tok (?up tb) = Some (?up tb1)"
    by (rule insert_token_families [OF tb1]) simp
  then have "tables_wf (?up tb1)"
  proof (rule insert_token_wf [OF wf1])
    fix f assume "f \<in> set (refresh_families (?up tb))" "f_id f = t_family_id ?tok"
    then show "t_serial ?tok \<le> f_current_serial f" by (auto simp: set_update_where)
  next
    fix x assume x: "x \<in> set (refresh_tokens (?up tb))" "t_family_id x = t_family_id ?tok"
    then obtain f where f: "f \<in> set (refresh_families tb)" "f_id f = f_id family"
      "t_serial x \<le> f_current_serial f"
      using wf_token [OF wf, of x] by auto
    show "t_serial x \<noteq> t_serial ?tok" using f(3) unfolding same [OF f(1,2)] by simp
  qed
  moreover have "sessions (?up tb1) = sessions tb"
    using insert_token_fields [OF tb1] by simp
  ultimately show ?thesis
    unfolding tb' using ses by (auto intro: touchSession_wf split: option.splits)
qed

lemma grantFor_wf: "tables_wf tb \<Longrightarrow> tables_wf (snd (grantFor client tb))"
  by (auto simp: grantFor_def delete_grants_wf split: option.splits)

lemma upsert_grant_wf:
  assumes "tables_wf tb"
  shows "tables_wf (upsert_grant row tb)"
proof (cases "list_ex (\<lambda>g. g_client_id g = g_client_id row) (grants tb)")
  case True
  with assms show ?thesis by (simp add: upsert_grant_def tables_wf_def wf_defs)
next
  case False
  then have "g_client_id row \<notin> g_client_id ` set (grants tb)" by (auto simp: list_ex_iff)
  with assms False show ?thesis by (simp add: upsert_grant_def tables_wf_def wf_defs)
qed

lemma list_grant_rows_wf: "tables_wf tb \<Longrightarrow> tables_wf (snd (list_grant_rows clients rows tb))"
  by (induction clients rows tb rule: list_grant_rows.induct)
     (auto simp: Let_def split_beta delete_grants_wf split: option.splits)

lemma insert_identity_wf:
  assumes "tables_wf tb" and "insert_identity identity now tb = Some tb'"
  shows "tables_wf tb'"
proof -
  obtain rows where rows: "insert_row
      (\<lambda>r. i_id r = ni_id identity \<or> (i_issuer r = ni_issuer identity \<and> i_subject r = ni_subject identity))
      (identity_of identity now) (identities tb) = Some rows" and tb': "tb' = tb\<lparr>identities := rows\<rparr>"
    using assms(2) by (auto simp: insert_identity_def split: option.splits)
  have "distinct (map i_id rows)"
    using assms(1) by (intro insert_row_distinct [OF rows])
      (auto simp: identity_of_def tables_wf_def records_wf_def)
  moreover have "distinct (map (\<lambda>i. (i_issuer i, i_subject i)) rows)"
    using assms(1) by (intro insert_row_distinct [OF rows])
      (auto simp: identity_of_def tables_wf_def records_wf_def)
  ultimately show ?thesis
    using assms(1) tb' by (simp add: tables_wf_def wf_defs)
qed

lemma insert_identities_wf:
  "tables_wf tb \<Longrightarrow> tables_wf (snd (insert_identities ids now tb))"
  by (induction ids arbitrary: tb) (auto intro: insert_identity_wf split: option.splits)

end
