(* ===== verification/User_Object.thy ===== *)
theory User_Object
  imports User_Invariant Machines
begin

text \<open>
  The object as a machine: every state-changing method of \<^verbatim>\<open>src/do/UserDO.ts\<close> as one
  operation, with the two methods that await in the middle (\<^verbatim>\<open>exchangeCode\<close>,
  \<^verbatim>\<open>verifyAssertion\<close>) as the step before the await, which only runs the guard, and the
  transaction after it, so that any other operation may run in between. \<open>Guard\<close> also stands for
  every method that only reads. Shown here: every operation keeps the invariant.
\<close>

datatype user_op =
    Init init_profile seconds "new_identity list"
  | Destroy
  | Evict
  | Guard
  | Set_groups "string list" seconds
  | Set_disabled "seconds option" seconds
  | Update_profile profile_patch seconds
  | Touch seconds seconds
  | Authorize authorize_input
  | Finalize finalize_input
  | Revoke_session string seconds string
  | Revoke_sessions "string option" seconds string
  | Revoke_all seconds string
  | Count_attempt seconds
  | Put_challenge string string seconds
  | Take_challenge string seconds
  | Exchange exchange_input user_row "string option"
  | Rotate rotate_input
  | Revoke_family string seconds string "string option"
  | Revoke_session_families string string seconds
  | Revoke_client_families string seconds string
  | Grant_consent client_ref "string list" seconds
  | List_grants "client_ref list"
  | Revoke_grant string seconds
  | Add_passkey new_passkey seconds int
  | Assertion user_row string int seconds
  | Remove_passkey string removal_actor
  | Rename_passkey string "string option"
  | Add_identity new_identity seconds
  | Touch_identity string string identity_claims seconds
  | Remove_identity string removal_actor

primrec user_step :: "user_op \<Rightarrow> user_do \<Rightarrow> user_do" where
  "user_step (Init prof now ids) s = snd (init prof now ids s)"
| "user_step Destroy s = destroy s"
| "user_step Evict s = evict s"
| "user_step Guard s = snd (guard s)"
| "user_step (Set_groups groups now) s = snd (setGroups groups now s)"
| "user_step (Set_disabled at now) s = snd (setDisabled at now s)"
| "user_step (Update_profile patch now) s = snd (updateProfile patch now s)"
| "user_step (Touch now w) s = snd (touch now w s)"
| "user_step (Authorize input) s = snd (authorizeWithSession input s)"
| "user_step (Finalize input) s = snd (finalizeLogin input s)"
| "user_step (Revoke_session sid now reason) s = snd (revokeSession sid now reason s)"
| "user_step (Revoke_sessions except now reason) s = snd (revokeSessions except now reason s)"
| "user_step (Revoke_all now reason) s = snd (revokeAll now reason s)"
| "user_step (Count_attempt now) s = snd (countPasskeyAttempt now s)"
| "user_step (Put_challenge key value at) s = snd (putChallenge key value at s)"
| "user_step (Take_challenge key now) s = snd (takeChallenge key now s)"
| "user_step (Exchange input user expected) s = snd (exchange_commit input user expected s)"
| "user_step (Rotate input) s = snd (rotateRefreshToken input s)"
| "user_step (Revoke_family fid now reason cid) s = snd (revokeFamilyById fid now reason cid s)"
| "user_step (Revoke_session_families sid cid now) s = snd (revokeSessionFamiliesOfClient sid cid now s)"
| "user_step (Revoke_client_families cid now reason) s = snd (revokeFamiliesOfClient cid now reason s)"
| "user_step (Grant_consent client scopes now) s = snd (grantConsent client scopes now s)"
| "user_step (List_grants clients) s = snd (listGrants clients s)"
| "user_step (Revoke_grant cid now) s = snd (revokeGrant cid now s)"
| "user_step (Add_passkey p now n) s = snd (addPasskey p now n s)"
| "user_step (Assertion user cid counter now) s = snd (assertion_commit user cid counter now s)"
| "user_step (Remove_passkey pid actor) s = snd (removePasskey pid actor s)"
| "user_step (Rename_passkey pid name) s = snd (renamePasskey pid name s)"
| "user_step (Add_identity i now) s = snd (addIdentity i now s)"
| "user_step (Touch_identity iss sub claims now) s = snd (touchIdentity iss sub claims now s)"
| "user_step (Remove_identity iid actor) s = snd (removeIdentity iid actor s)"

text \<open>A method with an await in the middle is its two steps with nothing between.\<close>

lemma exchangeCode_steps:
  "snd (exchangeCode sha256 input s) =
     (case fst (guard s) of
        Inl e \<Rightarrow> user_step Guard s
      | Inr user \<Rightarrow>
          user_step (Exchange input user (exchange_challenge sha256 input)) (user_step Guard s))"
  by (simp add: exchangeCode_def guarded_def split: sum.splits prod.splits)


section \<open>Every method keeps the invariant\<close>

lemma user_wf_store [simp]: "user_wf (s\<lparr>store := tb\<rparr>) \<longleftrightarrow> tables_wf tb"
  by (simp add: user_wf_def)

lemma user_wf_storeD: "user_wf s \<Longrightarrow> tables_wf (store s)"
  by (simp add: user_wf_def)

lemma init_wf: "user_wf s \<Longrightarrow> user_wf (snd (init prof now ids s))"
proof -
  assume wf: "user_wf s"
  have "user_wf (snd (transactionSync (insertUser prof now ids) (migrate s)))"
    if "readUser (store (migrate s)) = None"
  proof (rule wf_transaction)
    show "user_wf (snd (insertUser prof now ids (migrate s)))"
    proof -
      have "user_tbl (store (migrate s)) = []"
        using that by (simp add: readUser_def split: list.splits)
      then have "tables_wf ((store (migrate s))\<lparr>user_tbl := [user_of prof now],
                    meta_user_id := Some (ip_id prof)\<rparr>)"
        using wf by (simp add: user_wf_def tables_wf_def wf_defs migrate_def)
      with wf \<open>user_tbl (store (migrate s)) = []\<close> show ?thesis
        by (simp add: insertUser_def insert_row_def insert_identities_wf user_wf_def split_def Let_def)
    qed
  qed (use wf in simp)
  with wf show ?thesis
    by (auto simp: init_def Let_def split: option.splits)
qed

lemma setGroups_wf: "user_wf s \<Longrightarrow> user_wf (snd (setGroups groups now s))"
  unfolding setGroups_def by (rule wf_guarded) (auto simp: Let_def dest: user_wf_storeD)

lemma updateProfile_wf: "user_wf s \<Longrightarrow> user_wf (snd (updateProfile patch now s))"
  unfolding updateProfile_def by (rule wf_guarded) (auto simp: Let_def dest: user_wf_storeD)

lemma setDisabled_wf: "user_wf s \<Longrightarrow> user_wf (snd (setDisabled at now s))"
  unfolding setDisabled_def
  by (rule wf_guarded_transaction)
     (auto simp: Let_def split_beta intro!: revoke_families_wf revoke_each_wf dest: user_wf_storeD)

lemma touch_wf: "user_wf s \<Longrightarrow> user_wf (snd (touch now w s))"
  unfolding touch_def by (rule wf_guarded_transaction) (auto intro: purgeIfDue_wf)

text \<open>A live session survives the purge.\<close>

lemma live_not_purgeable:
  "s_revoked_at r = None \<Longrightarrow> now < s_idle_expires_at r \<Longrightarrow> now < s_absolute_expires_at r \<Longrightarrow>
   \<not> session_purgeable (now - PURGE_GRACE_SECONDS) r"
  by (auto simp: session_purgeable_def before_def PURGE_GRACE_SECONDS_def)

lemma liveSession_Some:
  "liveSession sid h now tb = Some r \<longleftrightarrow>
     sessionRow sid tb = Some r \<and> s_revoked_at r = None \<and> s_secret_hash r = h \<and>
     now < s_idle_expires_at r \<and> now < s_absolute_expires_at r"
  by (auto simp: liveSession_def split: option.splits)

lemma sessionRow_mem: "sessionRow sid tb = Some r \<Longrightarrow> r \<in> set (sessions tb) \<and> s_sid r = sid"
  by (auto simp: sessionRow_def dest: select_one_SomeD)

lemma sessions_purgeIfDue:
  "r \<in> set (sessions (store s)) \<Longrightarrow> \<not> session_purgeable (now - PURGE_GRACE_SECONDS) r \<Longrightarrow>
   r \<in> set (sessions (store (purgeIfDue now w s)))"
  by (simp add: purgeIfDue_def)

lemma issue_for_session_wf:
  assumes "user_wf s" and "liveSession (ai_sid input) h (ai_now input) (store s) = Some session"
  shows "user_wf (snd (issue_for_session input session prof s))"
proof -
  let ?s1 = "purgeIfDue (ai_now input) PURGE_GRACE_SECONDS s"
  have "session \<in> set (sessions (store ?s1))"
    using assms(2) by (intro sessions_purgeIfDue live_not_purgeable)
      (auto simp: liveSession_Some dest: sessionRow_mem)
  moreover have "user_wf ?s1" by (rule purgeIfDue_wf [OF assms(1)])
  ultimately show ?thesis
    using assms(1)
    by (auto simp: issue_for_session_def Let_def user_wf_def dest: issueCodeRows_wf
        split: option.splits)
qed

lemma grantFor_sessions [simp]: "sessions (snd (grantFor client tb)) = sessions tb"
  by (simp add: grantFor_def split: option.splits)

lemma liveSession_cong: "sessions tb = sessions tb' \<Longrightarrow> liveSession sid h now tb = liveSession sid h now tb'"
  by (simp add: liveSession_def sessionRow_def)

lemma authorizeWithSession_wf: "user_wf s \<Longrightarrow> user_wf (snd (authorizeWithSession input s))"
  unfolding authorizeWithSession_def authorize_body_def
proof (rule wf_guarded_transaction, assumption, goal_cases)
  case (1 user s')
  let ?tb = "snd (grantFor (ai_client input) (store s'))"
  have live: "liveSession (ai_sid input) (ai_secret_hash input) (ai_now input) ?tb =
              liveSession (ai_sid input) (ai_secret_hash input) (ai_now input) (store s')"
    by (rule liveSession_cong) simp
  have "user_wf (s'\<lparr>store := ?tb\<rparr>)" using 1 by (simp add: grantFor_wf user_wf_storeD)
  then show ?case
    using 1 live issue_for_session_wf [of "s'\<lparr>store := ?tb\<rparr>" input "ai_secret_hash input"]
      issue_for_session_wf [of s' input "ai_secret_hash input"]
    by (auto simp: Let_def split_beta split: option.splits)
qed

lemma settle_issue_wf:
  "tables_wf tb \<Longrightarrow> settle_session input tb = Ok (sid, tb1) \<Longrightarrow> sessionRow sid tb1 = Some session \<Longrightarrow>
   issueCodeRows code session now idleTtl tb1 = Some tb2 \<Longrightarrow> tables_wf tb2"
  using settle_session_wf issueCodeRows_wf sessionRow_mem by blast

lemma finalizeLogin_wf: "user_wf s \<Longrightarrow> user_wf (snd (finalizeLogin input s))"
  unfolding finalizeLogin_def
proof (rule wf_guarded, assumption, goal_cases)
  case (1 user s')
  have "user_wf (purgeIfDue (fi_now input) PURGE_GRACE_SECONDS s')" using 1(2) by (rule purgeIfDue_wf)
  then show ?case
    using 1
    by (auto simp: Let_def user_wf_def intro!: wf_transaction [unfolded user_wf_def]
        intro: settle_session_wf settle_issue_wf
        split: option.splits do_result.splits prod.splits)
qed

lemma revokeSession_wf: "user_wf s \<Longrightarrow> user_wf (snd (revokeSession sid now reason s))"
  unfolding revokeSession_def
  by (rule wf_guarded_transaction, assumption)
     (auto simp: Let_def split_beta intro!: revokeSessionRows_wf purgeIfDue_wf
       intro: user_wf_storeD split: option.splits)

lemma revokeSessions_wf: "user_wf s \<Longrightarrow> user_wf (snd (revokeSessions except now reason s))"
  unfolding revokeSessions_def
  by (rule wf_guarded_transaction, assumption)
     (auto simp: Let_def split_beta intro!: revoke_each_wf user_wf_storeD purgeIfDue_wf)

lemma revokeAll_wf: "user_wf s \<Longrightarrow> user_wf (snd (revokeAll now reason s))"
  unfolding revokeAll_def
  by (rule wf_guarded_transaction, assumption)
     (auto simp: Let_def split_beta intro!: revoke_families_wf revoke_each_wf user_wf_storeD)

lemma countPasskeyAttempt_wf: "user_wf s \<Longrightarrow> user_wf (snd (countPasskeyAttempt now s))"
  unfolding countPasskeyAttempt_def
  by (rule wf_guarded, assumption) (auto simp: Let_def user_wf_def tables_wf_def wf_defs)

lemma putChallenge_wf: "user_wf s \<Longrightarrow> user_wf (snd (putChallenge key value at s))"
  unfolding putChallenge_def
  by (rule wf_guarded, assumption)
     (auto simp: Let_def user_wf_def tables_wf_def wf_defs list_ex_iff image_iff)

lemma takeChallenge_wf: "user_wf s \<Longrightarrow> user_wf (snd (takeChallenge key now s))"
  unfolding takeChallenge_def
  by (rule wf_guarded_transaction, assumption)
     (auto simp: Let_def intro!: delete_challenges_wf user_wf_storeD)

lemma exchange_commit_wf: "user_wf s \<Longrightarrow> user_wf (snd (exchange_commit input user expected s))"
  unfolding exchange_commit_def
proof (rule wf_transaction, assumption, goal_cases)
  case 1
  then have "user_wf (purgeIfDue (xi_now input) PURGE_GRACE_SECONDS s)" by (rule purgeIfDue_wf)
  then have "tables_wf (store (purgeIfDue (xi_now input) PURGE_GRACE_SECONDS s))"
    and "tables_wf (consume_code h now (store (purgeIfDue (xi_now input) PURGE_GRACE_SECONDS s)))"
    for h now
    by (auto intro: consume_code_wf user_wf_storeD)
  with \<open>user_wf (purgeIfDue (xi_now input) PURGE_GRACE_SECONDS s)\<close> show ?case
    by (auto simp: Let_def intro: revoke_families_wf open_family_wf split: option.splits)
qed

lemma familyRow_mem: "familyRow fid tb = Some f \<Longrightarrow> f \<in> set (refresh_families tb) \<and> f_id f = fid"
  by (auto simp: familyRow_def dest: select_one_SomeD)

lemma detect_reuse_wf: "user_wf s \<Longrightarrow> user_wf (snd (detect_reuse family now s))"
  by (auto simp: detect_reuse_def Let_def revokeFamily_def split_beta
      intro!: revoke_families_wf revokeSessionRows_wf user_wf_storeD split: option.splits)

lemma family_session_mem:
  "family_session family now tb = Some (Some row) \<Longrightarrow> row \<in> set (sessions tb)"
  by (auto simp: family_session_def dest: sessionRow_mem split: option.splits if_splits)

lemma rotateRefreshToken_wf: "user_wf s \<Longrightarrow> user_wf (snd (rotateRefreshToken input s))"
  unfolding rotateRefreshToken_def rotate_body_def
proof (rule wf_guarded_transaction, assumption, goal_cases)
  case (1 user s')
  let ?s1 = "purgeIfDue (rt_now input) (rt_reuse_window input) s'"
  have wf: "user_wf ?s1" using 1(2) by (rule purgeIfDue_wf)
  have adv: "tables_wf tb"
    if "familyRow (rt_family_id input) (store ?s1) = Some family"
      and "family_session family (rt_now input) (store ?s1) = Some session"
      and "advance_family input family session (store ?s1) = Some tb" for family session tb
    using advance_family_wf [OF user_wf_storeD [OF wf] _ _ that(3)] familyRow_mem [OF that(1)]
      family_session_mem that(2) by blast
  show ?case
    using wf
    by (auto simp: Let_def intro: adv delete_families_wf user_wf_storeD detect_reuse_wf
        split: option.splits)
qed

lemma revokeFamilyById_wf: "user_wf s \<Longrightarrow> user_wf (snd (revokeFamilyById fid now reason cid s))"
  unfolding revokeFamilyById_def revokeFamily_def
  by (rule wf_guarded_transaction, assumption)
     (auto intro!: revoke_families_wf user_wf_storeD split: option.splits)

lemma revoke_counted_wf: "user_wf s \<Longrightarrow> user_wf (snd (revoke_counted P now reason s))"
  unfolding revoke_counted_def
  by (rule wf_guarded, assumption) (auto intro!: revoke_families_wf user_wf_storeD)

lemma grantConsent_wf: "user_wf s \<Longrightarrow> user_wf (snd (grantConsent client scopes now s))"
  unfolding grantConsent_def
  by (rule wf_guarded_transaction, assumption)
     (auto simp: Let_def split_beta intro!: grantFor_wf upsert_grant_wf user_wf_storeD)

lemma listGrants_wf: "user_wf s \<Longrightarrow> user_wf (snd (listGrants clients s))"
  unfolding listGrants_def
  by (rule wf_guarded_transaction, assumption)
     (auto simp: Let_def split_beta intro!: list_grant_rows_wf user_wf_storeD)

lemma revokeGrant_wf: "user_wf s \<Longrightarrow> user_wf (snd (revokeGrant cid now s))"
  unfolding revokeGrant_def
  by (rule wf_guarded_transaction, assumption)
     (auto simp: Let_def intro!: revoke_families_wf delete_grants_wf user_wf_storeD)

lemma append_passkey_wf:
  assumes "tables_wf tb"
    and "\<not> list_ex (\<lambda>r. pk_credential_id r = np_credential_id p \<or> pk_id r = np_id p) (passkeys tb)"
  shows "tables_wf (tb\<lparr>passkeys := passkeys tb @ [passkey_of p now]\<rparr>)"
proof -
  have "np_id p \<notin> pk_id ` set (passkeys tb)" "np_credential_id p \<notin> pk_credential_id ` set (passkeys tb)"
    using assms(2) by (auto simp: list_ex_iff)
  with assms(1) show ?thesis by (simp add: tables_wf_def wf_defs passkey_of_def)
qed

lemma addPasskey_wf: "user_wf s \<Longrightarrow> user_wf (snd (addPasskey p now n s))"
  unfolding addPasskey_def
  by (rule wf_guarded_transaction, assumption)
     (simp add: Let_def append_passkey_wf user_wf_storeD)

lemma assertion_commit_wf: "user_wf s \<Longrightarrow> user_wf (snd (assertion_commit user cid counter now s))"
  unfolding assertion_commit_def
  by (rule wf_transaction, assumption)
     (auto simp: Let_def user_wf_def tables_wf_def wf_defs split: option.splits)

lemma removePasskey_wf: "user_wf s \<Longrightarrow> user_wf (snd (removePasskey pid actor s))"
  unfolding removePasskey_def
  by (rule wf_guarded, assumption) (auto simp: user_wf_def tables_wf_def wf_defs)

lemma renamePasskey_wf: "user_wf s \<Longrightarrow> user_wf (snd (renamePasskey pid name s))"
  unfolding renamePasskey_def
  by (rule wf_guarded, assumption) (auto simp: user_wf_def tables_wf_def wf_defs)

lemma addIdentity_wf: "user_wf s \<Longrightarrow> user_wf (snd (addIdentity i now s))"
  unfolding addIdentity_def
  by (rule wf_guarded_transaction, assumption)
     (auto dest: insert_identity_wf [OF user_wf_storeD] split: option.splits)

lemma touchIdentity_wf: "user_wf s \<Longrightarrow> user_wf (snd (touchIdentity iss sub claims now s))"
  unfolding touchIdentity_def
  by (rule wf_guarded, assumption) (auto simp: Let_def user_wf_def tables_wf_def wf_defs)

lemma removeIdentity_wf: "user_wf s \<Longrightarrow> user_wf (snd (removeIdentity iid actor s))"
  unfolding removeIdentity_def
  by (rule wf_guarded, assumption) (auto simp: user_wf_def tables_wf_def wf_defs)

lemma guard_wf: "user_wf s \<Longrightarrow> user_wf (snd (guard s))"
  by (simp add: guard_def Let_def split: option.splits)

lemma destroy_wf: "user_wf (destroy s)"
  by (simp add: destroy_def user_wf_def empty_tables_def tables_wf_def wf_defs)

lemma evict_wf: "user_wf s \<Longrightarrow> user_wf (evict s)"
  by (simp add: evict_def user_wf_def)

lemmas method_wf =
  init_wf destroy_wf evict_wf guard_wf setGroups_wf setDisabled_wf updateProfile_wf touch_wf
  authorizeWithSession_wf finalizeLogin_wf revokeSession_wf revokeSessions_wf revokeAll_wf
  countPasskeyAttempt_wf putChallenge_wf takeChallenge_wf exchange_commit_wf
  rotateRefreshToken_wf revokeFamilyById_wf revoke_counted_wf grantConsent_wf listGrants_wf
  revokeGrant_wf addPasskey_wf assertion_commit_wf removePasskey_wf renamePasskey_wf
  addIdentity_wf touchIdentity_wf removeIdentity_wf

lemma user_step_wf: "user_wf s \<Longrightarrow> user_wf (user_step x s)"
  by (cases x)
     (simp_all add: method_wf revokeSessionFamiliesOfClient_def revokeFamiliesOfClient_def)

interpretation user_object: object_machine user_step user_wf
  by unfold_locales (rule user_step_wf)

end
