(* ===== verification/User_Evolution.thy ===== *)
theory User_Evolution
  imports User_Object
begin

text \<open>
  How the rows of a user's tables evolve under the methods of \<^verbatim>\<open>src/do/UserDO.ts\<close>. A row
  after an operation is a row of before that took a permitted step (a code may be
  consumed, a session or a family may be revoked or touched, never the reverse), or it has
  a key the operation itself introduced. The history properties of codes, sessions, families and
  tokens all rest on this one relation.
\<close>


section \<open>Permitted steps of a row\<close>

definition code_step :: "code_row \<Rightarrow> code_row \<Rightarrow> bool" where
  "code_step c c' \<longleftrightarrow> (\<exists>at. c' = c\<lparr>c_consumed_at := at\<rparr> \<and> (c_consumed_at c \<noteq> None \<longrightarrow> at \<noteq> None))"

definition session_step :: "session_row \<Rightarrow> session_row \<Rightarrow> bool" where
  "session_step r r' \<longleftrightarrow>
     s_sid r' = s_sid r \<and> s_created_at r' = s_created_at r \<and>
     s_absolute_expires_at r' = s_absolute_expires_at r \<and>
     (s_revoked_at r \<noteq> None \<longrightarrow> s_revoked_at r' = s_revoked_at r)"

definition family_step :: "family_row \<Rightarrow> family_row \<Rightarrow> bool" where
  "family_step f f' \<longleftrightarrow>
     f' = f\<lparr>f_current_serial := f_current_serial f', f_idle_expires_at := f_idle_expires_at f',
            f_revoked_at := f_revoked_at f', f_revoke_reason := f_revoke_reason f'\<rparr> \<and>
     f_current_serial f \<le> f_current_serial f' \<and>
     (f_revoked_at f \<noteq> None \<longrightarrow> f_revoked_at f' \<noteq> None)"

lemma code_step_refl [simp]: "code_step c c"
  unfolding code_step_def by (intro exI [of _ "c_consumed_at c"]) simp

lemma session_step_refl [simp]: "session_step r r"
  by (simp add: session_step_def)

lemma family_step_refl [simp]: "family_step f f"
  by (simp add: family_step_def)

lemma code_step_trans: "code_step a b \<Longrightarrow> code_step b c \<Longrightarrow> code_step a c"
  by (auto simp: code_step_def)

lemma session_step_trans: "session_step a b \<Longrightarrow> session_step b c \<Longrightarrow> session_step a c"
  by (auto simp: session_step_def)

lemma family_step_trans: "family_step a b \<Longrightarrow> family_step b c \<Longrightarrow> family_step a c"
  by (cases a, cases b, cases c) (simp add: family_step_def)

lemma code_step_fields:
  "code_step c c' \<Longrightarrow> c_secret_hash c' = c_secret_hash c \<and> c_expires_at c' = c_expires_at c \<and>
   (c_consumed_at c \<noteq> None \<longrightarrow> c_consumed_at c' \<noteq> None)"
  by (auto simp: code_step_def)

lemma family_step_fields:
  "family_step f f' \<Longrightarrow>
   f_id f' = f_id f \<and> f_client_id f' = f_client_id f \<and> f_scope f' = f_scope f \<and>
   f_kind f' = f_kind f \<and> f_sid f' = f_sid f \<and> f_created_at f' = f_created_at f \<and>
   f_code_secret_hash f' = f_code_secret_hash f \<and>
   f_absolute_expires_at f' = f_absolute_expires_at f \<and>
   f_current_serial f \<le> f_current_serial f' \<and> (f_revoked_at f \<noteq> None \<longrightarrow> f_revoked_at f' \<noteq> None)"
  by (cases f, cases f') (simp add: family_step_def)


section \<open>Evolution of the tables\<close>

text \<open>\<open>C\<close>, \<open>S\<close>, \<open>F\<close> and \<open>T\<close> are the keys of the rows that may be new.\<close>

definition evolve ::
  "bytes set \<Rightarrow> string set \<Rightarrow> string set \<Rightarrow> (string \<times> bytes) set \<Rightarrow> user_tables \<Rightarrow> user_tables \<Rightarrow> bool" where
  "evolve C S F T tb tb' \<longleftrightarrow>
     (\<forall>c' \<in> set (auth_codes tb'). c_secret_hash c' \<in> C \<or> (\<exists>c \<in> set (auth_codes tb). code_step c c')) \<and>
     (\<forall>r' \<in> set (sessions tb'). s_sid r' \<in> S \<or> (\<exists>r \<in> set (sessions tb). session_step r r')) \<and>
     (\<forall>f' \<in> set (refresh_families tb'). f_id f' \<in> F \<or> (\<exists>f \<in> set (refresh_families tb). family_step f f')) \<and>
     (\<forall>t \<in> set (refresh_tokens tb'). (t_family_id t, t_secret_hash t) \<in> T \<or> t \<in> set (refresh_tokens tb))"

abbreviation calm :: "user_tables \<Rightarrow> user_tables \<Rightarrow> bool" where
  "calm \<equiv> evolve {} {} {} {}"

lemma evolve_refl [simp]: "evolve C S F T tb tb"
  by (auto simp: evolve_def intro: code_step_refl session_step_refl family_step_refl)

lemma evolve_trans:
  assumes "evolve C S F T t1 t2" and "evolve C S F T t2 t3"
  shows "evolve C S F T t1 t3"
  unfolding evolve_def
proof (intro conjI ballI)
  fix c' assume "c' \<in> set (auth_codes t3)"
  then consider "c_secret_hash c' \<in> C" | c where "c \<in> set (auth_codes t2)" "code_step c c'"
    using assms(2) by (auto simp: evolve_def)
  then show "c_secret_hash c' \<in> C \<or> (\<exists>c \<in> set (auth_codes t1). code_step c c')"
    by cases (use assms(1) in \<open>auto simp: evolve_def dest: code_step_trans code_step_fields\<close>,
      metis code_step_fields code_step_trans)
next
  fix r' assume "r' \<in> set (sessions t3)"
  then consider "s_sid r' \<in> S" | r where "r \<in> set (sessions t2)" "session_step r r'"
    using assms(2) by (auto simp: evolve_def)
  then show "s_sid r' \<in> S \<or> (\<exists>r \<in> set (sessions t1). session_step r r')"
  proof cases
    case 2
    then have "s_sid r \<in> S \<or> (\<exists>r0 \<in> set (sessions t1). session_step r0 r)"
      using assms(1) by (auto simp: evolve_def)
    with 2 show ?thesis by (metis session_step_def session_step_trans)
  qed simp
next
  fix f' assume "f' \<in> set (refresh_families t3)"
  then consider "f_id f' \<in> F" | f where "f \<in> set (refresh_families t2)" "family_step f f'"
    using assms(2) by (auto simp: evolve_def)
  then show "f_id f' \<in> F \<or> (\<exists>f \<in> set (refresh_families t1). family_step f f')"
  proof cases
    case 2
    then have "f_id f \<in> F \<or> (\<exists>f0 \<in> set (refresh_families t1). family_step f0 f)"
      using assms(1) by (auto simp: evolve_def)
    with 2 show ?thesis by (metis family_step_fields family_step_trans)
  qed simp
next
  fix t assume "t \<in> set (refresh_tokens t3)"
  then show "(t_family_id t, t_secret_hash t) \<in> T \<or> t \<in> set (refresh_tokens t1)"
    using assms by (auto simp: evolve_def)
qed

lemma evolve_mono:
  "evolve C S F T tb tb' \<Longrightarrow> C \<subseteq> C' \<Longrightarrow> S \<subseteq> S' \<Longrightarrow> F \<subseteq> F' \<Longrightarrow> T \<subseteq> T' \<Longrightarrow> evolve C' S' F' T' tb tb'"
  unfolding evolve_def by blast

lemma calm_evolve: "calm tb tb' \<Longrightarrow> evolve C S F T tb tb'"
  by (erule evolve_mono) auto

lemma calm_then: "calm t1 t2 \<Longrightarrow> evolve C S F T t2 t3 \<Longrightarrow> evolve C S F T t1 t3"
  by (blast intro: evolve_trans calm_evolve)

lemma then_calm: "evolve C S F T t1 t2 \<Longrightarrow> calm t2 t3 \<Longrightarrow> evolve C S F T t1 t3"
  by (blast intro: evolve_trans calm_evolve)

text \<open>Tables that agree on the four histories evolve trivially.\<close>

lemma calm_same:
  "auth_codes tb' = auth_codes tb \<Longrightarrow> sessions tb' = sessions tb \<Longrightarrow>
   refresh_families tb' = refresh_families tb \<Longrightarrow> refresh_tokens tb' = refresh_tokens tb \<Longrightarrow>
   calm tb tb'"
  by (auto simp: evolve_def intro: code_step_refl session_step_refl family_step_refl)



section \<open>Statement sequences\<close>

lemma calm_sessions:
  "(\<And>r. P r \<Longrightarrow> session_step r (f r)) \<Longrightarrow> calm tb (tb\<lparr>sessions := update_where P f (sessions tb)\<rparr>)"
  by (auto simp: evolve_def set_update_where intro: code_step_refl session_step_refl family_step_refl)

lemma calm_families:
  "(\<And>f. P f \<Longrightarrow> family_step f (g f)) \<Longrightarrow>
   calm tb (tb\<lparr>refresh_families := update_where P g (refresh_families tb)\<rparr>)"
  by (auto simp: evolve_def set_update_where intro: code_step_refl session_step_refl family_step_refl)

lemma calm_subset:
  "set (auth_codes tb') \<subseteq> set (auth_codes tb) \<Longrightarrow> set (sessions tb') \<subseteq> set (sessions tb) \<Longrightarrow>
   set (refresh_families tb') \<subseteq> set (refresh_families tb) \<Longrightarrow>
   set (refresh_tokens tb') \<subseteq> set (refresh_tokens tb) \<Longrightarrow> calm tb tb'"
  unfolding evolve_def by (blast intro: code_step_refl session_step_refl family_step_refl)

lemma migrate_calm: "calm (store s) (store (migrate s))"
  by (rule calm_same) (simp_all add: migrate_def)

lemma update_user_calm: "calm tb (update_user uid f tb)"
  by (rule calm_same) (simp_all add: update_user_def)

lemma touchSession_calm: "calm tb (touchSession row now idleTtl tb)"
  by (auto simp: touchSession_def Let_def session_step_def intro!: calm_sessions)

lemma revoke_families_calm: "calm tb (revoke_families P now reason tb)"
  unfolding revoke_families_def
  by (rule calm_families) (simp add: family_step_def revoke_family_row_def)

lemma revokeSessionRows_calm: "calm tb (snd (revokeSessionRows sid now reason tb))"
  unfolding revokeSessionRows_def Let_def snd_conv
  by (rule calm_then [OF calm_sessions revoke_families_calm])
     (simp add: session_step_def revoke_session_row_def)

lemma revoke_each_calm: "calm tb (snd (revoke_each sids now reason tb))"
proof (induction sids arbitrary: tb)
  case Nil
  then show ?case by simp
next
  case (Cons sid sids)
  have "calm tb (snd (revoke_each sids now reason (snd (revokeSessionRows sid now reason tb))))"
    by (rule calm_then [OF revokeSessionRows_calm Cons.IH])
  then show ?case by (simp add: Let_def split_beta)
qed

lemma purge_tables_calm: "calm tb (purge_tables now w tb)"
  by (rule calm_subset)
     (auto simp: purge_tables_def delete_sessions_def delete_families_def Let_def)

lemma purgeIfDue_calm: "calm (store s) (store (purgeIfDue now w s))"
  by (simp add: purgeIfDue_def purge_tables_calm)

lemma delete_families_calm: "calm tb (delete_families P tb)"
  by (rule calm_subset) (auto simp: delete_families_def)

lemma limit_families_calm: "calm tb (limit_families cid now tb)"
  unfolding limit_families_def Let_def
  by (rule calm_families) (simp add: family_step_def revoke_family_row_def)

lemma code_step_consume: "code_step c (c\<lparr>c_consumed_at := Some now\<rparr>)"
  by (auto simp: code_step_def)

lemma calm_codes:
  "(\<And>c. P c \<Longrightarrow> code_step c (f c)) \<Longrightarrow> calm tb (tb\<lparr>auth_codes := update_where P f (auth_codes tb)\<rparr>)"
  by (auto simp: evolve_def set_update_where intro: code_step_refl session_step_refl family_step_refl)

lemma consume_code_calm: "calm tb (consume_code h now tb)"
  unfolding consume_code_def by (rule calm_codes) (rule code_step_consume)

lemma grantFor_calm: "calm tb (snd (grantFor client tb))"
  by (rule calm_same) (simp_all add: grantFor_def split: option.splits)

lemma upsert_grant_calm: "calm tb (upsert_grant row tb)"
  by (rule calm_same) (simp_all add: upsert_grant_def)

lemma calm_grants: "calm tb (tb\<lparr>grants := rows\<rparr>)"
  by (rule calm_same) simp_all

lemma list_grant_rows_calm: "calm tb (snd (list_grant_rows clients rows tb))"
proof (induction rows arbitrary: tb)
  case Nil
  show ?case by simp
next
  case (Cons row rows)
  have "calm tb (snd (list_grant_rows clients rows (tb\<lparr>grants := gs\<rparr>)))" for gs
    by (rule calm_then [OF calm_grants Cons.IH])
  with Cons.IH [of tb] show ?case by (simp add: split_beta)
qed

lemma insert_identity_fields:
  "insert_identity identity now tb = Some tb' \<Longrightarrow>
   auth_codes tb' = auth_codes tb \<and> sessions tb' = sessions tb \<and>
   refresh_families tb' = refresh_families tb \<and> refresh_tokens tb' = refresh_tokens tb"
  by (auto simp: insert_identity_def split: option.splits)

lemma insert_identities_calm: "calm tb (snd (insert_identities ids now tb))"
proof (induction ids arbitrary: tb)
  case Nil
  then show ?case by simp
next
  case (Cons identity ids)
  show ?case
  proof (cases "insert_identity identity now tb")
    case (Some tb1)
    have "calm tb tb1" by (rule calm_same) (simp_all add: insert_identity_fields [OF Some])
    from calm_then [OF this Cons.IH] show ?thesis using Some by simp
  qed simp
qed

lemma record_client_fields:
  "record_client sid cid now tb = Some tb' \<Longrightarrow>
   auth_codes tb' = auth_codes tb \<and> sessions tb' = sessions tb \<and>
   refresh_families tb' = refresh_families tb \<and> refresh_tokens tb' = refresh_tokens tb"
  by (auto simp: record_client_def split: if_splits)

lemma record_client_calm: "record_client sid cid now tb = Some tb' \<Longrightarrow> calm tb tb'"
  by (drule record_client_fields) (rule calm_same, simp_all)

lemma issueCodeRows_evolve:
  assumes "issueCodeRows code session now idleTtl tb = Some tb'"
  shows "evolve {ci_secret_hash code} {} {} {} tb tb'"
proof -
  obtain rows tb1 where rows: "insert_row (\<lambda>c. c_secret_hash c = ci_secret_hash code)
      (code_of code session now) (auth_codes tb) = Some rows"
    and tb1: "record_client (s_sid session) (ci_client_id code) now (tb\<lparr>auth_codes := rows\<rparr>) = Some tb1"
    and tb': "tb' = touchSession session now idleTtl tb1"
    using assms by (auto simp: issueCodeRows_def split: option.splits)
  have "evolve {ci_secret_hash code} {} {} {} tb (tb\<lparr>auth_codes := rows\<rparr>)"
    using rows by (auto simp: evolve_def insert_row_Some code_of_def
        intro: code_step_refl session_step_refl family_step_refl)
  also have "calm (tb\<lparr>auth_codes := rows\<rparr>) tb1" by (rule record_client_calm [OF tb1])
  finally (then_calm) have "evolve {ci_secret_hash code} {} {} {} tb tb1" .
  then show ?thesis unfolding tb' by (rule then_calm) (rule touchSession_calm)
qed

lemma append_session_evolve:
  "evolve {} {s_sid r} {} {} tb (tb\<lparr>sessions := sessions tb @ [r]\<rparr>)"
  unfolding evolve_def by (auto intro: code_step_refl session_step_refl family_step_refl)

lemma insertSession_evolve:
  "insertSession new now tb = Some tb' \<Longrightarrow> evolve {} {ns_sid new} {} {} tb tb'"
  using append_session_evolve [of "session_of new now" tb]
  by (auto simp: insertSession_def insert_row_Some session_of_def split: option.splits)

definition session_created :: "session_change \<Rightarrow> string set" where
  "session_created change = (case change of Create_session new \<Rightarrow> {ns_sid new} | _ \<Rightarrow> {})"

lemma rotate_session_calm:
  "calm tb (tb\<lparr>sessions := update_where P (rotate_session_row h auth now idle) (sessions tb)\<rparr>)"
  by (rule calm_sessions) (simp add: session_step_def rotate_session_row_def)

lemma settle_session_evolve:
  assumes "settle_session input tb = Ok (sid, tb')"
  shows "evolve {} (session_created (fi_session input)) {} {} tb tb'"
proof (cases "fi_session input")
  case (Create_session new)
  with assms show ?thesis
    by (auto simp: settle_session_def session_created_def intro: insertSession_evolve
        split: option.splits)
next
  case (Rotate_session sid0 hash auth)
  with assms show ?thesis
    by (auto simp: settle_session_def Let_def session_created_def rotate_session_calm
        split: option.splits if_splits)
qed

lemma append_token_evolve:
  "evolve {} {} {} {(t_family_id t, t_secret_hash t)} tb (tb\<lparr>refresh_tokens := refresh_tokens tb @ [t]\<rparr>)"
  unfolding evolve_def by (auto intro: code_step_refl session_step_refl family_step_refl)

lemma insert_token_evolve:
  "insert_token t tb = Some tb' \<Longrightarrow> evolve {} {} {} {(t_family_id t, t_secret_hash t)} tb tb'"
  using append_token_evolve [of t tb]
  by (auto simp: insert_token_def insert_row_Some split: option.splits if_splits)

lemma open_family_evolve:
  assumes "open_family input r code session tb = Some tb'"
  shows "evolve {} {} {ri_family_id r} {(ri_family_id r, ri_secret_hash r)} tb tb'"
proof -
  let ?fam = "family_of input r code session"
  obtain rows tb1 where rows: "insert_row (\<lambda>f. f_id f = f_id ?fam) ?fam (refresh_families tb) = Some rows"
    and tb1: "insert_token \<lparr>t_family_id = ri_family_id r, t_secret_hash = ri_secret_hash r,
               t_serial = 1, t_created_at = xi_now input\<rparr> (tb\<lparr>refresh_families := rows\<rparr>) = Some tb1"
    and tb': "tb' = limit_families (cr_client_id (xi_client input)) (xi_now input) tb1"
    using assms by (auto simp: open_family_def Let_def split: option.splits)
  have "evolve {} {} {ri_family_id r} {(ri_family_id r, ri_secret_hash r)} tb (tb\<lparr>refresh_families := rows\<rparr>)"
    using rows by (auto simp: evolve_def insert_row_Some
        intro: code_step_refl session_step_refl family_step_refl)
  moreover have "evolve {} {} {ri_family_id r} {(ri_family_id r, ri_secret_hash r)} (tb\<lparr>refresh_families := rows\<rparr>) tb1"
    using insert_token_evolve [OF tb1] by (rule evolve_mono) auto
  ultimately have "evolve {} {} {ri_family_id r} {(ri_family_id r, ri_secret_hash r)} tb tb1"
    by (rule evolve_trans)
  then show ?thesis unfolding tb' by (rule then_calm) (rule limit_families_calm)
qed

lemma advance_family_evolve:
  assumes wf: "tables_wf tb" and fam: "family \<in> set (refresh_families tb)"
    and adv: "advance_family input family session tb = Some tb'"
  shows "evolve {} {} {} {(f_id family, rt_new_secret_hash input)} tb tb'"
proof -
  let ?g = "\<lambda>f. f\<lparr>f_current_serial := f_current_serial family + 1,
      f_idle_expires_at := min (rt_now input + rt_idle_ttl input) (f_absolute_expires_at family)\<rparr>"
  obtain tb1 where tb1: "insert_token \<lparr>t_family_id = f_id family,
        t_secret_hash = rt_new_secret_hash input, t_serial = f_current_serial family + 1,
        t_created_at = rt_now input\<rparr> tb = Some tb1"
    and tb': "tb' = (let tb2 = tb1\<lparr>refresh_families := update_where (\<lambda>f. f_id f = f_id family) ?g (refresh_families tb1)\<rparr>
         in (case session of None \<Rightarrow> tb2
             | Some row \<Rightarrow> touchSession row (rt_now input) (rt_session_idle_ttl input) tb2))"
    using adv by (auto simp: advance_family_def Let_def split: option.splits)
  have same: "f = family" if "f \<in> set (refresh_families tb)" "f_id f = f_id family" for f
    by (rule family_table.row_unique [OF wf that(1) fam that(2)])
  have "evolve {} {} {} {(f_id family, rt_new_secret_hash input)} tb tb1"
    using insert_token_evolve [OF tb1] by simp
  also have "calm tb1 (tb1\<lparr>refresh_families := update_where (\<lambda>f. f_id f = f_id family) ?g (refresh_families tb1)\<rparr>)"
  proof -
    have "family_step f (?g f)" if "f \<in> set (refresh_families tb)" "f_id f = f_id family" for f
      unfolding same [OF that] by (simp add: family_step_def)
    then show ?thesis
      using insert_token_fields [OF tb1]
      by (auto simp: evolve_def set_update_where
          intro: code_step_refl session_step_refl family_step_refl)
  qed
  finally (then_calm) show ?thesis
    unfolding tb' Let_def
    by (auto intro: then_calm touchSession_calm split: option.splits)
qed


section \<open>Methods\<close>

lemma evolve_guarded:
  assumes "user_wf s"
    and "\<And>user s'. user_wf s' \<Longrightarrow> evolve C S F T (store s') (store (snd (body user s')))"
  shows "evolve C S F T (store s) (store (snd (guarded err body s)))"
proof -
  have "evolve C S F T (store s) (store (snd (body user (migrate s))))" for user
    by (rule calm_then [OF migrate_calm], rule assms(2)) (simp add: assms(1))
  then show ?thesis
    using migrate_calm [of s, THEN calm_evolve]
    by (auto simp: guarded_def guard_def Let_def split: option.splits)
qed

lemma evolve_transaction:
  "evolve C S F T (store s) (store (snd (body s))) \<Longrightarrow>
   evolve C S F T (store s) (store (snd (transactionSync body s)))"
  by (auto simp: transactionSync_def split: prod.splits do_result.splits)

lemma evolve_guarded_transaction:
  assumes "user_wf s"
    and "\<And>user s'. user_wf s' \<Longrightarrow> evolve C S F T (store s') (store (snd (body user s')))"
  shows "evolve C S F T (store s) (store (snd (guarded err (\<lambda>user. transactionSync (body user)) s)))"
  using assms by (intro evolve_guarded evolve_transaction)

lemma insertUser_calm: "calm (store s) (store (snd (insertUser prof now ids s)))"
proof (cases "insert_row (\<lambda>r. u_id r = ip_id prof) (user_of prof now) (user_tbl (store s))")
  case None
  then show ?thesis by (simp add: insertUser_def)
next
  case (Some rows)
  let ?tb = "(store s)\<lparr>user_tbl := rows, meta_user_id := Some (ip_id prof)\<rparr>"
  have "calm (store s) ?tb" by (rule calm_same) simp_all
  from calm_then [OF this insert_identities_calm] show ?thesis using Some by (simp add: insertUser_def split_def Let_def)
qed

lemma init_calm: "calm (store s) (store (snd (init prof now ids s)))"
proof -
  have "calm (store s) (store (snd (transactionSync (insertUser prof now ids) (migrate s))))"
    by (rule calm_then [OF migrate_calm], rule evolve_transaction, rule insertUser_calm)
  then show ?thesis
    using migrate_calm [of s] by (simp add: init_def Let_def split: option.split)
qed

definition codes_issued :: "code_input option \<Rightarrow> bytes set" where
  "codes_issued code = set_option (map_option ci_secret_hash code)"

lemma issueCodeRows_evolve':
  "code = Some c \<Longrightarrow> issueCodeRows c session now idleTtl tb = Some tb' \<Longrightarrow>
   evolve (codes_issued code) {} {} {} tb tb'"
  by (simp add: codes_issued_def issueCodeRows_evolve)

lemma issue_for_session_evolve:
  "evolve (codes_issued (ai_code input)) {} {} {} (store s) (store (snd (issue_for_session input session prof s)))"
proof (cases "ai_code input")
  case None
  then show ?thesis by (simp add: issue_for_session_def)
next
  case (Some code)
  let ?s1 = "purgeIfDue (ai_now input) PURGE_GRACE_SECONDS s"
  show ?thesis
  proof (cases "issueCodeRows code session (ai_now input) (ai_session_idle_ttl input) (store ?s1)")
    case None
    with Some show ?thesis
      by (simp add: issue_for_session_def Let_def calm_evolve [OF purgeIfDue_calm])
  next
    case (Some tb)
    have "evolve (codes_issued (ai_code input)) {} {} {} (store s) tb"
      by (rule calm_then [OF purgeIfDue_calm issueCodeRows_evolve' [OF \<open>ai_code input = _\<close> Some]])
    with Some \<open>ai_code input = _\<close> show ?thesis by (simp add: issue_for_session_def Let_def)
  qed
qed

lemma grant_issue_evolve:
  "evolve (codes_issued (ai_code input)) {} {} {} (store s)
     (store (snd (issue_for_session input session prof (s\<lparr>store := snd (grantFor client (store s))\<rparr>))))"
proof (rule calm_then [OF grantFor_calm])
  show "evolve (codes_issued (ai_code input)) {} {} {} (snd (grantFor client (store s)))
     (store (snd (issue_for_session input session prof (s\<lparr>store := snd (grantFor client (store s))\<rparr>))))"
    using issue_for_session_evolve [of input "s\<lparr>store := snd (grantFor client (store s))\<rparr>"] by simp
qed

lemma authorizeWithSession_evolve:
  assumes "user_wf s"
  shows "evolve (codes_issued (ai_code input)) {} {} {} (store s) (store (snd (authorizeWithSession input s)))"
  unfolding authorizeWithSession_def authorize_body_def
proof (rule evolve_guarded_transaction [OF assms], goal_cases)
  case (1 user s')
  then show ?case
    by (simp add: Let_def split_beta issue_for_session_evolve grant_issue_evolve
        calm_evolve [OF grantFor_calm] split: option.split)
qed

lemma finalizeLogin_evolve:
  assumes "user_wf s"
  shows "evolve (codes_issued (fi_code input)) (session_created (fi_session input)) {} {}
           (store s) (store (snd (finalizeLogin input s)))"
proof -
  let ?p = "purgeIfDue (fi_now input) PURGE_GRACE_SECONDS"
  let ?S = "session_created (fi_session input)"
  have settled: "evolve C ?S {} {} (store s') tb"
    if "settle_session input (store (?p s')) = Ok (sid, tb)" for C s' sid tb
    by (rule calm_then [OF purgeIfDue_calm], rule evolve_mono [OF settle_session_evolve [OF that]]) auto
  have issued: "evolve (codes_issued (Some code)) ?S {} {} (store s') tb'"
    if "settle_session input (store (?p s')) = Ok (sid, tb)"
      and "issueCodeRows code session (fi_now input) (fi_session_idle_ttl input) tb = Some tb'"
    for s' sid tb tb' code session
    by (rule evolve_trans [OF settled [OF that(1)]],
        rule evolve_mono [OF issueCodeRows_evolve' [OF refl that(2)]]) auto
  show ?thesis
    unfolding finalizeLogin_def
    by (rule evolve_guarded [OF assms])
       (auto simp: Let_def intro!: evolve_transaction intro: calm_evolve [OF purgeIfDue_calm] settled issued
         split: option.splits do_result.splits prod.splits)
qed

lemma exchange_commit_evolve:
  "evolve {} {} (set_option (map_option ri_family_id (xi_refresh input)))
     (set_option (map_option (\<lambda>r. (ri_family_id r, ri_secret_hash r)) (xi_refresh input)))
     (store s) (store (snd (exchange_commit input user expected s)))"
proof -
  let ?p = "purgeIfDue (xi_now input) PURGE_GRACE_SECONDS"
  have consumed: "evolve {} {} F T (store s') (consume_code h now (store (?p s')))" for F T s' h now
    by (rule calm_then [OF purgeIfDue_calm], rule calm_evolve [OF consume_code_calm])
  have replayed: "evolve {} {} F T (store s') (revoke_families P now reason (store (?p s')))"
    for F T s' P now reason
    by (rule calm_then [OF purgeIfDue_calm], rule calm_evolve [OF revoke_families_calm])
  have opened: "evolve {} {} {ri_family_id r} {(ri_family_id r, ri_secret_hash r)} (store s') tb'"
    if "open_family input r code session (consume_code h now (store (?p s'))) = Some tb'"
    for r code session h now s' tb'
    by (rule evolve_trans [OF consumed open_family_evolve [OF that]])
  show ?thesis
    unfolding exchange_commit_def
    by (rule evolve_transaction, simp add: Let_def split: option.split, intro conjI allI impI;
        (rule calm_evolve [OF purgeIfDue_calm] | rule consumed | rule replayed | erule opened))
qed

lemma detect_reuse_calm: "calm (store s) (store (snd (detect_reuse family now s)))"
  using calm_then [OF revoke_families_calm revokeSessionRows_calm]
  by (auto simp: detect_reuse_def revokeFamily_def Let_def split_beta revoke_families_calm
      split: option.splits)

lemma rotateRefreshToken_evolve:
  assumes "user_wf s"
  shows "evolve {} {} {} {(rt_family_id input, rt_new_secret_hash input)}
           (store s) (store (snd (rotateRefreshToken input s)))"
  unfolding rotateRefreshToken_def rotate_body_def
proof (rule evolve_guarded_transaction [OF assms], goal_cases)
  case (1 user s')
  let ?p = "purgeIfDue (rt_now input) (rt_reuse_window input)"
  have advanced: "evolve {} {} {} {(rt_family_id input, rt_new_secret_hash input)} (store s') tb"
    if "familyRow (rt_family_id input) (store (?p s')) = Some family"
      and "advance_family input family session (store (?p s')) = Some tb" for family session tb
  proof -
    have f: "family \<in> set (refresh_families (store (?p s')))" "f_id family = rt_family_id input"
      using familyRow_mem [OF that(1)] by auto
    have "evolve {} {} {} {(f_id family, rt_new_secret_hash input)} (store (?p s')) tb"
      by (rule advance_family_evolve [OF user_wf_storeD [OF purgeIfDue_wf [OF 1]] f(1) that(2)])
    then show ?thesis unfolding f(2) by (rule calm_then [OF purgeIfDue_calm])
  qed
  have reused: "evolve {} {} {} T (store s') (store (snd (detect_reuse family now (?p s'))))" for T family now
    by (rule calm_then [OF purgeIfDue_calm], rule calm_evolve [OF detect_reuse_calm])
  have dropped: "evolve {} {} {} T (store s') (delete_families P (store (?p s')))" for T P
    by (rule calm_then [OF purgeIfDue_calm], rule calm_evolve [OF delete_families_calm])
  show ?case
    by (simp add: Let_def split: option.split, intro conjI allI impI;
        (rule calm_evolve [OF purgeIfDue_calm] | rule reused | rule dropped | erule (1) advanced))
qed

text \<open>The remaining methods introduce no code, session, family or token.\<close>

lemma calm_update_store: "calm (store s) tb \<Longrightarrow> calm (store s) (store (s\<lparr>store := tb\<rparr>))"
  by simp

lemma setDisabled_calm: "user_wf s \<Longrightarrow> calm (store s) (store (snd (setDisabled at now s)))"
  unfolding setDisabled_def
proof (rule evolve_guarded_transaction, assumption, goal_cases)
  case (1 user s')
  have "calm (store s') (revoke_families P n reason (snd (revoke_each sids now reason
          (update_user uid f (store s')))))" for P n reason sids uid f
    by (rule calm_then [OF update_user_calm], rule calm_then [OF revoke_each_calm revoke_families_calm])
  then show ?case by (simp add: Let_def split_beta update_user_calm)
qed

lemma revokeSession_calm: "user_wf s \<Longrightarrow> calm (store s) (store (snd (revokeSession sid now reason s)))"
  unfolding revokeSession_def
  by (rule evolve_guarded_transaction, assumption)
     (simp add: Let_def split_beta purgeIfDue_calm calm_then [OF purgeIfDue_calm revokeSessionRows_calm]
       split: option.split)

lemma revokeSessions_calm: "user_wf s \<Longrightarrow> calm (store s) (store (snd (revokeSessions except now reason s)))"
  unfolding revokeSessions_def
  by (rule evolve_guarded_transaction, assumption)
     (simp add: Let_def split_beta calm_then [OF purgeIfDue_calm revoke_each_calm])

lemma revokeAll_calm: "user_wf s \<Longrightarrow> calm (store s) (store (snd (revokeAll now reason s)))"
  unfolding revokeAll_def
  by (rule evolve_guarded_transaction, assumption)
     (simp add: Let_def split_beta calm_then [OF revoke_each_calm revoke_families_calm])

lemma grantConsent_calm: "user_wf s \<Longrightarrow> calm (store s) (store (snd (grantConsent client scopes now s)))"
  unfolding grantConsent_def
  by (rule evolve_guarded_transaction, assumption)
     (simp add: Let_def split_beta calm_then [OF grantFor_calm calm_then [OF upsert_grant_calm grantFor_calm]])

lemma revokeGrant_calm: "user_wf s \<Longrightarrow> calm (store s) (store (snd (revokeGrant cid now s)))"
  unfolding revokeGrant_def
  by (rule evolve_guarded_transaction, assumption)
     (simp add: Let_def calm_then [OF calm_grants revoke_families_calm])

lemma listGrants_calm: "user_wf s \<Longrightarrow> calm (store s) (store (snd (listGrants clients s)))"
  unfolding listGrants_def
  by (rule evolve_guarded_transaction, assumption) (simp add: Let_def split_beta list_grant_rows_calm)

lemma revoke_counted_calm: "user_wf s \<Longrightarrow> calm (store s) (store (snd (revoke_counted P now reason s)))"
  unfolding revoke_counted_def by (rule evolve_guarded, assumption) (simp add: revoke_families_calm)

lemma revokeFamilyById_calm:
  "user_wf s \<Longrightarrow> calm (store s) (store (snd (revokeFamilyById fid now reason cid s)))"
  unfolding revokeFamilyById_def revokeFamily_def
  by (rule evolve_guarded_transaction, assumption) (simp add: revoke_families_calm split: option.split)

lemma touch_calm: "user_wf s \<Longrightarrow> calm (store s) (store (snd (touch now w s)))"
  unfolding touch_def by (rule evolve_guarded_transaction, assumption) (simp add: purgeIfDue_calm)

lemma guard_calm: "calm (store s) (store (snd (guard s)))"
  by (simp add: guard_def Let_def migrate_calm split: option.split)

lemma destroy_calm: "calm (store s) (store (destroy s))"
  by (rule calm_subset) (simp_all add: destroy_def empty_tables_def)

lemma insert_identity_calm: "insert_identity i now tb = Some tb' \<Longrightarrow> calm tb tb'"
  by (rule calm_same) (simp_all add: insert_identity_fields)

lemma profile_calm:
  "user_wf s \<Longrightarrow> calm (store s) (store (snd (setGroups groups now s)))"
  "user_wf s \<Longrightarrow> calm (store s) (store (snd (updateProfile patch now s)))"
  unfolding setGroups_def updateProfile_def
  by (rule evolve_guarded, assumption, simp add: Let_def update_user_calm)+

lemma calm_side_tables:
  "calm tb (tb\<lparr>meta_passkey_attempts := w\<rparr>)"
  "calm tb (tb\<lparr>challenges := cs\<rparr>)"
  "calm tb (tb\<lparr>passkeys := ps\<rparr>)"
  "calm tb (tb\<lparr>identities := is\<rparr>)"
  by (rule calm_same; simp)+

lemma attempt_challenge_calm:
  "user_wf s \<Longrightarrow> calm (store s) (store (snd (countPasskeyAttempt now s)))"
  "user_wf s \<Longrightarrow> calm (store s) (store (snd (putChallenge key value at s)))"
  "user_wf s \<Longrightarrow> calm (store s) (store (snd (takeChallenge key now s)))"
  unfolding countPasskeyAttempt_def putChallenge_def takeChallenge_def
  by ((rule evolve_guarded_transaction | rule evolve_guarded), assumption,
      simp add: Let_def calm_side_tables)+

lemma passkey_calm:
  "user_wf s \<Longrightarrow> calm (store s) (store (snd (addPasskey p now n s)))"
  "user_wf s \<Longrightarrow> calm (store s) (store (snd (removePasskey pid actor s)))"
  "user_wf s \<Longrightarrow> calm (store s) (store (snd (renamePasskey pid name s)))"
  "user_wf s \<Longrightarrow> calm (store s) (store (snd (touchIdentity iss sub claims now s)))"
  "user_wf s \<Longrightarrow> calm (store s) (store (snd (removeIdentity iid actor s)))"
  unfolding addPasskey_def removePasskey_def renamePasskey_def touchIdentity_def removeIdentity_def
  by ((rule evolve_guarded_transaction | rule evolve_guarded), assumption,
      simp add: Let_def calm_side_tables)+

lemma addIdentity_calm: "user_wf s \<Longrightarrow> calm (store s) (store (snd (addIdentity i now s)))"
  unfolding addIdentity_def
  by (rule evolve_guarded_transaction, assumption)
     (simp add: insert_identity_calm split: option.split)

lemma assertion_commit_calm: "calm (store s) (store (snd (assertion_commit user cid counter now s)))"
  unfolding assertion_commit_def
  by (rule evolve_transaction) (simp add: Let_def calm_side_tables split: option.split)


section \<open>Every operation\<close>

definition new_codes :: "user_op \<Rightarrow> bytes set" where
  "new_codes x =
     (case x of
        Authorize input \<Rightarrow> codes_issued (ai_code input)
      | Finalize input \<Rightarrow> codes_issued (fi_code input)
      | _ \<Rightarrow> {})"

definition new_sessions :: "user_op \<Rightarrow> string set" where
  "new_sessions x = (case x of Finalize input \<Rightarrow> session_created (fi_session input) | _ \<Rightarrow> {})"

definition new_families :: "user_op \<Rightarrow> string set" where
  "new_families x =
     (case x of
        Exchange input _ _ \<Rightarrow> set_option (map_option ri_family_id (xi_refresh input))
      | _ \<Rightarrow> {})"

definition new_tokens :: "user_op \<Rightarrow> (string \<times> bytes) set" where
  "new_tokens x =
     (case x of
        Exchange input _ _ \<Rightarrow>
          set_option (map_option (\<lambda>r. (ri_family_id r, ri_secret_hash r)) (xi_refresh input))
      | Rotate input \<Rightarrow> {(rt_family_id input, rt_new_secret_hash input)}
      | _ \<Rightarrow> {})"

lemmas new_defs = new_codes_def new_sessions_def new_families_def new_tokens_def

lemmas method_calm =
  init_calm destroy_calm guard_calm profile_calm setDisabled_calm touch_calm revokeSession_calm
  revokeSessions_calm revokeAll_calm attempt_challenge_calm revokeFamilyById_calm
  revoke_counted_calm grantConsent_calm listGrants_calm revokeGrant_calm passkey_calm
  addIdentity_calm assertion_commit_calm

lemma user_step_evolve:
  "user_wf s \<Longrightarrow>
   evolve (new_codes x) (new_sessions x) (new_families x) (new_tokens x) (store s) (store (user_step x s))"
  by (cases x)
     (simp_all add: new_defs method_calm revokeSessionFamiliesOfClient_def revokeFamiliesOfClient_def
       evict_def authorizeWithSession_evolve finalizeLogin_evolve exchange_commit_evolve
       rotateRefreshToken_evolve)

text \<open>Where the row of a later state comes from.\<close>

lemma code_origin:
  assumes "user_wf s" and "c' \<in> set (auth_codes (store (user_step x s)))"
    and "c_secret_hash c' \<notin> new_codes x"
  obtains c where "c \<in> set (auth_codes (store s))" and "code_step c c'"
  using user_step_evolve [OF assms(1), of x] assms(2,3) by (auto simp: evolve_def)

lemma session_origin:
  assumes "user_wf s" and "r' \<in> set (sessions (store (user_step x s)))"
    and "s_sid r' \<notin> new_sessions x"
  obtains r where "r \<in> set (sessions (store s))" and "session_step r r'"
  using user_step_evolve [OF assms(1), of x] assms(2,3) by (auto simp: evolve_def)

lemma family_origin:
  assumes "user_wf s" and "f' \<in> set (refresh_families (store (user_step x s)))"
    and "f_id f' \<notin> new_families x"
  obtains f where "f \<in> set (refresh_families (store s))" and "family_step f f'"
  using user_step_evolve [OF assms(1), of x] assms(2,3) by (auto simp: evolve_def)

lemma token_origin:
  assumes "user_wf s" and "t \<in> set (refresh_tokens (store (user_step x s)))"
    and "(t_family_id t, t_secret_hash t) \<notin> new_tokens x"
  shows "t \<in> set (refresh_tokens (store s))"
  using user_step_evolve [OF assms(1), of x] assms(2,3) by (auto simp: evolve_def)

end
