(* ===== verification/Scenario.thy ===== *)
theory Scenario
  imports User_Object
begin

text \<open>
  Concrete inputs for the witnesses: one user, one client, one login with a code, its exchange
  for a refresh-token family and the rotation of the first token.
\<close>

definition ex_profile0 :: init_profile where
  "ex_profile0 = \<lparr>ip_id = ''u1'', ip_email = Some ''a@b.c'', ip_email_norm = Some ''a@b.c'',
     ip_email_verified = True, ip_display_name = None, ip_groups = [''staff'']\<rparr>"

definition ex_client :: client_ref where
  "ex_client = \<lparr>cr_client_id = ''web'', cr_created_at = 5, cr_skip_consent = True, cr_allowed_groups = Some [''staff'']\<rparr>"

definition ex_auth :: auth_context where
  "ex_auth = \<lparr>a_auth_time = 1000, a_amr = [''hwk''], a_acr = ''1'', a_upstream = None\<rparr>"

definition ex_session :: new_session where
  "ex_session = \<lparr>ns_sid = ''s1'', ns_secret_hash = [7], ns_auth = ex_auth,
     ns_metadata = \<lparr>m_ip_hash = None, m_ua_family = None, m_country = None\<rparr>, ns_idle_ttl = 3600, ns_absolute_ttl = 86400\<rparr>"

definition ex_code :: code_input where
  "ex_code = \<lparr>ci_secret_hash = [1], ci_client_id = ''web'', ci_redirect_uri = ''https://x/cb'',
     ci_scope = [''openid'', ''offline_access''], ci_nonce = Some ''n'', ci_code_challenge = Some ''AQID''\<rparr>"

definition ex_finalize :: finalize_input where
  "ex_finalize = \<lparr>fi_now = 1000, fi_session = Create_session ex_session, fi_code = Some ex_code,
     fi_client = Some ex_client, fi_session_idle_ttl = 3600\<rparr>"

definition ex_refresh :: refresh_input where
  "ex_refresh = \<lparr>ri_secret_hash = [9], ri_family_id = ''f1'', ri_offline_allowed = True, ri_idle_ttl = 1000, ri_absolute_ttl = 5000\<rparr>"

definition ex_exchange :: exchange_input where
  "ex_exchange = \<lparr>xi_secret_hash = [1], xi_client = ex_client, xi_redirect_uri = ''https://x/cb'',
     xi_code_verifier = Some (replicate 43 (CHR ''a'')), xi_now = 1010, xi_refresh = Some ex_refresh\<rparr>"

text \<open>A stand-in for the digest: the challenge of every verifier is \<open>AQID\<close>.\<close>

definition ex_sha256 :: "bytes \<Rightarrow> bytes" where
  "ex_sha256 = (\<lambda>_. [1, 2, 3])"

definition ex_user :: user_row where "ex_user = user_of ex_profile0 900"


definition ex_rotate :: rotate_input where
  "ex_rotate = \<lparr>rt_family_id = ''f1'', rt_secret_hash = [9], rt_client = ex_client, rt_now = 1050,
     rt_requested_scope = None, rt_new_secret_hash = [10], rt_idle_ttl = 1000,
     rt_session_idle_ttl = 3600, rt_reuse_window = 86400\<rparr>"

definition ex_strict_client :: client_ref where
  "ex_strict_client = ex_client\<lparr>cr_skip_consent := False\<rparr>"

definition ex_authorize :: authorize_input where
  "ex_authorize = \<lparr>ai_sid = ''s1'', ai_secret_hash = [7], ai_now = 1020, ai_client = ex_strict_client,
     ai_scope = [''openid''], ai_prompt_login = False, ai_prompt_consent = False, ai_max_age = Some 100,
     ai_code = Some (ex_code\<lparr>ci_secret_hash := [2]\<rparr>), ai_session_idle_ttl = 3600\<rparr>"

text \<open>The object after the login, after the exchange, and after the first rotation.\<close>

definition login_ops :: "user_op list" where
  "login_ops = [Init ex_profile0 900 [], Finalize ex_finalize]"

definition exchange_ops :: "user_op list" where
  "exchange_ops = login_ops @ [Exchange ex_exchange ex_user (Some ''AQID'')]"

definition rotate_ops :: "user_op list" where
  "rotate_ops = exchange_ops @ [Rotate ex_rotate]"

abbreviation after :: "user_op list \<Rightarrow> user_do" where
  "after xs \<equiv> fold user_step xs fresh_user_do"

end
