(* ===== verification/Code_Safety.thy ===== *)
theory Code_Safety
  imports User_Evolution Scenario
begin

text \<open>
  Authorization codes (\<^verbatim>\<open>exchangeCode\<close>, \<^verbatim>\<open>authorizeWithSession\<close> of
  \<^verbatim>\<open>src/do/UserDO.ts\<close>): a code is exchanged at most once however calls interleave, only
  under the conditions it was issued for, and its replay revokes what was issued from it.
\<close>


section \<open>The successful exchange\<close>

text \<open>What a code must satisfy to be exchanged at a given time.\<close>

definition exchangeable ::
  "exchange_input \<Rightarrow> user_row \<Rightarrow> string option \<Rightarrow> code_row \<Rightarrow> session_row \<Rightarrow> bool" where
  "exchangeable input user expected code session \<longleftrightarrow>
     c_secret_hash code = xi_secret_hash input \<and>
     c_consumed_at code = None \<and>
     xi_now input < c_expires_at code \<and>
     c_client_id code = cr_client_id (xi_client input) \<and>
     c_redirect_uri code = xi_redirect_uri input \<and>
     pkce_ok (c_code_challenge code) (xi_code_verifier input) expected \<and>
     u_disabled_at user = None \<and>
     allowed user (xi_client input) \<and>
     adminAllowed user (split_space (c_scope code)) \<and>
     s_sid session = c_sid code \<and>
     s_revoked_at session = None"

lemma codeRow_mem: "codeRow h tb = Some c \<Longrightarrow> c \<in> set (auth_codes tb) \<and> c_secret_hash c = h"
  by (auto simp: codeRow_def dest: select_one_SomeD)

lemma exchange_commit_OkE:
  assumes "exchange_commit input user expected s = (Ok r, s')"
  obtains code session where
    "code \<in> set (auth_codes (store (purgeIfDue (xi_now input) PURGE_GRACE_SECONDS s)))"
    and "session \<in> set (sessions (store (purgeIfDue (xi_now input) PURGE_GRACE_SECONDS s)))"
    and "exchangeable input user expected code session"
    and "xo_grant r = grantContext user (c_scope code) (Some (c_sid code)) (c_auth_time code)
                        (c_amr code) (c_acr code)"
    and "xo_nonce r = c_nonce code"
    and "case xi_refresh input of
           None \<Rightarrow> xo_family_id r = None \<and>
             store s' = consume_code (xi_secret_hash input) (xi_now input)
                          (store (purgeIfDue (xi_now input) PURGE_GRACE_SECONDS s))
         | Some ri \<Rightarrow> xo_family_id r = Some (ri_family_id ri) \<and>
             open_family input ri code session
               (consume_code (xi_secret_hash input) (xi_now input)
                  (store (purgeIfDue (xi_now input) PURGE_GRACE_SECONDS s))) = Some (store s')"
proof -
  let ?s1 = "purgeIfDue (xi_now input) PURGE_GRACE_SECONDS s"
  obtain code where c: "codeRow (xi_secret_hash input) (store ?s1) = Some code"
    using assms
    by (cases "codeRow (xi_secret_hash input) (store ?s1)")
       (auto simp: exchange_commit_def transactionSync_def Let_def)
  obtain session where ss: "sessionRow (c_sid code) (store ?s1) = Some session"
    using assms c
    by (cases "sessionRow (c_sid code) (store ?s1)")
       (auto simp: exchange_commit_def transactionSync_def Let_def split: if_splits)
  note mem = codeRow_mem [OF c] sessionRow_mem [OF ss]
  show ?thesis
    by (rule that [of code session])
       (use assms c ss mem in
         \<open>auto simp: exchange_commit_def transactionSync_def Let_def exchangeable_def
           split: if_splits option.splits\<close>)
qed


section \<open>Single use\<close>

definition code_spent :: "bytes \<Rightarrow> user_do \<Rightarrow> bool" where
  "code_spent h s \<longleftrightarrow>
     list_all (\<lambda>c. c_secret_hash c = h \<longrightarrow> c_consumed_at c \<noteq> None) (auth_codes (store s))"

text \<open>An operation exchanges the code with secret hash \<open>h\<close>.\<close>

definition exchange_wins :: "bytes \<Rightarrow> user_op \<Rightarrow> user_do \<Rightarrow> bool" where
  "exchange_wins h x s =
     (case x of
        Exchange input user expected \<Rightarrow>
          xi_secret_hash input = h \<and> is_ok (fst (exchange_commit input user expected s))
      | _ \<Rightarrow> False)"

text \<open>No operation of the run issues a code with that hash again.\<close>

definition issues_none :: "bytes \<Rightarrow> user_op \<Rightarrow> bool" where
  "issues_none h x \<longleftrightarrow> h \<notin> new_codes x"

lemma exchange_winsE:
  assumes "exchange_wins h x s"
  obtains input user expected r where "x = Exchange input user expected"
    and "xi_secret_hash input = h"
    and "exchange_commit input user expected s = (Ok r, user_step x s)"
proof (cases x)
  case (Exchange input user expected)
  with assms obtain r where r: "fst (exchange_commit input user expected s) = Ok r"
    and h: "xi_secret_hash input = h"
    by (auto simp: exchange_wins_def is_ok_conv)
  have "exchange_commit input user expected s = (Ok r, user_step x s)"
    unfolding Exchange by (rule prod_eqI) (simp_all add: r)
  then show ?thesis by (rule that [OF Exchange h])
qed (use assms in \<open>simp_all add: exchange_wins_def\<close>)

lemma open_family_codes:
  "open_family input r code session tb = Some tb' \<Longrightarrow> auth_codes tb' = auth_codes tb"
  by (auto simp: open_family_def limit_families_def insert_token_def Let_def split: option.splits if_splits)

lemma purgeIfDue_codes: "set (auth_codes (store (purgeIfDue now w s))) \<subseteq> set (auth_codes (store s))"
  by (auto simp: purgeIfDue_def)

lemma consume_code_fields:
  "auth_codes (consume_code h now tb) =
     update_where (\<lambda>c. c_secret_hash c = h) (\<lambda>c. c\<lparr>c_consumed_at := Some now\<rparr>) (auth_codes tb)"
  "sessions (consume_code h now tb) = sessions tb"
  "refresh_families (consume_code h now tb) = refresh_families tb"
  "refresh_tokens (consume_code h now tb) = refresh_tokens tb"
  by (simp_all add: consume_code_def)

lemma consume_spends: "\<forall>c \<in> set (auth_codes (consume_code h now tb)). c_secret_hash c = h \<longrightarrow> c_consumed_at c = Some now"
  unfolding consume_code_fields(1) by (rule ball_update_where) simp_all

lemma exchange_codes_after:
  assumes "exchange_commit input user expected s = (Ok r, s')"
  shows "auth_codes (store s') =
    auth_codes (consume_code (xi_secret_hash input) (xi_now input)
      (store (purgeIfDue (xi_now input) PURGE_GRACE_SECONDS s)))"
  using assms by (rule exchange_commit_OkE) (auto dest: open_family_codes split: option.splits)

interpretation code_once: single_use user_step user_wf "issues_none h" "code_spent h" "exchange_wins h"
  for h
proof unfold_locales
  fix s x assume wf: "user_wf s" and ok: "issues_none h x" and spent: "code_spent h s"
  show "code_spent h (user_step x s)"
    unfolding code_spent_def list_all_iff
  proof (intro ballI impI)
    fix c' assume c': "c' \<in> set (auth_codes (store (user_step x s)))" "c_secret_hash c' = h"
    then have "c_secret_hash c' \<notin> new_codes x" using ok by (simp add: issues_none_def)
    then obtain c where c: "c \<in> set (auth_codes (store s))" "code_step c c'"
      using code_origin [OF wf c'(1)] by blast
    then show "c_consumed_at c' \<noteq> None"
      using spent c'(2) code_step_fields [OF c(2)] by (auto simp: code_spent_def list_all_iff)
  qed
next
  fix s x assume "exchange_wins h x s"
  then show "\<not> code_spent h s"
  proof (rule exchange_winsE)
    fix input user expected r
    assume x: "xi_secret_hash input = h" "exchange_commit input user expected s = (Ok r, user_step x s)"
    from x(2) show ?thesis
    proof (rule exchange_commit_OkE)
      fix code session
      assume "code \<in> set (auth_codes (store (purgeIfDue (xi_now input) PURGE_GRACE_SECONDS s)))"
        and "exchangeable input user expected code session"
      then show ?thesis
        using x(1) purgeIfDue_codes by (fastforce simp: exchangeable_def code_spent_def list_all_iff)
    qed
  qed
next
  fix s x assume "exchange_wins h x s"
  then show "code_spent h (user_step x s)"
    by (rule exchange_winsE)
       (use consume_spends in \<open>fastforce simp: code_spent_def list_all_iff exchange_codes_after\<close>)
qed

text \<open>
  C1. Single use of authorization codes: whatever happened to the object before, and however the
  later calls (exchanges, revocations, purges, evictions, the halves of other exchanges)
  interleave, at most one of them exchanges the code with secret hash \<open>h\<close>, as long as
  no later call issues a code with the same hash.
\<close>

theorem code_exchanged_at_most_once:
  assumes "list_all (issues_none h) later"
  shows "run_wins user_step (exchange_wins h) later (fold user_step earlier fresh_user_do) \<le> 1"
  using user_object.inv_run [OF user_wf_empty] assms by (rule code_once.at_most_once)


theorem code_exchanged_at_most_once_witness:
  "list_all (issues_none [1]) [Exchange ex_exchange ex_user (Some ''AQID''), Evict, Exchange ex_exchange ex_user (Some ''AQID'')] \<and>
   run_wins user_step (exchange_wins [1])
     [Exchange ex_exchange ex_user (Some ''AQID''), Evict, Exchange ex_exchange ex_user (Some ''AQID'')] (after login_ops) = 1"
proof -
  let ?xs = "[Exchange ex_exchange ex_user (Some ''AQID''), Evict, Exchange ex_exchange ex_user (Some ''AQID'')]"
  have ok: "list_all (issues_none [1]) ?xs" by code_simp
  have "run_wins user_step (exchange_wins [1]) ?xs (after login_ops) \<le> 1"
    by (rule code_exchanged_at_most_once [OF ok])
  moreover have "run_wins user_step (exchange_wins [1]) ?xs (after login_ops) > 0" by code_simp
  ultimately have "run_wins user_step (exchange_wins [1]) ?xs (after login_ops) = 1" by linarith
  with ok show ?thesis by (rule conjI)
qed


section \<open>Conditions of an exchange\<close>

text \<open>The PKCE condition of RFC 7636 for a code bound to a challenge, or to none.\<close>

definition pkce_satisfied :: "(bytes \<Rightarrow> bytes) \<Rightarrow> string option \<Rightarrow> string option \<Rightarrow> bool" where
  "pkce_satisfied sha256 challenge verifier =
     (case (challenge, verifier) of
        (None, None) \<Rightarrow> True
      | (Some ch, Some v) \<Rightarrow> PKCE_VERIFIER v \<and> ch = encodeBase64Url (sha256 (utf8 v))
      | _ \<Rightarrow> False)"

lemma pkce_ok_iff:
  "pkce_ok challenge (xi_code_verifier input) (exchange_challenge sha256 input) \<longleftrightarrow>
   pkce_satisfied sha256 challenge (xi_code_verifier input)"
  by (auto simp: pkce_ok_def exchange_challenge_def pkce_satisfied_def split: option.splits)

lemma purgeIfDue_sessions: "set (sessions (store (purgeIfDue now w s))) \<subseteq> set (sessions (store s))"
  by (auto simp: purgeIfDue_def)

text \<open>
  C4. A code exchange succeeds only for the client, the redirect URI and the PKCE verifier the code was
  issued with, before the code expires and before it was consumed, for an enabled user in the
  client's groups (and in \<^verbatim>\<open>admins\<close> for the \<^verbatim>\<open>admin\<close> scope) whose session is not
  revoked; and it returns exactly the code's scope, nonce, authentication time, methods
  and session.
\<close>

theorem exchange_conditions:
  assumes "exchangeCode sha256 input s = (Ok r, s')"
  shows "\<exists>user code session.
    readUser (store s) = Some user \<and> code \<in> set (auth_codes (store s)) \<and>
    session \<in> set (sessions (store s)) \<and>
    c_secret_hash code = xi_secret_hash input \<and>
    c_consumed_at code = None \<and> xi_now input < c_expires_at code \<and>
    c_client_id code = cr_client_id (xi_client input) \<and>
    c_redirect_uri code = xi_redirect_uri input \<and>
    pkce_satisfied sha256 (c_code_challenge code) (xi_code_verifier input) \<and>
    u_disabled_at user = None \<and> allowed user (xi_client input) \<and>
    (''admin'' \<in> set (split_space (c_scope code)) \<longrightarrow> ''admins'' \<in> set (u_groups user)) \<and>
    s_sid session = c_sid code \<and> s_revoked_at session = None \<and>
    gc_sub (xo_grant r) = u_id user \<and> gc_scope (xo_grant r) = tokens (c_scope code) \<and>
    gc_sid (xo_grant r) = Some (c_sid code) \<and> gc_auth_time (xo_grant r) = c_auth_time code \<and>
    gc_amr (xo_grant r) = c_amr code \<and> xo_nonce r = c_nonce code"
proof -
  obtain user where user: "readUser (store s) = Some user"
    and ex: "exchange_commit input user (exchange_challenge sha256 input) (migrate s) = (Ok r, s')"
    using assms unfolding exchangeCode_def by (rule guarded_OkE)
  from ex show ?thesis
  proof (rule exchange_commit_OkE)
    fix code session
    assume mem: "code \<in> set (auth_codes (store (purgeIfDue (xi_now input) PURGE_GRACE_SECONDS (migrate s))))"
      "session \<in> set (sessions (store (purgeIfDue (xi_now input) PURGE_GRACE_SECONDS (migrate s))))"
      and ok: "exchangeable input user (exchange_challenge sha256 input) code session"
      and res: "xo_grant r = grantContext user (c_scope code) (Some (c_sid code)) (c_auth_time code)
                        (c_amr code) (c_acr code)" "xo_nonce r = c_nonce code"
    have "code \<in> set (auth_codes (store s))" "session \<in> set (sessions (store s))"
      using subsetD [OF purgeIfDue_codes mem(1)] subsetD [OF purgeIfDue_sessions mem(2)] by simp_all
    then show ?thesis
      using user ok res
      by (intro exI [of _ user] exI [of _ code] exI [of _ session])
         (simp add: exchangeable_def pkce_ok_iff adminAllowed_def grantContext_def)
  qed
qed


theorem exchange_conditions_witness:
  "\<exists>r. fst (exchangeCode ex_sha256 ex_exchange (after login_ops)) = Ok r \<and>
       (\<exists>code \<in> set (auth_codes (store (after login_ops))).
          pkce_satisfied ex_sha256 (c_code_challenge code) (xi_code_verifier ex_exchange) \<and>
          gc_scope (xo_grant r) = tokens (c_scope code))"
proof -
  have "is_ok (fst (exchangeCode ex_sha256 ex_exchange (after login_ops)))" by code_simp
  then obtain r s' where r: "exchangeCode ex_sha256 ex_exchange (after login_ops) = (Ok r, s')"
    by (rule is_ok_pairE)
  with exchange_conditions [OF r] show ?thesis by fastforce
qed


section \<open>Replay\<close>

lemma revoke_families_all:
  "\<forall>f \<in> set (refresh_families (revoke_families P now reason tb)). P f \<longrightarrow> f_revoked_at f \<noteq> None"
  if "\<And>f. P (revoke_family_row now reason f) = P f"
  unfolding revoke_families_def user_tables.select_convs user_tables.update_convs
  by (simp, rule ball_update_where) (auto simp: revoke_family_row_def)

lemma exchange_replay:
  assumes "codeRow (xi_secret_hash input)
             (store (purgeIfDue (xi_now input) PURGE_GRACE_SECONDS s)) = Some code"
    and "c_consumed_at code \<noteq> None"
  shows "fst (exchange_commit input user expected s) =
           Fail \<lparr>xf_error = Invalid_grant, xf_replay = True\<rparr>"
    and "\<forall>f \<in> set (refresh_families (store (snd (exchange_commit input user expected s)))).
           f_code_secret_hash f = Some (xi_secret_hash input) \<longrightarrow> f_revoked_at f \<noteq> None"
proof -
  let ?s1 = "purgeIfDue (xi_now input) PURGE_GRACE_SECONDS s"
  have eq: "exchange_commit input user expected s =
     (Fail \<lparr>xf_error = Invalid_grant, xf_replay = True\<rparr>,
      ?s1\<lparr>store := revoke_families (\<lambda>f. f_code_secret_hash f = Some (xi_secret_hash input))
                    (xi_now input) ''code_replay'' (store ?s1)\<rparr>)"
    using assms by (simp add: exchange_commit_def transactionSync_def Let_def)
  show "fst (exchange_commit input user expected s) =
           Fail \<lparr>xf_error = Invalid_grant, xf_replay = True\<rparr>"
    by (simp add: eq)
  show "\<forall>f \<in> set (refresh_families (store (snd (exchange_commit input user expected s)))).
           f_code_secret_hash f = Some (xi_secret_hash input) \<longrightarrow> f_revoked_at f \<noteq> None"
    unfolding eq using revoke_families_all [of "\<lambda>f. f_code_secret_hash f = Some (xi_secret_hash input)"
        "xi_now input" "''code_replay''" "store ?s1"]
    by (simp add: revoke_family_row_def)
qed

text \<open>
  C6. Replay detection: after an operation exchanged a code, and after any further calls that do not issue
  it again, every attempt to exchange it while its row is still stored (the purge keeps it until it
  expires) is refused as a replay and leaves every refresh-token family the code gave rise to
  revoked.
\<close>

theorem code_replay_revokes:
  assumes "user_wf s" and "exchange_wins h x s" and "list_all (issues_none h) later"
    and "s2 = fold user_step later (user_step x s)"
    and "xi_secret_hash input = h"
    and "codeRow h (store (purgeIfDue (xi_now input) PURGE_GRACE_SECONDS s2)) \<noteq> None"
  shows "fst (exchange_commit input user expected s2) =
           Fail \<lparr>xf_error = Invalid_grant, xf_replay = True\<rparr> \<and>
         (\<forall>f \<in> set (refresh_families (store (snd (exchange_commit input user expected s2)))).
            f_code_secret_hash f = Some h \<longrightarrow> f_revoked_at f \<noteq> None)"
proof -
  obtain code where code: "codeRow h (store (purgeIfDue (xi_now input) PURGE_GRACE_SECONDS s2)) = Some code"
    using assms(6) by blast
  have "code_spent h (user_step x s)" by (rule code_once.wins_spends [OF assms(1,2)])
  then have "code_spent h s2"
    unfolding assms(4) by (rule code_once.dead_run [OF user_step_wf [OF assms(1)] assms(3)])
  moreover have "code \<in> set (auth_codes (store s2))" "c_secret_hash code = h"
    using codeRow_mem [OF code] purgeIfDue_codes by blast+
  ultimately have spent: "c_consumed_at code \<noteq> None"
    by (simp add: code_spent_def list_all_iff)
  show ?thesis
    using exchange_replay [OF code [folded assms(5)] spent] unfolding assms(5) by blast
qed

theorem code_replay_revokes_witness:
  "fst (exchange_commit ex_exchange ex_user None (after rotate_ops)) =
     Fail \<lparr>xf_error = Invalid_grant, xf_replay = True\<rparr> \<and>
   \<not> (\<exists>f \<in> set (refresh_families (store (snd (exchange_commit ex_exchange ex_user None (after rotate_ops))))).
        f_code_secret_hash f = Some [1] \<and> f_revoked_at f = None)"
proof -
  have wf: "user_wf (after login_ops)" by (rule user_object.inv_run [OF user_wf_empty])
  have wins: "exchange_wins [1] (Exchange ex_exchange ex_user (Some ''AQID'')) (after login_ops)" by code_simp
  have ok: "list_all (issues_none [1]) [Rotate ex_rotate]" by code_simp
  have run: "after rotate_ops = fold user_step [Rotate ex_rotate]
     (user_step (Exchange ex_exchange ex_user (Some ''AQID'')) (after login_ops))"
    by (simp add: rotate_ops_def exchange_ops_def)
  have h: "xi_secret_hash ex_exchange = [1]" by (simp add: ex_exchange_def)
  have row: "codeRow [1] (store (purgeIfDue (xi_now ex_exchange) PURGE_GRACE_SECONDS (after rotate_ops))) \<noteq> None"
    by code_simp
  from code_replay_revokes [OF wf wins ok run h row] show ?thesis by blast
qed



section \<open>Issue and exchange\<close>

lemma finalizeLogin_OkE:
  assumes "finalizeLogin input s = (Ok out, s')"
  obtains user tb session where "readUser (store s) = Some user" and "u_disabled_at user = None"
    and "settle_session input (store (purgeIfDue (fi_now input) PURGE_GRACE_SECONDS (migrate s))) =
           Ok (fo_sid out, tb)"
    and "sessionRow (fo_sid out) tb = Some session"
    and "case fi_code input of None \<Rightarrow> store s' = tb
         | Some code \<Rightarrow> adminAllowed user (ci_scope code) \<and>
             issueCodeRows code session (fi_now input) (fi_session_idle_ttl input) tb = Some (store s')"
    and "\<And>c. fi_client input = Some c \<Longrightarrow> allowed user c"
proof -
  obtain user where user: "readUser (store s) = Some user"
    using assms unfolding finalizeLogin_def by (rule guarded_OkE)
  let ?tb0 = "store (purgeIfDue (fi_now input) PURGE_GRACE_SECONDS (migrate s))"
  have "readUser (store (migrate s)) = Some user" using user by (simp add: readUser_def)
  note run = assms [unfolded finalizeLogin_def guarded_def guard_def Let_def this]
  obtain sid tb where settle: "settle_session input ?tb0 = Ok (sid, tb)"
    using run by (auto simp: transactionSync_def split: if_splits do_result.splits)
  obtain session where session: "sessionRow sid tb = Some session"
    using run settle by (auto simp: transactionSync_def split: if_splits option.splits)
  have sid: "fo_sid out = sid"
    using run settle session by (auto simp: transactionSync_def split: if_splits option.splits)
  show ?thesis
    by (rule that [OF user _ _ _ _ _, of tb session])
       (use run settle session sid in \<open>auto simp: transactionSync_def split: if_splits option.splits\<close>)
qed

definition ttls_ok :: "finalize_input \<Rightarrow> bool" where
  "ttls_ok input \<longleftrightarrow> 0 \<le> fi_session_idle_ttl input \<and>
     (case fi_session input of
        Create_session new \<Rightarrow> 0 \<le> ns_idle_ttl new \<and> 0 \<le> ns_absolute_ttl new
      | _ \<Rightarrow> True)"

text \<open>A session that may still be used for a code issued at \<open>now\<close>.\<close>

definition usable :: "seconds \<Rightarrow> session_row \<Rightarrow> bool" where
  "usable now r \<longleftrightarrow> s_revoked_at r = None \<and> now \<le> s_idle_expires_at r \<and> now \<le> s_absolute_expires_at r"

lemma settle_session_usable:
  assumes "settle_session input tb0 = Ok (sid, tb)" and "sessionRow sid tb = Some session" and "ttls_ok input"
  shows "usable (fi_now input) session"
proof (cases "fi_session input")
  case (Create_session new)
  with assms(1) have sid: "sid = ns_sid new"
    and rows: "sessions tb = sessions tb0 @ [session_of new (fi_now input)]"
    and fresh: "\<forall>x \<in> set (sessions tb0). s_sid x \<noteq> ns_sid new"
    by (auto simp: settle_session_def insertSession_def insert_row_Some split: option.splits)
  from fresh have "select_one (\<lambda>r. s_sid r = ns_sid new) (sessions tb0) = None"
    by (simp add: select_one_None)
  with assms(2) sid rows have "session = session_of new (fi_now input)"
    by (simp add: sessionRow_def select_one_append session_of_def)
  with assms(3) Create_session show ?thesis
    by (simp add: usable_def session_of_def ttls_ok_def)
next
  case (Rotate_session sid0 hash auth)
  with assms(1) obtain existing where ex: "sessionRow sid tb0 = Some existing" and sid: "sid0 = sid"
    and live: "s_revoked_at existing = None" "fi_now input < s_absolute_expires_at existing"
    and tb: "sessions tb = update_where (\<lambda>r. s_sid r = sid)
        (rotate_session_row hash auth (fi_now input)
           (min (fi_now input + fi_session_idle_ttl input) (s_absolute_expires_at existing)))
        (sessions tb0)"
    by (auto simp: settle_session_def Let_def split: option.splits if_splits)
  have "session = rotate_session_row hash auth (fi_now input)
           (min (fi_now input + fi_session_idle_ttl input) (s_absolute_expires_at existing)) existing"
    using assms(2) ex sessionRow_mem [OF ex]
    unfolding sessionRow_def tb by (simp add: select_one_update_where rotate_session_row_def)
  with live assms(3) show ?thesis by (simp add: usable_def rotate_session_row_def ttls_ok_def)
qed


lemma touchSession_usable:
  assumes "session \<in> set (sessions tb)" and "usable now session" and "0 \<le> idleTtl"
  shows "\<exists>r \<in> set (sessions (touchSession session now idleTtl tb)). s_sid r = s_sid session \<and> usable now r"
proof (cases "now - s_last_seen_at session < SESSION_TOUCH_INTERVAL_SECONDS")
  case True
  with assms show ?thesis by (auto simp: touchSession_def)
next
  case False
  let ?r = "session\<lparr>s_last_seen_at := now,
              s_idle_expires_at := min (now + idleTtl) (s_absolute_expires_at session)\<rparr>"
  from False assms(1) have "?r \<in> set (sessions (touchSession session now idleTtl tb))"
    by (auto simp: touchSession_def Let_def set_update_where intro!: image_eqI [of _ _ session])
  moreover have "s_sid ?r = s_sid session \<and> usable now ?r"
    using assms(2,3) by (simp add: usable_def)
  ultimately show ?thesis by blast
qed

lemma issueCodeRows_usable:
  assumes "issueCodeRows code session now idleTtl tb = Some tb'"
    and "session \<in> set (sessions tb)" and "usable now session" and "0 \<le> idleTtl"
  shows "code_of code session now \<in> set (auth_codes tb')"
    and "\<exists>r \<in> set (sessions tb'). s_sid r = s_sid session \<and> usable now r"
proof -
  obtain tb1 where tb1: "record_client (s_sid session) (ci_client_id code) now
        (tb\<lparr>auth_codes := auth_codes tb @ [code_of code session now]\<rparr>) = Some tb1"
    and tb': "tb' = touchSession session now idleTtl tb1"
    using assms(1) by (auto simp: issueCodeRows_def insert_row_Some split: option.splits)
  note f = record_client_fields [OF tb1]
  have "auth_codes tb' = auth_codes tb1"
    unfolding tb' by (simp add: touchSession_def Let_def)
  then show "code_of code session now \<in> set (auth_codes tb')" using f by simp
  show "\<exists>r \<in> set (sessions tb'). s_sid r = s_sid session \<and> usable now r"
    unfolding tb' by (rule touchSession_usable) (use f assms in auto)
qed

text \<open>
  The family id drawn for a refresh token is not in use. The exchange then succeeds exactly when the code is exchangeable,
  with a refresh token or without.
\<close>

definition family_unused :: "exchange_input \<Rightarrow> user_tables \<Rightarrow> bool" where
  "family_unused input tb \<longleftrightarrow>
     (case xi_refresh input of None \<Rightarrow> True | Some r \<Rightarrow> list_all (\<lambda>f. f_id f \<noteq> ri_family_id r) (refresh_families tb))"

lemma open_family_unused:
  assumes "tables_wf tb" and "list_all (\<lambda>f. f_id f \<noteq> ri_family_id r) (refresh_families tb)"
  shows "open_family input r code session (consume_code h now tb) \<noteq> None"
proof -
  have "t_family_id t \<noteq> ri_family_id r" if "t \<in> set (refresh_tokens tb)" for t
    using that assms by (auto simp: tables_wf_def tokens_wf_def list_all_iff)
  then show ?thesis
    using assms(2)
    by (auto simp: open_family_def family_of_def consume_code_def insert_token_def insert_row_def list_ex_iff list_all_iff Let_def)
qed

lemma purge_families: "set (refresh_families (store (purgeIfDue now w s))) \<subseteq> set (refresh_families (store s))"
  by (auto simp: purgeIfDue_def)

lemma exchange_commit_Ok:
  assumes "tables_wf (store (purgeIfDue (xi_now input) PURGE_GRACE_SECONDS s))"
    and "code \<in> set (auth_codes (store (purgeIfDue (xi_now input) PURGE_GRACE_SECONDS s)))"
    and "session \<in> set (sessions (store (purgeIfDue (xi_now input) PURGE_GRACE_SECONDS s)))"
    and "exchangeable input user expected code session" and "family_unused input (store s)"
  shows "\<exists>kind. fst (exchange_commit input user expected s) =
    Ok \<lparr>xo_grant = grantContext user (c_scope code) (Some (c_sid code)) (c_auth_time code)
                     (c_amr code) (c_acr code),
        xo_nonce = c_nonce code, xo_family_id = map_option ri_family_id (xi_refresh input), xo_kind = kind\<rparr>"
proof -
  let ?s = "purgeIfDue (xi_now input) PURGE_GRACE_SECONDS s"
  have c: "codeRow (xi_secret_hash input) (store ?s) = Some code"
    unfolding codeRow_def using assms(4)
    by (intro code_table.lookup assms(1,2)) (simp add: exchangeable_def)
  have r: "sessionRow (c_sid code) (store ?s) = Some session"
    unfolding sessionRow_def using assms(4)
    by (intro session_table.lookup assms(1,3)) (simp add: exchangeable_def)
  show ?thesis
  proof (cases "xi_refresh input")
    case None
    then show ?thesis using assms(4) c r by (simp add: exchange_commit_def Let_def exchangeable_def)
  next
    case (Some ri)
    have "list_all (\<lambda>f. f_id f \<noteq> ri_family_id ri) (refresh_families (store ?s))"
      using assms(5) Some purge_families [of "xi_now input" PURGE_GRACE_SECONDS s]
      by (auto simp: family_unused_def list_all_iff)
    from open_family_unused [OF assms(1) this]
    obtain tb where "open_family input ri code session (consume_code (xi_secret_hash input) (xi_now input) (store ?s)) = Some tb"
      by blast
    then show ?thesis using assms(4) c r Some by (simp add: exchange_commit_def Let_def exchangeable_def)
  qed
qed

lemma usable_survives:
  assumes "r \<in> set (sessions (store s))" and "usable now r" and "later < now + PURGE_GRACE_SECONDS"
  shows "r \<in> set (sessions (store (purgeIfDue later w s)))"
  using assms by (intro sessions_purgeIfDue)
    (auto simp: usable_def session_purgeable_def before_def PURGE_GRACE_SECONDS_def)

lemma code_survives:
  "c \<in> set (auth_codes (store s)) \<Longrightarrow> now \<le> c_expires_at c \<Longrightarrow>
   c \<in> set (auth_codes (store (purgeIfDue now w s)))"
  by (auto simp: purgeIfDue_def)

lemma admin_split_join:
  assumes "\<forall>w \<in> set ws. CHR '' '' \<notin> set w"
  shows "adminAllowed user (split_space (join_space ws)) \<longleftrightarrow> adminAllowed user ws"
  using assms by (cases "ws = []") (simp_all add: js_split_join adminAllowed_def)

text \<open>
  C24. Issue and exchange are inverse: when the exchange is the next call after the login that issued the code, made within
  the 60 seconds of the code by the client and with the redirect URI it was issued for and with its PKCE verifier, it
  succeeds, and returns the scope list, the nonce, the user and the session that were put into the code. If the client gets a
  refresh token, under a family id that is not in use, it is the family of that id.
\<close>

theorem code_round_trip:
  assumes "user_wf s" and "finalizeLogin fin s = (Ok out, s1)" and "fi_code fin = Some code"
    and "ttls_ok fin"
    and "\<forall>w \<in> set (ci_scope code). CHR '' '' \<notin> set w \<and> w \<noteq> []"
    and "readUser (store s) = Some user" and "allowed user (xi_client input)"
    and "xi_secret_hash input = ci_secret_hash code" and "xi_redirect_uri input = ci_redirect_uri code"
    and "cr_client_id (xi_client input) = ci_client_id code"
    and "pkce_ok (ci_code_challenge code) (xi_code_verifier input) expected"
    and "fi_now fin \<le> xi_now input" and "xi_now input < fi_now fin + 60" and "family_unused input (store s1)"
  shows "\<exists>r s2. exchange_commit input user expected s1 = (Ok r, s2) \<and>
           gc_scope (xo_grant r) = ci_scope code \<and> xo_nonce r = ci_nonce code \<and>
           gc_sid (xo_grant r) = Some (fo_sid out) \<and> gc_sub (xo_grant r) = u_id user \<and>
           xo_family_id r = map_option ri_family_id (xi_refresh input)"
proof -
  obtain tb session where user: "u_disabled_at user = None" "adminAllowed user (ci_scope code)"
    and settle: "settle_session fin (store (purgeIfDue (fi_now fin) PURGE_GRACE_SECONDS (migrate s))) =
           Ok (fo_sid out, tb)"
    and row: "sessionRow (fo_sid out) tb = Some session"
    and issue: "issueCodeRows code session (fi_now fin) (fi_session_idle_ttl fin) tb = Some (store s1)"
    using assms(2) by (rule finalizeLogin_OkE) (use assms(3,6) in auto)
  have ses: "session \<in> set (sessions tb)" "s_sid session = fo_sid out"
    using sessionRow_mem [OF row] by auto
  have "0 \<le> fi_session_idle_ttl fin" using assms(4) by (simp add: ttls_ok_def)
  note issued = issueCodeRows_usable [OF issue ses(1) settle_session_usable [OF settle row assms(4)] this]
  obtain r where r: "r \<in> set (sessions (store s1))" "s_sid r = s_sid session" "usable (fi_now fin) r"
    using issued(2) by blast
  let ?code = "code_of code session (fi_now fin)"
  let ?s2 = "purgeIfDue (xi_now input) PURGE_GRACE_SECONDS s1"
  have wf: "tables_wf (store ?s2)"
    using finalizeLogin_wf [OF assms(1), of fin] assms(2) by (intro user_wf_storeD purgeIfDue_wf) simp
  have c: "?code \<in> set (auth_codes (store ?s2))"
    using issued(1) assms(13) by (intro code_survives) (simp_all add: code_of_def CODE_TTL_SECONDS_def)
  have r2: "r \<in> set (sessions (store ?s2))"
    using r assms(13) by (intro usable_survives) (auto simp: PURGE_GRACE_SECONDS_def)
  have "exchangeable input user expected ?code r"
    using assms r user ses
    by (simp add: exchangeable_def code_of_def CODE_TTL_SECONDS_def usable_def admin_split_join)
  from exchange_commit_Ok [OF wf c r2 this assms(14)] show ?thesis
    using assms(5) ses
    by (cases "exchange_commit input user expected s1")
       (auto simp: grantContext_def code_of_def tokens_join filter_True)
qed


theorem code_round_trip_witness:
  "\<exists>r s2. exchange_commit ex_exchange ex_user (Some ''AQID'')
            (snd (finalizeLogin ex_finalize (after [Init ex_profile0 900 []]))) = (Ok r, s2) \<and>
          gc_scope (xo_grant r) = [''openid'', ''offline_access''] \<and> xo_family_id r = Some ''f1''"
proof -
  let ?s = "after [Init ex_profile0 900 []]"
  have wf: "user_wf ?s" by (rule user_object.inv_run [OF user_wf_empty])
  have "is_ok (fst (finalizeLogin ex_finalize ?s))" by code_simp
  then obtain out s1 where fin: "finalizeLogin ex_finalize ?s = (Ok out, s1)" by (rule is_ok_pairE)
  have user: "readUser (store ?s) = Some ex_user" by code_simp
  have ttls: "ttls_ok ex_finalize" by code_simp
  have code: "fi_code ex_finalize = Some ex_code" by (simp add: ex_finalize_def)
  have pkce: "pkce_ok (ci_code_challenge ex_code) (xi_code_verifier ex_exchange) (Some ''AQID'')"
    by code_simp
  have may: "allowed ex_user (xi_client ex_exchange)" by code_simp
  have "family_unused ex_exchange (store (snd (finalizeLogin ex_finalize ?s)))" by code_simp
  then have unused: "family_unused ex_exchange (store s1)" unfolding fin by simp
  have "\<exists>r s2. exchange_commit ex_exchange ex_user (Some ''AQID'') s1 = (Ok r, s2) \<and>
           gc_scope (xo_grant r) = ci_scope ex_code \<and> xo_nonce r = ci_nonce ex_code \<and>
           gc_sid (xo_grant r) = Some (fo_sid out) \<and> gc_sub (xo_grant r) = u_id ex_user \<and>
           xo_family_id r = map_option ri_family_id (xi_refresh ex_exchange)"
    by (rule code_round_trip [OF wf fin code ttls _ user may _ _ _ pkce _ _ unused])
       (simp_all add: ex_code_def ex_exchange_def ex_client_def ex_finalize_def)
  then show ?thesis using fin by (auto simp: ex_code_def ex_exchange_def ex_refresh_def)
qed


section \<open>Authorization with an existing session\<close>

lemma liveSession_mem:
  "liveSession sid h now tb = Some r \<Longrightarrow>
   r \<in> set (sessions tb) \<and> s_sid r = sid \<and> s_secret_hash r = h \<and> s_revoked_at r = None \<and>
   now < s_idle_expires_at r \<and> now < s_absolute_expires_at r"
  using sessionRow_mem by (auto simp: liveSession_Some)

text \<open>The grant a consent decision rests on: it belongs to the client's present registration.\<close>

definition consented :: "client_ref \<Rightarrow> string list \<Rightarrow> user_tables \<Rightarrow> bool" where
  "consented client scope tb \<longleftrightarrow>
     list_ex (\<lambda>g. g_client_id g = cr_client_id client \<and> g_client_created_at g = cr_created_at client \<and>
                  set scope \<subseteq> set (g_scopes g)) (grants tb)"

lemma grantFor_Some:
  "fst (grantFor client tb) = Some g \<Longrightarrow>
   g \<in> set (grants tb) \<and> g_client_id g = cr_client_id client \<and> g_client_created_at g = cr_created_at client"
  by (auto simp: grantFor_def dest: select_one_SomeD split: option.splits if_splits)

lemma grantFor_covered:
  assumes "list_all (\<lambda>x. x \<in> set (case fst (grantFor client tb) of None \<Rightarrow> [] | Some g \<Rightarrow> g_scopes g)) scope"
    and "scope \<noteq> []"
  shows "consented client scope tb"
proof (cases "fst (grantFor client tb)")
  case None
  with assms show ?thesis by (cases scope) auto
next
  case (Some g)
  with assms(1) grantFor_Some [OF Some] show ?thesis
    by (auto simp: consented_def list_ex_iff list_all_iff)
qed

lemma authorize_requires:
  assumes "authorizeWithSession input s = (Ok out, s')" and "ao_outcome out = Authorized"
    and "ai_scope input \<noteq> []"
  shows "\<exists>user session.
    readUser (store s) = Some user \<and> session \<in> set (sessions (store s)) \<and>
    s_sid session = ai_sid input \<and> s_secret_hash session = ai_secret_hash input \<and>
    s_revoked_at session = None \<and> ai_now input < s_idle_expires_at session \<and>
    ai_now input < s_absolute_expires_at session \<and>
    u_disabled_at user = None \<and> allowed user (ai_client input) \<and> adminAllowed user (ai_scope input) \<and>
    \<not> ai_prompt_login input \<and>
    (\<forall>age. ai_max_age input = Some age \<longrightarrow> ai_now input < s_auth_time session + age) \<and>
    (cr_skip_consent (ai_client input) \<or>
       \<not> ai_prompt_consent input \<and> consented (ai_client input) (ai_scope input) (store s))"
proof -
  obtain user where user: "readUser (store s) = Some user"
    and run: "transactionSync (authorize_body input user) (migrate s) = (Ok out, s')"
    using assms(1) unfolding authorizeWithSession_def by (rule guarded_OkE)
  obtain session where live: "liveSession (ai_sid input) (ai_secret_hash input) (ai_now input) (store (migrate s)) = Some session"
    using run by (cases "liveSession (ai_sid input) (ai_secret_hash input) (ai_now input) (store (migrate s))")
      (auto simp: transactionSync_def authorize_body_def)
  have checks: "u_disabled_at user = None" "allowed user (ai_client input)" "adminAllowed user (ai_scope input)"
    using run live by (auto simp: transactionSync_def authorize_body_def split: if_splits)
  have fresh: "\<not> ai_prompt_login input" "\<not> stale session (ai_max_age input) (ai_now input)"
    using run live checks assms(2) by (auto simp: transactionSync_def authorize_body_def Let_def split: if_splits)
  have consent: "cr_skip_consent (ai_client input) \<or> \<not> ai_prompt_consent input \<and>
      list_all (\<lambda>x. x \<in> set (case fst (grantFor (ai_client input) (store (migrate s))) of
                       None \<Rightarrow> [] | Some g \<Rightarrow> g_scopes g)) (ai_scope input)"
    using run live checks fresh assms(2)
    by (auto simp: transactionSync_def authorize_body_def Let_def split_beta split: if_splits)
  then have "cr_skip_consent (ai_client input) \<or> \<not> ai_prompt_consent input \<and>
      consented (ai_client input) (ai_scope input) (store s)"
    using grantFor_covered [OF _ assms(3), of "ai_client input" "store (migrate s)"]
    unfolding consented_def migrate_fields by blast
  then show ?thesis
    using user liveSession_mem [OF live] checks fresh
    by (intro exI [of _ user] exI [of _ session]) (auto simp: stale_def)
qed


lemma authorize_needs_consent:
  assumes "authorizeWithSession input s = (Ok out, s')" and "ai_scope input \<noteq> []"
    and "\<not> cr_skip_consent (ai_client input)" and "\<not> consented (ai_client input) (ai_scope input) (store s)"
  shows "ao_outcome out \<noteq> Authorized"
  using authorize_requires [OF assms(1) _ assms(2)] assms(3,4) by blast

text \<open>
  C14. A session authorizes a request only when it is live and presented with its own secret, the user is
  enabled, belongs to the client's groups and, for the \<^verbatim>\<open>admin\<close> scope, to
  \<^verbatim>\<open>admins\<close>, no fresh login was asked for by \<^verbatim>\<open>prompt=login\<close> or \<^verbatim>\<open>max_age\<close>,
  and consent was either waived by the client's registration or given to this registration for every
  requested scope and not asked for again.
\<close>

theorem authorized_conditions:
  assumes "authorizeWithSession input s = (Ok out, s')" and "ao_outcome out = Authorized"
    and "ai_scope input \<noteq> []"
  shows "\<exists>user session.
    readUser (store s) = Some user \<and> session \<in> set (sessions (store s)) \<and>
    s_sid session = ai_sid input \<and> s_secret_hash session = ai_secret_hash input \<and>
    s_revoked_at session = None \<and> ai_now input < s_idle_expires_at session \<and>
    ai_now input < s_absolute_expires_at session \<and>
    u_disabled_at user = None \<and> allowed user (ai_client input) \<and> adminAllowed user (ai_scope input) \<and>
    \<not> ai_prompt_login input \<and>
    (\<forall>age. ai_max_age input = Some age \<longrightarrow> ai_now input < s_auth_time session + age) \<and>
    (cr_skip_consent (ai_client input) \<or>
       \<not> ai_prompt_consent input \<and> consented (ai_client input) (ai_scope input) (store s))"
  using assms by (rule authorize_requires)

theorem authorized_conditions_witness:
  "\<exists>out. fst (authorizeWithSession ex_authorize (after (login_ops @ [Grant_consent ex_strict_client [''openid''] 1005]))) = Ok out \<and>
         consented ex_strict_client [''openid''] (store (after (login_ops @ [Grant_consent ex_strict_client [''openid''] 1005])))"
proof -
  let ?s = "after (login_ops @ [Grant_consent ex_strict_client [''openid''] 1005])"
  have "case fst (authorizeWithSession ex_authorize ?s) of Ok out \<Rightarrow> ao_outcome out = Authorized | _ \<Rightarrow> False"
    by code_simp
  then obtain out s' where out: "authorizeWithSession ex_authorize ?s = (Ok out, s')"
    and auth: "ao_outcome out = Authorized"
    by (cases "authorizeWithSession ex_authorize ?s") (auto split: do_result.splits)
  have scope: "ai_scope ex_authorize \<noteq> []" by (simp add: ex_authorize_def)
  have client: "ai_client ex_authorize = ex_strict_client" "ai_scope ex_authorize = [''openid'']"
    "\<not> cr_skip_consent ex_strict_client"
    by (simp_all add: ex_authorize_def ex_strict_client_def)
  from authorized_conditions [OF out auth scope] have "consented ex_strict_client [''openid''] (store ?s)"
    unfolding client using client(3) by blast
  with out show ?thesis by simp
qed

end
