(* ===== verification/Token_Safety.thy ===== *)
theory Token_Safety
  imports Code_Safety
begin

text \<open>
  Refresh tokens (\<^verbatim>\<open>rotateRefreshToken\<close> of \<^verbatim>\<open>src/do/UserDO.ts\<close>): a token is rotated at
  most once, its reuse kills the family and the session it is bound to, a revoked family
  never yields again, and a rotation cannot widen the scope.
\<close>


section \<open>The successful rotation\<close>

text \<open>What a family and a token must satisfy to be rotated.\<close>

definition rotatable :: "rotate_input \<Rightarrow> user_row \<Rightarrow> family_row \<Rightarrow> token_row \<Rightarrow> bool" where
  "rotatable input user family token \<longleftrightarrow>
     f_id family = rt_family_id input \<and> family_live (rt_now input) family \<and>
     f_client_id family = cr_client_id (rt_client input) \<and>
     f_client_created_at family = cr_created_at (rt_client input) \<and>
     t_family_id token = f_id family \<and> t_secret_hash token = rt_secret_hash input \<and>
     t_serial token = f_current_serial family \<and>
     u_disabled_at user = None \<and> allowed user (rt_client input)"

definition rotated_scope :: "rotate_input \<Rightarrow> family_row \<Rightarrow> string list" where
  "rotated_scope input family =
     (case rt_requested_scope input of None \<Rightarrow> tokens (f_scope family) | Some req \<Rightarrow> req)"

lemma tokenRow_mem:
  "tokenRow fid h tb = Some t \<Longrightarrow> t \<in> set (refresh_tokens tb) \<and> t_family_id t = fid \<and> t_secret_hash t = h"
  by (auto simp: tokenRow_def dest: select_one_SomeD)

abbreviation rotate_purged :: "rotate_input \<Rightarrow> user_do \<Rightarrow> user_tables" where
  "rotate_purged input s \<equiv> store (purgeIfDue (rt_now input) (rt_reuse_window input) (migrate s))"

lemma rotate_OkE:
  assumes "rotateRefreshToken input s = (Ok r, s')"
  obtains user family token session where "readUser (store s) = Some user"
    and "family \<in> set (refresh_families (rotate_purged input s))"
    and "token \<in> set (refresh_tokens (rotate_purged input s))"
    and "rotatable input user family token"
    and "family_session family (rt_now input) (rotate_purged input s) = Some session"
    and "set (rotated_scope input family) \<subseteq> set (tokens (f_scope family))"
    and "adminAllowed user (rotated_scope input family)"
    and "advance_family input family session (rotate_purged input s) = Some (store s')"
    and "ro_serial r = f_current_serial family + 1"
    and "ro_grant r = grantContext user (join_space (rotated_scope input family)) (f_sid family)
                        (f_auth_time family) (f_amr family) (f_acr family)"
proof -
  obtain user where user: "readUser (store s) = Some user"
    and run: "transactionSync (rotate_body input user) (migrate s) = (Ok r, s')"
    using assms unfolding rotateRefreshToken_def by (rule guarded_OkE)
  let ?tb = "rotate_purged input s"
  note defs = transactionSync_def rotate_body_def Let_def
  obtain family where fam: "familyRow (rt_family_id input) ?tb = Some family"
    using run by (cases "familyRow (rt_family_id input) ?tb") (auto simp: defs)
  have live: "family_live (rt_now input) family"
    "f_client_id family = cr_client_id (rt_client input)"
    "f_client_created_at family = cr_created_at (rt_client input)"
    using run fam by (auto simp: defs family_live_def split: if_splits)
  note checks = live [unfolded family_live_def]
  obtain token where tok: "tokenRow (f_id family) (rt_secret_hash input) ?tb = Some token"
    using run fam checks by (cases "tokenRow (f_id family) (rt_secret_hash input) ?tb") (auto simp: defs)
  have "fst (detect_reuse family now st) \<noteq> Ok r" for now st
    by (auto simp: detect_reuse_def Let_def split_beta split: option.splits)
  moreover have "fst (rotate_body input user (migrate s)) = Ok r"
    using run by (metis fst_conv fst_transaction)
  ultimately have ser: "t_serial token = f_current_serial family"
    using fam checks tok by (auto simp: rotate_body_def Let_def split: if_splits)
  have usr: "u_disabled_at user = None" "allowed user (rt_client input)"
    using run fam checks tok ser by (auto simp: defs split: if_splits)
  obtain session where ses: "family_session family (rt_now input) ?tb = Some session"
    using run fam checks tok ser usr
    by (cases "family_session family (rt_now input) ?tb") (auto simp: defs)
  note known = fam checks tok ser usr ses
  have scope: "set (rotated_scope input family) \<subseteq> set (tokens (f_scope family))"
    using run known by (auto simp: defs rotated_scope_def list_all_iff split: if_splits option.splits)
  have admin: "adminAllowed user (rotated_scope input family)"
    using run known by (auto simp: defs rotated_scope_def split: if_splits option.splits)
  have fin: "advance_family input family session ?tb = Some (store s')"
    "ro_serial r = f_current_serial family + 1"
    "ro_grant r = grantContext user (join_space (rotated_scope input family)) (f_sid family)
                        (f_auth_time family) (f_amr family) (f_acr family)"
    using run known by (auto simp: defs rotated_scope_def split: if_splits option.splits)
  have "rotatable input user family token"
    using live familyRow_mem [OF fam] tokenRow_mem [OF tok] ser usr by (simp add: rotatable_def)
  then show ?thesis
    using that [OF user _ _ _ ses scope admin fin] familyRow_mem [OF fam] tokenRow_mem [OF tok] by blast
qed


section \<open>Single use\<close>

definition token_spent :: "string \<Rightarrow> bytes \<Rightarrow> user_do \<Rightarrow> bool" where
  "token_spent fid h s \<longleftrightarrow>
     list_all (\<lambda>t. t_family_id t = fid \<and> t_secret_hash t = h \<longrightarrow>
                   list_all (\<lambda>f. f_id f = fid \<longrightarrow> t_serial t < f_current_serial f) (refresh_families (store s)))
       (refresh_tokens (store s))"

definition rotate_wins :: "string \<Rightarrow> bytes \<Rightarrow> user_op \<Rightarrow> user_do \<Rightarrow> bool" where
  "rotate_wins fid h x s =
     (case x of
        Rotate input \<Rightarrow> rt_family_id input = fid \<and> rt_secret_hash input = h \<and>
                        is_ok (fst (rotateRefreshToken input s))
      | _ \<Rightarrow> False)"

text \<open>No operation of the run opens the family again or stores a token with that hash in it.\<close>

definition mints_none :: "string \<Rightarrow> bytes \<Rightarrow> user_op \<Rightarrow> bool" where
  "mints_none fid h x \<longleftrightarrow> fid \<notin> new_families x \<and> (fid, h) \<notin> new_tokens x"

lemma rotate_winsE:
  assumes "rotate_wins fid h x s"
  obtains input r where "x = Rotate input" and "rt_family_id input = fid" and "rt_secret_hash input = h"
    and "rotateRefreshToken input s = (Ok r, user_step x s)"
proof (cases x)
  case (Rotate input)
  with assms obtain r where r: "fst (rotateRefreshToken input s) = Ok r"
    and h: "rt_family_id input = fid" "rt_secret_hash input = h"
    by (auto simp: rotate_wins_def is_ok_conv)
  have "rotateRefreshToken input s = (Ok r, user_step x s)"
    unfolding Rotate by (rule prod_eqI) (simp_all add: r)
  then show ?thesis by (rule that [OF Rotate h])
qed (use assms in \<open>simp_all add: rotate_wins_def\<close>)

lemma purged_subset:
  "set (refresh_families (store (purgeIfDue now w s))) \<subseteq> set (refresh_families (store s))"
  "set (refresh_tokens (store (purgeIfDue now w s))) \<subseteq> set (refresh_tokens (store s))"
  by (auto simp: purgeIfDue_def purge_tables_def delete_sessions_def delete_families_def Let_def)

lemma touchSession_fields [simp]:
  "refresh_families (touchSession row now idleTtl tb) = refresh_families tb"
  "refresh_tokens (touchSession row now idleTtl tb) = refresh_tokens tb"
  "auth_codes (touchSession row now idleTtl tb) = auth_codes tb"
  by (simp_all add: touchSession_def Let_def)

lemma advance_family_after:
  assumes "advance_family input family session tb = Some tb'"
  shows "refresh_tokens tb' = refresh_tokens tb @
           [\<lparr>t_family_id = f_id family, t_secret_hash = rt_new_secret_hash input,
             t_serial = f_current_serial family + 1, t_created_at = rt_now input\<rparr>]"
    and "refresh_families tb' =
           update_where (\<lambda>f. f_id f = f_id family)
             (\<lambda>f. f\<lparr>f_current_serial := f_current_serial family + 1,
                   f_idle_expires_at := min (rt_now input + rt_idle_ttl input) (f_absolute_expires_at family)\<rparr>)
             (refresh_families tb)"
    and "\<forall>t \<in> set (refresh_tokens tb). \<not> (t_family_id t = f_id family \<and> t_secret_hash t = rt_new_secret_hash input)"
  using assms
  by (auto simp: advance_family_def insert_token_def insert_row_Some Let_def split: option.splits if_splits)

lemma rotation_spends:
  assumes "user_wf s" and "rotateRefreshToken input s = (Ok r, s')"
  shows "token_spent (rt_family_id input) (rt_secret_hash input) s'"
  using assms(2)
proof (rule rotate_OkE)
  fix user family token session
  let ?tb = "rotate_purged input s"
  assume token: "token \<in> set (refresh_tokens ?tb)" and rot: "rotatable input user family token"
    and adv: "advance_family input family session ?tb = Some (store s')"
  note after_adv = advance_family_after [OF adv]
  have wf: "tables_wf ?tb" using assms(1) by (intro user_wf_storeD purgeIfDue_wf) simp
  have serial: "f_current_serial f = f_current_serial family + 1"
    if "f \<in> set (refresh_families (store s'))" "f_id f = f_id family" for f
  proof -
    have "\<forall>f \<in> set (refresh_families (store s')). f_id f = f_id family \<longrightarrow> f_current_serial f = f_current_serial family + 1"
      unfolding after_adv(2) by (rule ball_update_where) simp_all
    with that show ?thesis by blast
  qed
  have same: "t_serial t = f_current_serial family"
    if "t \<in> set (refresh_tokens (store s'))" "t_family_id t = f_id family" "t_secret_hash t = rt_secret_hash input" for t
  proof -
    have "rt_secret_hash input \<noteq> rt_new_secret_hash input"
      using after_adv(3) token rot by (auto simp: rotatable_def)
    then have "t \<in> set (refresh_tokens ?tb)" using that after_adv(1) by auto
    then have "t = token"
      by (rule token_table.row_unique [OF wf _ token]) (use that rot in \<open>simp add: rotatable_def\<close>)
    then show ?thesis using rot by (simp add: rotatable_def)
  qed
  show ?thesis
    unfolding token_spent_def list_all_iff
    using same serial rot by (auto simp: rotatable_def)
qed

interpretation token_once:
  single_use user_step user_wf "mints_none fid h" "token_spent fid h" "rotate_wins fid h" for fid h
proof unfold_locales
  fix s x assume wf: "user_wf s" and ok: "mints_none fid h x" and spent: "token_spent fid h s"
  show "token_spent fid h (user_step x s)"
    unfolding token_spent_def list_all_iff
  proof (intro ballI impI)
    fix t f' assume t: "t \<in> set (refresh_tokens (store (user_step x s)))" "t_family_id t = fid \<and> t_secret_hash t = h"
      and f': "f' \<in> set (refresh_families (store (user_step x s)))" "f_id f' = fid"
    have "t \<in> set (refresh_tokens (store s))"
      using t ok by (intro token_origin [OF wf t(1)]) (auto simp: mints_none_def)
    moreover obtain f where f: "f \<in> set (refresh_families (store s))" "family_step f f'"
      using family_origin [OF wf f'(1)] f'(2) ok by (auto simp: mints_none_def)
    ultimately have "t_serial t < f_current_serial f"
      using spent t(2) f'(2) family_step_fields [OF f(2)] by (auto simp: token_spent_def list_all_iff)
    with family_step_fields [OF f(2)] show "t_serial t < f_current_serial f'" by simp
  qed
next
  fix s x assume "rotate_wins fid h x s"
  then show "\<not> token_spent fid h s"
  proof (rule rotate_winsE)
    fix input r assume h: "rt_family_id input = fid" "rt_secret_hash input = h"
      and run: "rotateRefreshToken input s = (Ok r, user_step x s)"
    from run show ?thesis
    proof (rule rotate_OkE)
      fix user family token session
      assume mem: "family \<in> set (refresh_families (rotate_purged input s))"
        "token \<in> set (refresh_tokens (rotate_purged input s))"
        and rot: "rotatable input user family token"
      have "family \<in> set (refresh_families (store s))" "token \<in> set (refresh_tokens (store s))"
        using subsetD [OF purged_subset(1) mem(1)] subsetD [OF purged_subset(2) mem(2)] by simp_all
      with rot h show ?thesis
        by (auto simp: token_spent_def list_all_iff rotatable_def
            intro!: bexI [of _ token] bexI [of _ family])
    qed
  qed
next
  fix s x assume wf: "user_wf s" and wins: "rotate_wins fid h x s"
  from wins show "token_spent fid h (user_step x s)"
    by (rule rotate_winsE) (use rotation_spends [OF wf] in blast)
qed

text \<open>
  C2. Single use of refresh tokens: whatever happened before, and however later calls interleave, a
  refresh token (a family id with a secret hash) is rotated at most once, as long as no later
  call stores the same token again.
\<close>

theorem token_rotated_at_most_once:
  assumes "list_all (mints_none fid h) later"
  shows "run_wins user_step (rotate_wins fid h) later (fold user_step earlier fresh_user_do) \<le> 1"
  using user_object.inv_run [OF user_wf_empty] assms by (rule token_once.at_most_once)

theorem token_rotated_at_most_once_witness:
  "run_wins user_step (rotate_wins ''f1'' [9])
     [Rotate ex_rotate, Guard, Rotate (ex_rotate\<lparr>rt_new_secret_hash := [11]\<rparr>)] (after exchange_ops) = 1"
proof -
  let ?xs = "[Rotate ex_rotate, Guard, Rotate (ex_rotate\<lparr>rt_new_secret_hash := [11]\<rparr>)]"
  have ok: "list_all (mints_none ''f1'' [9]) ?xs" by code_simp
  have "run_wins user_step (rotate_wins ''f1'' [9]) ?xs (after exchange_ops) \<le> 1"
    by (rule token_rotated_at_most_once [OF ok])
  moreover have "run_wins user_step (rotate_wins ''f1'' [9]) ?xs (after exchange_ops) > 0" by code_simp
  ultimately show ?thesis by linarith
qed



section \<open>Reuse\<close>

lemma revoke_families_keeps:
  "f' \<in> set (refresh_families (revoke_families P now reason tb)) \<Longrightarrow>
   \<exists>f \<in> set (refresh_families tb). family_step f f'"
  using revoke_families_calm [of tb P now reason] by (auto simp: evolve_def)

lemma revokeSessionRows_effect:
  "\<forall>r \<in> set (sessions (snd (revokeSessionRows sid now reason tb))). s_sid r = sid \<longrightarrow> s_revoked_at r \<noteq> None"
  "\<forall>f \<in> set (refresh_families (snd (revokeSessionRows sid now reason tb))).
     f_sid f = Some sid \<and> f_kind f = Session_family \<longrightarrow> f_revoked_at f \<noteq> None"
proof -
  have "\<forall>r \<in> set (update_where (\<lambda>r. s_sid r = sid \<and> s_revoked_at r = None)
      (revoke_session_row now reason) (sessions tb)). s_sid r = sid \<longrightarrow> s_revoked_at r \<noteq> None"
    by (rule ball_update_where) (simp_all add: revoke_session_row_def)
  then show "\<forall>r \<in> set (sessions (snd (revokeSessionRows sid now reason tb))). s_sid r = sid \<longrightarrow> s_revoked_at r \<noteq> None"
    by (simp add: revokeSessionRows_def revoke_families_def Let_def)
  show "\<forall>f \<in> set (refresh_families (snd (revokeSessionRows sid now reason tb))).
     f_sid f = Some sid \<and> f_kind f = Session_family \<longrightarrow> f_revoked_at f \<noteq> None"
    unfolding revokeSessionRows_def Let_def snd_conv
    by (rule revoke_families_all) (simp add: revoke_family_row_def)
qed

lemma revoked_family_stays:
  assumes "\<forall>f \<in> set (refresh_families tb). f_id f = fid \<longrightarrow> f_revoked_at f \<noteq> None" and "calm tb tb'"
  shows "\<forall>f \<in> set (refresh_families tb'). f_id f = fid \<longrightarrow> f_revoked_at f \<noteq> None"
proof (intro ballI impI)
  fix f' assume f': "f' \<in> set (refresh_families tb')" "f_id f' = fid"
  then obtain f where f: "f \<in> set (refresh_families tb)" "family_step f f'"
    using assms(2) by (auto simp: evolve_def)
  then show "f_revoked_at f' \<noteq> None"
    using assms(1) f'(2) family_step_fields [OF f(2)] by auto
qed

lemma detect_reuse_effect:
  shows "\<exists>e. fst (detect_reuse family now s) = Fail e \<and> rf_error e = Invalid_grant \<and> rf_reuse_detected e"
    and "\<forall>f \<in> set (refresh_families (store (snd (detect_reuse family now s)))).
           f_id f = f_id family \<longrightarrow> f_revoked_at f \<noteq> None"
    and "\<And>sid. f_sid family = Some sid \<Longrightarrow>
           (\<forall>r \<in> set (sessions (store (snd (detect_reuse family now s)))). s_sid r = sid \<longrightarrow> s_revoked_at r \<noteq> None) \<and>
           (\<forall>f \<in> set (refresh_families (store (snd (detect_reuse family now s)))).
              f_sid f = Some sid \<and> f_kind f = Session_family \<longrightarrow> f_revoked_at f \<noteq> None)"
proof -
  let ?tb = "revokeFamily (f_id family) now ''reuse'' (store s)"
  have fam: "\<forall>f \<in> set (refresh_families ?tb). f_id f = f_id family \<longrightarrow> f_revoked_at f \<noteq> None"
    unfolding revokeFamily_def by (rule revoke_families_all) (simp add: revoke_family_row_def)
  have fam2: "\<forall>f \<in> set (refresh_families (snd (revokeSessionRows sid now ''refresh_reuse'' ?tb))).
      f_id f = f_id family \<longrightarrow> f_revoked_at f \<noteq> None" for sid
    by (rule revoked_family_stays [OF fam revokeSessionRows_calm])
  show "\<exists>e. fst (detect_reuse family now s) = Fail e \<and> rf_error e = Invalid_grant \<and> rf_reuse_detected e"
    by (simp add: detect_reuse_def Let_def split_beta split: option.split)
  show "\<forall>f \<in> set (refresh_families (store (snd (detect_reuse family now s)))).
           f_id f = f_id family \<longrightarrow> f_revoked_at f \<noteq> None"
    using fam fam2 by (simp add: detect_reuse_def Let_def split_beta split: option.split)
  fix sid assume sid: "f_sid family = Some sid"
  show "(\<forall>r \<in> set (sessions (store (snd (detect_reuse family now s)))). s_sid r = sid \<longrightarrow> s_revoked_at r \<noteq> None) \<and>
           (\<forall>f \<in> set (refresh_families (store (snd (detect_reuse family now s)))).
              f_sid f = Some sid \<and> f_kind f = Session_family \<longrightarrow> f_revoked_at f \<noteq> None)"
    using revokeSessionRows_effect [of sid now "''refresh_reuse''" ?tb] sid
    by (simp add: detect_reuse_def Let_def split_beta)
qed

lemma rotate_reuse:
  assumes "readUser (store s) = Some user" and "\<not> destroyed s"
    and "familyRow (rt_family_id input) (rotate_purged input s) = Some family"
    and "family_live (rt_now input) family"
    and "f_client_id family = cr_client_id (rt_client input)"
    and "f_client_created_at family = cr_created_at (rt_client input)"
    and "tokenRow (f_id family) (rt_secret_hash input) (rotate_purged input s) = Some token"
    and "t_serial token < f_current_serial family"
  shows "rotateRefreshToken input s =
           detect_reuse family (rt_now input) (purgeIfDue (rt_now input) (rt_reuse_window input) (migrate s))"
proof -
  have "rotate_body input user (migrate s) =
     detect_reuse family (rt_now input) (purgeIfDue (rt_now input) (rt_reuse_window input) (migrate s))"
    using assms(3-8) by (simp add: rotate_body_def Let_def family_live_def)
  moreover have "readUser (store (migrate s)) = Some user"
    using assms(1) by (simp add: readUser_def)
  ultimately show ?thesis
    using assms(2) detect_reuse_effect(1) [of family "rt_now input"
        "purgeIfDue (rt_now input) (rt_reuse_window input) (migrate s)"]
    by (auto simp: rotateRefreshToken_def guarded_def guard_def Let_def transactionSync_def
        split: prod.splits do_result.splits)
qed

text \<open>
  C5. Reuse detection: presenting a refresh token that was already rotated, while its row is kept and its family
  is alive and belongs to the client, is reported as reuse and revokes the family; when the
  family is bound to a session, the session and every session-bound family of it are revoked too.
\<close>

theorem token_reuse_revokes:
  assumes "readUser (store s) = Some user" and "\<not> destroyed s" and "user_wf s"
    and "token_spent (rt_family_id input) (rt_secret_hash input) s"
    and "familyRow (rt_family_id input) (rotate_purged input s) = Some family"
    and "family_live (rt_now input) family"
    and "f_client_id family = cr_client_id (rt_client input)"
    and "f_client_created_at family = cr_created_at (rt_client input)"
    and "tokenRow (rt_family_id input) (rt_secret_hash input) (rotate_purged input s) \<noteq> None"
  shows "(\<exists>e s'. rotateRefreshToken input s = (Fail e, s') \<and> rf_reuse_detected e \<and>
            (\<forall>f \<in> set (refresh_families (store s')). f_id f = rt_family_id input \<longrightarrow> f_revoked_at f \<noteq> None) \<and>
            (\<forall>sid. f_sid family = Some sid \<longrightarrow>
               (\<forall>r \<in> set (sessions (store s')). s_sid r = sid \<longrightarrow> s_revoked_at r \<noteq> None) \<and>
               (\<forall>f \<in> set (refresh_families (store s')).
                  f_sid f = Some sid \<and> f_kind f = Session_family \<longrightarrow> f_revoked_at f \<noteq> None)))"
proof -
  obtain token where tok: "tokenRow (rt_family_id input) (rt_secret_hash input) (rotate_purged input s) = Some token"
    using assms(9) by blast
  have fam: "family \<in> set (refresh_families (store s))" "f_id family = rt_family_id input"
    using familyRow_mem [OF assms(5)] purged_subset(1) [of "rt_now input" "rt_reuse_window input" "migrate s"]
    by auto
  have "token \<in> set (refresh_tokens (store s))"
    using tokenRow_mem [OF tok] purged_subset(2) [of "rt_now input" "rt_reuse_window input" "migrate s"]
    by auto
  then have old: "t_serial token < f_current_serial family"
    using assms(4) fam tokenRow_mem [OF tok] by (auto simp: token_spent_def list_all_iff)
  let ?s1 = "purgeIfDue (rt_now input) (rt_reuse_window input) (migrate s)"
  have eq: "rotateRefreshToken input s = detect_reuse family (rt_now input) ?s1"
    by (rule rotate_reuse [OF assms(1,2,5,6,7,8) tok [folded fam(2)] old])
  note effect = detect_reuse_effect [where family = family and now = "rt_now input" and s = ?s1]
  obtain e where e: "fst (detect_reuse family (rt_now input) ?s1) = Fail e" "rf_reuse_detected e"
    using effect(1) by blast
  show ?thesis
    unfolding eq
    by (intro exI [of _ e] exI [of _ "snd (detect_reuse family (rt_now input) ?s1)"] conjI prod_eqI)
       (use e effect(2,3) fam(2) in simp_all)
qed

theorem token_reuse_revokes_witness:
  "\<exists>e s'. rotateRefreshToken ex_rotate (after rotate_ops) = (Fail e, s') \<and> rf_reuse_detected e \<and>
     (\<forall>f \<in> set (refresh_families (store s')). f_id f = ''f1'' \<longrightarrow> f_revoked_at f \<noteq> None)"
proof -
  let ?s = "after rotate_ops"
  obtain family where fam: "familyRow (rt_family_id ex_rotate) (rotate_purged ex_rotate ?s) = Some family"
    and live: "family_live (rt_now ex_rotate) family" "f_client_id family = cr_client_id (rt_client ex_rotate)"
      "f_client_created_at family = cr_created_at (rt_client ex_rotate)"
  proof -
    have "case familyRow (rt_family_id ex_rotate) (rotate_purged ex_rotate ?s) of None \<Rightarrow> False
          | Some f \<Rightarrow> family_live (rt_now ex_rotate) f \<and> f_client_id f = cr_client_id (rt_client ex_rotate) \<and>
              f_client_created_at f = cr_created_at (rt_client ex_rotate)"
      by code_simp
    then show thesis using that by (auto split: option.splits)
  qed
  have user: "readUser (store ?s) = Some ex_user" by code_simp
  have alive: "\<not> destroyed ?s" by code_simp
  have wf: "user_wf ?s" by (rule user_object.inv_run [OF user_wf_empty])
  have spent: "token_spent (rt_family_id ex_rotate) (rt_secret_hash ex_rotate) ?s" by code_simp
  have row: "tokenRow (rt_family_id ex_rotate) (rt_secret_hash ex_rotate) (rotate_purged ex_rotate ?s) \<noteq> None"
    by code_simp
  have "rt_family_id ex_rotate = ''f1''" by (simp add: ex_rotate_def)
  with token_reuse_revokes [OF user alive wf spent fam live row] show ?thesis by auto
qed



section \<open>Revoked families\<close>

definition family_dead :: "string \<Rightarrow> user_do \<Rightarrow> bool" where
  "family_dead fid s \<longleftrightarrow>
     list_all (\<lambda>f. f_id f = fid \<longrightarrow> f_revoked_at f \<noteq> None) (refresh_families (store s))"

definition opens_none :: "string \<Rightarrow> user_op \<Rightarrow> bool" where
  "opens_none fid x \<longleftrightarrow> fid \<notin> new_families x"

text \<open>An operation rotates some token of the family.\<close>

definition family_wins :: "string \<Rightarrow> user_op \<Rightarrow> user_do \<Rightarrow> bool" where
  "family_wins fid x s =
     (case x of
        Rotate input \<Rightarrow> rt_family_id input = fid \<and> is_ok (fst (rotateRefreshToken input s))
      | _ \<Rightarrow> False)"

interpretation family_death: absorbing user_step user_wf "opens_none fid" "family_dead fid" for fid
proof unfold_locales
  fix s x assume wf: "user_wf s" and ok: "opens_none fid x" and dead: "family_dead fid s"
  show "family_dead fid (user_step x s)"
    unfolding family_dead_def list_all_iff
  proof (intro ballI impI)
    fix f' assume f': "f' \<in> set (refresh_families (store (user_step x s)))" "f_id f' = fid"
    obtain f where f: "f \<in> set (refresh_families (store s))" "family_step f f'"
      using family_origin [OF wf f'(1)] f'(2) ok by (auto simp: opens_none_def)
    then show "f_revoked_at f' \<noteq> None"
      using dead f'(2) family_step_fields [OF f(2)] by (auto simp: family_dead_def list_all_iff)
  qed
qed

lemma rotate_familyE:
  assumes "rotateRefreshToken input s = (Ok r, s')"
  obtains f where "f \<in> set (refresh_families (store s))" and "f_id f = rt_family_id input"
    and "f_revoked_at f = None" and "gc_scope (ro_grant r) = rotated_scope input f"
    and "set (rotated_scope input f) \<subseteq> set (tokens (f_scope f))"
    and "gc_sid (ro_grant r) = f_sid f"
  using assms
proof (rule rotate_OkE)
  fix user family token session
  assume mem: "family \<in> set (refresh_families (rotate_purged input s))"
    and rot: "rotatable input user family token"
    and sub: "set (rotated_scope input family) \<subseteq> set (tokens (f_scope family))"
    and grant: "ro_grant r = grantContext user (join_space (rotated_scope input family)) (f_sid family)
                        (f_auth_time family) (f_amr family) (f_acr family)"
  have "\<forall>w \<in> set (rotated_scope input family). CHR '' '' \<notin> set w \<and> w \<noteq> []"
    using sub tokens_no_space by blast
  then have "tokens (join_space (rotated_scope input family)) = rotated_scope input family"
    by (subst tokens_join) (auto intro: filter_True)
  then show thesis
    using that [of family] subsetD [OF purged_subset(1) mem] rot sub grant
    by (simp add: rotatable_def family_live_def grantContext_def)
qed

lemma family_wins_alive: "family_wins fid x s \<Longrightarrow> \<not> family_dead fid s"
proof (cases x)
  case (Rotate input)
  assume wins: "family_wins fid x s"
  with Rotate have ok: "is_ok (fst (rotateRefreshToken input s))" and fid: "rt_family_id input = fid"
    by (auto simp: family_wins_def)
  from ok obtain r s' where "rotateRefreshToken input s = (Ok r, s')" by (rule is_ok_pairE)
  then show "\<not> family_dead fid s"
    by (rule rotate_familyE) (use fid in \<open>auto simp: family_dead_def list_all_iff\<close>)
qed (simp_all add: family_wins_def)

text \<open>
  Revocation of a refresh-token family is final: once every row of the family is revoked (by reuse,
  replay, logout, the administrator or the client), no sequence of calls rotates a token of it
  again, as long as no exchange opens a family with the same id.
\<close>

theorem revoked_family_never_rotates:
  assumes "user_wf s" and "family_dead fid s" and "list_all (opens_none fid) later"
  shows "run_wins user_step (family_wins fid) later s = 0"
  using assms
proof (induction later arbitrary: s)
  case (Cons x xs)
  then show ?case
    using family_wins_alive [of fid x s] family_death.dead_step [of s fid x] user_step_wf [of s x] by auto
qed simp

theorem revoked_family_never_rotates_witness:
  "run_wins user_step (family_wins ''f1'') [Rotate ex_rotate, Touch 1060 60, Rotate ex_rotate]
     (after (exchange_ops @ [Revoke_family ''f1'' 1020 ''logout'' None])) = 0"
proof (rule revoked_family_never_rotates)
  show "user_wf (after (exchange_ops @ [Revoke_family ''f1'' 1020 ''logout'' None]))"
    by (rule user_object.inv_run [OF user_wf_empty])
  show "family_dead ''f1'' (after (exchange_ops @ [Revoke_family ''f1'' 1020 ''logout'' None]))" by code_simp
  show "list_all (opens_none ''f1'') [Rotate ex_rotate, Touch 1060 60, Rotate ex_rotate]" by code_simp
qed


section \<open>Scope\<close>

definition family_scoped :: "string \<Rightarrow> string \<Rightarrow> user_do \<Rightarrow> bool" where
  "family_scoped fid scope s \<longleftrightarrow>
     list_all (\<lambda>f. f_id f = fid \<longrightarrow> f_scope f = scope) (refresh_families (store s))"

interpretation family_scope: absorbing user_step user_wf "opens_none fid" "family_scoped fid scope"
  for fid scope
proof unfold_locales
  fix s x assume wf: "user_wf s" and ok: "opens_none fid x" and dead: "family_scoped fid scope s"
  show "family_scoped fid scope (user_step x s)"
    unfolding family_scoped_def list_all_iff
  proof (intro ballI impI)
    fix f' assume f': "f' \<in> set (refresh_families (store (user_step x s)))" "f_id f' = fid"
    obtain f where f: "f \<in> set (refresh_families (store s))" "family_step f f'"
      using family_origin [OF wf f'(1)] f'(2) ok by (auto simp: opens_none_def)
    then show "f_scope f' = scope"
      using dead f'(2) family_step_fields [OF f(2)] by (auto simp: family_scoped_def list_all_iff)
  qed
qed

lemma open_family_families:
  assumes "open_family input r code session tb = Some tb'"
  obtains tb1 where "refresh_families tb1 = refresh_families tb @ [family_of input r code session]"
    and "tb' = limit_families (cr_client_id (xi_client input)) (xi_now input) tb1"
    and "\<forall>f \<in> set (refresh_families tb). f_id f \<noteq> ri_family_id r"
proof -
  let ?fam = "family_of input r code session"
  obtain rows tb1 where rows: "insert_row (\<lambda>f. f_id f = f_id ?fam) ?fam (refresh_families tb) = Some rows"
    and tb1: "insert_token \<lparr>t_family_id = ri_family_id r, t_secret_hash = ri_secret_hash r,
               t_serial = 1, t_created_at = xi_now input\<rparr> (tb\<lparr>refresh_families := rows\<rparr>) = Some tb1"
    and tb': "tb' = limit_families (cr_client_id (xi_client input)) (xi_now input) tb1"
    using assms by (auto simp: open_family_def Let_def split: option.splits)
  from rows have "rows = refresh_families tb @ [?fam]" "\<forall>f \<in> set (refresh_families tb). f_id f \<noteq> ri_family_id r"
    by (simp_all add: insert_row_Some)
  with insert_token_fields [OF tb1] tb' show ?thesis by (intro that [of tb1]) simp_all
qed

lemma limit_families_origin:
  "f \<in> set (refresh_families (limit_families cid now tb)) \<Longrightarrow> \<exists>f0 \<in> set (refresh_families tb). family_step f0 f"
  using limit_families_calm [of tb cid now] by (simp add: evolve_def)

lemma open_family_scoped:
  assumes "open_family input r code session tb = Some tb'" and "f \<in> set (refresh_families tb')"
    and "f_id f = ri_family_id r"
  shows "f_scope f = c_scope code"
  using assms(1)
proof (rule open_family_families)
  fix tb1 assume tb1: "refresh_families tb1 = refresh_families tb @ [family_of input r code session]"
    and tb': "tb' = limit_families (cr_client_id (xi_client input)) (xi_now input) tb1"
    and fresh: "\<forall>f \<in> set (refresh_families tb). f_id f \<noteq> ri_family_id r"
  obtain f0 where f0: "f0 \<in> set (refresh_families tb1)" "family_step f0 f"
    using limit_families_origin [OF assms(2) [unfolded tb']] by blast
  have "f_id f0 = ri_family_id r" using family_step_fields [OF f0(2)] assms(3) by argo
  then have "f0 = family_of input r code session" using fresh f0(1) unfolding tb1 by auto
  then show ?thesis using family_step_fields [OF f0(2)] by simp
qed

text \<open>
  C25. A refresh never widens the scope: whatever calls run between the exchange that opened a family and a
  rotation of one of its tokens, the rotation grants a subset of the scope the exchange granted, which
  was the code's.
\<close>

theorem refresh_never_widens:
  assumes "user_wf s" and "exchange_commit xin user expected s = (Ok xr, s1)"
    and "xo_family_id xr = Some fid" and "list_all (opens_none fid) later"
    and "rt_family_id rin = fid"
    and "rotateRefreshToken rin (fold user_step later s1) = (Ok rr, s2)"
  shows "set (gc_scope (ro_grant rr)) \<subseteq> set (gc_scope (xo_grant xr))"
  using assms(2)
proof (rule exchange_commit_OkE)
  fix code session
  assume grant: "xo_grant xr = grantContext user (c_scope code) (Some (c_sid code)) (c_auth_time code)
                        (c_amr code) (c_acr code)"
    and fin: "case xi_refresh xin of
           None \<Rightarrow> xo_family_id xr = None \<and>
             store s1 = consume_code (xi_secret_hash xin) (xi_now xin)
                          (store (purgeIfDue (xi_now xin) PURGE_GRACE_SECONDS s))
         | Some ri \<Rightarrow> xo_family_id xr = Some (ri_family_id ri) \<and>
             open_family xin ri code session
               (consume_code (xi_secret_hash xin) (xi_now xin)
                  (store (purgeIfDue (xi_now xin) PURGE_GRACE_SECONDS s))) = Some (store s1)"
  then obtain ri where ri: "ri_family_id ri = fid" and fam: "open_family xin ri code session
               (consume_code (xi_secret_hash xin) (xi_now xin)
                  (store (purgeIfDue (xi_now xin) PURGE_GRACE_SECONDS s))) = Some (store s1)"
    using assms(3) by (auto split: option.splits)
  have "family_scoped fid (c_scope code) s1"
    using open_family_scoped [OF fam] ri by (auto simp: family_scoped_def list_all_iff)
  moreover have "user_wf s1"
    using exchange_commit_wf [OF assms(1), of xin user expected] assms(2) by simp
  ultimately have scoped: "family_scoped fid (c_scope code) (fold user_step later s1)"
    by (intro family_scope.dead_run assms(4))
  from assms(6) show ?thesis
    by (rule rotate_familyE)
       (use scoped assms(5) grant in \<open>auto simp: family_scoped_def list_all_iff grantContext_def\<close>)
qed


theorem refresh_never_widens_witness:
  "\<exists>xr rr. fst (exchange_commit ex_exchange ex_user (Some ''AQID'') (after login_ops)) = Ok xr \<and>
     fst (rotateRefreshToken (ex_rotate\<lparr>rt_requested_scope := Some [''openid'']\<rparr>) (after (exchange_ops @ [Guard]))) = Ok rr \<and>
     set (gc_scope (ro_grant rr)) \<subseteq> set (gc_scope (xo_grant xr))"
proof -
  let ?x = "exchange_commit ex_exchange ex_user (Some ''AQID'') (after login_ops)"
  let ?rin = "ex_rotate\<lparr>rt_requested_scope := Some [''openid'']\<rparr>"
  have wf: "user_wf (after login_ops)" by (rule user_object.inv_run [OF user_wf_empty])
  have "case fst ?x of Ok xr \<Rightarrow> xo_family_id xr = Some ''f1'' | _ \<Rightarrow> False" by code_simp
  then obtain xr where xr: "fst ?x = Ok xr" "xo_family_id xr = Some ''f1''"
    by (auto split: do_result.splits)
  have x: "?x = (Ok xr, snd ?x)" using xr(1) by (metis prod.collapse)
  have opens: "list_all (opens_none ''f1'') [Guard]" by code_simp
  have fid: "rt_family_id ?rin = ''f1''" by (simp add: ex_rotate_def)
  have "is_ok (fst (rotateRefreshToken ?rin (fold user_step [Guard] (snd ?x))))" by code_simp
  then obtain rr s2 where rr: "rotateRefreshToken ?rin (fold user_step [Guard] (snd ?x)) = (Ok rr, s2)"
    by (rule is_ok_pairE)
  have "fold user_step [Guard] (snd ?x) = after (exchange_ops @ [Guard])"
    by (simp add: exchange_ops_def)
  with refresh_never_widens [OF wf x xr(2) opens fid rr] xr(1) rr show ?thesis
    by (intro exI [of _ xr] exI [of _ rr]) simp
qed


section \<open>The limit of families per client\<close>

lemma filter_update_where:
  assumes "\<And>r. \<not> P (f r)"
  shows "filter P (update_where R f rows) = filter (\<lambda>r. P r \<and> \<not> R r) rows"
  using assms by (induction rows) (simp_all add: update_where_def)

lemma limit_families_live:
  "length (filter (\<lambda>f. f_client_id f = cid \<and> family_live now f) (refresh_families (limit_families cid now tb)))
     \<le> MAX_REFRESH_FAMILIES_PER_CLIENT"
proof -
  let ?P = "\<lambda>f. f_client_id f = cid \<and> family_live now f"
  let ?n = "MAX_REFRESH_FAMILIES_PER_CLIENT"
  let ?S = "rev (sort_key (\<lambda>f. (f_created_at f, f_id f)) (filter ?P (refresh_families tb)))"
  let ?R = "\<lambda>f. f_id f \<in> set (map f_id (drop ?n ?S))"
  have rows: "refresh_families (limit_families cid now tb) =
      update_where ?R (revoke_family_row now ''family_limit'') (refresh_families tb)"
    by (simp add: limit_families_def excess_families_def select_where_def Let_def)
  have "filter ?P (refresh_families (limit_families cid now tb)) =
        filter (\<lambda>f. ?P f \<and> \<not> ?R f) (refresh_families tb)"
    unfolding rows by (rule filter_update_where) (simp add: revoke_family_row_def family_live_def)
  also have "length \<dots> = length (filter (\<lambda>f. \<not> ?R f) ?S)"
    by (simp add: rev_filter [symmetric] filter_sort conj_commute del: set_map)
  also have "\<dots> = length (filter (\<lambda>f. \<not> ?R f) (take ?n ?S)) + length (filter (\<lambda>f. \<not> ?R f) (drop ?n ?S))"
    by (metis append_take_drop_id filter_append length_append)
  also have "filter (\<lambda>f. \<not> ?R f) (drop ?n ?S) = []"
    by (simp add: filter_empty_conv)
  also have "length (filter (\<lambda>f. \<not> ?R f) (take ?n ?S)) \<le> ?n"
    using length_filter_le [of "\<lambda>f. \<not> ?R f" "take ?n ?S"] by simp
  finally show ?thesis by simp
qed


text \<open>The exchange that opens a family, in terms of the family it opens.\<close>

lemma exchange_opens:
  assumes "exchange_commit input user expected s = (Ok r, s')" and "xi_refresh input = Some ri"
  obtains code session tb1 where
    "code \<in> set (auth_codes (store (purgeIfDue (xi_now input) PURGE_GRACE_SECONDS s)))"
    and "session \<in> set (sessions (store (purgeIfDue (xi_now input) PURGE_GRACE_SECONDS s)))"
    and "exchangeable input user expected code session"
    and "refresh_families tb1 = refresh_families (store (purgeIfDue (xi_now input) PURGE_GRACE_SECONDS s))
           @ [family_of input ri code session]"
    and "store s' = limit_families (cr_client_id (xi_client input)) (xi_now input) tb1"
  using assms(1)
proof (rule exchange_commit_OkE)
  fix code session
  assume c: "code \<in> set (auth_codes (store (purgeIfDue (xi_now input) PURGE_GRACE_SECONDS s)))"
    "session \<in> set (sessions (store (purgeIfDue (xi_now input) PURGE_GRACE_SECONDS s)))"
    "exchangeable input user expected code session"
    and fin: "case xi_refresh input of
           None \<Rightarrow> xo_family_id r = None \<and>
             store s' = consume_code (xi_secret_hash input) (xi_now input)
                          (store (purgeIfDue (xi_now input) PURGE_GRACE_SECONDS s))
         | Some ri \<Rightarrow> xo_family_id r = Some (ri_family_id ri) \<and>
             open_family input ri code session
               (consume_code (xi_secret_hash input) (xi_now input)
                  (store (purgeIfDue (xi_now input) PURGE_GRACE_SECONDS s))) = Some (store s')"
  from fin have "open_family input ri code session
               (consume_code (xi_secret_hash input) (xi_now input)
                  (store (purgeIfDue (xi_now input) PURGE_GRACE_SECONDS s))) = Some (store s')"
    using assms(2) by simp
  then show thesis
    by (rule open_family_families) (use that [OF c] in \<open>simp add: consume_code_fields\<close>)
qed

text \<open>
  Bound on refresh-token families: after a successful exchange that opens a family, the client holds at
  most 20 live families of the user; the oldest ones beyond that were revoked.
\<close>

theorem exchange_family_limit:
  assumes "exchange_commit input user expected s = (Ok r, s')" and "xi_refresh input = Some ri"
  shows "count_where (\<lambda>f. f_client_id f = cr_client_id (xi_client input) \<and> family_live (xi_now input) f)
           (refresh_families (store s')) \<le> 20"
  using assms
proof (rule exchange_opens)
  fix tb1 assume "store s' = limit_families (cr_client_id (xi_client input)) (xi_now input) tb1"
  then show ?thesis
    using limit_families_live [of "cr_client_id (xi_client input)" "xi_now input" tb1]
    by (simp add: count_where_def MAX_REFRESH_FAMILIES_PER_CLIENT_def)
qed

theorem exchange_family_limit_witness:
  "count_where (\<lambda>f. f_client_id f = ''web'' \<and> family_live 1010 f)
     (refresh_families (store (after exchange_ops))) \<le> 20"
proof -
  let ?x = "exchange_commit ex_exchange ex_user (Some ''AQID'') (after login_ops)"
  have "is_ok (fst ?x)" by code_simp
  then obtain r s' where x: "?x = (Ok r, s')" by (rule is_ok_pairE)
  have ri: "xi_refresh ex_exchange = Some ex_refresh" by (simp add: ex_exchange_def)
  have "after exchange_ops = snd ?x" by (simp add: exchange_ops_def)
  moreover have "xi_now ex_exchange = 1010" "cr_client_id (xi_client ex_exchange) = ''web''"
    by (simp_all add: ex_exchange_def ex_client_def)
  ultimately show ?thesis using exchange_family_limit [OF x ri] x by simp
qed

text \<open>
  A family that is not offline never outlives the session: unless the code's scope holds
  \<^verbatim>\<open>offline_access\<close> and the client may use it, the family is bound to the code's session and
  expires with it; its idle expiry never passes the absolute one.
\<close>

theorem opened_family_lifetime:
  assumes "exchange_commit input user expected s = (Ok r, s')" and "xi_refresh input = Some ri"
  shows "\<exists>session \<in> set (sessions (store s)). \<exists>f \<in> set (refresh_families (store s')).
    f_id f = ri_family_id ri \<and> f_current_serial f = 1 \<and>
    f_idle_expires_at f \<le> f_absolute_expires_at f \<and>
    (if ri_offline_allowed ri \<and> ''offline_access'' \<in> set (split_space (f_scope f))
     then f_kind f = Offline_family \<and> f_sid f = None \<and>
          f_absolute_expires_at f = xi_now input + ri_absolute_ttl ri
     else f_kind f = Session_family \<and> f_sid f = Some (s_sid session) \<and>
          f_absolute_expires_at f = s_absolute_expires_at session)"
  using assms
proof (rule exchange_opens)
  fix code session tb1
  let ?f = "family_of input ri code session"
  assume mem: "session \<in> set (sessions (store (purgeIfDue (xi_now input) PURGE_GRACE_SECONDS s)))"
    and ex: "exchangeable input user expected code session"
    and tb1: "refresh_families tb1 = refresh_families (store (purgeIfDue (xi_now input) PURGE_GRACE_SECONDS s)) @ [?f]"
    and s': "store s' = limit_families (cr_client_id (xi_client input)) (xi_now input) tb1"
  have ses: "session \<in> set (sessions (store s))" using subsetD [OF purgeIfDue_sessions mem] .
  let ?g = "revoke_family_row (xi_now input) ''family_limit''"
  have "?f \<in> set (refresh_families (store s')) \<or> ?g ?f \<in> set (refresh_families (store s'))"
    unfolding s' limit_families_def Let_def by (simp add: tb1 set_update_where)
  then obtain f where f: "f \<in> set (refresh_families (store s'))" "f = ?f \<or> f = ?g ?f" by blast
  have sid: "s_sid session = c_sid code" using ex by (simp add: exchangeable_def)
  have "f_id f = ri_family_id ri \<and> f_current_serial f = 1 \<and> f_idle_expires_at f \<le> f_absolute_expires_at f \<and>
    (if ri_offline_allowed ri \<and> ''offline_access'' \<in> set (split_space (f_scope f))
     then f_kind f = Offline_family \<and> f_sid f = None \<and>
          f_absolute_expires_at f = xi_now input + ri_absolute_ttl ri
     else f_kind f = Session_family \<and> f_sid f = Some (s_sid session) \<and>
          f_absolute_expires_at f = s_absolute_expires_at session)"
    using f(2) unfolding sid by (elim disjE) (simp_all add: family_of_def Let_def revoke_family_row_def)
  with ses f(1) show ?thesis by blast
qed

theorem opened_family_lifetime_witness:
  "\<exists>session \<in> set (sessions (store (after login_ops))).
     \<exists>f \<in> set (refresh_families (store (after exchange_ops))). f_id f = ''f1'' \<and> f_current_serial f = 1"
proof -
  let ?x = "exchange_commit ex_exchange ex_user (Some ''AQID'') (after login_ops)"
  have "is_ok (fst ?x)" by code_simp
  then obtain r s' where x: "?x = (Ok r, s')" by (rule is_ok_pairE)
  have ri: "xi_refresh ex_exchange = Some ex_refresh" by (simp add: ex_exchange_def)
  have "after exchange_ops = s'" using x by (simp add: exchange_ops_def)
  moreover have "ri_family_id ex_refresh = ''f1''" by (simp add: ex_refresh_def)
  ultimately show ?thesis using opened_family_lifetime [OF x ri] by auto
qed

end
