(* ===== verification/User_Frames.thy ===== *)
theory User_Frames
  imports User_Evolution Scenario
begin

text \<open>
  What the methods of \<^verbatim>\<open>src/do/UserDO.ts\<close> leave alone: only the profile methods write the user row,
  only the passkey and identity methods write the login methods, and a statement that
  violates a constraint rolls its whole transaction back.
\<close>


section \<open>The record tables\<close>

definition records :: "user_tables \<Rightarrow> user_row list \<times> passkey_row list \<times> identity_row list" where
  "records tb = (user_tbl tb, passkeys tb, identities tb)"

lemma records_update [simp]:
  "records (tb\<lparr>sessions := a\<rparr>) = records tb"
  "records (tb\<lparr>session_clients := b\<rparr>) = records tb"
  "records (tb\<lparr>auth_codes := c\<rparr>) = records tb"
  "records (tb\<lparr>refresh_families := d\<rparr>) = records tb"
  "records (tb\<lparr>refresh_tokens := e\<rparr>) = records tb"
  "records (tb\<lparr>grants := g\<rparr>) = records tb"
  "records (tb\<lparr>challenges := h\<rparr>) = records tb"
  "records (tb\<lparr>meta_passkey_attempts := i\<rparr>) = records tb"
  by (simp_all add: records_def)

lemma records_helpers [simp, frame]:
  "records (touchSession row now idleTtl tb) = records tb"
  "records (revoke_families P now reason tb) = records tb"
  "records (purge_tables now w tb) = records tb"
  "records (delete_families F tb) = records tb"
  "records (limit_families cid now tb) = records tb"
  "records (consume_code hash now tb) = records tb"
  "records (snd (grantFor client tb)) = records tb"
  "records (upsert_grant grant tb) = records tb"
  "records (snd (revokeSessionRows sid now reason tb)) = records tb"
  by (simp_all add: touchSession_def revoke_families_def limit_families_def consume_code_def
      grantFor_def upsert_grant_def revokeSessionRows_def delete_families_def Let_def split: option.split)
     (simp add: records_def)

lemma records_purgeIfDue [simp, frame]: "records (store (purgeIfDue now w s)) = records (store s)"
  by (simp add: purgeIfDue_def)

lemma records_migrate [simp, frame]: "records (store (migrate s)) = records (store s)"
  by (simp add: records_def)

lemma records_revoke_each [simp, frame]: "records (snd (revoke_each sids now reason tb)) = records tb"
  by (induction sids arbitrary: tb) (simp_all add: Let_def split_beta)

lemma records_list_grant_rows [simp, frame]: "records (snd (list_grant_rows clients rows tb)) = records tb"
  by (induction rows arbitrary: tb) (simp_all add: Let_def split_beta)

lemma records_issueCodeRows:
  "issueCodeRows code session now idleTtl tb = Some tb' \<Longrightarrow> records tb' = records tb"
  by (auto simp: issueCodeRows_def record_client_def split: option.splits if_splits)

lemma records_settle_session: "settle_session input tb = Ok (sid, tb') \<Longrightarrow> records tb' = records tb"
  by (auto simp: settle_session_def insertSession_def Let_def split: session_change.splits option.splits if_splits)

lemma records_open_family: "open_family input r code session tb = Some tb' \<Longrightarrow> records tb' = records tb"
  by (auto simp: open_family_def insert_token_def Let_def split: option.splits if_splits)

lemma records_advance_family: "advance_family input family session tb = Some tb' \<Longrightarrow> records tb' = records tb"
  by (auto simp: advance_family_def insert_token_def Let_def split: option.splits if_splits)


section \<open>Methods that write no record\<close>

lemma records_guarded:
  assumes "\<And>user s'. records (store (snd (body user s'))) = records (store s')"
  shows "records (store (snd (guarded err body s))) = records (store s)"
  using assms by (simp add: guarded_def guard_def Let_def split: option.split)

lemma records_transaction:
  assumes "records (store (snd (body s))) = records (store s)"
  shows "records (store (snd (transactionSync body s))) = records (store s)"
  using assms by (auto simp: transactionSync_def split: prod.splits do_result.splits)

lemma records_guarded_transaction:
  assumes "\<And>user s'. records (store (snd (body user s'))) = records (store s')"
  shows "records (store (snd (guarded err (\<lambda>user. transactionSync (body user)) s))) = records (store s)"
  using assms by (intro records_guarded records_transaction)

lemma records_issue_for_session: "records (store (snd (issue_for_session input session prof s))) = records (store s)"
  by (auto simp: issue_for_session_def Let_def dest: records_issueCodeRows split: option.splits)

lemma records_detect_reuse: "records (store (snd (detect_reuse family now s))) = records (store s)"
  by (simp add: detect_reuse_def Let_def split_beta revokeFamily_def split: option.split)

lemma records_authorize: "records (store (snd (authorizeWithSession input s))) = records (store s)"
  unfolding authorizeWithSession_def authorize_body_def
  by (rule records_guarded_transaction)
     (simp add: Let_def split_beta records_issue_for_session split: option.split)

lemma records_finalize: "records (store (snd (finalizeLogin input s))) = records (store s)"
  unfolding finalizeLogin_def
  by (rule records_guarded)
     (auto simp: Let_def intro!: records_transaction dest!: records_issueCodeRows records_settle_session
       split: option.split do_result.split prod.split)

lemma records_exchange: "records (store (snd (exchange_commit input user expected s))) = records (store s)"
  unfolding exchange_commit_def
  by (rule records_transaction)
     (auto simp: Let_def dest: records_open_family split: option.split)

lemma records_rotate: "records (store (snd (rotateRefreshToken input s))) = records (store s)"
  unfolding rotateRefreshToken_def rotate_body_def
  by (rule records_guarded_transaction)
     (auto simp: Let_def records_detect_reuse dest: records_advance_family split: option.split)

lemma records_revocations:
  "records (store (snd (revokeSession sid now reason s))) = records (store s)"
  "records (store (snd (revokeSessions except now reason s))) = records (store s)"
  "records (store (snd (revokeAll now reason s))) = records (store s)"
  "records (store (snd (revokeFamilyById fid now reason cid s))) = records (store s)"
  "records (store (snd (touch now w s))) = records (store s)"
  unfolding revokeSession_def revokeSessions_def revokeAll_def revokeFamilyById_def revokeFamily_def touch_def
  by (rule records_guarded_transaction, simp add: Let_def split_beta split: option.split)+

lemma records_revoke_counted: "records (store (snd (revoke_counted P now reason s))) = records (store s)"
  unfolding revoke_counted_def by (rule records_guarded) simp

lemma records_grants:
  "records (store (snd (grantConsent client scopes now s))) = records (store s)"
  "records (store (snd (listGrants clients s))) = records (store s)"
  "records (store (snd (revokeGrant client_id now s))) = records (store s)"
  "records (store (snd (takeChallenge key now s))) = records (store s)"
  unfolding grantConsent_def listGrants_def revokeGrant_def takeChallenge_def
  by (rule records_guarded_transaction, simp add: Let_def split_beta)+

lemma records_side:
  "records (store (snd (countPasskeyAttempt now s))) = records (store s)"
  "records (store (snd (putChallenge key value at s))) = records (store s)"
  unfolding countPasskeyAttempt_def putChallenge_def
  by (rule records_guarded, simp add: Let_def)+

lemma records_guard: "records (store (snd (guard s))) = records (store s)"
  by (simp add: guard_def Let_def split: option.split)

lemmas records_methods =
  records_authorize records_finalize records_exchange records_rotate records_revocations
  records_revoke_counted records_grants records_side records_guard


section \<open>The user row and the login methods across a step\<close>

lemma keeps_guarded:
  assumes "\<And>s'. g (store (migrate s')) = g (store s')" and "\<And>user s'. g (store (snd (body user s'))) = g (store s')"
  shows "g (store (snd (guarded err body s))) = g (store s)"
  using assms by (simp add: guarded_def guard_def Let_def split: option.split)

lemma keeps_transaction:
  assumes "g (store (snd (body s))) = g (store s)"
  shows "g (store (snd (transactionSync body s))) = g (store s)"
  using assms by (auto simp: transactionSync_def split: prod.splits do_result.splits)

lemma records_fields:
  "records a = records b \<Longrightarrow> user_tbl a = user_tbl b"
  "records a = records b \<Longrightarrow> passkeys a = passkeys b"
  "records a = records b \<Longrightarrow> identities a = identities b"
  by (simp_all add: records_def)

lemma insert_identity_side:
  "insert_identity i now tb = Some tb' \<Longrightarrow> user_tbl tb' = user_tbl tb \<and> passkeys tb' = passkeys tb"
  by (auto simp: insert_identity_def split: option.splits)

lemma user_tbl_passkeys:
  "user_tbl (store (snd (addPasskey p now n s))) = user_tbl (store s)"
  "user_tbl (store (snd (removePasskey pid actor s))) = user_tbl (store s)"
  "user_tbl (store (snd (renamePasskey pid name s))) = user_tbl (store s)"
  "user_tbl (store (snd (touchIdentity iss sub claims now s))) = user_tbl (store s)"
  "user_tbl (store (snd (removeIdentity iid actor s))) = user_tbl (store s)"
  "user_tbl (store (snd (addIdentity i now s))) = user_tbl (store s)"
  unfolding addPasskey_def removePasskey_def renamePasskey_def touchIdentity_def removeIdentity_def addIdentity_def
  by (rule keeps_guarded, simp, (rule keeps_transaction)?,
      auto simp: Let_def dest: insert_identity_side split: option.split)+

lemma user_tbl_assertion: "user_tbl (store (snd (assertion_commit user cid counter now s))) = user_tbl (store s)"
  unfolding assertion_commit_def by (rule keeps_transaction) (simp add: Let_def split: option.split)

lemma passkeys_identities:
  "passkeys (store (snd (touchIdentity iss sub claims now s))) = passkeys (store s)"
  "passkeys (store (snd (removeIdentity iid actor s))) = passkeys (store s)"
  "passkeys (store (snd (addIdentity i now s))) = passkeys (store s)"
  "passkeys (store (snd (setGroups groups now s))) = passkeys (store s)"
  "passkeys (store (snd (updateProfile patch now s))) = passkeys (store s)"
  unfolding touchIdentity_def removeIdentity_def addIdentity_def setGroups_def updateProfile_def update_user_def
  by (rule keeps_guarded, simp, (rule keeps_transaction)?,
      auto simp: Let_def dest: insert_identity_side split: option.split)+

lemma passkeys_setDisabled: "passkeys (store (snd (setDisabled at now s))) = passkeys (store s)"
proof -
  have "passkeys (snd (revoke_each sids n reason tb)) = passkeys tb" for sids n reason tb
    by (rule records_fields(2)) simp
  moreover have "passkeys (revoke_families P n reason tb) = passkeys tb" for P n reason tb
    by (rule records_fields(2)) simp
  ultimately show ?thesis
    unfolding setDisabled_def
    by (intro keeps_guarded keeps_transaction) (simp_all add: Let_def split_beta update_user_def)
qed

text \<open>The operations that may write the user row, and those that may write a passkey.\<close>

definition writes_user :: "user_op \<Rightarrow> bool" where
  "writes_user x =
     (case x of
        Init _ _ _ \<Rightarrow> True | Destroy \<Rightarrow> True | Set_groups _ _ \<Rightarrow> True | Set_disabled _ _ \<Rightarrow> True
      | Update_profile _ _ \<Rightarrow> True | _ \<Rightarrow> False)"

definition writes_passkeys :: "user_op \<Rightarrow> bool" where
  "writes_passkeys x =
     (case x of
        Init _ _ _ \<Rightarrow> True | Destroy \<Rightarrow> True | Add_passkey _ _ _ \<Rightarrow> True | Assertion _ _ _ _ \<Rightarrow> True
      | Remove_passkey _ _ \<Rightarrow> True | Rename_passkey _ _ \<Rightarrow> True | _ \<Rightarrow> False)"

lemma user_tbl_step: "\<not> writes_user x \<Longrightarrow> user_tbl (store (user_step x s)) = user_tbl (store s)"
  by (cases x)
     (simp_all add: writes_user_def user_tbl_passkeys user_tbl_assertion evict_def
       records_methods [THEN records_fields(1)] revokeSessionFamiliesOfClient_def revokeFamiliesOfClient_def)

lemma passkeys_step: "\<not> writes_passkeys x \<Longrightarrow> passkeys (store (user_step x s)) = passkeys (store s)"
  by (cases x)
     (simp_all add: writes_passkeys_def passkeys_identities passkeys_setDisabled evict_def
       records_methods [THEN records_fields(2)] revokeSessionFamiliesOfClient_def revokeFamiliesOfClient_def)

end
