(* ===== verification/Session_Safety.thy ===== *)
theory Session_Safety
  imports Token_Safety User_Frames
begin

text \<open>
  Sessions and the user's status (\<^verbatim>\<open>src/do/UserDO.ts\<close>): a revoked session never yields again,
  a session ends at its absolute expiry whatever touches it, a login over an
  existing session replaces its secret, and a disabled user obtains nothing.
\<close>


section \<open>Revoked sessions\<close>

definition session_dead :: "string \<Rightarrow> user_do \<Rightarrow> bool" where
  "session_dead sid s \<longleftrightarrow>
     list_all (\<lambda>r. s_sid r = sid \<longrightarrow> s_revoked_at r \<noteq> None) (sessions (store s))"

definition starts_none :: "string \<Rightarrow> user_op \<Rightarrow> bool" where
  "starts_none sid x \<longleftrightarrow> sid \<notin> new_sessions x"

text \<open>
  An operation obtains something through the session: an authorization, a renewed login, or tokens
  from a code or a refresh token bound to it.
\<close>

definition session_wins :: "string \<Rightarrow> user_op \<Rightarrow> user_do \<Rightarrow> bool" where
  "session_wins sid x s =
     (case x of
        Authorize input \<Rightarrow> ai_sid input = sid \<and> is_ok (fst (authorizeWithSession input s))
      | Finalize input \<Rightarrow>
          (case fi_session input of
             Rotate_session sid' _ _ \<Rightarrow> sid' = sid \<and> is_ok (fst (finalizeLogin input s))
           | _ \<Rightarrow> False)
      | Exchange input user expected \<Rightarrow>
          (case fst (exchange_commit input user expected s) of
             Ok r \<Rightarrow> gc_sid (xo_grant r) = Some sid | _ \<Rightarrow> False)
      | Rotate input \<Rightarrow>
          (case fst (rotateRefreshToken input s) of
             Ok r \<Rightarrow> gc_sid (ro_grant r) = Some sid | _ \<Rightarrow> False)
      | _ \<Rightarrow> False)"

interpretation session_death: absorbing user_step user_wf "starts_none sid" "session_dead sid" for sid
proof unfold_locales
  fix s x assume wf: "user_wf s" and ok: "starts_none sid x" and dead: "session_dead sid s"
  show "session_dead sid (user_step x s)"
    unfolding session_dead_def list_all_iff
  proof (intro ballI impI)
    fix r' assume r': "r' \<in> set (sessions (store (user_step x s)))" "s_sid r' = sid"
    obtain r where r: "r \<in> set (sessions (store s))" "session_step r r'"
      using session_origin [OF wf r'(1)] r'(2) ok by (auto simp: starts_none_def)
    then show "s_revoked_at r' \<noteq> None"
      using dead r'(2) by (auto simp: session_dead_def list_all_iff session_step_def)
  qed
qed

text \<open>Each of these needs an unrevoked row of the session.\<close>

definition session_alive :: "string \<Rightarrow> user_do \<Rightarrow> bool" where
  "session_alive sid s \<longleftrightarrow> (\<exists>r \<in> set (sessions (store s)). s_sid r = sid \<and> s_revoked_at r = None)"

lemma authorize_liveE:
  assumes "authorizeWithSession input s = (Ok out, s')"
  obtains session where "liveSession (ai_sid input) (ai_secret_hash input) (ai_now input) (store s) = Some session"
proof -
  obtain user where run: "transactionSync (authorize_body input user) (migrate s) = (Ok out, s')"
    using assms unfolding authorizeWithSession_def by (rule guarded_OkE)
  have "liveSession (ai_sid input) (ai_secret_hash input) (ai_now input) (store (migrate s)) \<noteq> None"
    using run by (cases "liveSession (ai_sid input) (ai_secret_hash input) (ai_now input) (store (migrate s))")
      (auto simp: transactionSync_def authorize_body_def)
  moreover have "liveSession (ai_sid input) (ai_secret_hash input) (ai_now input) (store (migrate s)) =
     liveSession (ai_sid input) (ai_secret_hash input) (ai_now input) (store s)"
    by (rule liveSession_cong) simp
  ultimately show ?thesis using that by auto
qed

lemma authorize_alive: "authorizeWithSession input s = (Ok out, s') \<Longrightarrow> session_alive (ai_sid input) s"
  by (erule authorize_liveE, drule liveSession_mem) (auto simp: session_alive_def)

lemma finalize_rotate_alive:
  assumes "finalizeLogin input s = (Ok out, s')" and "fi_session input = Rotate_session sid h auth"
  shows "session_alive sid s"
  using assms(1)
proof (rule finalizeLogin_OkE)
  fix tb assume "settle_session input (store (purgeIfDue (fi_now input) PURGE_GRACE_SECONDS (migrate s))) = Ok (fo_sid out, tb)"
  then obtain r where "sessionRow sid (store (purgeIfDue (fi_now input) PURGE_GRACE_SECONDS (migrate s))) = Some r"
    and "s_revoked_at r = None"
    using assms(2) by (auto simp: settle_session_def split: option.splits if_splits)
  then show ?thesis
    using subsetD [OF purgeIfDue_sessions, of r "fi_now input" PURGE_GRACE_SECONDS "migrate s"]
      sessionRow_mem by (auto simp: session_alive_def)
qed

lemma exchange_alive:
  assumes "exchange_commit input user expected s = (Ok r, s')" and "gc_sid (xo_grant r) = Some sid"
  shows "session_alive sid s"
  using assms(1)
proof (rule exchange_commit_OkE)
  fix code session
  assume mem: "session \<in> set (sessions (store (purgeIfDue (xi_now input) PURGE_GRACE_SECONDS s)))"
    and "exchangeable input user expected code session"
    and "xo_grant r = grantContext user (c_scope code) (Some (c_sid code)) (c_auth_time code) (c_amr code) (c_acr code)"
  then show ?thesis
    using subsetD [OF purgeIfDue_sessions mem] assms(2)
    by (auto simp: session_alive_def exchangeable_def grantContext_def)
qed

lemma rotate_alive:
  assumes "rotateRefreshToken input s = (Ok r, s')" and "gc_sid (ro_grant r) = Some sid"
  shows "session_alive sid s"
  using assms(1)
proof (rule rotate_OkE)
  fix user family token session
  assume ses: "family_session family (rt_now input) (rotate_purged input s) = Some session"
    and grant: "ro_grant r = grantContext user (join_space (rotated_scope input family)) (f_sid family)
                        (f_auth_time family) (f_amr family) (f_acr family)"
  then have "f_sid family = Some sid" using assms(2) by (simp add: grantContext_def)
  with ses obtain row where "sessionRow sid (rotate_purged input s) = Some row" "s_revoked_at row = None"
    by (auto simp: family_session_def split: option.splits if_splits)
  then show ?thesis
    using subsetD [OF purgeIfDue_sessions, of row "rt_now input" "rt_reuse_window input" "migrate s"]
      sessionRow_mem by (auto simp: session_alive_def)
qed

lemma session_wins_alive: "session_wins sid x s \<Longrightarrow> session_alive sid s"
proof (cases x)
  case (Authorize input)
  assume "session_wins sid x s"
  with Authorize show ?thesis
    by (auto simp: session_wins_def elim!: is_ok_pairE dest: authorize_alive)
next
  case (Finalize input)
  assume "session_wins sid x s"
  with Finalize show ?thesis
    by (auto simp: session_wins_def elim!: is_ok_pairE dest: finalize_rotate_alive split: session_change.splits)
next
  case (Exchange input user expected)
  assume "session_wins sid x s"
  with Exchange show ?thesis
    using exchange_alive [of input user expected s]
    by (cases "exchange_commit input user expected s") (auto simp: session_wins_def split: do_result.splits)
next
  case (Rotate input)
  assume "session_wins sid x s"
  with Rotate show ?thesis
    using rotate_alive [of input s]
    by (cases "rotateRefreshToken input s") (auto simp: session_wins_def split: do_result.splits)
qed (simp_all add: session_wins_def)

text \<open>
  C7. Revocation of a session is final: once a session is revoked, no sequence of calls authorizes a request with
  it, renews it, exchanges a code issued under it or rotates a refresh token bound to it, as
  long as no login creates a session with the same id.
\<close>

theorem revoked_session_yields_nothing:
  assumes "user_wf s" and "session_dead sid s" and "list_all (starts_none sid) later"
  shows "run_wins user_step (session_wins sid) later s = 0"
  using assms
proof (induction later arbitrary: s)
  case (Cons x xs)
  then have "\<not> session_wins sid x s"
    using session_wins_alive by (fastforce simp: session_alive_def session_dead_def list_all_iff)
  with Cons show ?case
    using session_death.dead_step [of s sid x] user_step_wf [of s x] by auto
qed simp

theorem revoked_session_yields_nothing_witness:
  "run_wins user_step (session_wins ''s1'') [Authorize ex_authorize, Exchange ex_exchange ex_user (Some ''AQID'')]
     (after (login_ops @ [Revoke_session ''s1'' 1005 ''logout''])) = 0"
proof (rule revoked_session_yields_nothing)
  show "user_wf (after (login_ops @ [Revoke_session ''s1'' 1005 ''logout'']))"
    by (rule user_object.inv_run [OF user_wf_empty])
  show "session_dead ''s1'' (after (login_ops @ [Revoke_session ''s1'' 1005 ''logout'']))" by code_simp
  show "list_all (starts_none ''s1'') [Authorize ex_authorize, Exchange ex_exchange ex_user (Some ''AQID'')]"
    by code_simp
qed



section \<open>Absolute expiry\<close>

definition session_capped :: "string \<Rightarrow> seconds \<Rightarrow> user_do \<Rightarrow> bool" where
  "session_capped sid T s \<longleftrightarrow>
     list_all (\<lambda>r. s_sid r = sid \<longrightarrow> s_absolute_expires_at r \<le> T) (sessions (store s))"

interpretation session_cap: absorbing user_step user_wf "starts_none sid" "session_capped sid T" for sid T
proof unfold_locales
  fix s x assume wf: "user_wf s" and ok: "starts_none sid x" and cap: "session_capped sid T s"
  show "session_capped sid T (user_step x s)"
    unfolding session_capped_def list_all_iff
  proof (intro ballI impI)
    fix r' assume r': "r' \<in> set (sessions (store (user_step x s)))" "s_sid r' = sid"
    obtain r where r: "r \<in> set (sessions (store s))" "session_step r r'"
      using session_origin [OF wf r'(1)] r'(2) ok by (auto simp: starts_none_def)
    then show "s_absolute_expires_at r' \<le> T"
      using cap r'(2) by (auto simp: session_capped_def list_all_iff session_step_def)
  qed
qed

text \<open>
  C26. A session ends at its absolute expiry: however often it is touched, renewed by a new login or
  used for codes and refreshes, no call at or after the expiry fixed when it was created
  finds it live, so neither \<^verbatim>\<open>getSession\<close> nor \<^verbatim>\<open>authorizeWithSession\<close> succeeds.
\<close>

theorem session_absolute_expiry:
  assumes "user_wf s" and "session_capped sid T s" and "list_all (starts_none sid) later"
    and "T \<le> now"
  shows "\<not> is_ok (fst (getSession sid h now (fold user_step later s))) \<and>
         (ai_sid input = sid \<and> ai_now input = now \<longrightarrow>
            \<not> is_ok (fst (authorizeWithSession input (fold user_step later s))))"
proof -
  let ?s = "fold user_step later s"
  have cap: "session_capped sid T ?s" by (rule session_cap.dead_run [OF assms(1,3,2)])
  have dead: "liveSession sid h now (store ?s) = None" for h
  proof (rule ccontr)
    assume "liveSession sid h now (store ?s) \<noteq> None"
    then obtain r where "liveSession sid h now (store ?s) = Some r" by blast
    from liveSession_mem [OF this] show False
      using cap assms(4) by (auto simp: session_capped_def list_all_iff)
  qed
  have "\<not> is_ok (fst (getSession sid h now ?s))"
  proof
    assume "is_ok (fst (getSession sid h now ?s))"
    then obtain out s' where "getSession sid h now ?s = (Ok out, s')" by (rule is_ok_pairE)
    then obtain user where "(case liveSession sid h now (store (migrate ?s)) of
         None \<Rightarrow> (Fail Session_invalid, migrate ?s)
       | Some session \<Rightarrow>
           if u_disabled_at user \<noteq> None then (Fail User_disabled, migrate ?s)
           else (Ok (snapshot session (store (migrate ?s)), profile user), migrate ?s)) = (Ok out, s')"
      unfolding getSession_def by (rule guarded_OkE)
    moreover have "liveSession sid h now (store (migrate ?s)) = liveSession sid h now (store ?s)"
      by (rule liveSession_cong) simp
    ultimately show False using dead [of h] by simp
  qed
  moreover have "\<not> is_ok (fst (authorizeWithSession input ?s))" if "ai_sid input = sid" "ai_now input = now"
    using that dead [of "ai_secret_hash input"] by (auto elim!: is_ok_pairE authorize_liveE)
  ultimately show ?thesis by blast
qed

theorem session_absolute_expiry_witness:
  "\<not> is_ok (fst (getSession ''s1'' [7] 90000 (fold user_step [Authorize ex_authorize] (after login_ops))))"
proof -
  have wf: "user_wf (after login_ops)" by (rule user_object.inv_run [OF user_wf_empty])
  have cap: "session_capped ''s1'' 87400 (after login_ops)" by code_simp
  have ok: "list_all (starts_none ''s1'') [Authorize ex_authorize]" by code_simp
  show ?thesis using session_absolute_expiry [OF wf cap ok, of 90000 "[7]"] by simp
qed


section \<open>Renewal of a session\<close>

text \<open>
  A login over an existing session replaces its secret: afterwards the session answers to the new secret
  and to no other, keeps its id and its absolute expiry, and carries the authentication of the
  new login.
\<close>

theorem renewal_replaces_secret:
  assumes "user_wf s" and "finalizeLogin input s = (Ok out, s')"
    and "fi_session input = Rotate_session sid hash auth" and "fi_code input = None"
  shows "fo_sid out = sid \<and>
    (\<exists>old \<in> set (sessions (store s)). s_sid old = sid \<and> s_revoked_at old = None \<and>
       (\<forall>r \<in> set (sessions (store s')). s_sid r = sid \<longrightarrow>
          s_absolute_expires_at r = s_absolute_expires_at old \<and> s_auth_time r = a_auth_time auth \<and>
          s_amr r = a_amr auth)) \<and>
    (\<forall>h now. liveSession sid h now (store s') \<noteq> None \<longrightarrow> h = hash)"
  using assms(2)
proof (rule finalizeLogin_OkE)
  fix user tb session
  let ?tb0 = "store (purgeIfDue (fi_now input) PURGE_GRACE_SECONDS (migrate s))"
  assume settle: "settle_session input ?tb0 = Ok (fo_sid out, tb)"
    and "case fi_code input of None \<Rightarrow> store s' = tb
         | Some code \<Rightarrow> adminAllowed user (ci_scope code) \<and>
             issueCodeRows code session (fi_now input) (fi_session_idle_ttl input) tb = Some (store s')"
  then have fin: "store s' = tb" using assms(4) by simp
  from settle assms(3) obtain old where old: "sessionRow sid ?tb0 = Some old" "s_revoked_at old = None"
    and sid: "fo_sid out = sid"
    and tb: "sessions tb = update_where (\<lambda>r. s_sid r = sid)
        (rotate_session_row hash auth (fi_now input)
           (min (fi_now input + fi_session_idle_ttl input) (s_absolute_expires_at old))) (sessions ?tb0)"
    by (auto simp: settle_session_def Let_def split: option.splits if_splits)
  have wf: "tables_wf ?tb0" using assms(1) by (intro user_wf_storeD purgeIfDue_wf) simp
  have mem: "old \<in> set (sessions ?tb0)" "s_sid old = sid" using sessionRow_mem [OF old(1)] by auto
  have same: "r = old" if "r \<in> set (sessions ?tb0)" "s_sid r = sid" for r
    by (rule session_table.row_unique [OF wf that(1) mem(1)]) (simp add: that(2) mem(2))
  have rows: "\<forall>r \<in> set (sessions tb). s_sid r = sid \<longrightarrow>
      s_absolute_expires_at r = s_absolute_expires_at old \<and> s_auth_time r = a_auth_time auth \<and>
      s_amr r = a_amr auth \<and> s_secret_hash r = hash"
    unfolding tb by (rule ball_update_where, drule (1) same) (simp_all add: rotate_session_row_def)
  have "old \<in> set (sessions (store s))" using subsetD [OF purgeIfDue_sessions mem(1)] by simp
  moreover have "h = hash" if "liveSession sid h now tb \<noteq> None" for h now
  proof -
    from that obtain r where "liveSession sid h now tb = Some r" by blast
    from liveSession_mem [OF this] rows show ?thesis by blast
  qed
  ultimately show ?thesis using sid mem(2) old(2) rows fin by blast
qed


definition ex_renew :: finalize_input where
  "ex_renew = \<lparr>fi_now = 1030, fi_session = Rotate_session ''s1'' [8] (ex_auth\<lparr>a_auth_time := 1030\<rparr>),
     fi_code = None, fi_client = None, fi_session_idle_ttl = 3600\<rparr>"

theorem renewal_replaces_secret_witness:
  "liveSession ''s1'' [8] 1040 (store (after (login_ops @ [Finalize ex_renew]))) \<noteq> None \<and>
   \<not> (\<exists>h now. liveSession ''s1'' h now (store (after (login_ops @ [Finalize ex_renew]))) \<noteq> None \<and> h \<noteq> [8])"
proof -
  let ?x = "finalizeLogin ex_renew (after login_ops)"
  have wf: "user_wf (after login_ops)" by (rule user_object.inv_run [OF user_wf_empty])
  have "is_ok (fst ?x)" by code_simp
  then obtain out s' where x: "?x = (Ok out, s')" by (rule is_ok_pairE)
  have ses: "fi_session ex_renew = Rotate_session ''s1'' [8] (ex_auth\<lparr>a_auth_time := 1030\<rparr>)"
    and code: "fi_code ex_renew = None"
    by (simp_all add: ex_renew_def)
  have s': "after (login_ops @ [Finalize ex_renew]) = s'" using x by simp
  have live: "liveSession ''s1'' [8] 1040 (store (after (login_ops @ [Finalize ex_renew]))) \<noteq> None" by code_simp
  from renewal_replaces_secret [OF wf x ses code] live show ?thesis unfolding s' by blast
qed


section \<open>Disabled users\<close>

lemma revoked_session_stays:
  assumes "r' \<in> set (sessions tb')" and "calm tb tb'"
  obtains r where "r \<in> set (sessions tb)" and "s_sid r' = s_sid r"
    and "s_revoked_at r \<noteq> None \<Longrightarrow> s_revoked_at r' \<noteq> None"
proof -
  from assms obtain r where r: "r \<in> set (sessions tb)" "session_step r r'"
    by (auto simp: evolve_def)
  then show ?thesis using that [of r] by (simp add: session_step_def)
qed

lemma revoke_each_listed:
  "\<forall>r \<in> set (sessions (snd (revoke_each sids now reason tb))). s_sid r \<in> set sids \<longrightarrow> s_revoked_at r \<noteq> None"
proof (induction sids arbitrary: tb)
  case (Cons sid sids)
  let ?tb = "snd (revokeSessionRows sid now reason tb)"
  show ?case
  proof (intro ballI impI)
    fix r' assume r': "r' \<in> set (sessions (snd (revoke_each (sid # sids) now reason tb)))" "s_sid r' \<in> set (sid # sids)"
    have mem: "r' \<in> set (sessions (snd (revoke_each sids now reason ?tb)))"
      using r'(1) by (simp add: Let_def split_beta)
    show "s_revoked_at r' \<noteq> None"
    proof (cases "s_sid r' \<in> set sids")
      case True
      with Cons.IH mem show ?thesis by blast
    next
      case False
      with r'(2) have sid: "s_sid r' = sid" by simp
      from mem revoke_each_calm show ?thesis
        by (rule revoked_session_stays) (use revokeSessionRows_effect(1) sid in auto)
    qed
  qed
qed simp

lemma revoke_each_all:
  assumes "\<forall>r \<in> set (sessions tb). s_revoked_at r = None \<longrightarrow> s_sid r \<in> set sids"
  shows "\<forall>r \<in> set (sessions (snd (revoke_each sids now reason tb))). s_revoked_at r \<noteq> None"
proof
  fix r' assume r': "r' \<in> set (sessions (snd (revoke_each sids now reason tb)))"
  from r' revoke_each_calm show "s_revoked_at r' \<noteq> None"
  proof (rule revoked_session_stays)
    fix r assume r: "r \<in> set (sessions tb)" "s_sid r' = s_sid r"
      and stays: "s_revoked_at r \<noteq> None \<Longrightarrow> s_revoked_at r' \<noteq> None"
    show ?thesis
    proof (cases "s_revoked_at r = None")
      case True
      with assms r have "s_sid r' \<in> set sids" by simp
      with revoke_each_listed r' show ?thesis by blast
    qed (rule stays)
  qed
qed

definition user_disabled :: "user_tables \<Rightarrow> bool" where
  "user_disabled tb = (case readUser tb of None \<Rightarrow> False | Some u \<Rightarrow> u_disabled_at u \<noteq> None)"

definition locked_out :: "user_do \<Rightarrow> bool" where
  "locked_out s \<longleftrightarrow>
     user_disabled (store s) \<and>
     list_all (\<lambda>r. s_revoked_at r \<noteq> None) (sessions (store s)) \<and>
     list_all (\<lambda>f. f_revoked_at f \<noteq> None) (refresh_families (store s))"

text \<open>The operation neither enables the user again nor destroys the object.\<close>

definition keeps_disabled :: "user_op \<Rightarrow> bool" where
  "keeps_disabled x = (case x of Set_disabled at _ \<Rightarrow> at \<noteq> None | Destroy \<Rightarrow> False | _ \<Rightarrow> True)"

text \<open>The operation authorizes a request, logs in, or yields tokens.\<close>

definition obtains_access :: "user_op \<Rightarrow> user_do \<Rightarrow> bool" where
  "obtains_access x s =
     (case x of
        Authorize input \<Rightarrow> is_ok (fst (authorizeWithSession input s))
      | Finalize input \<Rightarrow> is_ok (fst (finalizeLogin input s))
      | Exchange input user expected \<Rightarrow> is_ok (fst (exchange_commit input user expected s))
      | Rotate input \<Rightarrow> is_ok (fst (rotateRefreshToken input s))
      | _ \<Rightarrow> False)"

lemma update_user_disabled:
  "(\<And>r. u_disabled_at (f r) = u_disabled_at r) \<Longrightarrow> user_disabled (update_user uid f tb) = user_disabled tb"
  by (cases "user_tbl tb") (simp_all add: user_disabled_def readUser_def update_user_def)

lemma user_disabled_cong: "user_tbl tb = user_tbl tb' \<Longrightarrow> user_disabled tb = user_disabled tb'"
  by (simp add: user_disabled_def readUser_def)

lemma finalize_disabled:
  assumes "user_disabled (store s)"
  shows "\<not> is_ok (fst (finalizeLogin input s)) \<and> calm (store s) (store (snd (finalizeLogin input s)))"
proof (cases "destroyed s")
  case True
  then show ?thesis by (simp add: finalizeLogin_def guarded_def guard_def)
next
  case False
  obtain u where "readUser (store s) = Some u" "u_disabled_at u \<noteq> None"
    using assms by (auto simp: user_disabled_def split: option.splits)
  moreover from this have "readUser (store (migrate s)) = Some u" by (simp add: readUser_def)
  ultimately show ?thesis
    using False migrate_calm [of s] by (simp add: finalizeLogin_def guarded_def guard_def Let_def)
qed

text \<open>The storage API undoes the writes of a transaction whose closure throws.\<close>

lemma rollback_transaction: "fst (transactionSync body s) = Threw \<Longrightarrow> store (snd (transactionSync body s)) = store s"
  by (auto simp: transactionSync_def split: prod.splits do_result.splits)

lemma exchange_not_ok_calm:
  assumes "\<not> is_ok (fst (exchange_commit input user expected s))"
  shows "calm (store s) (store (snd (exchange_commit input user expected s)))"
proof (cases "fst (exchange_commit input user expected s)")
  case (Fail e)
  then show ?thesis
    using calm_then [OF purgeIfDue_calm revoke_families_calm] purgeIfDue_calm
    by (auto simp: exchange_commit_def transactionSync_def Let_def split: option.splits if_splits)
next
  case Threw
  then have "store (snd (exchange_commit input user expected s)) = store s"
    unfolding exchange_commit_def by (rule rollback_transaction)
  then show ?thesis by simp
qed (use assms in simp)


lemma locked_alive: "locked_out s \<Longrightarrow> \<not> session_alive sid s"
  by (auto simp: locked_out_def session_alive_def list_all_iff)

lemma locked_obtains_nothing:
  assumes "locked_out s"
  shows "\<not> obtains_access x s"
proof (cases x)
  case (Authorize input)
  then show ?thesis
    using locked_alive [OF assms] by (auto simp: obtains_access_def elim!: is_ok_pairE dest: authorize_alive)
next
  case (Finalize input)
  then show ?thesis
    using finalize_disabled assms by (simp add: obtains_access_def locked_out_def)
next
  case (Exchange input user expected)
  have "\<not> is_ok (fst (exchange_commit input user expected s))"
  proof
    assume "is_ok (fst (exchange_commit input user expected s))"
    then obtain r s' where r: "exchange_commit input user expected s = (Ok r, s')" by (rule is_ok_pairE)
    then obtain sid where "gc_sid (xo_grant r) = Some sid"
      by (rule exchange_commit_OkE) (simp add: grantContext_def)
    with exchange_alive [OF r] locked_alive [OF assms] show False by blast
  qed
  with Exchange show ?thesis by (simp add: obtains_access_def)
next
  case (Rotate input)
  have "family_dead fid s" for fid using assms by (auto simp: locked_out_def family_dead_def list_all_iff)
  then have "\<not> family_wins (rt_family_id input) x s" using family_wins_alive by blast
  with Rotate show ?thesis by (simp add: obtains_access_def family_wins_def)
qed (simp_all add: obtains_access_def)

lemma user_disabled_step:
  assumes "user_disabled (store s)" and "keeps_disabled x"
  shows "user_disabled (store (user_step x s))"
proof (cases "writes_user x")
  case False
  then show ?thesis using assms(1) user_disabled_cong [OF user_tbl_step] by simp
next
  case True
  have mig: "user_disabled (store (migrate s))" using assms(1) by (simp add: user_disabled_def readUser_def)
  then obtain u where u: "readUser (store (migrate s)) = Some u"
    by (auto simp: user_disabled_def split: option.splits)
  have set_off: "user_disabled (store (snd (setDisabled (Some at) now s)))" for at now
  proof -
    have "user_tbl (snd (revoke_each sids n reason tb)) = user_tbl tb" for sids n reason tb
      by (rule records_fields(1)) simp
    moreover have "user_tbl (revoke_families P n reason tb) = user_tbl tb" for P n reason tb
      by (rule records_fields(1)) simp
    ultimately show ?thesis
      using u assms(1) by (cases "user_tbl (store s)")
        (auto simp: setDisabled_def guarded_def guard_def Let_def split_beta transactionSync_def
          user_disabled_def readUser_def update_user_def)
  qed
  show ?thesis
    using True assms mig u set_off update_user_disabled
    by (cases x) (auto simp: writes_user_def keeps_disabled_def init_def Let_def setGroups_def
        updateProfile_def guarded_def guard_def)
qed

interpretation lockout: absorbing user_step user_wf keeps_disabled locked_out
proof unfold_locales
  fix s x assume wf: "user_wf s" and ok: "keeps_disabled x" and dead: "locked_out s"
  have "evolve UNIV {} {} UNIV (store s) (store (user_step x s))"
  proof (cases x)
    case (Finalize input)
    with dead finalize_disabled show ?thesis by (simp add: locked_out_def calm_evolve)
  next
    case (Exchange input user expected)
    then have "\<not> is_ok (fst (exchange_commit input user expected s))"
      using locked_obtains_nothing [OF dead, of x] by (simp add: obtains_access_def)
    with Exchange exchange_not_ok_calm show ?thesis by (simp add: calm_evolve)
  qed (rule evolve_mono [OF user_step_evolve [OF wf]]; simp add: new_defs)+
  note ev = this [unfolded evolve_def]
  have ses: "s_revoked_at r' \<noteq> None" if r': "r' \<in> set (sessions (store (user_step x s)))" for r'
  proof -
    obtain r where "r \<in> set (sessions (store s))" "session_step r r'" using ev r' by auto
    then show ?thesis using dead by (auto simp: locked_out_def list_all_iff session_step_def)
  qed
  have fam: "f_revoked_at f' \<noteq> None" if f': "f' \<in> set (refresh_families (store (user_step x s)))" for f'
  proof -
    obtain f where f: "f \<in> set (refresh_families (store s))" "family_step f f'" using ev f' by auto
    then show ?thesis
      using dead family_step_fields [OF f(2)] by (simp add: locked_out_def list_all_iff)
  qed
  show "locked_out (user_step x s)"
    using dead user_disabled_step [OF _ ok] ses fam unfolding locked_out_def list_all_iff by blast
qed

lemma setDisabled_locks:
  assumes "setDisabled (Some at) now s = (Ok out, s')"
  shows "locked_out s'"
proof -
  obtain user where user: "readUser (store s) = Some user" and alive: "\<not> destroyed s"
    using assms unfolding setDisabled_def by (rule guarded_OkE)
  let ?tb1 = "update_user (u_id user) (\<lambda>r. r\<lparr>u_disabled_at := Some at, u_updated_at := now\<rparr>) (store (migrate s))"
  let ?sids = "map s_sid (select_where (\<lambda>r. s_revoked_at r = None) (sessions ?tb1))"
  let ?tb2 = "snd (revoke_each ?sids now ''disabled'' ?tb1)"
  have "readUser (store (migrate s)) = Some user" using user by (simp add: readUser_def)
  then have s': "store s' = revoke_families (\<lambda>f. True) now ''disabled'' ?tb2"
    using assms alive
    by (auto simp: setDisabled_def guarded_def guard_def Let_def split_beta transactionSync_def)
  have "records (store s') = records ?tb1" unfolding s' by simp
  then have "user_tbl (store s') = user_tbl ?tb1" by (rule records_fields(1))
  moreover obtain rest where "user_tbl (store s) = user # rest"
    using user by (auto simp: readUser_def split: list.splits)
  ultimately have "user_disabled (store s')"
    by (simp add: user_disabled_def readUser_def update_user_def)
  moreover have "\<forall>r \<in> set (sessions ?tb2). s_revoked_at r \<noteq> None"
    by (rule revoke_each_all) auto
  moreover have "sessions (store s') = sessions ?tb2" unfolding s' by (simp add: revoke_families_def)
  moreover have "\<forall>f \<in> set (refresh_families (store s')). f_revoked_at f \<noteq> None"
    using revoke_families_all [of "\<lambda>f. True" now "''disabled''" ?tb2] unfolding s' by simp
  ultimately show ?thesis by (simp add: locked_out_def list_all_iff)
qed

text \<open>
  C3. Disabling a user takes effect at once and completely: after \<^verbatim>\<open>setDisabled\<close>, no sequence of
  calls authorizes a request, logs the user in, exchanges a code (not even one whose exchange was
  already under way with the user row read before) or rotates a refresh token, until the user
  is enabled again or the object is destroyed.
\<close>

theorem disabled_user_obtains_nothing:
  assumes "user_wf s" and "setDisabled (Some at) now s = (Ok out, s')" and "list_all keeps_disabled later"
  shows "run_wins user_step obtains_access later s' = 0"
proof -
  have "user_wf s'" using setDisabled_wf [OF assms(1), of "Some at" now] assms(2) by simp
  moreover have "locked_out s'" by (rule setDisabled_locks [OF assms(2)])
  ultimately show ?thesis
    using assms(3)
  proof (induction later arbitrary: s')
    case (Cons x xs)
    then show ?case
      using locked_obtains_nothing [of s' x] lockout.dead_step [of s' x] user_step_wf [of s' x] by auto
  qed simp
qed

theorem disabled_user_obtains_nothing_witness:
  "run_wins user_step obtains_access
     [Exchange ex_exchange ex_user (Some ''AQID''), Authorize ex_authorize, Finalize ex_renew, Set_groups [] 1010]
     (after (login_ops @ [Set_disabled (Some 1005) 1005])) = 0"
proof -
  have wf: "user_wf (after login_ops)" by (rule user_object.inv_run [OF user_wf_empty])
  have "is_ok (fst (setDisabled (Some 1005) 1005 (after login_ops)))" by code_simp
  then obtain out s' where x: "setDisabled (Some 1005) 1005 (after login_ops) = (Ok out, s')" by (rule is_ok_pairE)
  have ok: "list_all keeps_disabled
     [Exchange ex_exchange ex_user (Some ''AQID''), Authorize ex_authorize, Finalize ex_renew, Set_groups [] 1010]"
    by code_simp
  have "after (login_ops @ [Set_disabled (Some 1005) 1005]) = s'" using x by simp
  with disabled_user_obtains_nothing [OF wf x ok] show ?thesis by simp
qed

end
