(* ===== verification/Credential_Safety.thy ===== *)
theory Credential_Safety
  imports Session_Safety
begin

text \<open>
  Login methods, challenges, attempts and consent (\<^verbatim>\<open>src/do/UserDO.ts\<close>,
  \<^verbatim>\<open>counterPolicy\<close> of \<^verbatim>\<open>src/auth/passkey.ts\<close>): a user cannot remove the last way
  to log in, a challenge is taken once, a signature counter value is accepted once, attempts are bounded,
  consent accumulates and can be withdrawn.
\<close>


section \<open>Signature counters\<close>

text \<open>The counter of a credential has reached \<open>n\<close>.\<close>

definition counter_spent :: "string \<Rightarrow> int \<Rightarrow> user_do \<Rightarrow> bool" where
  "counter_spent cid n s \<longleftrightarrow>
     list_all (\<lambda>p. pk_credential_id p = cid \<longrightarrow> n \<le> pk_counter p) (passkeys (store s))"

definition assertion_wins :: "string \<Rightarrow> int \<Rightarrow> user_op \<Rightarrow> user_do \<Rightarrow> bool" where
  "assertion_wins cid n x s =
     (case x of
        Assertion user cid' counter now \<Rightarrow>
          cid' = cid \<and> counter = n \<and> n \<noteq> 0 \<and> is_ok (fst (assertion_commit user cid counter now s))
      | _ \<Rightarrow> False)"

text \<open>The credential is not registered anew.\<close>

definition registers_none :: "string \<Rightarrow> user_op \<Rightarrow> bool" where
  "registers_none cid x = (case x of Add_passkey p _ _ \<Rightarrow> np_credential_id p \<noteq> cid | _ \<Rightarrow> True)"

lemma insert_identities_passkeys: "passkeys (snd (insert_identities ids now tb)) = passkeys tb"
  by (induction ids arbitrary: tb) (auto dest: insert_identity_side split: option.splits)

lemma init_passkeys: "passkeys (store (snd (init prof now ids s))) = passkeys (store s)"
  by (auto simp: init_def insertUser_def transactionSync_def Let_def split_def insert_identities_passkeys
      split: option.splits do_result.splits)

lemma assertion_passkeys:
  "passkeys (store (snd (assertion_commit user cid counter now s))) =
     (case credentialRow cid (store s) of
        None \<Rightarrow> passkeys (store s)
      | Some row \<Rightarrow>
          if counterPolicy (pk_counter row) counter = Regression then passkeys (store s)
          else update_where (\<lambda>r. pk_id r = pk_id row)
                 (\<lambda>r. r\<lparr>pk_counter := counter, pk_last_used_at := Some now\<rparr>) (passkeys (store s)))"
  by (simp add: assertion_commit_def transactionSync_def Let_def split: option.split)

lemma credentialRow_mem: "credentialRow cid tb = Some p \<Longrightarrow> p \<in> set (passkeys tb) \<and> pk_credential_id p = cid"
  by (auto simp: credentialRow_def dest: select_one_SomeD)

lemma counterPolicy_le: "counterPolicy stored observed \<noteq> Regression \<Longrightarrow> stored \<le> observed"
  by (auto simp: counterPolicy_def split: if_splits)

lemma counter_dead_assertion:
  assumes wf: "user_wf s" and spent: "counter_spent cid n s"
  shows "counter_spent cid n (snd (assertion_commit user cid' counter now s))"
proof (cases "credentialRow cid' (store s)")
  case None
  with spent show ?thesis by (simp add: counter_spent_def assertion_passkeys)
next
  case (Some row)
  note row = credentialRow_mem [OF Some]
  have same: "r = row" if "r \<in> set (passkeys (store s))" "pk_id r = pk_id row" for r
    using row by (intro passkey_table.row_unique [OF user_wf_storeD [OF wf] that(1)]) (auto simp: that(2))
  show ?thesis
  proof (cases "counterPolicy (pk_counter row) counter = Regression")
    case True
    with Some spent show ?thesis by (simp add: counter_spent_def assertion_passkeys)
  next
    case False
    have "\<forall>p \<in> set (update_where (\<lambda>r. pk_id r = pk_id row)
        (\<lambda>r. r\<lparr>pk_counter := counter, pk_last_used_at := Some now\<rparr>) (passkeys (store s))).
        pk_credential_id p = cid \<longrightarrow> n \<le> pk_counter p"
    proof (rule ball_update_where)
      fix r assume "r \<in> set (passkeys (store s))" "pk_id r = pk_id row"
      then have "r = row" by (rule same)
      then show "pk_credential_id (r\<lparr>pk_counter := counter, pk_last_used_at := Some now\<rparr>) = cid \<longrightarrow>
          n \<le> pk_counter (r\<lparr>pk_counter := counter, pk_last_used_at := Some now\<rparr>)"
        using spent row counterPolicy_le [OF False] by (auto simp: counter_spent_def list_all_iff)
    qed (use spent in \<open>simp add: counter_spent_def list_all_iff\<close>)
    with Some False show ?thesis by (simp add: counter_spent_def list_all_iff assertion_passkeys)
  qed
qed

lemma passkeys_managed:
  "registers_none cid (Add_passkey p now m) \<Longrightarrow> counter_spent cid n s \<Longrightarrow>
     counter_spent cid n (snd (addPasskey p now m s))"
  "counter_spent cid n s \<Longrightarrow> counter_spent cid n (snd (removePasskey pid actor s))"
  "counter_spent cid n s \<Longrightarrow> counter_spent cid n (snd (renamePasskey pid name s))"
  by (auto simp: addPasskey_def removePasskey_def renamePasskey_def guarded_def guard_def Let_def
      transactionSync_def counter_spent_def list_all_iff registers_none_def passkey_of_def update_where_def
      split: option.splits)


lemma assertion_winsE:
  assumes "assertion_wins cid n x s"
  obtains user now row where "x = Assertion user cid n now" and "n \<noteq> 0"
    and "credentialRow cid (store s) = Some row" and "counterPolicy (pk_counter row) n \<noteq> Regression"
proof (cases x)
  case (Assertion user cid' counter now)
  with assms have eq: "x = Assertion user cid n now" "n \<noteq> 0"
    and ok: "is_ok (fst (assertion_commit user cid n now s))"
    by (auto simp: assertion_wins_def)
  from ok obtain row where "credentialRow cid (store s) = Some row"
    "counterPolicy (pk_counter row) n \<noteq> Regression"
    by (auto simp: assertion_commit_def Let_def split: option.splits if_splits)
  with eq that show ?thesis by blast
qed (use assms in \<open>simp_all add: assertion_wins_def\<close>)

interpretation counter_once:
  single_use user_step user_wf "registers_none cid" "counter_spent cid n" "assertion_wins cid n" for cid n
proof unfold_locales
  fix s x assume wf: "user_wf s" and ok: "registers_none cid x" and spent: "counter_spent cid n s"
  show "counter_spent cid n (user_step x s)"
  proof (cases "writes_passkeys x")
    case False
    with spent show ?thesis by (simp add: counter_spent_def passkeys_step)
  next
    case True
    then show ?thesis
      using spent ok passkeys_managed counter_dead_assertion [OF wf spent]
      by (cases x) (auto simp: writes_passkeys_def counter_spent_def init_passkeys destroy_def empty_tables_def)
  qed
next
  fix s x assume wf: "user_wf s" and "assertion_wins cid n x s"
  from this(2) show "\<not> counter_spent cid n s"
    by (rule assertion_winsE)
       (auto simp: counter_spent_def list_all_iff counterPolicy_def dest!: credentialRow_mem split: if_splits)
next
  fix s x assume wf: "user_wf s" and "assertion_wins cid n x s"
  from this(2) show "counter_spent cid n (user_step x s)"
  proof (rule assertion_winsE)
    fix user now row
    assume x: "x = Assertion user cid n now" and row: "credentialRow cid (store s) = Some row"
      and ok: "counterPolicy (pk_counter row) n \<noteq> Regression"
    have same: "pk_id r = pk_id row" if "r \<in> set (passkeys (store s))" "pk_credential_id r = cid" for r
      using credential_table.row_unique [OF user_wf_storeD [OF wf] that(1), of row] credentialRow_mem [OF row] that(2)
      by auto
    have "\<forall>p \<in> set (update_where (\<lambda>r. pk_id r = pk_id row)
        (\<lambda>r. r\<lparr>pk_counter := n, pk_last_used_at := Some now\<rparr>) (passkeys (store s))).
        pk_credential_id p = cid \<longrightarrow> n \<le> pk_counter p"
      by (rule ball_update_where) (use same in auto)
    then show ?thesis
      using x row ok by (simp add: counter_spent_def list_all_iff assertion_passkeys)
  qed
qed

text \<open>
  C27. Cloned authenticators: a signature counter value other than zero is accepted at most once per
  credential, in any interleaving of assertions and other calls, as long as the credential is not
  registered anew.
\<close>

theorem counter_accepted_at_most_once:
  assumes "list_all (registers_none cid) later"
  shows "run_wins user_step (assertion_wins cid n) later (fold user_step earlier fresh_user_do) \<le> 1"
  using user_object.inv_run [OF user_wf_empty] assms by (rule counter_once.at_most_once)

definition ex_passkey :: new_passkey where
  "ex_passkey = \<lparr>np_id = ''p1'', np_credential_id = ''cred'', np_public_key = [4], np_alg = -7, np_counter = 3,
     np_transports = [''usb''], np_aaguid = None, np_backup_eligible = False, np_backed_up = False,
     np_name = None, np_created_via = Via_me\<rparr>"

theorem counter_accepted_at_most_once_witness:
  "run_wins user_step (assertion_wins ''cred'' 5) [Assertion ex_user ''cred'' 5 1100, Assertion ex_user ''cred'' 5 1101]
     (after (login_ops @ [Add_passkey ex_passkey 1000 10])) = 1"
proof -
  let ?xs = "[Assertion ex_user ''cred'' 5 1100, Assertion ex_user ''cred'' 5 1101]"
  let ?s = "after (login_ops @ [Add_passkey ex_passkey 1000 10])"
  have ok: "list_all (registers_none ''cred'') ?xs" by code_simp
  have "run_wins user_step (assertion_wins ''cred'' 5) ?xs ?s \<le> 1"
    by (rule counter_accepted_at_most_once [OF ok])
  moreover have "run_wins user_step (assertion_wins ''cred'' 5) ?xs ?s > 0" by code_simp
  ultimately show ?thesis by linarith
qed


section \<open>The last login method\<close>

definition login_methods :: "user_tables \<Rightarrow> nat" where
  "login_methods tb = length (passkeys tb) + length (identities tb)"

lemma delete_where_length:
  assumes "distinct (map key rows)"
  shows "length (delete_where (\<lambda>r. key r = k) rows) = length rows - (if k \<in> key ` set rows then 1 else 0)"
  using assms
proof (induction rows)
  case (Cons r rows)
  have "delete_where (\<lambda>x. key x = key r) rows = rows"
    using Cons.prems by (auto simp: delete_where_def filter_id_conv image_iff)
  with Cons show ?case
    by (cases "key r = k") (auto simp: delete_where_def dest: length_pos_if_in_set)
qed (simp add: delete_where_def)

lemma count_key_one:
  assumes "distinct (map key rows)" and "k \<in> key ` set rows"
  shows "count_where (\<lambda>r. key r = k) rows = 1"
  using assms
proof (induction rows)
  case (Cons r rows)
  show ?case
  proof (cases "key r = k")
    case True
    then have "filter (\<lambda>r. key r = k) rows = []" using Cons.prems(1) by (auto simp: filter_empty_conv image_iff)
    with True show ?thesis by (simp add: count_where_def)
  next
    case False
    with Cons show ?thesis by (auto simp: count_where_def)
  qed
qed simp

lemma remove_self_keeps:
  assumes "user_wf s" and "login_methods (store s) \<ge> 1"
  shows "login_methods (store (snd (removePasskey pid Self s))) \<ge> 1"
    and "login_methods (store (snd (removeIdentity iid Self s))) \<ge> 1"
proof -
  note wf = user_wf_storeD [OF assms(1)]
  have p: "distinct (map pk_id (passkeys (store s)))" by (rule passkey_table.unique [OF wf])
  have i: "distinct (map i_id (identities (store s)))" by (rule identity_table.unique [OF wf])
  note defs = guarded_def guard_def Let_def login_methods_def isLastLoginMethod_def
  show "login_methods (store (snd (removePasskey pid Self s))) \<ge> 1"
    using assms(2) delete_where_length [OF p, of pid] count_key_one [OF p, of pid]
    by (auto simp: removePasskey_def defs split: option.splits if_splits)
  show "login_methods (store (snd (removeIdentity iid Self s))) \<ge> 1"
    using assms(2) delete_where_length [OF i, of iid] count_key_one [OF i, of iid]
    by (auto simp: removeIdentity_def defs split: option.splits if_splits)
qed


text \<open>
  C28. A user cannot lock themselves out: whichever passkey or identity the user removes, if there was a login
  method there still is one; and an administrator's removal takes exactly the one that was named.
\<close>

theorem self_removal_keeps_a_login_method:
  assumes "user_wf s" and "login_methods (store s) \<ge> 1"
  shows "login_methods (store (user_step (Remove_passkey pid Self) s)) \<ge> 1 \<and>
         login_methods (store (user_step (Remove_identity iid Self) s)) \<ge> 1 \<and>
         (readUser (store s) \<noteq> None \<and> \<not> destroyed s \<longrightarrow>
            passkeys (store (user_step (Remove_passkey pid Admin) s)) =
              filter (\<lambda>p. pk_id p \<noteq> pid) (passkeys (store s)))"
proof -
  have "passkeys (store (snd (removePasskey pid Admin s))) = filter (\<lambda>p. pk_id p \<noteq> pid) (passkeys (store s))"
    if "readUser (store s) \<noteq> None" "\<not> destroyed s"
    using that by (auto simp: removePasskey_def guarded_def guard_def Let_def readUser_def delete_where_def
        split: list.splits)
  with remove_self_keeps [OF assms] show ?thesis by simp
qed

theorem self_removal_keeps_a_login_method_witness:
  "login_methods (store (user_step (Remove_passkey ''p1'' Self) (after (login_ops @ [Add_passkey ex_passkey 1000 10])))) \<ge> 1"
proof -
  let ?s = "after (login_ops @ [Add_passkey ex_passkey 1000 10])"
  have wf: "user_wf ?s" by (rule user_object.inv_run [OF user_wf_empty])
  have one: "login_methods (store ?s) \<ge> 1" by code_simp
  show ?thesis using self_removal_keeps_a_login_method [OF wf one] by blast
qed


section \<open>Challenges\<close>

lemma readUser_store: "user_tbl tb = user_tbl tb' \<Longrightarrow> readUser tb = readUser tb'"
  by (simp add: readUser_def)

lemma putChallenge_Ok:
  assumes "readUser (store s) \<noteq> None" and "\<not> destroyed s"
  shows "fst (putChallenge key value at s) = Ok () \<and>
     select_one (\<lambda>c. ch_key c = key) (challenges (store (snd (putChallenge key value at s)))) =
       Some \<lparr>ch_key = key, ch_value = value, ch_expires_at = at\<rparr> \<and>
     readUser (store (snd (putChallenge key value at s))) \<noteq> None \<and> \<not> destroyed (snd (putChallenge key value at s))"
proof -
  have new: "select_one (\<lambda>c. ch_key c = key) (update_where (\<lambda>c. ch_key c = key)
      (\<lambda>c. c\<lparr>ch_value := value, ch_expires_at := at\<rparr>) rows) = Some \<lparr>ch_key = key, ch_value = value, ch_expires_at = at\<rparr>"
    if "list_ex (\<lambda>c. ch_key c = key) rows" for rows :: "challenge_row list"
  proof -
    have "select_one (\<lambda>c. ch_key c = key) rows \<noteq> None" using that by (auto simp: select_one_None list_ex_iff)
    then obtain c where c: "select_one (\<lambda>c. ch_key c = key) rows = Some c" by blast
    then show ?thesis
      using select_one_SomeD [OF c] by (simp add: select_one_update_where)
  qed
  have none: "select_one (\<lambda>c. ch_key c = key) (rows @ [\<lparr>ch_key = key, ch_value = value, ch_expires_at = at\<rparr>]) =
      Some \<lparr>ch_key = key, ch_value = value, ch_expires_at = at\<rparr>"
    if "\<not> list_ex (\<lambda>c. ch_key c = key) rows" for rows :: "challenge_row list"
  proof -
    have "select_one (\<lambda>c. ch_key c = key) rows = None" using that by (auto simp: select_one_None list_ex_iff)
    then show ?thesis by (simp add: select_one_append)
  qed
  have "readUser (store (migrate s)) \<noteq> None" "\<not> destroyed (migrate s)"
    using assms by (simp_all add: readUser_def migrate_def)
  with assms new [of "challenges (store s)"] none [of "challenges (store s)"] show ?thesis
    by (auto simp: putChallenge_def guarded_def guard_def Let_def readUser_def)
qed

text \<open>
  A stored challenge can be taken once: \<^verbatim>\<open>takeChallenge\<close> returns the value that was put last under
  the key if it has not expired, nothing otherwise, and a second take returns nothing either
  way.
\<close>

theorem challenge_taken_once:
  assumes "readUser (store s) \<noteq> None" and "\<not> destroyed s"
  shows "let s1 = snd (putChallenge key value at s); s2 = snd (takeChallenge key now s1) in
           fst (takeChallenge key now s1) = Ok (if now < at then Some value else None) \<and>
           fst (takeChallenge key now' s2) = Ok None"
proof -
  let ?s1 = "snd (putChallenge key value at s)"
  have put: "select_one (\<lambda>c. ch_key c = key) (challenges (store ?s1)) =
       Some \<lparr>ch_key = key, ch_value = value, ch_expires_at = at\<rparr>" "readUser (store ?s1) \<noteq> None" "\<not> destroyed ?s1"
    using putChallenge_Ok [OF assms] by auto
  have take: "takeChallenge key t st = (Ok (case select_one (\<lambda>c. ch_key c = key) (challenges (store st)) of
         None \<Rightarrow> None | Some c \<Rightarrow> if ch_expires_at c > t then Some (ch_value c) else None),
      (migrate st)\<lparr>store := (store (migrate st))\<lparr>challenges := delete_where (\<lambda>c. ch_key c = key) (challenges (store st))\<rparr>\<rparr>)"
    if "readUser (store st) \<noteq> None" "\<not> destroyed st" for t st
    using that by (auto simp: takeChallenge_def guarded_def guard_def Let_def transactionSync_def readUser_def
        split: option.splits)
  let ?s2 = "snd (takeChallenge key now ?s1)"
  have gone: "select_one (\<lambda>c. ch_key c = key) (challenges (store ?s2)) = None"
    unfolding take [OF put(2,3)] by (simp add: select_one_None)
  have alive: "readUser (store ?s2) \<noteq> None" "\<not> destroyed ?s2"
    unfolding take [OF put(2,3)] using put(2,3) by (simp_all add: readUser_def migrate_def)
  show ?thesis
    unfolding Let_def using take [OF put(2,3), of now] put(1) take [OF alive, of now'] gone by simp
qed

theorem challenge_taken_once_witness:
  "let s1 = snd (putChallenge ''k'' ''v'' 1100 (after login_ops)); s2 = snd (takeChallenge ''k'' 1050 s1) in
     fst (takeChallenge ''k'' 1050 s1) = Ok (Some ''v'') \<and> fst (takeChallenge ''k'' 1051 s2) = Ok None"
proof -
  have user: "readUser (store (after login_ops)) \<noteq> None" and alive: "\<not> destroyed (after login_ops)" by code_simp+
  show ?thesis using challenge_taken_once [OF user alive, of "''k''" "''v''" 1100 1050 1051] by simp
qed



section \<open>Attempts\<close>

definition attempt_wins :: "user_op \<Rightarrow> user_do \<Rightarrow> bool" where
  "attempt_wins x s = (case x of Count_attempt now \<Rightarrow> is_ok (fst (countPasskeyAttempt now s)) | _ \<Rightarrow> False)"

text \<open>
  The window of the attempts is fixed, it does not slide: after one attempt that opens a window, nine at its last second and
  ten in the second after it, nineteen attempts have passed within two seconds.
\<close>

theorem nineteen_attempts_in_two_seconds:
  "run_wins user_step attempt_wins (map Count_attempt (replicate 9 1599 @ replicate 10 1600))
     (user_step (Count_attempt 1000) (after login_ops)) = 19"
  by code_simp


section \<open>Consent\<close>

lemma grantFor_lookup:
  assumes "tables_wf tb" and "g \<in> set (grants tb)" and "g_client_id g = cr_client_id client"
    and "g_client_created_at g = cr_created_at client"
  shows "grantFor client tb = (Some g, tb)"
  using grant_table.lookup [OF assms(1-3)] assms(4) by (simp add: grantFor_def)

lemma upsert_grant_mem:
  assumes "\<And>g. g \<in> set (grants tb) \<Longrightarrow> g_client_id g = g_client_id row \<Longrightarrow>
             g_client_created_at g = g_client_created_at row"
  shows "\<exists>g \<in> set (grants (upsert_grant row tb)). g_client_id g = g_client_id row \<and>
     g_client_created_at g = g_client_created_at row \<and> g_scopes g = g_scopes row"
proof (cases "list_ex (\<lambda>g. g_client_id g = g_client_id row) (grants tb)")
  case True
  then obtain g where g: "g \<in> set (grants tb)" "g_client_id g = g_client_id row" by (auto simp: list_ex_iff)
  let ?f = "\<lambda>g. g\<lparr>g_scopes := g_scopes row, g_updated_at := g_updated_at row\<rparr>"
  have "?f g \<in> set (grants (upsert_grant row tb))"
    using True g by (auto simp: upsert_grant_def set_update_where intro!: image_eqI [of _ _ g])
  then show ?thesis using g assms [OF g] by (intro bexI [of _ "?f g"]) simp_all
qed (simp add: upsert_grant_def)

text \<open>
  Consent accumulates: after \<^verbatim>\<open>grantConsent\<close> the client is consented for every scope granted now
  and for every scope it was consented for before, provided the earlier grant was given to the same
  registration of the client; a grant to an earlier registration counts for nothing.
\<close>

theorem consent_accumulates:
  assumes "user_wf s" and "grantConsent client scopes now s = (Ok g, s')"
  shows "consented client scopes (store s') \<and>
         (\<forall>old. consented client old (store s) \<longrightarrow> consented client (old @ scopes) (store s'))"
proof -
  let ?tb = "snd (grantFor client (store (migrate s)))"
  let ?old = "fst (grantFor client (store (migrate s)))"
  let ?union = "sort (js_uniq ((case ?old of None \<Rightarrow> [] | Some g \<Rightarrow> g_scopes g) @ scopes))"
  let ?row = "\<lparr>g_client_id = cr_client_id client, g_client_created_at = cr_created_at client, g_scopes = ?union,
      g_granted_at = (case ?old of None \<Rightarrow> now | Some g \<Rightarrow> g_granted_at g), g_updated_at = now\<rparr>"
  let ?tb2 = "upsert_grant ?row ?tb"
  have wf0: "tables_wf (store (migrate s))" using assms(1) by (simp add: user_wf_def)
  have wf: "tables_wf ?tb2" by (intro upsert_grant_wf grantFor_wf wf0)
  have fresh: "g_client_created_at g = cr_created_at client"
    if "g \<in> set (grants ?tb)" "g_client_id g = cr_client_id client" for g
  proof -
    have "g \<in> set (grants (store (migrate s)))"
      using that(1) by (auto simp: grantFor_def split: option.splits if_splits)
    then have "select_one (\<lambda>x. g_client_id x = cr_client_id client) (grants (store (migrate s))) = Some g"
      using that(2) by (intro grant_table.lookup [OF wf0]) auto
    with that show ?thesis by (auto simp: grantFor_def split: if_splits)
  qed
  then obtain g2 where g2: "g2 \<in> set (grants ?tb2)" "g_client_id g2 = cr_client_id client"
    "g_client_created_at g2 = cr_created_at client" "g_scopes g2 = ?union"
    using upsert_grant_mem [of ?tb ?row] by auto
  have s': "store s' = ?tb2"
    using assms(2) grantFor_lookup [OF wf g2(1-3)] unfolding grantConsent_def
    by (rule_tac guarded_OkE) (auto simp: transactionSync_def Let_def split_beta)
  have ex: "consented client sc (store s')" if "set sc \<subseteq> set ?union" for sc
    using that unfolding s' consented_def list_ex_iff
    by (intro bexI [OF _ g2(1)] conjI) (simp_all only: g2(2-4))
  have "set old \<subseteq> set ?union" if "consented client old (store s)" for old
  proof -
    from that obtain g0 where g0: "g0 \<in> set (grants (store (migrate s)))" "g_client_id g0 = cr_client_id client"
      "g_client_created_at g0 = cr_created_at client" "set old \<subseteq> set (g_scopes g0)"
      by (auto simp: consented_def list_ex_iff)
    with grantFor_lookup [OF wf0 g0(1-3)] show ?thesis by auto
  qed
  then show ?thesis using ex by (simp add: subset_iff)
qed


theorem consent_accumulates_witness:
  "consented ex_strict_client [''openid'', ''email'']
     (store (after (login_ops @ [Grant_consent ex_strict_client [''openid''] 1005, Grant_consent ex_strict_client [''email''] 1006])))"
proof -
  let ?s = "after (login_ops @ [Grant_consent ex_strict_client [''openid''] 1005])"
  have wf: "user_wf ?s" by (rule user_object.inv_run [OF user_wf_empty])
  have "is_ok (fst (grantConsent ex_strict_client [''email''] 1006 ?s))" by code_simp
  then obtain g s' where x: "grantConsent ex_strict_client [''email''] 1006 ?s = (Ok g, s')" by (rule is_ok_pairE)
  have old: "consented ex_strict_client [''openid''] (store ?s)" by code_simp
  have "after (login_ops @ [Grant_consent ex_strict_client [''openid''] 1005, Grant_consent ex_strict_client [''email''] 1006]) = s'"
    using x by simp
  with consent_accumulates [OF wf x] old show ?thesis by (metis append_Cons append_Nil)
qed

text \<open>
  Withdrawing consent: after \<^verbatim>\<open>revokeGrant\<close> no grant of the client remains and every refresh-token
  family the client holds for the user is revoked, so a later request of the client that needs
  consent for anything is answered with \<^verbatim>\<open>consent_required\<close>, a login, or a refusal, never
  authorized.
\<close>

theorem withdrawn_consent:
  assumes "revokeGrant cid now s = (Ok deleted, s')" and "cr_client_id client = cid"
    and "ai_client input = client" and "\<not> cr_skip_consent client" and "ai_scope input \<noteq> []"
  shows "\<not> consented client scope (store s') \<and>
         (\<forall>f \<in> set (refresh_families (store s')). f_client_id f = cid \<longrightarrow> f_revoked_at f \<noteq> None) \<and>
         (\<forall>out s2. authorizeWithSession input s' = (Ok out, s2) \<longrightarrow> ao_outcome out \<noteq> Authorized)"
proof -
  let ?tb = "(store (migrate s))\<lparr>grants := delete_where (\<lambda>g. g_client_id g = cid) (grants (store (migrate s)))\<rparr>"
  have s': "store s' = revoke_families (\<lambda>f. f_client_id f = cid) now ''consent_revoked'' ?tb"
    using assms(1) unfolding revokeGrant_def
    by (rule guarded_OkE) (auto simp: transactionSync_def Let_def)
  have none: "\<not> consented client sc (store s')" for sc
    using assms(2) unfolding s' by (auto simp: consented_def list_ex_iff revoke_families_def)
  moreover have "\<forall>f \<in> set (refresh_families (store s')). f_client_id f = cid \<longrightarrow> f_revoked_at f \<noteq> None"
    unfolding s' by (rule revoke_families_all) (simp add: revoke_family_row_def)
  moreover have "ao_outcome out \<noteq> Authorized" if "authorizeWithSession input s' = (Ok out, s2)" for out s2
    using authorize_needs_consent [OF that] assms(3-5) none [of "ai_scope input"] by simp
  ultimately show ?thesis by blast
qed

theorem withdrawn_consent_witness:
  "\<not> consented ex_strict_client [''openid''] (store (after
      (login_ops @ [Grant_consent ex_strict_client [''openid''] 1005, Revoke_grant ''web'' 1006])))"
proof -
  let ?s = "after (login_ops @ [Grant_consent ex_strict_client [''openid''] 1005])"
  have "is_ok (fst (revokeGrant ''web'' 1006 ?s))" by code_simp
  then obtain d s' where x: "revokeGrant ''web'' 1006 ?s = (Ok d, s')" by (rule is_ok_pairE)
  have c: "cr_client_id ex_strict_client = ''web''" "ai_client ex_authorize = ex_strict_client"
    "\<not> cr_skip_consent ex_strict_client" "ai_scope ex_authorize \<noteq> []"
    by (simp_all add: ex_strict_client_def ex_client_def ex_authorize_def)
  have "after (login_ops @ [Grant_consent ex_strict_client [''openid''] 1005, Revoke_grant ''web'' 1006]) = s'"
    using x by simp
  with withdrawn_consent [OF x c] show ?thesis by simp
qed


section \<open>Verified addresses\<close>

text \<open>
  Changing the address loses its verification: unless the caller says the address is verified, the profile
  after \<^verbatim>\<open>updateProfile\<close> is verified only if the address is the one that was verified before; the
  normalised address changes with the address and with nothing else.
\<close>

theorem address_change_unverifies:
  assumes "updateProfile patch now s = (Ok p, s')" and "pp_email_verified patch = None"
    and "readUser (store s) = Some user"
  shows "p_email_verified p = (u_email_verified user \<and> p_email p = u_email user) \<and>
         p_email p = (case pp_email patch of None \<Rightarrow> u_email user | Some e \<Rightarrow> e) \<and>
         (pp_email patch = None \<longrightarrow> p_email_norm p = u_email_norm user) \<and>
         p_id p = u_id user \<and> p_groups p = u_groups user \<and> p_disabled_at p = u_disabled_at user"
proof -
  obtain rest where tbl: "user_tbl (store (migrate s)) = user # rest"
    using assms(3) by (auto simp: readUser_def split: list.splits)
  then have "readUser (store (migrate s)) = Some user" by (simp add: readUser_def)
  then show ?thesis
    using assms(1,2) tbl
    by (auto simp: updateProfile_def guarded_def guard_def Let_def update_user_def current_profile_def
        readUser_def profile_def split: if_splits option.splits)
qed

theorem address_change_unverifies_witness:
  "\<exists>p s'. updateProfile \<lparr>pp_email = Some (Some ''new@b.c''), pp_email_norm = None, pp_email_verified = None,
       pp_display_name = None\<rparr> 1001 (after login_ops) = (Ok p, s') \<and> \<not> p_email_verified p"
proof -
  let ?patch = "\<lparr>pp_email = Some (Some ''new@b.c''), pp_email_norm = None, pp_email_verified = None,
       pp_display_name = None\<rparr>"
  have "is_ok (fst (updateProfile ?patch 1001 (after login_ops)))" by code_simp
  then obtain p s' where x: "updateProfile ?patch 1001 (after login_ops) = (Ok p, s')" by (rule is_ok_pairE)
  have user: "readUser (store (after login_ops)) = Some ex_user" by code_simp
  have "u_email ex_user = Some ''a@b.c''" by (simp add: ex_user_def user_of_def ex_profile0_def)
  with address_change_unverifies [OF x _ user] x show ?thesis by auto
qed

end
