(* ===== verification/Authorize_Request.thy ===== *)
theory Authorize_Request
  imports User_Codes
begin

text \<open>
  The authorization request: \<^verbatim>\<open>src/oidc/capabilities.ts\<close>,
  \<^verbatim>\<open>src/oidc/redirect-uri.ts\<close> and \<^verbatim>\<open>src/oidc/authorize.ts\<close>. The request
  parameters are a map, as in the code. The platform's \<^verbatim>\<open>URL\<close> parser is the parameter
  \<open>parse\<close>: the components of a URL, or \<^term>\<open>None\<close> where the constructor throws.
\<close>


section \<open>Capabilities\<close>

definition scopes_supported :: "string list" where
  "scopes_supported =
     [''openid'', ''profile'', ''email'', ''groups'', ''offline_access'', ''account'', ''admin'']"

definition response_types_supported :: "string list" where
  "response_types_supported = [''code'']"

definition grant_types_supported :: "string list" where
  "grant_types_supported = [''authorization_code'', ''refresh_token'', ''client_credentials'']"

definition code_challenge_methods_supported :: "string list" where
  "code_challenge_methods_supported = [''S256'']"

definition prompt_values_supported :: "string list" where
  "prompt_values_supported = [''none'', ''login'', ''consent'', ''select_account'']"

definition isScope :: "string \<Rightarrow> bool" where
  "isScope value \<longleftrightarrow> value \<in> set scopes_supported"


section \<open>Clients\<close>

text \<open>A stored client (\<^verbatim>\<open>interface Client\<close> of \<^verbatim>\<open>src/oidc/clients.ts\<close>).\<close>

record jwk =
  jwk_kty :: string
  jwk_kid :: string
  jwk_alg :: "string option"
  jwk_use :: "string option"
  jwk_crv :: "string option"
  jwk_x :: "string option"
  jwk_y :: "string option"
  jwk_n :: "string option"
  jwk_e :: "string option"

record client =
  cl_client_id :: string
  cl_client_name :: string
  cl_client_uri :: "string option"
  cl_logo_uri :: "string option"
  cl_redirect_uris :: "string list"
  cl_post_logout_redirect_uris :: "string list"
  cl_backchannel_logout_uri :: "string option"
  cl_grant_types :: "string list"
  cl_token_endpoint_auth_method :: string
  cl_client_secret_hash :: "bytes option"
  cl_jwks :: "jwk list option"
  cl_jwks_uri :: "string option"
  cl_scopes_allowed :: "string list"
  cl_audiences :: "string list"
  cl_allowed_groups :: "string list option"
  cl_skip_consent :: bool
  cl_require_par :: bool
  cl_require_pkce :: bool
  cl_offline_access :: bool
  cl_access_token_ttl :: "seconds option"
  cl_id_token_ttl :: "seconds option"
  cl_refresh_token_ttl :: "seconds option"
  cl_refresh_idle_ttl :: "seconds option"
  cl_disabled_at :: "seconds option"
  cl_created_at :: seconds
  cl_updated_at :: seconds


section \<open>Redirect URIs\<close>

record url =
  url_href :: string
  url_origin :: string
  url_protocol :: string
  url_hostname :: string
  url_username :: string
  url_password :: string
  url_pathname :: string
  url_search :: string
  url_hash :: string

type_synonym url_parser = "string \<Rightarrow> url option"

definition LOOPBACK_HOSTS :: "string list" where
  "LOOPBACK_HOSTS = [''127.0.0.1'', ''[::1]'']"

definition is_digit :: "char \<Rightarrow> bool" where
  "is_digit c \<longleftrightarrow> CHR ''0'' \<le> c \<and> c \<le> CHR ''9''"

definition is_lower_or_upper :: "char \<Rightarrow> bool" where
  "is_lower_or_upper c \<longleftrightarrow>
     (CHR ''a'' \<le> c \<and> c \<le> CHR ''z'') \<or> (CHR ''A'' \<le> c \<and> c \<le> CHR ''Z'')"

text \<open>The white space of a regular expression's \<^verbatim>\<open>\s\<close> among the first 256 code points.\<close>

definition is_space :: "char \<Rightarrow> bool" where
  "is_space c \<longleftrightarrow> (of_char c :: nat) \<in> {9, 10, 11, 12, 13, 32, 160}"

definition isIpLiteral :: "string \<Rightarrow> bool" where
  "isIpLiteral hostname \<longleftrightarrow>
     (let parts = js_split (CHR ''.'') hostname in
      length parts = 4 \<and> list_all (\<lambda>p. 1 \<le> length p \<and> length p \<le> 3 \<and> list_all is_digit p) parts)
     \<or> (hostname \<noteq> [] \<and> hd hostname = CHR ''['')"

definition is_scheme :: "string \<Rightarrow> bool" where
  "is_scheme scheme =
     (case scheme of
        [] \<Rightarrow> False
      | c # cs \<Rightarrow> is_lower_or_upper c \<and>
          list_all (\<lambda>x. is_lower_or_upper x \<or> is_digit x \<or> x \<in> set ''+.-'') cs)"

definition isRegistrableRedirectUri :: "url_parser \<Rightarrow> string \<Rightarrow> bool" where
  "isRegistrableRedirectUri parse value =
     (if CHR ''*'' \<in> set value \<or> CHR ''#'' \<in> set value \<or> list_ex is_space value then False
      else
        (case parse value of
           None \<Rightarrow> False
         | Some url \<Rightarrow>
             if url_href url \<noteq> value \<and> url_href url \<noteq> value @ ''/'' then False
             else if url_username url \<noteq> [] \<or> url_password url \<noteq> [] then False
             else if url_protocol url = ''https:'' then
               url_hostname url \<noteq> [] \<and> \<not> isIpLiteral (url_hostname url)
             else if url_protocol url = ''http:'' then url_hostname url \<in> set LOOPBACK_HOSTS
             else
               let scheme = butlast (url_protocol url) in
               CHR ''.'' \<in> set scheme \<and> is_scheme scheme))"

definition isLoopbackRedirectUri :: "url_parser \<Rightarrow> string \<Rightarrow> bool" where
  "isLoopbackRedirectUri parse registered =
     (case parse registered of
        None \<Rightarrow> False
      | Some url \<Rightarrow> url_protocol url = ''http:'' \<and> url_hostname url \<in> set LOOPBACK_HOSTS)"

definition sameExceptPort :: "url_parser \<Rightarrow> string \<Rightarrow> string \<Rightarrow> bool" where
  "sameExceptPort parse registered requested =
     (case parse registered of
        None \<Rightarrow> False
      | Some a \<Rightarrow>
          (case parse requested of
             None \<Rightarrow> False
           | Some b \<Rightarrow>
               if url_href b \<noteq> requested then False
               else if url_protocol a \<noteq> url_protocol b \<or> url_hostname a \<noteq> url_hostname b then False
               else if url_username a \<noteq> url_username b \<or> url_password a \<noteq> url_password b then False
               else url_pathname a = url_pathname b \<and> url_search a = url_search b \<and>
                    url_hash a = url_hash b))"

fun matchRedirectUri :: "url_parser \<Rightarrow> string list \<Rightarrow> string \<Rightarrow> string option" where
  "matchRedirectUri parse [] requested = None"
| "matchRedirectUri parse (candidate # rest) requested =
     (if candidate = requested then Some candidate
      else if isLoopbackRedirectUri parse candidate \<and> sameExceptPort parse candidate requested
      then Some candidate
      else matchRedirectUri parse rest requested)"


section \<open>Validation of an authorization request\<close>

type_synonym params = "string \<Rightarrow> string option"

record authorize_request =
  ar_redirect_uri :: string
  ar_scope :: "string list"
  ar_state :: string
  ar_nonce :: "string option"
  ar_code_challenge :: "string option"
  ar_prompt :: "string list"
  ar_max_age :: "seconds option"
  ar_login_hint :: "string option"
  ar_ui_locales :: "string option"
  ar_acr_values :: "string list"

datatype authorize_error =
    Invalid_request
  | Unsupported_response_type
  | Invalid_scope_requested
  | Unauthorized_client
  | Request_not_supported

datatype authorize_validation =
    Valid authorize_request
  | Non_redirectable string
  | Redirectable string "string option" authorize_error string

definition STATE_MAX_LENGTH :: nat where "STATE_MAX_LENGTH = 2048"
definition NONCE_MAX_LENGTH :: nat where "NONCE_MAX_LENGTH = 512"
definition LOGIN_HINT_MAX_LENGTH :: nat where "LOGIN_HINT_MAX_LENGTH = 256"
definition UI_LOCALES_MAX_LENGTH :: nat where "UI_LOCALES_MAX_LENGTH = 64"
definition ACR_VALUES_MAX_LENGTH :: nat where "ACR_VALUES_MAX_LENGTH = 256"
definition MAX_AGE_MAX_DIGITS :: nat where "MAX_AGE_MAX_DIGITS = 10"

definition isPrintableState :: "string \<Rightarrow> bool" where
  "isPrintableState state \<longleftrightarrow>
     length state \<le> STATE_MAX_LENGTH \<and> state \<noteq> [] \<and>
     list_all (\<lambda>c. 32 \<le> (of_char c :: nat) \<and> (of_char c :: nat) \<le> 126) state"

definition CODE_CHALLENGE :: "string \<Rightarrow> bool" where
  "CODE_CHALLENGE v \<longleftrightarrow> 43 \<le> length v \<and> length v \<le> 128 \<and> list_all is_pkce_char v"

definition NON_NEGATIVE_INTEGER :: "string \<Rightarrow> bool" where
  "NON_NEGATIVE_INTEGER v \<longleftrightarrow>
     v = ''0'' \<or> (v \<noteq> [] \<and> CHR ''1'' \<le> hd v \<and> hd v \<le> CHR ''9'' \<and> list_all is_digit (tl v))"

definition spaceList :: "string \<Rightarrow> string list option" where
  "spaceList value =
     (let toks = split_space value in
      if list_all (\<lambda>t. t \<noteq> []) toks then Some toks else None)"

text \<open>\<^verbatim>\<open>Number(...)\<close> of a text of decimal digits.\<close>

definition decimal_value :: "string \<Rightarrow> int" where
  "decimal_value v = foldl (\<lambda>n c. 10 * n + (of_char c - 48)) 0 v"

definition too_long :: "nat \<Rightarrow> string option \<Rightarrow> bool" where
  "too_long n v = (case v of None \<Rightarrow> False | Some t \<Rightarrow> length t > n)"

text \<open>Steps 11 and 12: the prompt values and the maximal age, or what is wrong with them.\<close>

definition validate_prompt :: "string option \<Rightarrow> string + string list" where
  "validate_prompt param =
     (case param of
        None \<Rightarrow> Inr []
      | Some p \<Rightarrow>
          (case spaceList p of
             None \<Rightarrow> Inl ''prompt contains an unknown value''
           | Some values \<Rightarrow>
               if \<not> list_all (\<lambda>v. v \<in> set prompt_values_supported) values
               then Inl ''prompt contains an unknown value''
               else if length (js_uniq values) \<noteq> length values then Inl ''prompt contains duplicates''
               else if ''none'' \<in> set values \<and> length values > 1
               then Inl ''prompt=none cannot be combined with other values''
               else Inr (js_uniq (map (\<lambda>v. if v = ''select_account'' then ''login'' else v) values))))"

definition validate_max_age :: "string option \<Rightarrow> string + seconds option" where
  "validate_max_age param =
     (case param of
        None \<Rightarrow> Inr None
      | Some v \<Rightarrow>
          if \<not> NON_NEGATIVE_INTEGER v \<or> length v > MAX_AGE_MAX_DIGITS
          then Inl ''max_age must be a non-negative integer''
          else Inr (Some (decimal_value v)))"

text \<open>Step 8: the code challenge, required unless the client is registered without PKCE.\<close>

definition validate_pkce :: "params \<Rightarrow> client \<Rightarrow> string + string option" where
  "validate_pkce params client =
     (let challenge = params ''code_challenge''; meth = params ''code_challenge_method'' in
      if cl_require_pkce client \<or> challenge \<noteq> None \<or> meth \<noteq> None then
        (case challenge of
           None \<Rightarrow> Inl ''code_challenge is required: 43-128 characters of [A-Za-z0-9._~-]''
         | Some ch \<Rightarrow>
             if \<not> CODE_CHALLENGE ch
             then Inl ''code_challenge is required: 43-128 characters of [A-Za-z0-9._~-]''
             else if meth \<noteq> Some (hd code_challenge_methods_supported)
             then Inl ''code_challenge_method must be S256''
             else Inr (Some ch))
      else Inr None)"

text \<open>Step 9: the scope.\<close>

definition validate_scope :: "params \<Rightarrow> client \<Rightarrow> string + string list" where
  "validate_scope params client =
     (case (case params ''scope'' of None \<Rightarrow> None | Some v \<Rightarrow> spaceList v) of
        None \<Rightarrow> Inl ''scope is required''
      | Some scope \<Rightarrow>
          if \<not> list_all isScope scope then Inl ''scope contains an unknown value''
          else if ''openid'' \<notin> set scope then Inl ''scope must include openid''
          else if length (js_uniq scope) \<noteq> length scope then Inl ''scope contains duplicates''
          else if \<not> list_all (\<lambda>s. s \<in> set (cl_scopes_allowed client)) scope
          then Inl ''scope is not allowed for this client''
          else if ''offline_access'' \<in> set scope \<and> \<not> cl_offline_access client
          then Inl ''offline_access is not enabled for this client''
          else Inr scope)"

definition validateAuthorizeRequest :: "url_parser \<Rightarrow> params \<Rightarrow> client \<Rightarrow> authorize_validation" where
  "validateAuthorizeRequest parse params client =
     (case params ''redirect_uri'' of
        None \<Rightarrow> Non_redirectable ''redirect_uri is required''
      | Some target \<Rightarrow>
          if matchRedirectUri parse (cl_redirect_uris client) target = None
          then Non_redirectable ''redirect_uri is not registered''
          else
            let rawState = params ''state'';
                state = (case rawState of None \<Rightarrow> None
                         | Some st \<Rightarrow> if isPrintableState st then Some st else None);
                reject = Redirectable target state;
                nonce = params ''nonce'';
                acr = params ''acr_values''
            in
            if params ''request'' \<noteq> None
            then reject Request_not_supported ''request objects are not supported''
            else if params ''response_type'' \<noteq> Some (hd response_types_supported)
            then reject Unsupported_response_type ''response_type must be code''
            else
              (case state of
                 None \<Rightarrow> reject Invalid_request ''state is required: 1-2048 printable ASCII characters''
               | Some st \<Rightarrow>
                   (case validate_pkce params client of
                      Inl d \<Rightarrow> reject Invalid_request d
                    | Inr code_challenge \<Rightarrow>
                        (case validate_scope params client of
                           Inl d \<Rightarrow> reject Invalid_scope_requested d
                         | Inr scope \<Rightarrow>
                             if nonce = Some [] \<or> too_long NONCE_MAX_LENGTH nonce
                             then reject Invalid_request ''nonce must be 1-512 characters''
                             else if too_long LOGIN_HINT_MAX_LENGTH (params ''login_hint'')
                             then reject Invalid_request ''login_hint exceeds 256 characters''
                             else if too_long UI_LOCALES_MAX_LENGTH (params ''ui_locales'')
                             then reject Invalid_request ''ui_locales exceeds 64 characters''
                             else if too_long ACR_VALUES_MAX_LENGTH acr
                             then reject Invalid_request ''acr_values exceeds 256 characters''
                             else
                               (case validate_prompt (params ''prompt'') of
                                  Inl d \<Rightarrow> reject Invalid_request d
                                | Inr prompt \<Rightarrow>
                                    (case validate_max_age (params ''max_age'') of
                                       Inl d \<Rightarrow> reject Invalid_request d
                                     | Inr max_age \<Rightarrow>
                                         Valid \<lparr>ar_redirect_uri = target, ar_scope = scope, ar_state = st,
                                           ar_nonce = nonce, ar_code_challenge = code_challenge,
                                           ar_prompt = prompt, ar_max_age = max_age,
                                           ar_login_hint = params ''login_hint'',
                                           ar_ui_locales = params ''ui_locales'',
                                           ar_acr_values = (case acr of None \<Rightarrow> [] | Some a \<Rightarrow> tokens a)\<rparr>))))))"

end
