(* ===== verification/Interaction.thy ===== *)
theory Interaction
  imports Authorize_Request
begin

text \<open>
  One interaction between the browser and the login app: the transition table of
  \<^verbatim>\<open>src/interaction/state-machine.ts\<close> and the Durable Object of
  \<^verbatim>\<open>src/do/InteractionDO.ts\<close>, which keeps one document and one alarm. Every method runs under
  \<^verbatim>\<open>blockConcurrencyWhile\<close>, so a method is one step. A partial update is a record of options,
  \<^term>\<open>None\<close> where the property is absent.
\<close>


section \<open>The transition table\<close>

datatype interaction_status =
    Pushed | Login_needed | Link_required | Consent_needed | Ready | Completed | Failed

datatype interaction_operation =
    Consume_par | Authenticate | Link | Consent | Logout_decision | Abort | Fail_op | Restart | Complete

fun TRANSITIONS :: "interaction_status \<Rightarrow> interaction_operation \<Rightarrow> interaction_status list" where
  "TRANSITIONS Pushed Consume_par = [Login_needed, Consent_needed, Completed]"
| "TRANSITIONS Pushed Abort = [Failed]"
| "TRANSITIONS Pushed Fail_op = [Failed]"
| "TRANSITIONS Login_needed Authenticate = [Ready, Consent_needed, Link_required, Failed]"
| "TRANSITIONS Login_needed Logout_decision = [Ready]"
| "TRANSITIONS Login_needed Abort = [Failed]"
| "TRANSITIONS Login_needed Fail_op = [Failed]"
| "TRANSITIONS Link_required Link = [Ready, Consent_needed, Failed]"
| "TRANSITIONS Link_required Abort = [Failed]"
| "TRANSITIONS Link_required Fail_op = [Failed]"
| "TRANSITIONS Consent_needed Consent = [Ready, Failed]"
| "TRANSITIONS Consent_needed Abort = [Failed]"
| "TRANSITIONS Consent_needed Fail_op = [Failed]"
| "TRANSITIONS Ready Abort = [Failed]"
| "TRANSITIONS Ready Fail_op = [Failed]"
| "TRANSITIONS Ready Restart = [Login_needed]"
| "TRANSITIONS Ready Complete = [Completed]"
| "TRANSITIONS Failed Complete = [Completed]"
| "TRANSITIONS _ _ = []"

definition INTERACTION_STATUSES :: "interaction_status list" where
  "INTERACTION_STATUSES =
     [Pushed, Login_needed, Link_required, Consent_needed, Ready, Completed, Failed]"

definition INTERACTION_OPERATIONS :: "interaction_operation list" where
  "INTERACTION_OPERATIONS =
     [Consume_par, Authenticate, Link, Consent, Logout_decision, Abort, Fail_op, Restart, Complete]"

definition isTerminal :: "interaction_status \<Rightarrow> bool" where
  "isTerminal status \<longleftrightarrow> status \<in> {Completed, Failed}"

definition canTransition :: "interaction_status \<Rightarrow> interaction_operation \<Rightarrow> interaction_status \<Rightarrow> bool" where
  "canTransition src operation dest \<longleftrightarrow> dest \<in> set (TRANSITIONS src operation)"

definition permittedTransitions ::
  "(interaction_status \<times> interaction_operation \<times> interaction_status) list" where
  "permittedTransitions =
     concat (map (\<lambda>src. concat (map (\<lambda>operation. map (\<lambda>dest. (src, operation, dest)) (TRANSITIONS src operation))
                         INTERACTION_OPERATIONS)) INTERACTION_STATUSES)"


section \<open>The document\<close>

datatype interaction_kind = Kind_authorize | Kind_logout | Kind_par

record existing_session =
  x_uid :: string
  x_sid :: string
  x_auth_time :: seconds

record passkey_challenge =
  pc_value :: string
  pc_expires_at :: seconds
  pc_pending_uid :: "string option"
  pc_invitation_id :: "string option"

datatype registration_kind = Register | Recover

record registration_draft =
  rd_kind :: registration_kind
  rd_email :: "string option"
  rd_email_verified :: bool
  rd_display_name :: "string option"
  rd_groups :: "string list"

record federation_leg =
  fl_alias :: string
  fl_state_hash :: string
  fl_nonce :: string
  fl_code_verifier :: string
  fl_expires_at :: seconds
  fl_invitation_id :: "string option"

record link_candidate =
  lc_candidate_uid :: string
  lc_alias :: string
  lc_subject :: string
  lc_email :: string
  lc_name :: "string option"
  lc_email_verified :: bool

datatype auth_method = Passkey_auth | Federated_auth

record interaction_auth =
  ia_uid :: string
  ia_method :: auth_method
  ia_amr :: "string list"
  ia_acr :: string
  ia_upstream :: "string option"
  ia_auth_time :: seconds
  ia_new_session :: bool

datatype logout_answer = Confirm | Decline

record logout_request =
  lr_sid :: "string option"
  lr_uid :: "string option"
  lr_post_logout_redirect_uri :: "string option"
  lr_state :: "string option"
  lr_decision :: "logout_answer option"

record interaction_error =
  ie_error :: string
  ie_error_description :: string

record interaction_document =
  d_id :: string
  d_kind :: interaction_kind
  d_status :: interaction_status
  d_created_at :: seconds
  d_expires_at :: seconds
  d_binding_hash :: string
  d_client_id :: "string option"
  d_request :: "authorize_request option"
  d_existing_session :: "existing_session option"
  d_passkey_challenge :: "passkey_challenge option"
  d_registration :: "registration_draft option"
  d_federation :: "federation_leg option"
  d_link :: "link_candidate option"
  d_auth :: "interaction_auth option"
  d_consent :: "string list option"
  d_logout :: "logout_request option"
  d_error :: "interaction_error option"
  d_attempts :: int
  d_par_consumed :: bool
  d_completing :: bool

record create_interaction =
  cx_id :: string
  cx_kind :: interaction_kind
  cx_status :: interaction_status
  cx_binding_hash :: string
  cx_client_id :: "string option"
  cx_request :: "authorize_request option"
  cx_existing_session :: "existing_session option"
  cx_logout :: "logout_request option"

datatype interaction_do_error =
    Interaction_exists | Interaction_not_found | Interaction_invalid_state | Too_many_tries

record interaction_patch =
  px_passkey_challenge :: "passkey_challenge option option"
  px_registration :: "registration_draft option option"
  px_federation :: "federation_leg option option"
  px_link :: "link_candidate option option"
  px_attempts :: "int option"

record transition_patch =
  tp_client_id :: "string option option"
  tp_request :: "authorize_request option option"
  tp_existing_session :: "existing_session option option"
  tp_passkey_challenge :: "passkey_challenge option option"
  tp_registration :: "registration_draft option option"
  tp_federation :: "federation_leg option option"
  tp_link :: "link_candidate option option"
  tp_auth :: "interaction_auth option option"
  tp_consent :: "string list option option"
  tp_logout :: "logout_request option option"
  tp_error :: "interaction_error option option"
  tp_attempts :: "int option"
  tp_par_consumed :: "bool option"
  tp_completing :: "bool option"

definition no_patch :: transition_patch where
  "no_patch =
     \<lparr>tp_client_id = None, tp_request = None, tp_existing_session = None, tp_passkey_challenge = None,
      tp_registration = None, tp_federation = None, tp_link = None, tp_auth = None, tp_consent = None,
      tp_logout = None, tp_error = None, tp_attempts = None, tp_par_consumed = None, tp_completing = None\<rparr>"

text \<open>\<open>or_else\<close> is the value of a property in \<^verbatim>\<open>{ ...doc, ...patch }\<close>.\<close>

definition or_else :: "'a option \<Rightarrow> 'a \<Rightarrow> 'a" where
  "or_else patched old = (case patched of None \<Rightarrow> old | Some v \<Rightarrow> v)"

definition spread_transition :: "transition_patch \<Rightarrow> interaction_document \<Rightarrow> interaction_document" where
  "spread_transition p d =
     d\<lparr>d_client_id := or_else (tp_client_id p) (d_client_id d),
       d_request := or_else (tp_request p) (d_request d),
       d_existing_session := or_else (tp_existing_session p) (d_existing_session d),
       d_passkey_challenge := or_else (tp_passkey_challenge p) (d_passkey_challenge d),
       d_registration := or_else (tp_registration p) (d_registration d),
       d_federation := or_else (tp_federation p) (d_federation d),
       d_link := or_else (tp_link p) (d_link d),
       d_auth := or_else (tp_auth p) (d_auth d),
       d_consent := or_else (tp_consent p) (d_consent d),
       d_logout := or_else (tp_logout p) (d_logout d),
       d_error := or_else (tp_error p) (d_error d),
       d_attempts := or_else (tp_attempts p) (d_attempts d),
       d_par_consumed := or_else (tp_par_consumed p) (d_par_consumed d),
       d_completing := or_else (tp_completing p) (d_completing d)\<rparr>"

definition spread_patch :: "interaction_patch \<Rightarrow> interaction_document \<Rightarrow> interaction_document" where
  "spread_patch p d =
     d\<lparr>d_passkey_challenge := or_else (px_passkey_challenge p) (d_passkey_challenge d),
       d_registration := or_else (px_registration p) (d_registration d),
       d_federation := or_else (px_federation p) (d_federation d),
       d_link := or_else (px_link p) (d_link d),
       d_attempts := or_else (px_attempts p) (d_attempts d)\<rparr>"


section \<open>The object\<close>

record interaction_do =
  ix_doc :: "interaction_document option"
  ix_alarm :: "int option"

definition fresh_interaction_do :: interaction_do where
  "fresh_interaction_do = \<lparr>ix_doc = None, ix_alarm = None\<rparr>"

type_synonym 'a ix_outcome = "('a, interaction_do_error) do_result"

definition TERMINAL_RETENTION_SECONDS :: seconds where
  "TERMINAL_RETENTION_SECONDS = 60"

definition put_doc :: "interaction_document \<Rightarrow> interaction_do \<Rightarrow> interaction_do" where
  "put_doc d s = s\<lparr>ix_doc := Some d\<rparr>"

definition set_alarm :: "interaction_document \<Rightarrow> interaction_do \<Rightarrow> interaction_do" where
  "set_alarm d s = s\<lparr>ix_alarm := Some (d_expires_at d * 1000)\<rparr>"

definition new_document :: "create_interaction \<Rightarrow> seconds \<Rightarrow> seconds \<Rightarrow> interaction_document" where
  "new_document input now ttlSeconds =
     \<lparr>d_id = cx_id input, d_kind = cx_kind input, d_status = cx_status input, d_created_at = now,
      d_expires_at = now + ttlSeconds, d_binding_hash = cx_binding_hash input,
      d_client_id = cx_client_id input, d_request = cx_request input,
      d_existing_session = cx_existing_session input, d_passkey_challenge = None,
      d_registration = None, d_federation = None, d_link = None, d_auth = None, d_consent = None,
      d_logout = cx_logout input, d_error = None, d_attempts = 0, d_par_consumed = False,
      d_completing = False\<rparr>"

definition create ::
  "create_interaction \<Rightarrow> seconds \<Rightarrow> seconds \<Rightarrow> interaction_do \<Rightarrow>
   interaction_document ix_outcome \<times> interaction_do" where
  "create input now ttlSeconds s =
     (if ix_doc s \<noteq> None then (Fail Interaction_exists, s)
      else
        let doc = new_document input now ttlSeconds
        in (Ok doc, set_alarm doc (put_doc doc s)))"

definition get :: "seconds \<Rightarrow> interaction_do \<Rightarrow> interaction_document ix_outcome" where
  "get now s =
     (case ix_doc s of
        None \<Rightarrow> Fail Interaction_not_found
      | Some doc \<Rightarrow> if d_expires_at doc \<le> now then Fail Interaction_not_found else Ok doc)"

text \<open>The opening lines of every method but \<^verbatim>\<open>create\<close>: the live document, or its absence.\<close>

definition with_live ::
  "seconds \<Rightarrow> (interaction_document \<Rightarrow> 'a ix_outcome \<times> interaction_do) \<Rightarrow> interaction_do \<Rightarrow>
   'a ix_outcome \<times> interaction_do" where
  "with_live now body s =
     (case get now s of
        Ok doc \<Rightarrow> body doc
      | Fail e \<Rightarrow> (Fail e, s)
      | Threw \<Rightarrow> (Threw, s))"

definition claimPushed ::
  "string \<Rightarrow> string \<Rightarrow> seconds \<Rightarrow> seconds \<Rightarrow> interaction_do \<Rightarrow>
   interaction_document ix_outcome \<times> interaction_do" where
  "claimPushed clientId bindingHash now ttlSeconds s =
     with_live now (\<lambda>current.
       if d_status current \<noteq> Pushed \<or> d_par_consumed current \<or> d_client_id current \<noteq> Some clientId
       then (Fail Interaction_invalid_state, s)
       else
         let doc = current\<lparr>d_kind := Kind_authorize, d_binding_hash := bindingHash,
                     d_par_consumed := True, d_expires_at := now + ttlSeconds\<rparr>
         in (Ok doc, set_alarm doc (put_doc doc s))) s"

definition apply_op ::
  "interaction_operation \<Rightarrow> interaction_status \<Rightarrow> transition_patch \<Rightarrow> seconds \<Rightarrow> interaction_do \<Rightarrow>
   interaction_document ix_outcome \<times> interaction_do" where
  "apply_op operation dest patch now s =
     with_live now (\<lambda>current.
       if \<not> canTransition (d_status current) operation dest then (Fail Interaction_invalid_state, s)
       else
         let doc0 = (spread_transition patch current)\<lparr>d_status := dest\<rparr>;
             doc = (if isTerminal dest
                    then doc0\<lparr>d_expires_at := min (d_expires_at doc0) (now + TERMINAL_RETENTION_SECONDS)\<rparr>
                    else doc0);
             s1 = put_doc doc s
         in (Ok doc, if isTerminal dest then set_alarm doc s1 else s1)) s"

definition claimCompletion :: "seconds \<Rightarrow> interaction_do \<Rightarrow> interaction_document ix_outcome \<times> interaction_do" where
  "claimCompletion now s =
     with_live now (\<lambda>current.
       if (d_status current \<noteq> Ready \<and> d_status current \<noteq> Failed) \<or> d_completing current
       then (Fail Interaction_invalid_state, s)
       else
         let doc = current\<lparr>d_completing := True\<rparr> in (Ok doc, put_doc doc s)) s"

text \<open>\<^verbatim>\<open>secretsEqual\<close> and \<^verbatim>\<open>hashesEqual\<close> of \<^verbatim>\<open>src/crypto/hash.ts\<close>.\<close>

definition secretsEqual :: "bytes \<Rightarrow> bytes \<Rightarrow> bool" where
  "secretsEqual a b = (if length a \<noteq> length b then False else a = b)"

definition hashesEqual :: "string \<Rightarrow> string \<Rightarrow> bool" where
  "hashesEqual a b = secretsEqual (utf8 a) (utf8 b)"

lemma hashesEqual_eq [simp]: "hashesEqual a b \<longleftrightarrow> a = b"
  by (auto simp: hashesEqual_def secretsEqual_def)

definition consumeFederation ::
  "string \<Rightarrow> seconds \<Rightarrow> interaction_do \<Rightarrow>
   (interaction_document \<times> federation_leg) ix_outcome \<times> interaction_do" where
  "consumeFederation stateHash now s =
     with_live now (\<lambda>current.
       case d_federation current of
         None \<Rightarrow> (Fail Interaction_invalid_state, s)
       | Some leg \<Rightarrow>
           if \<not> hashesEqual (fl_state_hash leg) stateHash \<or> fl_expires_at leg \<le> now
           then (Fail Interaction_invalid_state, s)
           else if d_status current \<noteq> Login_needed then (Fail Interaction_invalid_state, s)
           else
             let doc = current\<lparr>d_federation := None\<rparr> in (Ok (doc, leg), put_doc doc s)) s"

definition patch_doc ::
  "interaction_patch \<Rightarrow> seconds \<Rightarrow> interaction_do \<Rightarrow> interaction_document ix_outcome \<times> interaction_do" where
  "patch_doc delta now s =
     with_live now (\<lambda>current.
       if isTerminal (d_status current) then (Fail Interaction_invalid_state, s)
       else let doc = spread_patch delta current in (Ok doc, put_doc doc s)) s"

definition attempt ::
  "seconds \<Rightarrow> int \<Rightarrow> interaction_do \<Rightarrow> (interaction_document \<times> int) ix_outcome \<times> interaction_do" where
  "attempt now limit s =
     with_live now (\<lambda>current.
       if isTerminal (d_status current) then (Fail Interaction_invalid_state, s)
       else
         let attempts = d_attempts current + 1 in
         if attempts > limit then
           (Fail Too_many_tries,
            snd (apply_op Fail_op Failed
                   (no_patch\<lparr>tp_attempts := Some attempts,
                     tp_error := Some (Some \<lparr>ie_error = ''too_many_attempts'',
                                             ie_error_description = ''too many attempts''\<rparr>)\<rparr>) now s))
         else
           let doc = current\<lparr>d_attempts := attempts\<rparr>
           in (Ok (doc, limit - attempts), put_doc doc s)) s"

definition alarm :: "interaction_do \<Rightarrow> interaction_do" where
  "alarm s = s\<lparr>ix_doc := None, ix_alarm := None\<rparr>"

end
