(* ===== verification/Interaction_Safety.thy ===== *)
theory Interaction_Safety
  imports Interaction Machines
begin

text \<open>
  The interaction object as a machine: its alarm always stands at the document's expiry, a pushed request, the
  completion and a federation leg are each taken at most once, attempts are bounded, and the status moves
  only along the transition table.
\<close>

datatype interaction_op =
    Create_op create_interaction seconds seconds
  | Claim_pushed string string seconds seconds
  | Apply interaction_operation interaction_status transition_patch seconds
  | Claim_completion seconds
  | Consume_federation string seconds
  | Patch interaction_patch seconds
  | Attempt seconds int
  | Alarm

primrec interaction_step :: "interaction_op \<Rightarrow> interaction_do \<Rightarrow> interaction_do" where
  "interaction_step (Create_op input now ttl) s = snd (create input now ttl s)"
| "interaction_step (Claim_pushed cid hash now ttl) s = snd (claimPushed cid hash now ttl s)"
| "interaction_step (Apply operation dest patch now) s = snd (apply_op operation dest patch now s)"
| "interaction_step (Claim_completion now) s = snd (claimCompletion now s)"
| "interaction_step (Consume_federation hash now) s = snd (consumeFederation hash now s)"
| "interaction_step (Patch patch now) s = snd (patch_doc patch now s)"
| "interaction_step (Attempt now limit) s = snd (attempt now limit s)"
| "interaction_step Alarm s = alarm s"


section \<open>The alarm\<close>

definition alarm_armed :: "interaction_do \<Rightarrow> bool" where
  "alarm_armed s =
     (case ix_doc s of
        None \<Rightarrow> ix_alarm s = None
      | Some d \<Rightarrow> ix_alarm s = Some (d_expires_at d * 1000))"

lemma get_Ok: "get now s = Ok d \<longleftrightarrow> ix_doc s = Some d \<and> now < d_expires_at d"
  by (auto simp: get_def split: option.splits)

text \<open>What a method leaves behind: nothing new where the document is not live.\<close>

lemma with_liveI:
  assumes "P s" and "\<And>d. ix_doc s = Some d \<Longrightarrow> now < d_expires_at d \<Longrightarrow> P (snd (body d))"
  shows "P (snd (with_live now body s))"
  using assms by (cases "ix_doc s") (auto simp: with_live_def get_def)

lemma with_live_OkE:
  assumes "with_live now body s = (Ok r, s')"
  obtains d where "ix_doc s = Some d" and "now < d_expires_at d" and "body d = (Ok r, s')"
  using assms by (cases "ix_doc s") (auto simp: with_live_def get_def split: if_splits)

lemma spread_fields [simp]:
  "d_expires_at (spread_transition p d) = d_expires_at d"
  "d_status (spread_transition p d) = d_status d"
  "d_id (spread_transition p d) = d_id d"
  "d_binding_hash (spread_transition p d) = d_binding_hash d"
  "d_expires_at (spread_patch q d) = d_expires_at d"
  "d_status (spread_patch q d) = d_status d"
  "d_par_consumed (spread_patch q d) = d_par_consumed d"
  "d_completing (spread_patch q d) = d_completing d"
  "d_id (spread_patch q d) = d_id d"
  "d_binding_hash (spread_patch q d) = d_binding_hash d"
  by (simp_all add: spread_transition_def spread_patch_def)

lemmas ix_writes = put_doc_def set_alarm_def Let_def

lemma apply_op_armed: "alarm_armed s \<Longrightarrow> alarm_armed (snd (apply_op operation dest patch now s))"
  unfolding apply_op_def by (rule with_liveI) (auto simp: alarm_armed_def ix_writes)

lemma attempt_armed: "alarm_armed s \<Longrightarrow> alarm_armed (snd (attempt now limit s))"
  unfolding attempt_def
  by (rule with_liveI, assumption) (auto simp: ix_writes apply_op_armed, auto simp: alarm_armed_def)

lemma claims_armed:
  "alarm_armed s \<Longrightarrow> alarm_armed (snd (claimPushed cid hash now ttl s))"
  "alarm_armed s \<Longrightarrow> alarm_armed (snd (claimCompletion now s))"
  "alarm_armed s \<Longrightarrow> alarm_armed (snd (consumeFederation hash now s))"
  "alarm_armed s \<Longrightarrow> alarm_armed (snd (patch_doc patch now s))"
  unfolding claimPushed_def claimCompletion_def consumeFederation_def patch_doc_def
  by (rule with_liveI, assumption, force simp: ix_writes alarm_armed_def split: option.split)+

lemma create_armed: "alarm_armed s \<Longrightarrow> alarm_armed (snd (create input now ttl s))"
  by (auto simp: create_def alarm_armed_def ix_writes)

lemma interaction_step_armed: "alarm_armed s \<Longrightarrow> alarm_armed (interaction_step x s)"
  by (cases x) (simp_all add: create_armed claims_armed apply_op_armed attempt_armed,
    simp add: alarm_def alarm_armed_def)

interpretation interaction_object: object_machine interaction_step alarm_armed
  by unfold_locales (rule interaction_step_armed)

text \<open>
  An interaction never outlives its expiry: in every reachable state of the object the alarm that deletes
  everything stands exactly at the document's expiry, and once it has gone off, or the expiry has
  passed, every method reports the interaction as not found.
\<close>

theorem interaction_expires:
  "let s = fold interaction_step xs fresh_interaction_do in
     (\<forall>d. ix_doc s = Some d \<longrightarrow> ix_alarm s = Some (d_expires_at d * 1000) \<and>
        (d_expires_at d \<le> now \<longrightarrow> get now s = Fail Interaction_not_found \<and>
           fst (claimCompletion now s) = Fail Interaction_not_found \<and>
           fst (claimPushed cid h now ttl s) = Fail Interaction_not_found)) \<and>
     get now (alarm s) = Fail Interaction_not_found"
proof -
  have "alarm_armed (fold interaction_step xs fresh_interaction_do)"
    by (rule interaction_object.inv_run) (simp add: alarm_armed_def fresh_interaction_do_def)
  then show ?thesis
    by (auto simp: Let_def alarm_armed_def get_def alarm_def claimCompletion_def claimPushed_def with_live_def)
qed

definition ex_create :: create_interaction where
  "ex_create = \<lparr>cx_id = ''ix'', cx_kind = Kind_authorize, cx_status = Login_needed, cx_binding_hash = ''b'',
     cx_client_id = Some ''web'', cx_request = None, cx_existing_session = None, cx_logout = None\<rparr>"

theorem interaction_expires_witness:
  "ix_alarm (fold interaction_step [Create_op ex_create 100 600] fresh_interaction_do) = Some 700000 \<and>
   get 700 (fold interaction_step [Create_op ex_create 100 600] fresh_interaction_do) = Fail Interaction_not_found"
proof -
  let ?s = "fold interaction_step [Create_op ex_create 100 600] fresh_interaction_do"
  have d: "ix_doc ?s = Some (new_document ex_create 100 600)"
    by (simp add: create_def ix_writes fresh_interaction_do_def)
  have e: "d_expires_at (new_document ex_create 100 600) = 700" by (simp add: new_document_def)
  from interaction_expires [of "[Create_op ex_create 100 600]" 700] d e show ?thesis by (simp add: Let_def)
qed



section \<open>Pushed requests\<close>

lemma never_to_pushed [simp]: "\<not> canTransition src operation Pushed"
  by (cases src; cases operation) (simp_all add: canTransition_def)

definition par_spent :: "interaction_do \<Rightarrow> bool" where
  "par_spent s = (case ix_doc s of None \<Rightarrow> True | Some d \<Rightarrow> d_par_consumed d \<or> d_status d \<noteq> Pushed)"

definition par_wins :: "interaction_op \<Rightarrow> interaction_do \<Rightarrow> bool" where
  "par_wins x s =
     (case x of Claim_pushed cid hash now ttl \<Rightarrow> is_ok (fst (claimPushed cid hash now ttl s)) | _ \<Rightarrow> False)"

definition creates_none :: "interaction_op \<Rightarrow> bool" where
  "creates_none x = (case x of Create_op _ _ _ \<Rightarrow> False | _ \<Rightarrow> True)"

lemma apply_op_par: "par_spent s \<Longrightarrow> par_spent (snd (apply_op operation dest patch now s))"
  unfolding apply_op_def
  by (rule with_liveI, assumption) (cases dest; simp add: par_spent_def ix_writes isTerminal_def)

lemma attempt_par: "par_spent s \<Longrightarrow> par_spent (snd (attempt now limit s))"
  unfolding attempt_def
  by (rule with_liveI, assumption) (auto simp: ix_writes apply_op_par, auto simp: par_spent_def)

lemma claims_par:
  "par_spent s \<Longrightarrow> par_spent (snd (claimPushed cid hash now ttl s))"
  "par_spent s \<Longrightarrow> par_spent (snd (claimCompletion now s))"
  "par_spent s \<Longrightarrow> par_spent (snd (consumeFederation fed now s))"
  "par_spent s \<Longrightarrow> par_spent (snd (patch_doc patch now s))"
  unfolding claimPushed_def claimCompletion_def consumeFederation_def patch_doc_def
  by (rule with_liveI, assumption, force simp: ix_writes par_spent_def split: option.split)+

lemma par_winsE:
  assumes "par_wins x s"
  obtains d d' where "ix_doc s = Some d" and "d_status d = Pushed" and "\<not> d_par_consumed d"
    and "ix_doc (interaction_step x s) = Some d'" and "d_par_consumed d'"
proof (cases x)
  case (Claim_pushed cid hash now ttl)
  with assms have "is_ok (fst (claimPushed cid hash now ttl s))" by (simp add: par_wins_def)
  then obtain r s' where r: "claimPushed cid hash now ttl s = (Ok r, s')" by (rule is_ok_pairE)
  then show ?thesis
    unfolding claimPushed_def
    by (rule with_live_OkE) (use r that Claim_pushed in \<open>auto simp: ix_writes split: if_splits\<close>)
qed (use assms in \<open>simp_all add: par_wins_def\<close>)

interpretation par_once: single_use interaction_step alarm_armed creates_none par_spent par_wins
proof unfold_locales
  fix s x assume "creates_none x" and "par_spent s"
  then show "par_spent (interaction_step x s)"
    by (cases x) (simp_all add: creates_none_def claims_par apply_op_par attempt_par,
      simp add: alarm_def par_spent_def)
next
  fix s x assume "par_wins x s"
  then show "\<not> par_spent s" by (rule par_winsE) (simp add: par_spent_def)
next
  fix s x assume "par_wins x s"
  then show "par_spent (interaction_step x s)" by (rule par_winsE) (simp add: par_spent_def)
qed

text \<open>
  A pushed authorization request is taken at most once (RFC 9126): of all the calls that follow its creation,
  in any order, at most one \<^verbatim>\<open>claimPushed\<close> succeeds.
\<close>

theorem pushed_request_claimed_at_most_once:
  assumes "list_all creates_none later"
  shows "run_wins interaction_step par_wins later
           (snd (create input now ttl fresh_interaction_do)) \<le> 1"
proof -
  have "alarm_armed (snd (create input now ttl fresh_interaction_do))"
    by (rule create_armed) (simp add: alarm_armed_def fresh_interaction_do_def)
  then show ?thesis using assms by (rule par_once.at_most_once)
qed

theorem pushed_request_claimed_at_most_once_witness:
  "run_wins interaction_step par_wins
     [Claim_pushed ''web'' ''h1'' 110 600, Claim_pushed ''web'' ''h2'' 111 600]
     (snd (create (ex_create\<lparr>cx_status := Pushed, cx_kind := Kind_par\<rparr>) 100 60 fresh_interaction_do)) = 1"
proof -
  let ?xs = "[Claim_pushed ''web'' ''h1'' 110 600, Claim_pushed ''web'' ''h2'' 111 600]"
  let ?s = "snd (create (ex_create\<lparr>cx_status := Pushed, cx_kind := Kind_par\<rparr>) 100 60 fresh_interaction_do)"
  have "list_all creates_none ?xs" by code_simp
  then have "run_wins interaction_step par_wins ?xs ?s \<le> 1" by (rule pushed_request_claimed_at_most_once)
  moreover have "run_wins interaction_step par_wins ?xs ?s > 0" by code_simp
  ultimately show ?thesis by linarith
qed


section \<open>Completion\<close>

definition completion_spent :: "interaction_do \<Rightarrow> bool" where
  "completion_spent s = (case ix_doc s of None \<Rightarrow> True | Some d \<Rightarrow> d_completing d)"

definition completion_wins :: "interaction_op \<Rightarrow> interaction_do \<Rightarrow> bool" where
  "completion_wins x s =
     (case x of Claim_completion now \<Rightarrow> is_ok (fst (claimCompletion now s)) | _ \<Rightarrow> False)"

text \<open>The operation neither creates the document nor gives the claim back, as the restart does.\<close>

definition releases_none :: "interaction_op \<Rightarrow> bool" where
  "releases_none x =
     (case x of Create_op _ _ _ \<Rightarrow> False | Apply _ _ patch _ \<Rightarrow> tp_completing patch \<noteq> Some False | _ \<Rightarrow> True)"

lemma apply_op_completing:
  "tp_completing patch \<noteq> Some False \<Longrightarrow> completion_spent s \<Longrightarrow>
   completion_spent (snd (apply_op operation dest patch now s))"
  unfolding apply_op_def
  by (rule with_liveI, assumption)
     (auto simp: completion_spent_def ix_writes spread_transition_def or_else_def split: option.splits)

lemma attempt_completing: "completion_spent s \<Longrightarrow> completion_spent (snd (attempt now limit s))"
  unfolding attempt_def
  by (rule with_liveI, assumption)
     (auto simp: ix_writes no_patch_def apply_op_completing, auto simp: completion_spent_def)

lemma claims_completing:
  "completion_spent s \<Longrightarrow> completion_spent (snd (claimPushed cid hash now ttl s))"
  "completion_spent s \<Longrightarrow> completion_spent (snd (claimCompletion now s))"
  "completion_spent s \<Longrightarrow> completion_spent (snd (consumeFederation fed now s))"
  "completion_spent s \<Longrightarrow> completion_spent (snd (patch_doc patch now s))"
  unfolding claimPushed_def claimCompletion_def consumeFederation_def patch_doc_def
  by (rule with_liveI, assumption, force simp: ix_writes completion_spent_def split: option.split)+

lemma completion_winsE:
  assumes "completion_wins x s"
  obtains d d' where "ix_doc s = Some d" and "\<not> d_completing d"
    and "ix_doc (interaction_step x s) = Some d'" and "d_completing d'"
proof (cases x)
  case (Claim_completion now)
  with assms have "is_ok (fst (claimCompletion now s))" by (simp add: completion_wins_def)
  then obtain r s' where r: "claimCompletion now s = (Ok r, s')" by (rule is_ok_pairE)
  then show ?thesis
    unfolding claimCompletion_def
    by (rule with_live_OkE) (use r that Claim_completion in \<open>auto simp: ix_writes split: if_splits\<close>)
qed (use assms in \<open>simp_all add: completion_wins_def\<close>)

interpretation completion_once:
  single_use interaction_step alarm_armed releases_none completion_spent completion_wins
proof unfold_locales
  fix s x assume "releases_none x" and "completion_spent s"
  then show "completion_spent (interaction_step x s)"
    by (cases x) (simp_all add: releases_none_def claims_completing apply_op_completing attempt_completing,
      simp add: alarm_def completion_spent_def)
next
  fix s x assume "completion_wins x s"
  then show "\<not> completion_spent s" by (rule completion_winsE) (simp add: completion_spent_def)
next
  fix s x assume "completion_wins x s"
  then show "completion_spent (interaction_step x s)" by (rule completion_winsE) (simp add: completion_spent_def)
qed

text \<open>
  C15. An interaction is completed at most once: of all calls that reach the object, in any order, at most one
  \<^verbatim>\<open>claimCompletion\<close> succeeds, so at most one request goes on to issue a code; only the restart after
  a revoked session gives the claim back.
\<close>

theorem completion_claimed_at_most_once:
  assumes "alarm_armed s" and "list_all releases_none later"
  shows "run_wins interaction_step completion_wins later s \<le> 1"
  using assms by (rule completion_once.at_most_once)

theorem completion_claimed_at_most_once_witness:
  "run_wins interaction_step completion_wins [Claim_completion 110, Apply Complete Completed no_patch 110, Claim_completion 111]
     (snd (create (ex_create\<lparr>cx_status := Ready\<rparr>) 100 60 fresh_interaction_do)) = 1"
proof -
  let ?xs = "[Claim_completion 110, Apply Complete Completed no_patch 110, Claim_completion 111]"
  let ?s = "snd (create (ex_create\<lparr>cx_status := Ready\<rparr>) 100 60 fresh_interaction_do)"
  have armed: "alarm_armed ?s" by (rule create_armed) (simp add: alarm_armed_def fresh_interaction_do_def)
  have "list_all releases_none ?xs" by code_simp
  with armed have "run_wins interaction_step completion_wins ?xs ?s \<le> 1"
    by (rule completion_claimed_at_most_once)
  moreover have "run_wins interaction_step completion_wins ?xs ?s > 0" by code_simp
  ultimately show ?thesis by linarith
qed



section \<open>Federation legs\<close>

definition leg_spent :: "string \<Rightarrow> interaction_do \<Rightarrow> bool" where
  "leg_spent h s =
     (case ix_doc s of
        None \<Rightarrow> True
      | Some d \<Rightarrow> (case d_federation d of None \<Rightarrow> True | Some leg \<Rightarrow> fl_state_hash leg \<noteq> h))"

definition leg_wins :: "string \<Rightarrow> interaction_op \<Rightarrow> interaction_do \<Rightarrow> bool" where
  "leg_wins h x s =
     (case x of Consume_federation h' now \<Rightarrow> h' = h \<and> is_ok (fst (consumeFederation h now s)) | _ \<Rightarrow> False)"

definition sets_leg :: "string \<Rightarrow> federation_leg option option \<Rightarrow> bool" where
  "sets_leg h fed = (case fed of Some (Some leg) \<Rightarrow> fl_state_hash leg = h | _ \<Rightarrow> False)"

definition starts_no_leg :: "string \<Rightarrow> interaction_op \<Rightarrow> bool" where
  "starts_no_leg h x =
     (case x of
        Apply _ _ patch _ \<Rightarrow> \<not> sets_leg h (tp_federation patch)
      | Patch patch _ \<Rightarrow> \<not> sets_leg h (px_federation patch)
      | _ \<Rightarrow> True)"

lemma leg_spread:
  assumes "\<not> sets_leg h fed" and "case old of None \<Rightarrow> True | Some leg \<Rightarrow> fl_state_hash leg \<noteq> h"
  shows "case or_else fed old of None \<Rightarrow> True | Some leg \<Rightarrow> fl_state_hash leg \<noteq> h"
  using assms by (auto simp: or_else_def sets_leg_def split: option.splits)

lemma apply_op_leg:
  "\<not> sets_leg h (tp_federation patch) \<Longrightarrow> leg_spent h s \<Longrightarrow> leg_spent h (snd (apply_op operation dest patch now s))"
  unfolding apply_op_def
  by (rule with_liveI, assumption) (auto simp: leg_spent_def ix_writes spread_transition_def leg_spread)

lemma patch_leg:
  "\<not> sets_leg h (px_federation patch) \<Longrightarrow> leg_spent h s \<Longrightarrow> leg_spent h (snd (patch_doc patch now s))"
  unfolding patch_doc_def
  by (rule with_liveI, assumption) (auto simp: leg_spent_def ix_writes spread_patch_def leg_spread)

lemma attempt_leg: "leg_spent h s \<Longrightarrow> leg_spent h (snd (attempt now limit s))"
  unfolding attempt_def
  by (rule with_liveI, assumption)
     (auto simp: ix_writes no_patch_def sets_leg_def intro!: apply_op_leg, auto simp: leg_spent_def)

lemma claims_leg:
  "leg_spent h s \<Longrightarrow> leg_spent h (snd (claimPushed cid hash now ttl s))"
  "leg_spent h s \<Longrightarrow> leg_spent h (snd (claimCompletion now s))"
  "leg_spent h s \<Longrightarrow> leg_spent h (snd (consumeFederation fed now s))"
  unfolding claimPushed_def claimCompletion_def consumeFederation_def
  by (rule with_liveI, assumption, force simp: ix_writes leg_spent_def split: option.split)+

lemma create_leg: "leg_spent h s \<Longrightarrow> leg_spent h (snd (create input now ttl s))"
  by (simp add: create_def ix_writes leg_spent_def new_document_def)

lemma leg_winsE:
  assumes "leg_wins h x s"
  obtains d leg d' where "ix_doc s = Some d" and "d_federation d = Some leg" and "fl_state_hash leg = h"
    and "d_status d = Login_needed" and "ix_doc (interaction_step x s) = Some d'" and "d_federation d' = None"
proof (cases x)
  case (Consume_federation h' now)
  with assms have "is_ok (fst (consumeFederation h now s))" and h: "h' = h" by (simp_all add: leg_wins_def)
  then obtain r s' where r: "consumeFederation h now s = (Ok r, s')" by (blast elim: is_ok_pairE)
  then show ?thesis
    unfolding consumeFederation_def
    by (rule with_live_OkE)
       (use r h that Consume_federation in \<open>auto simp: ix_writes split: if_splits option.splits\<close>)
qed (use assms in \<open>simp_all add: leg_wins_def\<close>)

interpretation leg_once: single_use interaction_step alarm_armed "starts_no_leg h" "leg_spent h" "leg_wins h" for h
proof unfold_locales
  fix s x assume "starts_no_leg h x" and "leg_spent h s"
  then show "leg_spent h (interaction_step x s)"
    by (cases x) (simp_all add: starts_no_leg_def claims_leg apply_op_leg attempt_leg patch_leg create_leg,
      simp add: alarm_def leg_spent_def)
next
  fix s x assume "leg_wins h x s"
  then show "\<not> leg_spent h s" by (rule leg_winsE) (simp add: leg_spent_def)
next
  fix s x assume "leg_wins h x s"
  then show "leg_spent h (interaction_step x s)" by (rule leg_winsE) (simp add: leg_spent_def)
qed

text \<open>
  The state of an upstream login is accepted at most once: of all calls, in any order, at most one
  \<^verbatim>\<open>consumeFederation\<close> with the same state succeeds, as long as no further leg with the same state is
  started.
\<close>

theorem federation_state_consumed_at_most_once:
  assumes "alarm_armed s" and "list_all (starts_no_leg h) later"
  shows "run_wins interaction_step (leg_wins h) later s \<le> 1"
  using assms by (rule leg_once.at_most_once)

definition ex_leg :: federation_leg where
  "ex_leg = \<lparr>fl_alias = ''google'', fl_state_hash = ''sh'', fl_nonce = ''n'', fl_code_verifier = ''v'',
     fl_expires_at = 400, fl_invitation_id = None\<rparr>"

definition ex_leg_patch :: interaction_patch where
  "ex_leg_patch = \<lparr>px_passkey_challenge = None, px_registration = None, px_federation = Some (Some ex_leg),
     px_link = None, px_attempts = None\<rparr>"

theorem federation_state_consumed_at_most_once_witness:
  "run_wins interaction_step (leg_wins ''sh'') [Consume_federation ''sh'' 120, Consume_federation ''sh'' 121]
     (fold interaction_step [Create_op ex_create 100 600, Patch ex_leg_patch 105] fresh_interaction_do) = 1"
proof -
  let ?s = "fold interaction_step [Create_op ex_create 100 600, Patch ex_leg_patch 105] fresh_interaction_do"
  let ?xs = "[Consume_federation ''sh'' 120, Consume_federation ''sh'' 121]"
  have armed: "alarm_armed ?s"
    by (rule interaction_object.inv_run) (simp add: alarm_armed_def fresh_interaction_do_def)
  have "list_all (starts_no_leg ''sh'') ?xs" by code_simp
  with armed have "run_wins interaction_step (leg_wins ''sh'') ?xs ?s \<le> 1"
    by (rule federation_state_consumed_at_most_once)
  moreover have "run_wins interaction_step (leg_wins ''sh'') ?xs ?s > 0" by code_simp
  ultimately show ?thesis by linarith
qed


section \<open>Attempts\<close>

definition attempt_ok :: "interaction_op \<Rightarrow> interaction_do \<Rightarrow> bool" where
  "attempt_ok x s = (case x of Attempt now limit \<Rightarrow> is_ok (fst (attempt now limit s)) | _ \<Rightarrow> False)"

text \<open>The operations of a run in which attempts are counted against one limit and never reset.\<close>

definition counts_against :: "int \<Rightarrow> interaction_op \<Rightarrow> bool" where
  "counts_against n x =
     (case x of
        Create_op _ _ _ \<Rightarrow> False
      | Apply _ _ patch _ \<Rightarrow> tp_attempts patch = None
      | Patch patch _ \<Rightarrow> px_attempts patch = None
      | Attempt _ limit \<Rightarrow> limit = n
      | _ \<Rightarrow> True)"

definition tries_left :: "int \<Rightarrow> interaction_do \<Rightarrow> int" where
  "tries_left n s = (case ix_doc s of None \<Rightarrow> 0 | Some d \<Rightarrow> max 0 (n - d_attempts d))"

lemma apply_op_tries:
  assumes "tp_attempts patch = None \<or> tp_attempts patch = Some k \<and> (\<forall>d. ix_doc s = Some d \<longrightarrow> d_attempts d \<le> k)"
  shows "tries_left n (snd (apply_op operation dest patch now s)) \<le> tries_left n s"
  unfolding apply_op_def
  by (rule with_liveI) (use assms in \<open>auto simp: tries_left_def ix_writes spread_transition_def or_else_def\<close>)

lemma attempt_tries:
  "(if is_ok (fst (attempt now n s)) then 1 else 0) + tries_left n (snd (attempt now n s)) \<le> tries_left n s"
proof (cases "ix_doc s")
  case None
  then show ?thesis by (simp add: attempt_def with_live_def get_def tries_left_def)
next
  case (Some d)
  have fail: "tries_left n (snd (apply_op Fail_op Failed (no_patch\<lparr>tp_attempts := Some (d_attempts d + 1),
      tp_error := e\<rparr>) now s)) \<le> tries_left n s" for e
    by (rule apply_op_tries [where k = "d_attempts d + 1"]) (simp add: Some)
  show ?thesis
    using Some fail by (auto simp: attempt_def with_live_def get_def ix_writes tries_left_def)
qed

lemma claims_tries:
  "tries_left n (snd (claimPushed cid hash now ttl s)) \<le> tries_left n s"
  "tries_left n (snd (claimCompletion now s)) \<le> tries_left n s"
  "tries_left n (snd (consumeFederation fed now s)) \<le> tries_left n s"
  "px_attempts patch = None \<Longrightarrow> tries_left n (snd (patch_doc patch now s)) \<le> tries_left n s"
  unfolding claimPushed_def claimCompletion_def consumeFederation_def patch_doc_def
  by (rule with_liveI, simp,
      force simp: ix_writes tries_left_def spread_patch_def or_else_def split: option.split)+

lemma tries_step:
  assumes "counts_against n x"
  shows "(if attempt_ok x s then 1 else 0) + tries_left n (interaction_step x s) \<le> tries_left n s"
  using assms attempt_tries
  by (cases x) (simp_all add: counts_against_def attempt_ok_def claims_tries apply_op_tries,
    simp add: alarm_def tries_left_def split: option.split)

text \<open>
  Attempts are bounded for the life of an interaction: whatever other calls come between, at most
  \<open>limit\<close> calls of \<^verbatim>\<open>attempt\<close> pass, and the one beyond it leaves the interaction failed with
  \<^verbatim>\<open>too_many_attempts\<close>.
\<close>

theorem interaction_attempts_bounded:
  assumes "list_all (counts_against limit) later"
  shows "int (run_wins interaction_step attempt_ok later (snd (create input now ttl fresh_interaction_do)))
           \<le> max 0 limit \<and>
         (\<forall>t d s'. fst (attempt t limit s') = Fail Too_many_tries \<longrightarrow> ix_doc (snd (attempt t limit s')) = Some d \<longrightarrow>
            d_status d = Failed \<and> map_option ie_error (d_error d) = Some ''too_many_attempts'')"
proof
  have "int (run_wins interaction_step attempt_ok later s) \<le> tries_left limit s" for s
    using assms
  proof (induction later arbitrary: s)
    case (Cons x xs)
    have rest: "int (run_wins interaction_step attempt_ok xs (interaction_step x s)) \<le> tries_left limit (interaction_step x s)"
      using Cons.prems by (intro Cons.IH) simp
    have "counts_against limit x" using Cons.prems by simp
    from tries_step [OF this, of s] rest show ?case by (cases "attempt_ok x s") simp_all
  qed (simp add: tries_left_def split: option.split)
  from this [of "snd (create input now ttl fresh_interaction_do)"]
  show "int (run_wins interaction_step attempt_ok later (snd (create input now ttl fresh_interaction_do))) \<le> max 0 limit"
    by (simp add: create_def ix_writes fresh_interaction_do_def tries_left_def new_document_def)
  have fails: "canTransition st Fail_op Failed" if "\<not> isTerminal st" for st
    using that by (cases st) (simp_all add: canTransition_def isTerminal_def)
  show "\<forall>t d s'. fst (attempt t limit s') = Fail Too_many_tries \<longrightarrow> ix_doc (snd (attempt t limit s')) = Some d \<longrightarrow>
            d_status d = Failed \<and> map_option ie_error (d_error d) = Some ''too_many_attempts''"
    using fails
    by (auto simp: attempt_def apply_op_def with_live_def get_def ix_writes isTerminal_def spread_transition_def
        or_else_def split: option.splits if_splits)
qed

theorem interaction_attempts_bounded_witness:
  "int (run_wins interaction_step attempt_ok [Attempt 101 2, Attempt 102 2, Claim_completion 102, Attempt 103 2]
     (snd (create ex_create 100 600 fresh_interaction_do))) \<le> 2"
proof -
  have "list_all (counts_against 2) [Attempt 101 2, Attempt 102 2, Claim_completion 102, Attempt 103 2]" by code_simp
  from interaction_attempts_bounded [OF this, of ex_create 100 600] show ?thesis by simp
qed



section \<open>The status machine\<close>

text \<open>
  The abstract contract of the object: a path through the transition table, labelled with the operations that
  were applied.
\<close>

inductive ix_path :: "interaction_status \<Rightarrow> interaction_operation list \<Rightarrow> interaction_status \<Rightarrow> bool" where
  ix_refl: "ix_path st [] st"
| ix_step: "canTransition st operation mid \<Longrightarrow> ix_path mid ops st' \<Longrightarrow> ix_path st (operation # ops) st'"

inductive_cases ix_path_NilE: "ix_path st [] st'"
inductive_cases ix_path_ConsE: "ix_path st (operation # ops) st'"
inductive_simps ix_path_simps: "ix_path st [] st'" "ix_path st (operation # ops) st'"

text \<open>The operation an accepted step applies to the status, if any.\<close>

definition status_ops :: "interaction_op \<Rightarrow> interaction_do \<Rightarrow> interaction_operation list" where
  "status_ops x s =
     (case x of
        Apply operation dest patch now \<Rightarrow> if is_ok (fst (apply_op operation dest patch now s)) then [operation] else []
      | Attempt now limit \<Rightarrow> if fst (attempt now limit s) = Fail Too_many_tries then [Fail_op] else []
      | _ \<Rightarrow> [])"

lemma fails_anywhere: "\<not> isTerminal st \<Longrightarrow> canTransition st Fail_op Failed"
  by (cases st) (simp_all add: canTransition_def isTerminal_def)

text \<open>Refinement, one step: the status moves along the table or stays, or the document is deleted.\<close>

lemma step_refines:
  assumes "creates_none x" and "ix_doc s = Some d" and "ix_doc (interaction_step x s) = Some d'"
  shows "ix_path (d_status d) (status_ops x s) (d_status d')"
proof (cases x)
  case (Apply operation dest patch now)
  with assms show ?thesis
    by (auto simp: apply_op_def with_live_def get_def ix_writes status_ops_def ix_path_simps isTerminal_def
        split: if_splits)
next
  case (Attempt now limit)
  with assms show ?thesis
    using fails_anywhere [of "d_status d"]
    by (auto simp: attempt_def apply_op_def with_live_def get_def ix_writes status_ops_def ix_path_simps
        isTerminal_def split: if_splits)
next
  case (Consume_federation h now)
  with assms show ?thesis
    by (auto simp: consumeFederation_def with_live_def get_def ix_writes status_ops_def ix_path_simps
        split: if_splits option.splits)
qed (use assms in \<open>auto simp: claimPushed_def claimCompletion_def patch_doc_def alarm_def with_live_def get_def
      ix_writes status_ops_def ix_path_simps creates_none_def split: if_splits\<close>)

fun run_ops :: "interaction_op list \<Rightarrow> interaction_do \<Rightarrow> interaction_operation list" where
  "run_ops [] s = []"
| "run_ops (x # xs) s = status_ops x s @ run_ops xs (interaction_step x s)"

lemma ix_path_append: "ix_path a xs b \<Longrightarrow> ix_path b ys c \<Longrightarrow> ix_path a (xs @ ys) c"
  by (induction rule: ix_path.induct) (auto intro: ix_path.intros)

lemma gone_stays_gone: "creates_none x \<Longrightarrow> ix_doc s = None \<Longrightarrow> ix_doc (interaction_step x s) = None"
  by (cases x) (simp_all add: creates_none_def claimPushed_def apply_op_def claimCompletion_def
      consumeFederation_def patch_doc_def attempt_def alarm_def with_live_def get_def)

lemma gone_run: "list_all creates_none xs \<Longrightarrow> ix_doc s = None \<Longrightarrow> ix_doc (fold interaction_step xs s) = None"
  by (induction xs arbitrary: s) (simp_all add: gone_stays_gone)

lemma object_path:
  assumes "list_all creates_none xs" and "ix_doc s = Some d"
    and "ix_doc (fold interaction_step xs s) = Some d'"
  shows "ix_path (d_status d) (run_ops xs s) (d_status d')"
  using assms
proof (induction xs arbitrary: s d)
  case Nil
  then show ?case by (simp add: ix_path_simps)
next
  case (Cons x xs)
  obtain d1 where d1: "ix_doc (interaction_step x s) = Some d1"
    using gone_run [of xs "interaction_step x s"] Cons.prems by (cases "ix_doc (interaction_step x s)") auto
  have "ix_path (d_status d) (status_ops x s) (d_status d1)"
    using Cons.prems by (intro step_refines d1) auto
  moreover have "ix_path (d_status d1) (run_ops xs (interaction_step x s)) (d_status d')"
    using Cons.prems by (intro Cons.IH d1) auto
  ultimately show ?case by (simp add: ix_path_append)
qed

text \<open>
  C16. The object refines the transition table: over any sequence of calls, the statuses of the document follow a
  path of the table labelled with exactly the operations that were accepted; a refused operation leaves
  the status unchanged.
\<close>

theorem interaction_refines_table:
  assumes "list_all creates_none xs" and "ix_doc s = Some d"
    and "ix_doc (fold interaction_step xs s) = Some d'"
  shows "ix_path (d_status d) (run_ops xs s) (d_status d')"
  using assms by (rule object_path)

theorem interaction_refines_table_witness:
  "ix_path Login_needed
     (run_ops [Apply Authenticate Ready no_patch 110, Apply Consent Ready no_patch 111, Claim_completion 112]
        (snd (create ex_create 100 600 fresh_interaction_do))) Ready"
proof -
  let ?xs = "[Apply Authenticate Ready no_patch 110, Apply Consent Ready no_patch 111, Claim_completion 112]"
  let ?s = "snd (create ex_create 100 600 fresh_interaction_do)"
  have ok: "list_all creates_none ?xs" by code_simp
  have d: "ix_doc ?s = Some (new_document ex_create 100 600)"
    by (simp add: create_def ix_writes fresh_interaction_do_def)
  have "case ix_doc (fold interaction_step ?xs ?s) of None \<Rightarrow> False | Some d' \<Rightarrow> d_status d' = Ready" by code_simp
  then obtain d' where d': "ix_doc (fold interaction_step ?xs ?s) = Some d'" "d_status d' = Ready"
    by (auto split: option.splits)
  have "d_status (new_document ex_create 100 600) = Login_needed" by (simp add: new_document_def ex_create_def)
  with interaction_refines_table [OF ok d d'(1)] d'(2) show ?thesis by simp
qed

text \<open>What a path that reaches \<^term>\<open>Ready\<close> or leaves a terminal status must contain.\<close>

lemma table_rows [simp]:
  "\<not> canTransition Completed operation st"
  "canTransition Failed operation st \<longleftrightarrow> operation = Complete \<and> st = Completed"
  "canTransition Ready operation st \<longleftrightarrow>
     operation \<in> {Abort, Fail_op} \<and> st = Failed \<or> operation = Restart \<and> st = Login_needed \<or>
     operation = Complete \<and> st = Completed"
  by (cases operation; auto simp: canTransition_def)+

lemma table_to_ready:
  "canTransition st operation Ready \<longleftrightarrow>
     (st, operation) \<in> {(Login_needed, Authenticate), (Login_needed, Logout_decision), (Link_required, Link),
                        (Consent_needed, Consent)}"
  by (cases st; cases operation) (simp_all add: canTransition_def)

lemma completed_stuck: "ix_path Completed ops st \<Longrightarrow> ops = [] \<and> st = Completed"
  by (erule ix_path.cases) auto

lemma failed_only_completes:
  "ix_path Failed ops st \<Longrightarrow> st = Failed \<and> ops = [] \<or> st = Completed \<and> ops = [Complete]"
  by (erule ix_path.cases) (auto dest: completed_stuck)

lemma ready_needs_answer:
  "ix_path st ops st' \<Longrightarrow> st' = Ready \<Longrightarrow>
   st = Ready \<or> Authenticate \<in> set ops \<or> Link \<in> set ops \<or> Consent \<in> set ops \<or> Logout_decision \<in> set ops"
  by (induction rule: ix_path.induct) (auto simp: table_to_ready)

text \<open>
  C17. No code without the user: an interaction that did not start out ready is ready, the only status from which
  \<^verbatim>\<open>/complete\<close> issues a code, only after the object accepted an authentication, a link, a consent
  or a logout decision; and a failed interaction never becomes ready again, a completed one never changes.
\<close>

theorem ready_only_after_an_answer:
  assumes "list_all creates_none xs" and "ix_doc s = Some d" and "ix_doc (fold interaction_step xs s) = Some d'"
  shows "(d_status d' = Ready \<and> d_status d \<noteq> Ready \<longrightarrow>
            (\<exists>answer \<in> {Authenticate, Link, Consent, Logout_decision}. answer \<in> set (run_ops xs s))) \<and>
         (d_status d = Failed \<longrightarrow> d_status d' \<in> {Failed, Completed}) \<and>
         (d_status d = Completed \<longrightarrow> d_status d' = Completed)"
proof -
  have path: "ix_path (d_status d) (run_ops xs s) (d_status d')"
    using assms by (intro object_path)
  show ?thesis
    using ready_needs_answer [OF path] failed_only_completes [of "run_ops xs s" "d_status d'"]
      completed_stuck [of "run_ops xs s" "d_status d'"] path by auto
qed

theorem ready_only_after_an_answer_witness:
  "Authenticate \<in> set (run_ops [Attempt 105 5, Apply Authenticate Ready no_patch 110]
     (snd (create ex_create 100 600 fresh_interaction_do)))"
proof -
  let ?xs = "[Attempt 105 5, Apply Authenticate Ready no_patch 110]"
  let ?s = "snd (create ex_create 100 600 fresh_interaction_do)"
  have ok: "list_all creates_none ?xs" by code_simp
  have d: "ix_doc ?s = Some (new_document ex_create 100 600)"
    by (simp add: create_def ix_writes fresh_interaction_do_def)
  have "case ix_doc (fold interaction_step ?xs ?s) of None \<Rightarrow> False | Some d' \<Rightarrow> d_status d' = Ready" by code_simp
  then obtain d' where d': "ix_doc (fold interaction_step ?xs ?s) = Some d'" "d_status d' = Ready"
    by (auto split: option.splits)
  have start: "d_status (new_document ex_create 100 600) = Login_needed" by (simp add: new_document_def ex_create_def)
  have "set (run_ops ?xs ?s) = {Authenticate}" by code_simp
  with ready_only_after_an_answer [OF ok d d'(1)] d'(2) start show ?thesis by auto
qed

text \<open>
  Terminal interactions are forgotten within a minute: an operation that moves an interaction to
  \<^verbatim>\<open>completed\<close> or \<^verbatim>\<open>failed\<close> at time \<open>now\<close> leaves it readable for at most 60 seconds and
  never longer than it would have lived, with the alarm moved to that instant.
\<close>

theorem terminal_retention:
  assumes "apply_op operation dest patch now s = (Ok d', s')" and "isTerminal dest"
  shows "d_status d' = dest \<and> d_expires_at d' \<le> now + 60 \<and>
         (\<exists>d. ix_doc s = Some d \<and> d_expires_at d' \<le> d_expires_at d) \<and>
         ix_alarm s' = Some (d_expires_at d' * 1000) \<and>
         (\<forall>t. now + 60 \<le> t \<longrightarrow> get t s' = Fail Interaction_not_found)"
  using assms(1) unfolding apply_op_def
  by (rule with_live_OkE)
     (use assms(2) in \<open>auto simp: ix_writes TERMINAL_RETENTION_SECONDS_def get_def split: if_splits\<close>)

theorem terminal_retention_witness:
  "get 175 (snd (apply_op Abort Failed no_patch 110 (snd (create ex_create 100 600 fresh_interaction_do)))) =
     Fail Interaction_not_found"
proof -
  let ?s = "snd (create ex_create 100 600 fresh_interaction_do)"
  have "is_ok (fst (apply_op Abort Failed no_patch 110 ?s))" by code_simp
  then obtain d' s' where x: "apply_op Abort Failed no_patch 110 ?s = (Ok d', s')" by (rule is_ok_pairE)
  have "isTerminal Failed" by (simp add: isTerminal_def)
  from terminal_retention [OF x this] x show ?thesis by simp
qed

text \<open>
  The table and the enumeration published for tests and documentation agree: a triple is listed by
  \<^verbatim>\<open>permittedTransitions\<close> exactly when \<^verbatim>\<open>canTransition\<close> accepts it.
\<close>

theorem permitted_transitions_exact:
  "(src, operation, dest) \<in> set permittedTransitions \<longleftrightarrow> canTransition src operation dest"
proof -
  have "src \<in> set INTERACTION_STATUSES" "operation \<in> set INTERACTION_OPERATIONS"
    by (cases src; simp add: INTERACTION_STATUSES_def)
       (cases operation; simp add: INTERACTION_OPERATIONS_def)
  then show ?thesis by (auto simp: permittedTransitions_def canTransition_def)
qed

end
