(* ===== verification/Authorize_Safety.thy ===== *)
theory Authorize_Safety
  imports Authorize_Request Scenario
begin

text \<open>
  What the validation of an authorization request guarantees: the browser is only ever sent to a registered
  redirect URI, and a request that passes satisfies every rule the later components rely on.
\<close>


section \<open>Redirect URIs\<close>

text \<open>Where a validated or refused request is sent, when it is sent back to the client.\<close>

definition redirect_target :: "authorize_validation \<Rightarrow> string option" where
  "redirect_target v =
     (case v of
        Valid r \<Rightarrow> Some (ar_redirect_uri r)
      | Non_redirectable _ \<Rightarrow> None
      | Redirectable target _ _ _ \<Rightarrow> Some target)"

text \<open>The only deviation from a registered URI: the port of a loopback URI.\<close>

definition loopback_variant :: "url_parser \<Rightarrow> string \<Rightarrow> string \<Rightarrow> bool" where
  "loopback_variant parse registered requested \<longleftrightarrow>
     (\<exists>a b. parse registered = Some a \<and> parse requested = Some b \<and>
        url_protocol b = ''http:'' \<and> url_hostname b \<in> {''127.0.0.1'', ''[::1]''} \<and>
        url_hostname a = url_hostname b \<and> url_href b = requested \<and>
        url_username a = url_username b \<and> url_password a = url_password b \<and>
        url_pathname a = url_pathname b \<and> url_search a = url_search b \<and> url_hash a = url_hash b)"

lemma sameExceptPort_loopback:
  "isLoopbackRedirectUri parse c \<Longrightarrow> sameExceptPort parse c r \<Longrightarrow> loopback_variant parse c r"
  by (auto simp: isLoopbackRedirectUri_def sameExceptPort_def loopback_variant_def LOOPBACK_HOSTS_def
      split: option.splits if_splits)

lemma matchRedirectUri_Some:
  "matchRedirectUri parse uris r = Some c \<Longrightarrow> c \<in> set uris \<and> (c = r \<or> loopback_variant parse c r)"
  by (induction uris) (auto dest: sameExceptPort_loopback split: if_splits)

lemma matchRedirectUri_registered: "r \<in> set uris \<Longrightarrow> matchRedirectUri parse uris r \<noteq> None"
  by (induction uris) auto

lemma redirect_target_matches:
  assumes "redirect_target (validateAuthorizeRequest parse params client) = Some target"
  shows "params ''redirect_uri'' = Some target \<and>
         matchRedirectUri parse (cl_redirect_uris client) target \<noteq> None"
  using assms
  by (auto simp: validateAuthorizeRequest_def redirect_target_def Let_def
      split: option.splits sum.splits if_splits)

text \<open>
  C12. No open redirect: whenever validation sends the browser back, with a request accepted or refused, the
  target is the redirect URI of the request, and it is byte for byte one the client registered, or
  differs from a registered loopback URI in the port only.
\<close>

theorem redirect_only_to_registered:
  assumes "redirect_target (validateAuthorizeRequest parse params client) = Some target"
  shows "params ''redirect_uri'' = Some target \<and>
         (target \<in> set (cl_redirect_uris client) \<or>
          (\<exists>c \<in> set (cl_redirect_uris client). loopback_variant parse c target))"
  using redirect_target_matches [OF assms] matchRedirectUri_Some by blast

definition ex_url :: url_parser where
  "ex_url text =
     Some \<lparr>url_href = text, url_origin = ''https://app.example'', url_protocol = ''https:'', url_hostname = ''app.example'', url_username = [],
           url_password = [], url_pathname = ''/cb'', url_search = [], url_hash = []\<rparr>"

definition ex_web_client :: client where
  "ex_web_client =
     \<lparr>cl_client_id = ''web'', cl_client_name = ''Web'', cl_client_uri = None, cl_logo_uri = None,
      cl_redirect_uris = [''https://x/cb''], cl_post_logout_redirect_uris = [], cl_backchannel_logout_uri = None,
      cl_grant_types = [''authorization_code'', ''refresh_token''],
      cl_token_endpoint_auth_method = ''client_secret_basic'', cl_client_secret_hash = Some [1], cl_jwks = None, cl_jwks_uri = None,
      cl_scopes_allowed = [''openid'', ''offline_access''], cl_audiences = [],
      cl_allowed_groups = Some [''staff''], cl_skip_consent = True, cl_require_par = False,
      cl_require_pkce = True, cl_offline_access = True, cl_access_token_ttl = None,
      cl_id_token_ttl = None, cl_refresh_token_ttl = None, cl_refresh_idle_ttl = None,
      cl_disabled_at = None, cl_created_at = 5, cl_updated_at = 5\<rparr>"

definition ex_params :: params where
  "ex_params = map_of
     [(''redirect_uri'', ''https://x/cb''), (''response_type'', ''code''), (''state'', ''xyz''),
      (''code_challenge'', replicate 43 (CHR ''a'')), (''code_challenge_method'', ''S256''),
      (''scope'', ''openid offline_access''), (''nonce'', ''n''), (''prompt'', ''login select_account''),
      (''max_age'', ''300'')]"

theorem redirect_only_to_registered_witness:
  "redirect_target (validateAuthorizeRequest ex_url ex_params ex_web_client) = Some ''https://x/cb'' \<and>
   ex_params ''redirect_uri'' = Some ''https://x/cb''"
proof -
  have t: "redirect_target (validateAuthorizeRequest ex_url ex_params ex_web_client) = Some ''https://x/cb''"
    by code_simp
  from redirect_only_to_registered [OF t] t show ?thesis by blast
qed


section \<open>Accepted requests\<close>

lemma spaceList_Some:
  "spaceList v = Some ws \<Longrightarrow> v = join_space ws \<and> ws \<noteq> [] \<and> (\<forall>w \<in> set ws. w \<noteq> [] \<and> CHR '' '' \<notin> set w)"
  using js_join_split [of "CHR '' ''" v] js_split_pieces [of _ "CHR '' ''" v]
  by (fastforce simp: spaceList_def Let_def list_all_iff split: if_splits)

lemma decimal_value_nonneg: "list_all is_digit v \<Longrightarrow> 0 \<le> decimal_value v"
proof -
  assume digits: "list_all is_digit v"
  have "0 \<le> n \<Longrightarrow> list_all is_digit w \<Longrightarrow> 0 \<le> foldl (\<lambda>n c. 10 * n + (of_char c - 48)) n w"
    for n :: int and w
  proof (induction w arbitrary: n)
    case (Cons c w)
    have "(48 :: nat) \<le> of_char c"
      using Cons.prems(2) by (simp add: is_digit_def less_eq_char_def)
    then have "(48 :: int) \<le> of_char c" by (metis of_nat_numeral of_nat_of_char of_nat_le_iff)
    with Cons show ?case by simp
  qed simp
  from this [OF order.refl digits] show ?thesis by (simp add: decimal_value_def)
qed

lemma validate_prompt_Inr:
  assumes "validate_prompt p = Inr vs"
  shows "distinct vs \<and> set vs \<subseteq> {''none'', ''login'', ''consent''} \<and>
         (''none'' \<in> set vs \<longrightarrow> vs = [''none''])"
proof (cases p)
  case None
  with assms show ?thesis by (simp add: validate_prompt_def)
next
  case (Some line)
  with assms obtain raw where raw: "list_all (\<lambda>v. v \<in> set prompt_values_supported) raw"
    "\<not> (''none'' \<in> set raw \<and> length raw > 1)"
    and v: "vs = js_uniq (map (\<lambda>v. if v = ''select_account'' then ''login'' else v) raw)"
    by (auto simp: validate_prompt_def split: option.splits if_splits)
  have "vs = [''none'']" if "''none'' \<in> set vs"
  proof -
    from that v have "''none'' \<in> set raw" by (auto split: if_splits)
    with raw(2) have "raw = [''none'']" by (cases raw) (auto simp: Suc_le_eq)
    with v show ?thesis by (simp add: js_uniq_def)
  qed
  with raw(1) v show ?thesis
    by (auto simp: list_all_iff prompt_values_supported_def)
qed

text \<open>
  C13. What an accepted request guarantees: the scope is a duplicate-free list of known scopes the client may use,
  contains \<^verbatim>\<open>openid\<close>, and \<^verbatim>\<open>offline_access\<close> only if the client has it enabled; a client
  that requires PKCE has a well-formed challenge; \<^verbatim>\<open>state\<close> is 1 to 2048 printable characters;
  \<^verbatim>\<open>prompt=none\<close> stands alone and \<^verbatim>\<open>select_account\<close> became \<^verbatim>\<open>login\<close>;
  \<^verbatim>\<open>max_age\<close> is not negative.
\<close>

theorem accepted_request:
  assumes "validateAuthorizeRequest parse params client = Valid r"
  shows "distinct (ar_scope r) \<and> ''openid'' \<in> set (ar_scope r) \<and>
    set (ar_scope r) \<subseteq> set scopes_supported \<inter> set (cl_scopes_allowed client) \<and>
    (''offline_access'' \<in> set (ar_scope r) \<longrightarrow> cl_offline_access client) \<and>
    params ''scope'' = Some (join_space (ar_scope r)) \<and>
    (case ar_code_challenge r of
       None \<Rightarrow> \<not> cl_require_pkce client
     | Some ch \<Rightarrow> 43 \<le> length ch \<and> length ch \<le> 128 \<and> params ''code_challenge_method'' = Some ''S256'') \<and>
    1 \<le> length (ar_state r) \<and> length (ar_state r) \<le> 2048 \<and> params ''state'' = Some (ar_state r) \<and>
    distinct (ar_prompt r) \<and> set (ar_prompt r) \<subseteq> {''none'', ''login'', ''consent''} \<and>
    (''none'' \<in> set (ar_prompt r) \<longrightarrow> ar_prompt r = [''none'']) \<and>
    (\<forall>age. ar_max_age r = Some age \<longrightarrow> 0 \<le> age)"
proof -
  obtain pkce scope prompt age where parts:
    "validate_pkce params client = Inr pkce" "validate_scope params client = Inr scope"
    "validate_prompt (params ''prompt'') = Inr prompt" "validate_max_age (params ''max_age'') = Inr age"
    and state: "params ''state'' = Some (ar_state r)" "isPrintableState (ar_state r)"
    and r: "ar_scope r = scope" "ar_code_challenge r = pkce" "ar_prompt r = prompt" "ar_max_age r = age"
    using assms
    by (auto simp: validateAuthorizeRequest_def Let_def split: option.splits sum.splits if_splits)
  from parts(2) obtain line where line: "params ''scope'' = Some line" "spaceList line = Some scope"
    and sc: "list_all isScope scope" "''openid'' \<in> set scope" "length (js_uniq scope) = length scope"
      "list_all (\<lambda>s. s \<in> set (cl_scopes_allowed client)) scope"
      "''offline_access'' \<in> set scope \<longrightarrow> cl_offline_access client"
    by (auto simp: validate_scope_def split: option.splits if_splits)
  have scope: "distinct scope \<and> set scope \<subseteq> set scopes_supported \<inter> set (cl_scopes_allowed client)"
    using sc by (auto simp: length_js_uniq list_all_iff isScope_def)
  have "line = join_space scope" using spaceList_Some [OF line(2)] by blast
  moreover have "case pkce of None \<Rightarrow> \<not> cl_require_pkce client
     | Some ch \<Rightarrow> 43 \<le> length ch \<and> length ch \<le> 128 \<and> params ''code_challenge_method'' = Some ''S256''"
    using parts(1)
    by (auto simp: validate_pkce_def Let_def CODE_CHALLENGE_def code_challenge_methods_supported_def
        split: option.splits if_splits)
  moreover have "1 \<le> length (ar_state r) \<and> length (ar_state r) \<le> 2048"
    using state(2) by (auto simp: isPrintableState_def STATE_MAX_LENGTH_def Suc_le_eq)
  moreover have "0 \<le> a" if "age = Some a" for a
  proof -
    from that parts(4) obtain v where v: "NON_NEGATIVE_INTEGER v" "a = decimal_value v"
      by (auto simp: validate_max_age_def split: option.splits if_splits)
    then have "list_all is_digit v"
      by (cases v) (auto simp: NON_NEGATIVE_INTEGER_def is_digit_def less_eq_char_def)
    then show ?thesis unfolding v(2) by (rule decimal_value_nonneg)
  qed
  ultimately show ?thesis
    using scope sc line(1) state(1) validate_prompt_Inr [OF parts(3)] unfolding r by blast
qed


theorem accepted_request_witness:
  "\<exists>r. validateAuthorizeRequest ex_url ex_params ex_web_client = Valid r \<and>
       set (ar_scope r) \<subseteq> set (cl_scopes_allowed ex_web_client) \<and> (\<forall>age. ar_max_age r = Some age \<longrightarrow> 0 \<le> age)"
proof -
  have "case validateAuthorizeRequest ex_url ex_params ex_web_client of Valid _ \<Rightarrow> True | _ \<Rightarrow> False" by code_simp
  then obtain r where r: "validateAuthorizeRequest ex_url ex_params ex_web_client = Valid r"
    by (auto split: authorize_validation.splits)
  from accepted_request [OF r] r show ?thesis by blast
qed

end
