(* ===== verification/Handles.thy ===== *)
theory Handles
  imports Base64url
begin

text \<open>
  Opaque handles: the layouts of \<^verbatim>\<open>src/crypto/handle-types.ts\<close>, the envelope of
  \<^verbatim>\<open>src/crypto/envelope.ts\<close> and the handles of \<^verbatim>\<open>src/oidc/handles.ts\<close>. AES-GCM of the platform, the
  derived keys, the digest and the UUID library are parameters; the random nonce is an argument.
\<close>


section \<open>Layouts\<close>

datatype handle_type = Session_handle | Code_handle | Refresh_handle | Interaction_handle | Federation_handle | Invitation_handle

record handle_spec =
  h_prefix :: string
  h_type :: byte
  h_fields :: "(string \<times> nat) list"

fun HANDLE_TYPES :: "handle_type \<Rightarrow> handle_spec" where
  "HANDLE_TYPES Session_handle =
     \<lparr>h_prefix = ''tio_ss'', h_type = 1, h_fields = [(''uid'', 16), (''sid'', 16), (''secret'', 32)]\<rparr>"
| "HANDLE_TYPES Code_handle =
     \<lparr>h_prefix = ''tio_ac'', h_type = 2, h_fields = [(''uid'', 16), (''secret'', 32)]\<rparr>"
| "HANDLE_TYPES Refresh_handle =
     \<lparr>h_prefix = ''tio_rt'', h_type = 3, h_fields = [(''uid'', 16), (''family'', 16), (''secret'', 32)]\<rparr>"
| "HANDLE_TYPES Interaction_handle =
     \<lparr>h_prefix = ''tio_ix'', h_type = 4, h_fields = [(''ixid'', 32), (''secret'', 32)]\<rparr>"
| "HANDLE_TYPES Federation_handle =
     \<lparr>h_prefix = ''tio_fs'', h_type = 5, h_fields = [(''ixid'', 32), (''secret'', 32)]\<rparr>"
| "HANDLE_TYPES Invitation_handle =
     \<lparr>h_prefix = ''tio_iv'', h_type = 6, h_fields = [(''invid'', 16), (''secret'', 32)]\<rparr>"

definition all_handle_types :: "handle_type list" where
  "all_handle_types =
     [Session_handle, Code_handle, Refresh_handle, Interaction_handle, Federation_handle, Invitation_handle]"

type_synonym handle_fields = "(string \<times> bytes) list"

definition handle_layout :: "handle_spec \<Rightarrow> nat" where
  "handle_layout spec = sum_list (map snd (h_fields spec))"


section \<open>The envelope\<close>

text \<open>
  \<open>k_aes\<close> is \<^verbatim>\<open>aesKey("envelope", version)\<close>: the key of a master-key version, if that version is
  known; \<open>k_encrypt\<close> and \<open>k_decrypt\<close> take the key, the nonce, the additional data and the text.
\<close>

record 'key crypto =
  k_active :: byte
  k_aes :: "byte \<Rightarrow> 'key option"
  k_encrypt :: "'key \<Rightarrow> bytes \<Rightarrow> bytes \<Rightarrow> bytes \<Rightarrow> bytes"
  k_decrypt :: "'key \<Rightarrow> bytes \<Rightarrow> bytes \<Rightarrow> bytes \<Rightarrow> bytes option"

definition ENVELOPE_VERSION :: byte where "ENVELOPE_VERSION = 1"
definition NONCE_LENGTH :: nat where "NONCE_LENGTH = 12"
definition TAG_LENGTH :: nat where "TAG_LENGTH = 16"
definition HEADER_LENGTH :: nat where "HEADER_LENGTH = 3"

lemmas envelope_constants = ENVELOPE_VERSION_def NONCE_LENGTH_def TAG_LENGTH_def HEADER_LENGTH_def

text \<open>The plaintext, field by field; \<^term>\<open>None\<close> where the code throws on a wrong length.\<close>

fun pack_fields :: "(string \<times> nat) list \<Rightarrow> handle_fields \<Rightarrow> bytes option" where
  "pack_fields [] vals = Some []"
| "pack_fields ((name, len) # rest) vals =
     (case map_of vals name of
        None \<Rightarrow> None
      | Some v \<Rightarrow>
          if length v \<noteq> len then None
          else (case pack_fields rest vals of None \<Rightarrow> None | Some tail \<Rightarrow> Some (v @ tail)))"

fun unpack_fields :: "(string \<times> nat) list \<Rightarrow> bytes \<Rightarrow> handle_fields" where
  "unpack_fields [] plaintext = []"
| "unpack_fields ((name, len) # rest) plaintext =
     (name, take len plaintext) # unpack_fields rest (drop len plaintext)"

definition sealHandle ::
  "'key crypto \<Rightarrow> bytes \<Rightarrow> handle_type \<Rightarrow> handle_fields \<Rightarrow> string option" where
  "sealHandle keys nonce type vals =
     (let spec = HANDLE_TYPES type in
      (case pack_fields (h_fields spec) vals of
         None \<Rightarrow> None
       | Some plaintext \<Rightarrow>
           let header = [ENVELOPE_VERSION, k_active keys, h_type spec] in
           (case k_aes keys (k_active keys) of
              None \<Rightarrow> None
            | Some key \<Rightarrow>
                Some (h_prefix spec @ ''_'' @
                      encodeBase64Url (concatBytes [header, nonce, k_encrypt keys key nonce header plaintext])))))"

definition starts_with :: "string \<Rightarrow> string \<Rightarrow> bool" where
  "starts_with prefix value \<longleftrightarrow> take (length prefix) value = prefix"

definition openHandle :: "'key crypto \<Rightarrow> handle_type \<Rightarrow> string \<Rightarrow> handle_fields option" where
  "openHandle keys type handle =
     (let spec = HANDLE_TYPES type; prefix = h_prefix spec @ ''_'' in
      if \<not> starts_with prefix handle then None
      else
        (case decodeBase64Url (drop (length prefix) handle) of
           None \<Rightarrow> None
         | Some bs \<Rightarrow>
             if length bs \<noteq> HEADER_LENGTH + NONCE_LENGTH + handle_layout spec + TAG_LENGTH then None
             else
               let header = take HEADER_LENGTH bs in
               if header ! 0 \<noteq> ENVELOPE_VERSION \<or> header ! 2 \<noteq> h_type spec then None
               else
                 (case k_aes keys (header ! 1) of
                    None \<Rightarrow> None
                  | Some key \<Rightarrow>
                      let nonce = take NONCE_LENGTH (drop HEADER_LENGTH bs) in
                      (case k_decrypt keys key nonce header (drop (HEADER_LENGTH + NONCE_LENGTH) bs) of
                         None \<Rightarrow> None
                       | Some plaintext \<Rightarrow> Some (unpack_fields (h_fields spec) plaintext)))))"

definition handleType :: "string \<Rightarrow> handle_type option" where
  "handleType handle =
     find (\<lambda>t. starts_with (h_prefix (HANDLE_TYPES t) @ ''_'') handle) all_handle_types"


section \<open>The handles of the protocol\<close>

text \<open>
  \<open>uuidToBytes\<close> and \<open>bytesToUuid\<close> wrap the UUID library; a text that is not a UUID makes
  the code throw.
\<close>

record uuid_codec =
  uuidToBytes :: "string \<Rightarrow> bytes option"
  bytesToUuid :: "bytes \<Rightarrow> string"

record session_ref =
  sr_uid :: string
  sr_sid :: string
  sr_secret_hash :: bytes

record code_ref =
  co_uid :: string
  co_secret_hash :: bytes

record refresh_ref =
  rr_uid :: string
  rr_family_id :: string
  rr_secret_hash :: bytes

record invitation_ref =
  in_invitation_id :: string
  in_secret_hash :: bytes

record binding_ref =
  br_interaction_id :: string
  br_secret_hash :: bytes

definition field :: "string \<Rightarrow> handle_fields \<Rightarrow> bytes" where
  "field name vals = (case map_of vals name of None \<Rightarrow> [] | Some v \<Rightarrow> v)"

definition sealSessionHandle ::
  "'key crypto \<Rightarrow> uuid_codec \<Rightarrow> bytes \<Rightarrow> string \<Rightarrow> string \<Rightarrow> bytes \<Rightarrow> string option" where
  "sealSessionHandle keys uuid nonce uid sid secret =
     (case (uuidToBytes uuid uid, uuidToBytes uuid sid) of
        (Some u, Some s) \<Rightarrow>
          sealHandle keys nonce Session_handle [(''uid'', u), (''sid'', s), (''secret'', secret)]
      | _ \<Rightarrow> None)"

definition openSessionHandle ::
  "'key crypto \<Rightarrow> uuid_codec \<Rightarrow> (bytes \<Rightarrow> bytes) \<Rightarrow> string \<Rightarrow> session_ref option" where
  "openSessionHandle keys uuid sha256 handle =
     map_option (\<lambda>f. \<lparr>sr_uid = bytesToUuid uuid (field ''uid'' f), sr_sid = bytesToUuid uuid (field ''sid'' f),
                      sr_secret_hash = sha256 (field ''secret'' f)\<rparr>)
       (openHandle keys Session_handle handle)"

definition sealCodeHandle :: "'key crypto \<Rightarrow> uuid_codec \<Rightarrow> bytes \<Rightarrow> string \<Rightarrow> bytes \<Rightarrow> string option" where
  "sealCodeHandle keys uuid nonce uid secret =
     (case uuidToBytes uuid uid of
        None \<Rightarrow> None
      | Some u \<Rightarrow> sealHandle keys nonce Code_handle [(''uid'', u), (''secret'', secret)])"

definition openCodeHandle ::
  "'key crypto \<Rightarrow> uuid_codec \<Rightarrow> (bytes \<Rightarrow> bytes) \<Rightarrow> string \<Rightarrow> code_ref option" where
  "openCodeHandle keys uuid sha256 handle =
     map_option (\<lambda>f. \<lparr>co_uid = bytesToUuid uuid (field ''uid'' f), co_secret_hash = sha256 (field ''secret'' f)\<rparr>)
       (openHandle keys Code_handle handle)"

definition sealRefreshHandle ::
  "'key crypto \<Rightarrow> uuid_codec \<Rightarrow> bytes \<Rightarrow> string \<Rightarrow> string \<Rightarrow> bytes \<Rightarrow> string option" where
  "sealRefreshHandle keys uuid nonce uid familyId secret =
     (case (uuidToBytes uuid uid, uuidToBytes uuid familyId) of
        (Some u, Some f) \<Rightarrow>
          sealHandle keys nonce Refresh_handle [(''uid'', u), (''family'', f), (''secret'', secret)]
      | _ \<Rightarrow> None)"

definition openRefreshHandle ::
  "'key crypto \<Rightarrow> uuid_codec \<Rightarrow> (bytes \<Rightarrow> bytes) \<Rightarrow> string \<Rightarrow> refresh_ref option" where
  "openRefreshHandle keys uuid sha256 handle =
     map_option (\<lambda>f. \<lparr>rr_uid = bytesToUuid uuid (field ''uid'' f), rr_family_id = bytesToUuid uuid (field ''family'' f),
                      rr_secret_hash = sha256 (field ''secret'' f)\<rparr>)
       (openHandle keys Refresh_handle handle)"

definition sealInvitationHandle ::
  "'key crypto \<Rightarrow> uuid_codec \<Rightarrow> bytes \<Rightarrow> string \<Rightarrow> bytes \<Rightarrow> string option" where
  "sealInvitationHandle keys uuid nonce invitationId secret =
     (case uuidToBytes uuid invitationId of
        None \<Rightarrow> None
      | Some i \<Rightarrow> sealHandle keys nonce Invitation_handle [(''invid'', i), (''secret'', secret)])"

definition openInvitationHandle ::
  "'key crypto \<Rightarrow> uuid_codec \<Rightarrow> (bytes \<Rightarrow> bytes) \<Rightarrow> string \<Rightarrow> invitation_ref option" where
  "openInvitationHandle keys uuid sha256 handle =
     map_option (\<lambda>f. \<lparr>in_invitation_id = bytesToUuid uuid (field ''invid'' f),
                      in_secret_hash = sha256 (field ''secret'' f)\<rparr>)
       (openHandle keys Invitation_handle handle)"

text \<open>The federation and binding handles share their layout and differ in the type.\<close>

definition seal_ixid :: "'key crypto \<Rightarrow> bytes \<Rightarrow> handle_type \<Rightarrow> string \<Rightarrow> bytes \<Rightarrow> string option" where
  "seal_ixid keys nonce type interactionId secret =
     (case decodeBase64Url interactionId of
        None \<Rightarrow> None
      | Some ixid \<Rightarrow>
          if length ixid \<noteq> 32 then None
          else sealHandle keys nonce type [(''ixid'', ixid), (''secret'', secret)])"

definition open_ixid :: "'key crypto \<Rightarrow> (bytes \<Rightarrow> bytes) \<Rightarrow> handle_type \<Rightarrow> string \<Rightarrow> binding_ref option" where
  "open_ixid keys sha256 type handle =
     map_option (\<lambda>f. \<lparr>br_interaction_id = encodeBase64Url (field ''ixid'' f),
                      br_secret_hash = sha256 (field ''secret'' f)\<rparr>)
       (openHandle keys type handle)"

definition sealFederationHandle :: "'key crypto \<Rightarrow> bytes \<Rightarrow> string \<Rightarrow> bytes \<Rightarrow> string option" where
  "sealFederationHandle keys nonce = seal_ixid keys nonce Federation_handle"

definition openFederationHandle :: "'key crypto \<Rightarrow> (bytes \<Rightarrow> bytes) \<Rightarrow> string \<Rightarrow> binding_ref option" where
  "openFederationHandle keys sha256 = open_ixid keys sha256 Federation_handle"

definition sealBindingHandle :: "'key crypto \<Rightarrow> bytes \<Rightarrow> string \<Rightarrow> bytes \<Rightarrow> string option" where
  "sealBindingHandle keys nonce = seal_ixid keys nonce Interaction_handle"

definition openBindingHandle :: "'key crypto \<Rightarrow> (bytes \<Rightarrow> bytes) \<Rightarrow> string \<Rightarrow> binding_ref option" where
  "openBindingHandle keys sha256 = open_ixid keys sha256 Interaction_handle"

end
