(* ===== verification/Token_Claims.thy ===== *)
theory Token_Claims
  imports Authorize_Request Handles
begin

text \<open>
  The claims of the tokens the server signs: \<^verbatim>\<open>src/oidc/tokens.ts\<close>. A payload is the list of
  its members in insertion order, as a JavaScript object keeps them.
\<close>


section \<open>Payloads\<close>

datatype claim =
    Text string
  | Number int
  | Flag bool
  | Texts "string list"
  | Null
  | Members "(string \<times> claim) list"

type_synonym claims = "(string \<times> claim) list"

text \<open>\<^verbatim>\<open>claims[name] = value\<close>: in place when the member exists, at the end otherwise.\<close>

fun set_claim :: "string \<Rightarrow> claim \<Rightarrow> claims \<Rightarrow> claims" where
  "set_claim name v [] = [(name, v)]"
| "set_claim name v ((n, w) # rest) = (if n = name then (n, v) # rest else (n, w) # set_claim name v rest)"

text \<open>\<^verbatim>\<open>...source\<close> inside an object literal.\<close>

definition spread_claims :: "claims \<Rightarrow> claims \<Rightarrow> claims" where
  "spread_claims source target = fold (\<lambda>(n, v). set_claim n v) source target"

definition set_optional :: "string \<Rightarrow> claim option \<Rightarrow> claims \<Rightarrow> claims" where
  "set_optional name v cs = (case v of None \<Rightarrow> cs | Some w \<Rightarrow> set_claim name w cs)"


section \<open>Claim builders\<close>

definition LOGOUT_TOKEN_TTL :: seconds where
  "LOGOUT_TOKEN_TTL = 120"

record profile_claims =
  pc_name :: "string option"
  pc_updated_at :: "seconds option"
  pc_email :: "string option"
  pc_email_verified :: bool
  pc_groups :: "string list"

record user_context =
  uc_sub :: string
  uc_auth_time :: seconds
  uc_acr :: string
  uc_amr :: "string list"
  uc_sid :: "string option"

definition scopedClaims :: "string list \<Rightarrow> profile_claims \<Rightarrow> claims" where
  "scopedClaims scopes prof =
     (let c0 = [];
          c1 = (if ''profile'' \<in> set scopes
                then set_optional ''updated_at'' (map_option Number (pc_updated_at prof))
                       (set_optional ''name'' (map_option Text (pc_name prof)) c0)
                else c0);
          c2 = (case (''email'' \<in> set scopes, pc_email prof) of
                  (True, Some email) \<Rightarrow>
                    set_claim ''email_verified'' (Flag (pc_email_verified prof))
                      (set_claim ''email'' (Text email) c1)
                | _ \<Rightarrow> c1)
      in if ''groups'' \<in> set scopes then set_claim ''groups'' (Texts (sort (pc_groups prof))) c2 else c2)"

definition atHash :: "(bytes \<Rightarrow> bytes) \<Rightarrow> string \<Rightarrow> string" where
  "atHash sha256 accessToken = encodeBase64Url (take 16 (sha256 (utf8 accessToken)))"

record id_token_input =
  it_issuer :: string
  it_client_id :: string
  it_now :: seconds
  it_ttl :: seconds
  it_user :: user_context
  it_nonce :: "string option"
  it_access_token :: string
  it_scopes :: "string list"
  it_profile :: profile_claims

definition idTokenClaims :: "(bytes \<Rightarrow> bytes) \<Rightarrow> id_token_input \<Rightarrow> claims" where
  "idTokenClaims sha256 input =
     (let user = it_user input;
          base = [(''iss'', Text (it_issuer input)), (''sub'', Text (uc_sub user)),
                  (''aud'', Text (it_client_id input)), (''exp'', Number (it_now input + it_ttl input)),
                  (''iat'', Number (it_now input)), (''auth_time'', Number (uc_auth_time user)),
                  (''acr'', Text (uc_acr user)), (''amr'', Texts (uc_amr user)),
                  (''at_hash'', Text (atHash sha256 (it_access_token input)))];
          cs = spread_claims (scopedClaims (it_scopes input) (it_profile input)) base
      in set_optional ''nonce'' (map_option Text (it_nonce input))
           (set_optional ''sid'' (map_option Text (uc_sid user)) cs))"

record access_token_input =
  at_issuer :: string
  at_client_id :: string
  at_now :: seconds
  at_ttl :: seconds
  at_jti :: string
  at_scopes :: "string list"
  at_audiences :: "string list"
  at_user :: "user_context option"
  at_groups :: "string list"

text \<open>The list before the final line, which turns a single audience into a plain string.\<close>

definition audience_list :: "string \<Rightarrow> string \<Rightarrow> string list \<Rightarrow> string list \<Rightarrow> string list" where
  "audience_list issuer clientId audiences scopes =
     (let aud = (if audiences \<noteq> [] then audiences else [clientId]) in
      if (''account'' \<in> set scopes \<or> ''admin'' \<in> set scopes) \<and> issuer \<notin> set aud
      then aud @ [issuer] else aud)"

definition accessTokenAudience :: "string \<Rightarrow> string \<Rightarrow> string list \<Rightarrow> string list \<Rightarrow> claim" where
  "accessTokenAudience issuer clientId audiences scopes =
     (case audience_list issuer clientId audiences scopes of
        [single] \<Rightarrow> Text single
      | aud \<Rightarrow> Texts aud)"

definition accessTokenClaims :: "access_token_input \<Rightarrow> claims" where
  "accessTokenClaims input =
     (let base = [(''iss'', Text (at_issuer input)),
                  (''sub'', Text (case at_user input of None \<Rightarrow> at_client_id input | Some u \<Rightarrow> uc_sub u)),
                  (''aud'', accessTokenAudience (at_issuer input) (at_client_id input) (at_audiences input)
                              (at_scopes input)),
                  (''exp'', Number (at_now input + at_ttl input)), (''iat'', Number (at_now input)),
                  (''jti'', Text (at_jti input)), (''client_id'', Text (at_client_id input)),
                  (''scope'', Text (join_space (at_scopes input)))]
      in (case at_user input of
            None \<Rightarrow> base
          | Some u \<Rightarrow>
              let c1 = set_optional ''sid'' (map_option Text (uc_sid u)) base;
                  c2 = set_claim ''amr'' (Texts (uc_amr u))
                         (set_claim ''acr'' (Text (uc_acr u))
                           (set_claim ''auth_time'' (Number (uc_auth_time u)) c1))
              in if ''groups'' \<in> set (at_scopes input)
                 then set_claim ''groups'' (Texts (sort (at_groups input))) c2 else c2))"

record logout_token_input =
  lt_issuer :: string
  lt_client_id :: string
  lt_sub :: string
  lt_sid :: string
  lt_jti :: string
  lt_now :: seconds

definition logoutTokenClaims :: "logout_token_input \<Rightarrow> claims" where
  "logoutTokenClaims input =
     [(''iss'', Text (lt_issuer input)), (''sub'', Text (lt_sub input)), (''aud'', Text (lt_client_id input)),
      (''iat'', Number (lt_now input)), (''exp'', Number (lt_now input + LOGOUT_TOKEN_TTL)),
      (''jti'', Text (lt_jti input)), (''sid'', Text (lt_sid input)),
      (''events'', Members [(''http://schemas.openid.net/event/backchannel-logout'', Members [])])]"

end
