(* ===== verification/Settings.thy ===== *)
theory Settings
  imports Token_Claims "HOL-Library.Monad_Syntax"
begin

text \<open>
  Runtime settings: the schema of \<^verbatim>\<open>src/config/schema.ts\<close>, the same-site rules of
  \<^verbatim>\<open>src/util/domain.ts\<close> and \<^verbatim>\<open>resolveSettings\<close> of \<^verbatim>\<open>src/env.ts\<close>. Stored settings are the
  JSON values of the table by key. The messages of the schema library are the parameter \<open>message\<close>; the URL parser of
  the platform is a parameter as in the authorization request.
\<close>


section \<open>The schema\<close>

datatype registration_mode = Closed | Invite | Open_registration
datatype link_policy = Never_link | Reauth

text \<open>
  The fields that stored and effective settings share: \<^verbatim>\<open>Settings\<close> extends
  \<^verbatim>\<open>Omit<StoredSettings, "webauthn_origins">\<close>.
\<close>

record shared_settings =
  st_login_url :: "string option"
  st_login_origins :: "string list option"
  st_logout_landing_url :: "string option"
  st_registration_mode :: registration_mode
  st_auto_create :: bool
  st_link_by_verified_email :: link_policy
  st_passkeys_max :: int
  st_attestation_policy :: string
  st_interaction_ttl :: seconds
  st_session_idle_ttl :: seconds
  st_session_absolute_ttl :: seconds
  st_access_ttl :: seconds
  st_id_ttl :: seconds
  st_refresh_idle_ttl :: seconds
  st_refresh_absolute_ttl :: seconds
  st_refresh_reuse_window :: seconds
  st_rotation_days :: int
  st_prepublish_seconds :: seconds
  st_retire_after_seconds :: seconds
  st_hot_retention_days :: int
  st_allow_email_change :: bool
  st_passkey_add_max_auth_age :: seconds
  st_bootstrapped_at :: "seconds option"
  st_do_jurisdiction :: "string option"

record stored_settings = shared_settings +
  ss_webauthn_origins :: "string list option"

record settings = shared_settings +
  st_webauthn_origins :: "string list"
  st_from_table :: "string list"

type_synonym stored = "string \<Rightarrow> claim option"

text \<open>The schema of one key: the value, with its default where the key is absent, or \<^term>\<open>None\<close> where it is refused.\<close>

definition int_field :: "int \<Rightarrow> int \<Rightarrow> int \<Rightarrow> claim option \<Rightarrow> int option" where
  "int_field lo hi fallback v =
     (case v of
        None \<Rightarrow> Some fallback
      | Some (Number n) \<Rightarrow> if lo \<le> n \<and> n \<le> hi then Some n else None
      | _ \<Rightarrow> None)"

definition flag_field :: "bool \<Rightarrow> claim option \<Rightarrow> bool option" where
  "flag_field fallback v = (case v of None \<Rightarrow> Some fallback | Some (Flag b) \<Rightarrow> Some b | _ \<Rightarrow> None)"

definition enum_field :: "(string \<times> 'a) list \<Rightarrow> 'a \<Rightarrow> claim option \<Rightarrow> 'a option" where
  "enum_field values fallback v =
     (case v of None \<Rightarrow> Some fallback | Some (Text t) \<Rightarrow> map_of values t | _ \<Rightarrow> None)"

definition nullable_text :: "claim option \<Rightarrow> string option option" where
  "nullable_text v =
     (case v of None \<Rightarrow> Some None | Some Null \<Rightarrow> Some None | Some (Text t) \<Rightarrow> Some (Some t) | _ \<Rightarrow> None)"

definition nullable_texts :: "claim option \<Rightarrow> string list option option" where
  "nullable_texts v =
     (case v of None \<Rightarrow> Some None | Some Null \<Rightarrow> Some None | Some (Texts ts) \<Rightarrow> Some (Some ts) | _ \<Rightarrow> None)"

definition nullable_int :: "claim option \<Rightarrow> int option option" where
  "nullable_int v =
     (case v of None \<Rightarrow> Some None | Some Null \<Rightarrow> Some None | Some (Number n) \<Rightarrow> Some (Some n) | _ \<Rightarrow> None)"

definition nullable_enum :: "string list \<Rightarrow> claim option \<Rightarrow> string option option" where
  "nullable_enum values v =
     (case v of
        None \<Rightarrow> Some None
      | Some Null \<Rightarrow> Some None
      | Some (Text t) \<Rightarrow> if t \<in> set values then Some (Some t) else None
      | _ \<Rightarrow> None)"

abbreviation registration_modes :: "(string \<times> registration_mode) list" where
  "registration_modes \<equiv> [(''closed'', Closed), (''invite'', Invite), (''open'', Open_registration)]"

abbreviation link_policies :: "(string \<times> link_policy) list" where
  "link_policies \<equiv> [(''never'', Never_link), (''reauth'', Reauth)]"

definition SettingsSchema :: "stored \<Rightarrow> stored_settings option" where
  "SettingsSchema v =
     do {
       login_url \<leftarrow> nullable_text (v ''login_url'');
       login_origins \<leftarrow> nullable_texts (v ''login_origins'');
       webauthn_origins \<leftarrow> nullable_texts (v ''webauthn_origins'');
       landing \<leftarrow> nullable_text (v ''logout_landing_url'');
       mode \<leftarrow> enum_field registration_modes Invite (v ''registration.mode'');
       auto_create \<leftarrow> flag_field False (v ''federation.auto_create'');
       link \<leftarrow> enum_field link_policies Reauth (v ''federation.link_by_verified_email'');
       max_passkeys \<leftarrow> int_field 1 50 20 (v ''passkeys.max_per_user'');
       attestation \<leftarrow> enum_field [(''ignore'', ''ignore'')] ''ignore'' (v ''passkeys.attestation_policy'');
       interaction_ttl \<leftarrow> int_field 60 900 600 (v ''interaction_ttl'');
       session_idle \<leftarrow> int_field 900 2592000 86400 (v ''session.idle_ttl'');
       session_absolute \<leftarrow> int_field 3600 31536000 2592000 (v ''session.absolute_ttl'');
       access \<leftarrow> int_field 60 3600 600 (v ''tokens.access_ttl'');
       id \<leftarrow> int_field 60 3600 600 (v ''tokens.id_ttl'');
       refresh_idle \<leftarrow> int_field 3600 2592000 1209600 (v ''tokens.refresh_idle_ttl'');
       refresh_absolute \<leftarrow> int_field 86400 7776000 2592000 (v ''tokens.refresh_absolute_ttl'');
       reuse_window \<leftarrow> int_field 3600 259200 86400 (v ''tokens.refresh_reuse_window'');
       rotation_days \<leftarrow> int_field 0 365 90 (v ''keys.rotation_days'');
       prepublish \<leftarrow> int_field 0 2592000 86400 (v ''keys.prepublish_seconds'');
       retire_after \<leftarrow> int_field 3600 7776000 604800 (v ''keys.retire_after_seconds'');
       hot_retention \<leftarrow> int_field 1 365 14 (v ''audit.hot_retention_days'');
       email_change \<leftarrow> flag_field False (v ''me.allow_email_change'');
       auth_age \<leftarrow> int_field 0 86400 900 (v ''me.passkey_add_max_auth_age'');
       bootstrapped \<leftarrow> nullable_int (v ''bootstrapped_at'');
       jurisdiction \<leftarrow> nullable_enum ['''', ''eu'', ''fedramp''] (v ''do_jurisdiction'');
       Some \<lparr>st_login_url = login_url, st_login_origins = login_origins, st_logout_landing_url = landing,
             st_registration_mode = mode, st_auto_create = auto_create, st_link_by_verified_email = link,
             st_passkeys_max = max_passkeys, st_attestation_policy = attestation, st_interaction_ttl = interaction_ttl,
             st_session_idle_ttl = session_idle, st_session_absolute_ttl = session_absolute, st_access_ttl = access,
             st_id_ttl = id, st_refresh_idle_ttl = refresh_idle, st_refresh_absolute_ttl = refresh_absolute,
             st_refresh_reuse_window = reuse_window, st_rotation_days = rotation_days,
             st_prepublish_seconds = prepublish, st_retire_after_seconds = retire_after,
             st_hot_retention_days = hot_retention, st_allow_email_change = email_change,
             st_passkey_add_max_auth_age = auth_age, st_bootstrapped_at = bootstrapped,
             st_do_jurisdiction = jurisdiction, ss_webauthn_origins = webauthn_origins\<rparr>
     }"

definition settings_keys :: "string list" where
  "settings_keys =
     [''login_url'', ''login_origins'', ''webauthn_origins'', ''logout_landing_url'', ''registration.mode'',
      ''federation.auto_create'', ''federation.link_by_verified_email'', ''passkeys.max_per_user'',
      ''passkeys.attestation_policy'', ''interaction_ttl'', ''session.idle_ttl'', ''session.absolute_ttl'',
      ''tokens.access_ttl'', ''tokens.id_ttl'', ''tokens.refresh_idle_ttl'', ''tokens.refresh_absolute_ttl'',
      ''tokens.refresh_reuse_window'', ''keys.rotation_days'', ''keys.prepublish_seconds'',
      ''keys.retire_after_seconds'', ''audit.hot_retention_days'', ''me.allow_email_change'',
      ''me.passkey_add_max_auth_age'', ''bootstrapped_at'', ''do_jurisdiction'']"


section \<open>Sites and origins\<close>

definition SECOND_LEVEL_SUFFIXES :: "string list" where
  "SECOND_LEVEL_SUFFIXES =
     [''co'', ''com'', ''org'', ''net'', ''gov'', ''edu'', ''ac'', ''or'', ''ne'', ''gob'', ''mil'']"

definition to_lower :: "char \<Rightarrow> char" where
  "to_lower ch =
     (if 65 \<le> (of_char ch :: nat) \<and> (of_char ch :: nat) \<le> 90 then char_of ((of_char ch :: nat) + 32) else ch)"

definition drop_final_dot :: "string \<Rightarrow> string" where
  "drop_final_dot host = (if host \<noteq> [] \<and> last host = CHR ''.'' then butlast host else host)"

definition registrableDomain :: "string \<Rightarrow> string" where
  "registrableDomain hostname =
     (let host = drop_final_dot (map to_lower hostname) in
      if host = ''localhost'' \<or> (host \<noteq> [] \<and> list_all (\<lambda>ch. is_digit ch \<or> ch = CHR ''.'') host)
         \<or> (host \<noteq> [] \<and> hd host = CHR ''['')
      then host
      else
        let labels = js_split (CHR ''.'') host in
        if length labels \<le> 2 then host
        else
          let secondLevel = labels ! (length labels - 2);
              tld = labels ! (length labels - 1);
              n = (if secondLevel \<in> set SECOND_LEVEL_SUFFIXES \<and> length tld = 2 \<and> length labels \<ge> 3 then 3 else 2)
          in js_join ''.'' (drop (length labels - n) labels))"

definition sameSite :: "string \<Rightarrow> string \<Rightarrow> bool" where
  "sameSite hostA hostB \<longleftrightarrow> registrableDomain hostA = registrableDomain hostB"

definition isAllowedScheme :: "url \<Rightarrow> bool" where
  "isAllowedScheme url \<longleftrightarrow>
     url_protocol url = ''https:'' \<or>
     (url_protocol url = ''http:'' \<and> url_hostname url \<in> set [''localhost'', ''127.0.0.1'', ''[::1]''])"

definition isOrigin :: "url_parser \<Rightarrow> string \<Rightarrow> bool" where
  "isOrigin safeUrl value =
     (case safeUrl value of None \<Rightarrow> False | Some url \<Rightarrow> url_origin url = value \<and> isAllowedScheme url)"


section \<open>Effective settings\<close>

text \<open>The part of the configuration that settings are resolved against.\<close>

record config =
  cf_issuer :: url
  cf_issuer_url :: string
  cf_bundled_login_app :: bool
  cf_do_jurisdiction :: string

definition default_login_url :: "config \<Rightarrow> stored_settings \<Rightarrow> string option" where
  "default_login_url config s =
     (case st_login_url s of
        Some u \<Rightarrow> Some u
      | None \<Rightarrow> if cf_bundled_login_app config then Some (cf_issuer_url config @ ''/login/'') else None)"

definition default_login_origins :: "config \<Rightarrow> stored_settings \<Rightarrow> string list option" where
  "default_login_origins config s =
     (case st_login_origins s of
        Some os \<Rightarrow> Some os
      | None \<Rightarrow> if cf_bundled_login_app config then Some [url_origin (cf_issuer config)] else None)"

definition login_url_violations :: "url_parser \<Rightarrow> config \<Rightarrow> string option \<Rightarrow> string list" where
  "login_url_violations safeUrl config loginUrl =
     (case loginUrl of
        None \<Rightarrow> []
      | Some u \<Rightarrow>
          (case safeUrl u of
             None \<Rightarrow> [''login_url: must be an absolute https URL without a fragment'']
           | Some url \<Rightarrow>
               if \<not> isAllowedScheme url \<or> url_hash url \<noteq> []
               then [''login_url: must be an absolute https URL without a fragment'']
               else if \<not> sameSite (url_hostname url) (url_hostname (cf_issuer config))
               then [''login_url: must be same-site with ISSUER''] else []))"

text \<open>\<^verbatim>\<open>new URL(origin)\<close> is reached only after \<^verbatim>\<open>isOrigin\<close> accepted, so it does not throw.\<close>

definition host_of :: "url_parser \<Rightarrow> string \<Rightarrow> string" where
  "host_of safeUrl origin = (case safeUrl origin of None \<Rightarrow> [] | Some url \<Rightarrow> url_hostname url)"

definition origin_violation :: "url_parser \<Rightarrow> config \<Rightarrow> string \<Rightarrow> string list" where
  "origin_violation safeUrl config origin =
     (if \<not> isOrigin safeUrl origin then [''login_origins: \"'' @ origin @ ''\" is not an https origin'']
      else if \<not> sameSite (host_of safeUrl origin) (url_hostname (cf_issuer config))
      then [''login_origins: \"'' @ origin @ ''\" is not same-site with ISSUER''] else [])"

definition login_origin_violations :: "url_parser \<Rightarrow> config \<Rightarrow> string list option \<Rightarrow> string list" where
  "login_origin_violations safeUrl config origins =
     (case origins of
        None \<Rightarrow> []
      | Some os \<Rightarrow>
          (if os = [] then [''login_origins: must not be empty''] else []) @
          concat (map (origin_violation safeUrl config) os))"

definition webauthn_violations :: "url_parser \<Rightarrow> string list option \<Rightarrow> string list \<Rightarrow> string list" where
  "webauthn_violations safeUrl stored_origins origins =
     concat (map (\<lambda>origin.
       if \<not> isOrigin safeUrl origin \<and> stored_origins \<noteq> None
       then [''webauthn_origins: \"'' @ origin @ ''\" is not an https origin''] else []) origins) @
     (if length (js_uniq (map (\<lambda>origin. registrableDomain (host_of safeUrl origin))
                   (filter (isOrigin safeUrl) origins))) > 5
      then [''webauthn_origins: at most 5 distinct registrable domains are allowed''] else [])"

definition landing_url :: "string option \<Rightarrow> string option \<Rightarrow> string option" where
  "landing_url stored_landing loginUrl =
     (case stored_landing of
        Some l \<Rightarrow> Some l
      | None \<Rightarrow>
          (case loginUrl of
             None \<Rightarrow> None
           | Some u \<Rightarrow> Some (u @ (if CHR ''?'' \<in> set u then ''&'' else ''?'') @ ''event=logged_out'')))"

definition landing_violations :: "url_parser \<Rightarrow> string option \<Rightarrow> string list" where
  "landing_violations safeUrl stored_landing =
     (case stored_landing of
        None \<Rightarrow> []
      | Some l \<Rightarrow>
          (case safeUrl l of
             None \<Rightarrow> [''logout_landing_url: must be an absolute https URL'']
           | Some url \<Rightarrow>
               if isAllowedScheme url then [] else [''logout_landing_url: must be an absolute https URL'']))"

definition ttl_violations :: "stored_settings \<Rightarrow> string list" where
  "ttl_violations s =
     (let longestToken = max (max (st_access_ttl s) (st_id_ttl s)) LOGOUT_TOKEN_TTL in
      (if st_retire_after_seconds s \<le> longestToken + 3600
       then [''keys.retire_after_seconds: must exceed the longest token lifetime plus 3600 seconds''] else []) @
      (if st_refresh_idle_ttl s > st_refresh_absolute_ttl s
       then [''tokens.refresh_idle_ttl: must not exceed tokens.refresh_absolute_ttl''] else []) @
      (if st_session_idle_ttl s > st_session_absolute_ttl s
       then [''session.idle_ttl: must not exceed session.absolute_ttl''] else []))"

definition jurisdiction_name :: "string \<Rightarrow> string" where
  "jurisdiction_name j = (if j = [] then ''no jurisdiction'' else ''jurisdiction \"'' @ j @ ''\"'')"

definition recorded_jurisdiction :: "stored_settings \<Rightarrow> string option" where
  "recorded_jurisdiction s =
     (case st_do_jurisdiction s of
        Some j \<Rightarrow> Some j
      | None \<Rightarrow> if st_bootstrapped_at s = None then None else Some [])"

definition jurisdiction_violations :: "config \<Rightarrow> stored_settings \<Rightarrow> string list" where
  "jurisdiction_violations config s =
     (case recorded_jurisdiction s of
        None \<Rightarrow> []
      | Some recorded \<Rightarrow>
          if recorded = cf_do_jurisdiction config then []
          else [''do_jurisdiction: the accounts were created under '' @ jurisdiction_name recorded @
                '' but DO_JURISDICTION asks for '' @ jurisdiction_name (cf_do_jurisdiction config) @
                ''; every existing account would be unreachable, so the setting must match''])"

definition or_setting :: "'a option \<Rightarrow> 'a \<Rightarrow> 'a" where
  "or_setting v d = (case v of Some x \<Rightarrow> x | None \<Rightarrow> d)"

text \<open>\<^verbatim>\<open>{ ...s, login_url, login_origins, webauthn_origins, logout_landing_url, sources }\<close>.\<close>

definition effective ::
  "stored_settings \<Rightarrow> string option \<Rightarrow> string list option \<Rightarrow> string list \<Rightarrow> string list \<Rightarrow> settings" where
  "effective s loginUrl loginOrigins webauthnOrigins sources =
     shared_settings.extend
       ((shared_settings.truncate s)\<lparr>st_login_url := loginUrl, st_login_origins := loginOrigins,
          st_logout_landing_url := landing_url (st_logout_landing_url s) loginUrl\<rparr>)
       (settings.fields webauthnOrigins sources)"

text \<open>\<open>message\<close> yields the lines of the schema library for a table it refuses.\<close>

definition resolveSettings ::
  "url_parser \<Rightarrow> (stored \<Rightarrow> string list) \<Rightarrow> stored \<Rightarrow> config \<Rightarrow> string list + settings" where
  "resolveSettings safeUrl message stored config =
     (case SettingsSchema stored of
        None \<Rightarrow> Inl (message stored)
      | Some s \<Rightarrow>
          let loginUrl = default_login_url config s;
              loginOrigins = default_login_origins config s;
              webauthnOrigins = or_setting (ss_webauthn_origins s) (or_setting loginOrigins []);
              violations =
                login_url_violations safeUrl config loginUrl @
                login_origin_violations safeUrl config loginOrigins @
                webauthn_violations safeUrl (ss_webauthn_origins s) webauthnOrigins @
                landing_violations safeUrl (st_logout_landing_url s) @
                ttl_violations s @
                jurisdiction_violations config s
          in if violations \<noteq> [] then Inl violations
             else Inr (effective s loginUrl loginOrigins webauthnOrigins (filter (\<lambda>k. stored k \<noteq> None) settings_keys)))"


section \<open>What resolution guarantees\<close>

lemma int_field_bounds:
  assumes "int_field lo hi fallback v = Some n" and "lo \<le> fallback" and "fallback \<le> hi"
  shows "lo \<le> n" and "n \<le> hi"
  using assms by (auto simp: int_field_def split: option.splits claim.splits if_splits)

definition within_bounds :: "('a) shared_settings_scheme \<Rightarrow> bool" where
  "within_bounds s \<longleftrightarrow>
     st_passkeys_max s \<in> {1..50} \<and> st_interaction_ttl s \<in> {60..900} \<and> st_session_idle_ttl s \<in> {900..2592000} \<and>
     st_session_absolute_ttl s \<in> {3600..31536000} \<and> st_access_ttl s \<in> {60..3600} \<and> st_id_ttl s \<in> {60..3600} \<and>
     st_refresh_idle_ttl s \<in> {3600..2592000} \<and> st_refresh_absolute_ttl s \<in> {86400..7776000} \<and>
     st_refresh_reuse_window s \<in> {3600..259200} \<and> st_rotation_days s \<in> {0..365} \<and>
     st_prepublish_seconds s \<in> {0..2592000} \<and> st_retire_after_seconds s \<in> {3600..7776000} \<and>
     st_hot_retention_days s \<in> {1..365} \<and> st_passkey_add_max_auth_age s \<in> {0..86400}"

lemma SettingsSchema_bounds:
  assumes "SettingsSchema v = Some s"
  shows "within_bounds s"
  using assms unfolding SettingsSchema_def Option.bind_eq_Some_conv
  by (clarsimp simp: within_bounds_def) (intro conjI; (erule int_field_bounds; simp))

text \<open>The rules that span several settings, on the effective ones.\<close>

definition consistent :: "url_parser \<Rightarrow> config \<Rightarrow> settings \<Rightarrow> bool" where
  "consistent safeUrl config s \<longleftrightarrow>
     st_refresh_idle_ttl s \<le> st_refresh_absolute_ttl s \<and> st_session_idle_ttl s \<le> st_session_absolute_ttl s \<and>
     max (max (st_access_ttl s) (st_id_ttl s)) 120 + 3600 < st_retire_after_seconds s \<and>
     (\<forall>u. st_login_url s = Some u \<longrightarrow> st_logout_landing_url s \<noteq> None \<and>
        (\<exists>url. safeUrl u = Some url \<and> isAllowedScheme url \<and> url_hash url = [] \<and>
               sameSite (url_hostname url) (url_hostname (cf_issuer config)))) \<and>
     (\<forall>os. st_login_origins s = Some os \<longrightarrow> os \<noteq> [] \<and>
        (\<forall>origin \<in> set os. isOrigin safeUrl origin \<and>
           sameSite (host_of safeUrl origin) (url_hostname (cf_issuer config)))) \<and>
     (\<forall>j. st_do_jurisdiction s = Some j \<longrightarrow> j = cf_do_jurisdiction config)"

lemma login_url_ok:
  "login_url_violations safeUrl config (Some u) = [] \<longleftrightarrow>
     (\<exists>url. safeUrl u = Some url \<and> isAllowedScheme url \<and> url_hash url = [] \<and>
            sameSite (url_hostname url) (url_hostname (cf_issuer config)))"
  by (auto simp: login_url_violations_def split: option.splits)

lemma origins_ok:
  "login_origin_violations safeUrl config (Some os) = [] \<longleftrightarrow> os \<noteq> [] \<and>
     (\<forall>origin \<in> set os. isOrigin safeUrl origin \<and>
        sameSite (host_of safeUrl origin) (url_hostname (cf_issuer config)))"
proof -
  have "origin_violation safeUrl config origin = [] \<longleftrightarrow>
          isOrigin safeUrl origin \<and> sameSite (host_of safeUrl origin) (url_hostname (cf_issuer config))" for origin
    by (simp add: origin_violation_def)
  then show ?thesis by (simp add: login_origin_violations_def)
qed

lemma effective_fields [simp]:
  "st_login_url (effective r u os wo src) = u" "st_login_origins (effective r u os wo src) = os"
  "st_logout_landing_url (effective r u os wo src) = landing_url (st_logout_landing_url r) u"
  "st_access_ttl (effective r u os wo src) = st_access_ttl r" "st_id_ttl (effective r u os wo src) = st_id_ttl r"
  "st_refresh_idle_ttl (effective r u os wo src) = st_refresh_idle_ttl r"
  "st_refresh_absolute_ttl (effective r u os wo src) = st_refresh_absolute_ttl r"
  "st_session_idle_ttl (effective r u os wo src) = st_session_idle_ttl r"
  "st_session_absolute_ttl (effective r u os wo src) = st_session_absolute_ttl r"
  "st_retire_after_seconds (effective r u os wo src) = st_retire_after_seconds r"
  "st_do_jurisdiction (effective r u os wo src) = st_do_jurisdiction r"
  by (simp_all add: effective_def shared_settings.defs settings.defs)

lemma effective_bounds: "within_bounds (effective r u os wo src) \<longleftrightarrow> within_bounds r"
  by (simp add: within_bounds_def effective_def shared_settings.defs settings.defs)

lemma ttl_ok:
  "ttl_violations r = [] \<longleftrightarrow>
     st_refresh_idle_ttl r \<le> st_refresh_absolute_ttl r \<and> st_session_idle_ttl r \<le> st_session_absolute_ttl r \<and>
     max (max (st_access_ttl r) (st_id_ttl r)) 120 + 3600 < st_retire_after_seconds r"
  unfolding ttl_violations_def Let_def LOGOUT_TOKEN_TTL_def by (simp split: if_splits)

lemma resolved_settings_ok:
  assumes "resolveSettings safeUrl message stored config = Inr s"
  shows "within_bounds s \<and> consistent safeUrl config s"
proof -
  obtain r where schema: "SettingsSchema stored = Some r"
    using assms by (auto simp: resolveSettings_def split: option.splits)
  let ?login = "default_login_url config r" and ?origins = "default_login_origins config r"
  obtain wo src where s: "s = effective r ?login ?origins wo src"
    and ok: "login_url_violations safeUrl config ?login = []" "login_origin_violations safeUrl config ?origins = []"
      "ttl_violations r = []" "jurisdiction_violations config r = []"
    using assms schema by (auto simp: resolveSettings_def Let_def split: if_splits)
  have "within_bounds s" using SettingsSchema_bounds [OF schema] s by (simp add: effective_bounds)
  moreover have "consistent safeUrl config s"
    unfolding consistent_def s effective_fields
  proof (intro conjI allI impI)
    fix u
    assume u: "?login = Some u"
    show "landing_url (st_logout_landing_url r) ?login \<noteq> None" using u by (simp add: landing_url_def split: option.split)
    show "\<exists>url. safeUrl u = Some url \<and> isAllowedScheme url \<and> url_hash url = [] \<and>
            sameSite (url_hostname url) (url_hostname (cf_issuer config))"
      using ok(1) u login_url_ok [of safeUrl config u] by simp
  next
    fix os
    assume "?origins = Some os"
    with ok(2) origins_ok [of safeUrl config os]
    show "os \<noteq> []" and "\<forall>origin \<in> set os. isOrigin safeUrl origin \<and>
             sameSite (host_of safeUrl origin) (url_hostname (cf_issuer config))" by simp_all
  next
    fix j
    assume "st_do_jurisdiction r = Some j"
    with ok(4) show "j = cf_do_jurisdiction config"
      by (auto simp: jurisdiction_violations_def recorded_jurisdiction_def split: if_splits)
  qed (use ok(3) ttl_ok [of r] in simp_all)
  ultimately show ?thesis ..
qed

text \<open>
  C19. Settings that resolve are sound: every number is within the bounds of its schema; idle lifetimes do not exceed the
  absolute ones; a superseded signing key outlives every token it signed by more than an hour; a login URL is allowed,
  without fragment, on the issuer's site, and then there is a landing URL for logout; the login origins are origins on
  the issuer's site; and a recorded jurisdiction is the one in force.
\<close>

theorem resolved_settings_sound:
  assumes "resolveSettings safeUrl message stored config = Inr s"
  shows "within_bounds s \<and> consistent safeUrl config s"
  using assms by (rule resolved_settings_ok)

text \<open>A URL parser that knows one host, and a table with a login URL and two lifetimes.\<close>

definition ex_site :: url_parser where
  "ex_site text =
     Some \<lparr>url_href = text, url_origin = ''https://login.example.com'', url_protocol = ''https:'',
           url_hostname = ''login.example.com'', url_username = [], url_password = [], url_pathname = ''/'',
           url_search = [], url_hash = []\<rparr>"

definition ex_config :: config where
  "ex_config =
     \<lparr>cf_issuer = (the (ex_site ''https://id.example.com''))\<lparr>url_hostname := ''id.example.com''\<rparr>,
      cf_issuer_url = ''https://id.example.com'', cf_bundled_login_app = False, cf_do_jurisdiction = ''eu''\<rparr>"

definition ex_table :: stored where
  "ex_table =
     [''login_url'' \<mapsto> Text ''https://login.example.com/'', ''login_origins'' \<mapsto> Texts [''https://login.example.com''],
      ''session.idle_ttl'' \<mapsto> Number 3600, ''tokens.access_ttl'' \<mapsto> Number 300, ''do_jurisdiction'' \<mapsto> Text ''eu'']"

theorem resolved_settings_sound_witness:
  "\<exists>s. resolveSettings ex_site (\<lambda>_. []) ex_table ex_config = Inr s \<and> within_bounds s \<and> consistent ex_site ex_config s \<and>
       st_logout_landing_url s = Some ''https://login.example.com/?event=logged_out''"
proof -
  have "case resolveSettings ex_site (\<lambda>_. []) ex_table ex_config of Inl _ \<Rightarrow> False
        | Inr s \<Rightarrow> st_logout_landing_url s = Some ''https://login.example.com/?event=logged_out''"
    by code_simp
  then obtain s where s: "resolveSettings ex_site (\<lambda>_. []) ex_table ex_config = Inr s"
      "st_logout_landing_url s = Some ''https://login.example.com/?event=logged_out''"
    by (auto split: sum.splits)
  from resolved_settings_sound [OF s(1)] s show ?thesis by blast
qed

end
