(* ===== verification/Token_Endpoint.thy ===== *)
theory Token_Endpoint
  imports Settings
begin

text \<open>
  \<^verbatim>\<open>POST /token\<close>: \<^verbatim>\<open>src/oidc/token-endpoint.ts\<close>. The handler is a function of the
  parsed form, the outcome of client authentication and the user objects, one per user id; it returns the reply,
  the audit events and the objects. Signing, the digest, encryption and the UUID library are parameters, the random
  values are arguments; logging and metrics are left out.
\<close>


section \<open>Requests and replies\<close>

record token_response =
  access_token :: string
  expires_in :: seconds
  id_token :: "string option"
  refresh_token :: "string option"
  resp_scope :: string

datatype token_reply =
    Tokens token_response
  | Error_reply int string string
  | Rate_limited
  | Internal_error

record audit_event =
  ev_type :: string
  ev_success :: bool
  ev_actor :: "string \<times> string"
  ev_user_id :: "string option"
  ev_client_id :: string
  ev_sid :: "string option"
  ev_data :: claims

text \<open>
  What a request runs against. \<open>te_settings\<close> is \<^term>\<open>None\<close> when the keys or the settings cannot be
  loaded, \<open>te_limited\<close> the answer of the rate limiter. \<open>te_secret\<close>, \<open>te_family_id\<close>,
  \<open>te_jti\<close> and \<open>te_nonce\<close> are the values drawn while the request runs.
\<close>

record 'key token_env =
  te_issuer :: string
  te_keys :: "'key crypto"
  te_uuid :: uuid_codec
  te_sha256 :: "bytes \<Rightarrow> bytes"
  te_sign :: "string \<Rightarrow> claims \<Rightarrow> string"
  te_settings :: "settings option"
  te_limited :: bool
  te_now :: seconds
  te_jti :: string
  te_secret :: bytes
  te_family_id :: string
  te_nonce :: bytes

datatype form_auth =
    Auth_ok client
  | Auth_failed token_reply "string option"

type_synonym users = "string \<Rightarrow> user_do"

type_synonym token_outcome = "token_reply \<times> audit_event list \<times> users"

text \<open>A call through the stub of the user's object.\<close>

definition on_user :: "string \<Rightarrow> (user_do \<Rightarrow> 'r \<times> user_do) \<Rightarrow> users \<Rightarrow> 'r \<times> users" where
  "on_user uid method objs = (let (r, s) = method (objs uid) in (r, objs(uid := s)))"


section \<open>Helpers\<close>

definition USER_ONLY_SCOPES :: "string list" where
  "USER_ONLY_SCOPES = filter (\<lambda>s. s \<noteq> ''admin'') scopes_supported"

definition clientRef :: "client \<Rightarrow> client_ref" where
  "clientRef c =
     \<lparr>cr_client_id = cl_client_id c, cr_created_at = cl_created_at c, cr_skip_consent = cl_skip_consent c,
      cr_allowed_groups = cl_allowed_groups c\<rparr>"

definition parseScope :: "string option \<Rightarrow> string list option" where
  "parseScope v =
     (case v of
        None \<Rightarrow> Some []
      | Some text \<Rightarrow>
          if text = [] then Some []
          else
            let parts = split_space text in
            if \<not> list_all (\<lambda>t. length t > 0 \<and> isScope t) parts then None
            else if length (js_uniq parts) \<noteq> length parts then None
            else Some parts)"

definition param :: "params \<Rightarrow> string \<Rightarrow> string" where
  "param ps name = or_setting (ps name) []"

definition kind_text :: "family_kind \<Rightarrow> string" where
  "kind_text k = (case k of Session_family \<Rightarrow> ''session'' | Offline_family \<Rightarrow> ''offline'')"

definition kind_claim :: "family_kind option \<Rightarrow> (string \<times> claim) list" where
  "kind_claim k = (case k of None \<Rightarrow> [(''kind'', Null)] | Some k' \<Rightarrow> [(''kind'', Text (kind_text k'))])"


section \<open>Tokens of a user grant\<close>

definition grant_user :: "grant_context \<Rightarrow> family_kind option \<Rightarrow> user_context" where
  "grant_user grant kind =
     \<lparr>uc_sub = gc_sub grant, uc_auth_time = gc_auth_time grant, uc_acr = gc_acr grant, uc_amr = gc_amr grant,
      uc_sid = (if kind = Some Offline_family then None else gc_sid grant)\<rparr>"

definition grant_profile :: "grant_context \<Rightarrow> profile_claims" where
  "grant_profile grant =
     \<lparr>pc_name = p_display_name (gc_profile grant), pc_updated_at = Some (p_updated_at (gc_profile grant)),
      pc_email = p_email (gc_profile grant), pc_email_verified = p_email_verified (gc_profile grant),
      pc_groups = p_groups (gc_profile grant)\<rparr>"

definition grant_access_input ::
  "'key token_env \<Rightarrow> settings \<Rightarrow> client \<Rightarrow> grant_context \<Rightarrow> family_kind option \<Rightarrow> access_token_input" where
  "grant_access_input env st c grant kind =
     \<lparr>at_issuer = te_issuer env, at_client_id = cl_client_id c, at_now = te_now env,
      at_ttl = or_setting (cl_access_token_ttl c) (st_access_ttl st), at_jti = te_jti env,
      at_scopes = gc_scope grant, at_audiences = cl_audiences c, at_user = Some (grant_user grant kind),
      at_groups = p_groups (gc_profile grant)\<rparr>"

definition grant_id_input ::
  "'key token_env \<Rightarrow> settings \<Rightarrow> client \<Rightarrow> grant_context \<Rightarrow> family_kind option \<Rightarrow> string option \<Rightarrow> string \<Rightarrow>
   id_token_input" where
  "grant_id_input env st c grant kind nonce accessToken =
     \<lparr>it_issuer = te_issuer env, it_client_id = cl_client_id c, it_now = te_now env,
      it_ttl = or_setting (cl_id_token_ttl c) (st_id_ttl st), it_user = grant_user grant kind, it_nonce = nonce,
      it_access_token = accessToken, it_scopes = gc_scope grant, it_profile = grant_profile grant\<rparr>"

definition userTokens ::
  "'key token_env \<Rightarrow> settings \<Rightarrow> client \<Rightarrow> grant_context \<Rightarrow> family_kind option \<Rightarrow> string option \<Rightarrow>
   token_response" where
  "userTokens env st c grant kind nonce =
     (let accessToken = te_sign env ''at+jwt'' (accessTokenClaims (grant_access_input env st c grant kind)) in
      \<lparr>access_token = accessToken,
       expires_in = or_setting (cl_access_token_ttl c) (st_access_ttl st),
       id_token = (if ''openid'' \<in> set (gc_scope grant)
                   then Some (te_sign env ''JWT''
                          (idTokenClaims (te_sha256 env) (grant_id_input env st c grant kind nonce accessToken)))
                   else None),
       refresh_token = None,
       resp_scope = join_space (gc_scope grant)\<rparr>)"


section \<open>The grants\<close>

definition invalidGrant :: "string \<Rightarrow> token_reply" where
  "invalidGrant description = Error_reply 400 ''invalid_grant'' description"

definition unavailable :: token_reply where
  "unavailable = Error_reply 503 ''temporarily_unavailable'' ''storage unavailable''"

definition disabledClientRefresh :: "'key token_env \<Rightarrow> params \<Rightarrow> string \<Rightarrow> users \<Rightarrow> token_outcome" where
  "disabledClientRefresh env ps clientId objs =
     (case openRefreshHandle (te_keys env) (te_uuid env) (te_sha256 env) (param ps ''refresh_token'') of
        None \<Rightarrow> (invalidGrant ''refresh_token is invalid'', [], objs)
      | Some refresh \<Rightarrow>
          (case on_user (rr_uid refresh)
                  (revokeFamilyById (rr_family_id refresh) (te_now env) ''client_disabled'' (Some clientId)) objs of
             (Threw, objs') \<Rightarrow> (unavailable, [], objs')
           | (_, objs') \<Rightarrow> (invalidGrant ''client is disabled'', [], objs')))"

definition client_access_input :: "'key token_env \<Rightarrow> settings \<Rightarrow> client \<Rightarrow> string list \<Rightarrow> access_token_input" where
  "client_access_input env st c requested =
     \<lparr>at_issuer = te_issuer env, at_client_id = cl_client_id c, at_now = te_now env,
      at_ttl = or_setting (cl_access_token_ttl c) (st_access_ttl st), at_jti = te_jti env,
      at_scopes = requested, at_audiences = cl_audiences c, at_user = None, at_groups = []\<rparr>"

definition client_credentials_grant ::
  "'key token_env \<Rightarrow> settings \<Rightarrow> client \<Rightarrow> params \<Rightarrow> users \<Rightarrow> token_outcome" where
  "client_credentials_grant env st c ps objs =
     (case parseScope (ps ''scope'') of
        None \<Rightarrow> (Error_reply 400 ''invalid_scope'' ''scope is malformed'', [], objs)
      | Some requested \<Rightarrow>
          if \<not> list_all (\<lambda>s. s \<notin> set USER_ONLY_SCOPES \<and> s \<in> set (cl_scopes_allowed c)) requested
          then (Error_reply 400 ''invalid_scope'' ''scope is not allowed for this client'', [], objs)
          else
            (Tokens \<lparr>access_token = te_sign env ''at+jwt'' (accessTokenClaims (client_access_input env st c requested)),
                     expires_in = or_setting (cl_access_token_ttl c) (st_access_ttl st), id_token = None,
                     refresh_token = None, resp_scope = join_space requested\<rparr>,
             [\<lparr>ev_type = ''token.issued'', ev_success = True, ev_actor = (''client'', cl_client_id c),
               ev_user_id = None, ev_client_id = cl_client_id c, ev_sid = None,
               ev_data = [(''grant_type'', Text ''client_credentials''), (''scopes'', Texts requested)]\<rparr>],
             objs))"

definition exchange_request ::
  "'key token_env \<Rightarrow> settings \<Rightarrow> client \<Rightarrow> bytes \<Rightarrow> string \<Rightarrow> string option \<Rightarrow> exchange_input" where
  "exchange_request env st c h redirectUri verifier =
     \<lparr>xi_secret_hash = h, xi_client = clientRef c, xi_redirect_uri = redirectUri, xi_code_verifier = verifier,
      xi_now = te_now env,
      xi_refresh =
        (if ''refresh_token'' \<in> set (cl_grant_types c)
         then Some \<lparr>ri_secret_hash = te_sha256 env (te_secret env), ri_family_id = te_family_id env,
                    ri_offline_allowed = cl_offline_access c,
                    ri_idle_ttl = or_setting (cl_refresh_idle_ttl c) (st_refresh_idle_ttl st),
                    ri_absolute_ttl = or_setting (cl_refresh_token_ttl c) (st_refresh_absolute_ttl st)\<rparr>
         else None)\<rparr>"

text \<open>The reply once the code is exchanged; sealing throws on an id that is not a UUID.\<close>

definition code_reply ::
  "'key token_env \<Rightarrow> settings \<Rightarrow> client \<Rightarrow> string \<Rightarrow> exchange_result \<Rightarrow> token_reply" where
  "code_reply env st c uid r =
     (let body = userTokens env st c (xo_grant r) (xo_kind r) (xo_nonce r) in
      (case xo_family_id r of
         None \<Rightarrow> Tokens body
       | Some fid \<Rightarrow>
           (case sealRefreshHandle (te_keys env) (te_uuid env) (te_nonce env) uid fid (te_secret env) of
              None \<Rightarrow> Internal_error
            | Some h \<Rightarrow> Tokens (body\<lparr>refresh_token := Some h\<rparr>))))"

definition authorization_code_grant ::
  "'key token_env \<Rightarrow> settings \<Rightarrow> client \<Rightarrow> params \<Rightarrow> users \<Rightarrow> token_outcome" where
  "authorization_code_grant env st c ps objs =
     (case openCodeHandle (te_keys env) (te_uuid env) (te_sha256 env) (param ps ''code'') of
        None \<Rightarrow> (invalidGrant ''code is invalid'', [], objs)
      | Some code \<Rightarrow>
          (case ps ''redirect_uri'' of
             None \<Rightarrow> (invalidGrant ''redirect_uri and a valid code_verifier are required'', [], objs)
           | Some redirectUri \<Rightarrow>
               if (case ps ''code_verifier'' of None \<Rightarrow> False | Some v \<Rightarrow> \<not> PKCE_VERIFIER v)
               then (invalidGrant ''redirect_uri and a valid code_verifier are required'', [], objs)
               else
                 (case on_user (co_uid code)
                         (exchangeCode (te_sha256 env)
                           (exchange_request env st c (co_secret_hash code) redirectUri (ps ''code_verifier''))) objs of
                    (Threw, objs') \<Rightarrow> (unavailable, [], objs')
                  | (Fail e, objs') \<Rightarrow>
                      (invalidGrant ''code is invalid, expired or already used'',
                       (if xf_replay e
                        then [\<lparr>ev_type = ''token.code_replay'', ev_success = False,
                               ev_actor = (''client'', cl_client_id c), ev_user_id = Some (co_uid code),
                               ev_client_id = cl_client_id c, ev_sid = None, ev_data = []\<rparr>]
                        else []), objs')
                  | (Ok r, objs') \<Rightarrow>
                      (code_reply env st c (co_uid code) r,
                       [\<lparr>ev_type = ''token.issued'', ev_success = True, ev_actor = (''user'', co_uid code),
                         ev_user_id = Some (co_uid code), ev_client_id = cl_client_id c,
                         ev_sid = gc_sid (xo_grant r),
                         ev_data = [(''grant_type'', Text ''authorization_code''),
                                    (''scopes'', Texts (gc_scope (xo_grant r)))] @ kind_claim (xo_kind r)\<rparr>],
                       objs'))))"

definition rotate_request ::
  "'key token_env \<Rightarrow> settings \<Rightarrow> client \<Rightarrow> refresh_ref \<Rightarrow> string list option \<Rightarrow> rotate_input" where
  "rotate_request env st c refresh requested =
     \<lparr>rt_family_id = rr_family_id refresh, rt_secret_hash = rr_secret_hash refresh, rt_client = clientRef c,
      rt_now = te_now env, rt_requested_scope = requested, rt_new_secret_hash = te_sha256 env (te_secret env),
      rt_idle_ttl = or_setting (cl_refresh_idle_ttl c) (st_refresh_idle_ttl st),
      rt_session_idle_ttl = st_session_idle_ttl st, rt_reuse_window = st_refresh_reuse_window st\<rparr>"

definition refresh_reply ::
  "'key token_env \<Rightarrow> settings \<Rightarrow> client \<Rightarrow> refresh_ref \<Rightarrow> rotate_result \<Rightarrow> token_reply" where
  "refresh_reply env st c refresh r =
     (case sealRefreshHandle (te_keys env) (te_uuid env) (te_nonce env) (rr_uid refresh) (rr_family_id refresh)
             (te_secret env) of
        None \<Rightarrow> Internal_error
      | Some h \<Rightarrow>
          Tokens ((userTokens env st c (ro_grant r) (Some (ro_kind r)) None)\<lparr>refresh_token := Some h\<rparr>))"

definition refresh_token_grant ::
  "'key token_env \<Rightarrow> settings \<Rightarrow> client \<Rightarrow> params \<Rightarrow> users \<Rightarrow> token_outcome" where
  "refresh_token_grant env st c ps objs =
     (case openRefreshHandle (te_keys env) (te_uuid env) (te_sha256 env) (param ps ''refresh_token'') of
        None \<Rightarrow> (invalidGrant ''refresh_token is invalid'', [], objs)
      | Some refresh \<Rightarrow>
          (case parseScope (ps ''scope'') of
             None \<Rightarrow> (Error_reply 400 ''invalid_scope'' ''scope is malformed'', [], objs)
           | Some requested \<Rightarrow>
               (case on_user (rr_uid refresh)
                       (rotateRefreshToken (rotate_request env st c refresh
                         (if ps ''scope'' \<noteq> None then Some requested else None))) objs of
                  (Threw, objs') \<Rightarrow> (unavailable, [], objs')
                | (Fail e, objs') \<Rightarrow>
                    if rf_error e = Invalid_scope
                    then (Error_reply 400 ''invalid_scope'' ''scope exceeds the family's scope'', [], objs')
                    else
                      (invalidGrant ''refresh_token is invalid, expired or revoked'',
                       (if rf_reuse_detected e
                        then [\<lparr>ev_type = ''token.refresh_reuse'', ev_success = False,
                               ev_actor = (''client'', cl_client_id c), ev_user_id = Some (rr_uid refresh),
                               ev_client_id = cl_client_id c, ev_sid = None,
                               ev_data = [(''revoked_session_clients'',
                                           Texts (or_setting (rf_revoked_session_clients e) []))]\<rparr>]
                        else []), objs')
                | (Ok r, objs') \<Rightarrow>
                    (refresh_reply env st c refresh r,
                     [\<lparr>ev_type = ''token.refreshed'', ev_success = True, ev_actor = (''user'', rr_uid refresh),
                       ev_user_id = Some (rr_uid refresh), ev_client_id = cl_client_id c,
                       ev_sid = gc_sid (ro_grant r),
                       ev_data = [(''scopes'', Texts (gc_scope (ro_grant r))),
                                  (''kind'', Text (kind_text (ro_kind r)))]\<rparr>], objs'))))"


section \<open>The handler\<close>

definition tokenHandler :: "'key token_env \<Rightarrow> string + params \<Rightarrow> form_auth \<Rightarrow> users \<Rightarrow> token_outcome" where
  "tokenHandler env form auth objs =
     (case form of
        Inl reason \<Rightarrow> (Error_reply 400 ''invalid_request'' reason, [], objs)
      | Inr ps \<Rightarrow>
          (case auth of
             Auth_failed reply disabled \<Rightarrow>
               (case disabled of
                  Some clientId \<Rightarrow>
                    if ps ''grant_type'' = Some ''refresh_token''
                    then disabledClientRefresh env ps clientId objs else (reply, [], objs)
                | None \<Rightarrow> (reply, [], objs))
           | Auth_ok c \<Rightarrow>
               if te_limited env then (Rate_limited, [], objs)
               else
                 let grantType = param ps ''grant_type'' in
                 if grantType \<notin> set grant_types_supported
                 then (Error_reply 400 ''unsupported_grant_type'' ''grant_type is not supported'', [], objs)
                 else if grantType \<notin> set (cl_grant_types c)
                 then (Error_reply 400 ''unauthorized_client'' ''grant_type is not allowed for this client'', [], objs)
                 else
                   (case te_settings env of
                      None \<Rightarrow>
                        (Error_reply 503 ''temporarily_unavailable'' ''keys or settings unavailable'', [], objs)
                    | Some st \<Rightarrow>
                        if grantType = ''client_credentials'' then client_credentials_grant env st c ps objs
                        else if grantType = ''authorization_code'' then authorization_code_grant env st c ps objs
                        else refresh_token_grant env st c ps objs)))"

end
