(* ===== verification/Handle_Safety.thy ===== *)
theory Handle_Safety
  imports Handles
begin

text \<open>
  Handles are what they were sealed as: opening gives back the sealed fields, a handle of one type never opens
  as another, and no text opens but those sealed under a known key. The laws of the parameters are
  \<open>aead_ok\<close> (AES-GCM) and \<open>uuid_ok\<close> (the UUID library).
\<close>

definition aead_ok :: "'key crypto \<Rightarrow> bool" where
  "aead_ok keys \<longleftrightarrow>
     (\<forall>k n a p. k_decrypt keys k n a (k_encrypt keys k n a p) = Some p \<and>
                length (k_encrypt keys k n a p) = length p + 16) \<and>
     (\<forall>k n a c p. k_decrypt keys k n a c = Some p \<longrightarrow> c = k_encrypt keys k n a p)"

definition uuid_ok :: "uuid_codec \<Rightarrow> bool" where
  "uuid_ok uuid \<longleftrightarrow>
     (\<forall>u b. uuidToBytes uuid u = Some b \<longrightarrow> length b = 16 \<and> bytesToUuid uuid b = u)"


section \<open>Fields\<close>

lemma pack_fields_length: "pack_fields fs vals = Some p \<Longrightarrow> length p = sum_list (map snd fs)"
  by (induction fs vals arbitrary: p rule: pack_fields.induct) (auto split: option.splits if_splits)

lemma unpack_pack:
  "pack_fields fs vals = Some p \<Longrightarrow>
   unpack_fields fs p = map (\<lambda>(name, _). (name, the (map_of vals name))) fs"
  by (induction fs vals arbitrary: p rule: pack_fields.induct) (auto split: option.splits if_splits)

lemma starts_with_append [simp]: "starts_with p (p @ rest)"
  by (simp add: starts_with_def)

lemma starts_withE:
  assumes "starts_with p v"
  obtains rest where "v = p @ rest"
  using assms append_take_drop_id [of "length p" v] unfolding starts_with_def by metis


section \<open>Sealing and opening\<close>

lemma sealHandle_Some:
  assumes "sealHandle keys nonce type vals = Some h"
  obtains p key where "pack_fields (h_fields (HANDLE_TYPES type)) vals = Some p"
    and "k_aes keys (k_active keys) = Some key"
    and "h = h_prefix (HANDLE_TYPES type) @ ''_'' @ encodeBase64Url
           ([ENVELOPE_VERSION, k_active keys, h_type (HANDLE_TYPES type)] @ nonce @
            k_encrypt keys key nonce [ENVELOPE_VERSION, k_active keys, h_type (HANDLE_TYPES type)] p)"
  using assms by (auto simp: sealHandle_def Let_def concatBytes_def split: option.splits)

lemma open_envelope:
  assumes "aead_ok keys" and "length nonce = NONCE_LENGTH" and "k_aes keys ver = Some key"
    and "length p = handle_layout (HANDLE_TYPES type)"
  shows "openHandle keys type (h_prefix (HANDLE_TYPES type) @ ''_'' @ encodeBase64Url
           ([ENVELOPE_VERSION, ver, h_type (HANDLE_TYPES type)] @ nonce @
            k_encrypt keys key nonce [ENVELOPE_VERSION, ver, h_type (HANDLE_TYPES type)] p)) =
         Some (unpack_fields (h_fields (HANDLE_TYPES type)) p)"
proof -
  let ?header = "[ENVELOPE_VERSION, ver, h_type (HANDLE_TYPES type)]"
  let ?bs = "?header @ nonce @ k_encrypt keys key nonce ?header p"
  let ?prefix = "h_prefix (HANDLE_TYPES type) @ ''_''"
  have dec: "decodeBase64Url (drop (length ?prefix) (?prefix @ encodeBase64Url ?bs)) = Some ?bs"
    using b64url.decode_encode [of ?bs] by simp
  have len: "length ?bs = HEADER_LENGTH + NONCE_LENGTH + handle_layout (HANDLE_TYPES type) + TAG_LENGTH"
    using assms by (simp add: aead_ok_def HEADER_LENGTH_def TAG_LENGTH_def)
  have parts: "take HEADER_LENGTH ?bs = ?header" "take NONCE_LENGTH (drop HEADER_LENGTH ?bs) = nonce"
    "drop (HEADER_LENGTH + NONCE_LENGTH) ?bs = k_encrypt keys key nonce ?header p"
    using assms(2) by (simp_all add: HEADER_LENGTH_def eval_nat_numeral)
  have "starts_with ?prefix (?prefix @ encodeBase64Url ?bs)" by (rule starts_with_append)
  then have "openHandle keys type (?prefix @ encodeBase64Url ?bs) =
      Some (unpack_fields (h_fields (HANDLE_TYPES type)) p)"
    unfolding openHandle_def Let_def dec parts option.case len using assms(1,3)
    by (simp add: aead_ok_def)
  then show ?thesis by simp
qed

lemma open_seal:
  assumes "aead_ok keys" and "length nonce = NONCE_LENGTH" and "sealHandle keys nonce type vals = Some h"
  shows "openHandle keys type h =
         Some (map (\<lambda>(name, _). (name, the (map_of vals name))) (h_fields (HANDLE_TYPES type)))"
  using assms(3)
proof (rule sealHandle_Some)
  fix p key
  assume p: "pack_fields (h_fields (HANDLE_TYPES type)) vals = Some p"
    and key: "k_aes keys (k_active keys) = Some key"
    and h: "h = h_prefix (HANDLE_TYPES type) @ ''_'' @ encodeBase64Url
           ([ENVELOPE_VERSION, k_active keys, h_type (HANDLE_TYPES type)] @ nonce @
            k_encrypt keys key nonce [ENVELOPE_VERSION, k_active keys, h_type (HANDLE_TYPES type)] p)"
  have "length p = handle_layout (HANDLE_TYPES type)"
    using pack_fields_length [OF p] by (simp add: handle_layout_def)
  from open_envelope [OF assms(1,2) key this] show ?thesis unfolding h unpack_pack [OF p] .
qed

text \<open>Opening succeeds only on a text that sealing under a known key produces.\<close>

lemma openHandle_Some:
  assumes "aead_ok keys" and "openHandle keys type h = Some f"
  obtains ver key nonce p where "k_aes keys ver = Some key" and "length nonce = NONCE_LENGTH"
    and "length p = handle_layout (HANDLE_TYPES type)" and "f = unpack_fields (h_fields (HANDLE_TYPES type)) p"
    and "h = h_prefix (HANDLE_TYPES type) @ ''_'' @ encodeBase64Url
           ([ENVELOPE_VERSION, ver, h_type (HANDLE_TYPES type)] @ nonce @
            k_encrypt keys key nonce [ENVELOPE_VERSION, ver, h_type (HANDLE_TYPES type)] p)"
proof -
  let ?spec = "HANDLE_TYPES type"
  let ?prefix = "h_prefix ?spec @ ''_''"
  obtain bs key p where pre: "starts_with ?prefix h" and bs: "decodeBase64Url (drop (length ?prefix) h) = Some bs"
    and len: "length bs = HEADER_LENGTH + NONCE_LENGTH + handle_layout ?spec + TAG_LENGTH"
    and head: "take HEADER_LENGTH bs ! 0 = ENVELOPE_VERSION" "take HEADER_LENGTH bs ! 2 = h_type ?spec"
    and key: "k_aes keys (take HEADER_LENGTH bs ! 1) = Some key"
    and p: "k_decrypt keys key (take NONCE_LENGTH (drop HEADER_LENGTH bs)) (take HEADER_LENGTH bs)
              (drop (HEADER_LENGTH + NONCE_LENGTH) bs) = Some p"
    and f: "f = unpack_fields (h_fields ?spec) p"
    using assms(2) by (auto simp: openHandle_def Let_def split: option.splits if_splits)
  define ver where "ver = take HEADER_LENGTH bs ! 1"
  let ?nonce = "take NONCE_LENGTH (drop HEADER_LENGTH bs)"
  let ?header = "[ENVELOPE_VERSION, ver, h_type ?spec]"
  note key = key [folded ver_def]
  have hd3: "take HEADER_LENGTH bs = ?header"
    using head len ver_def by (intro nth_equalityI) (auto simp: HEADER_LENGTH_def less_Suc_eq eval_nat_numeral)
  have c: "drop (HEADER_LENGTH + NONCE_LENGTH) bs = k_encrypt keys key ?nonce ?header p"
    using assms(1) p unfolding hd3 aead_ok_def by blast
  have nl: "length ?nonce = NONCE_LENGTH" using len by simp
  have "length (k_encrypt keys key ?nonce ?header p) = handle_layout ?spec + TAG_LENGTH"
    unfolding c [symmetric] using len by simp
  then have pl: "length p = handle_layout ?spec" using assms(1) by (simp add: aead_ok_def TAG_LENGTH_def)
  have "bs = take HEADER_LENGTH bs @ ?nonce @ drop (HEADER_LENGTH + NONCE_LENGTH) bs"
    by (metis append_take_drop_id drop_drop add.commute)
  then have split: "bs = ?header @ ?nonce @ k_encrypt keys key ?nonce ?header p" unfolding hd3 c .
  have "drop (length ?prefix) h = encodeBase64Url bs" using b64url.decode_canonical [OF bs] .
  moreover from pre obtain rest where "h = ?prefix @ rest" by (rule starts_withE)
  ultimately have "h = ?prefix @ encodeBase64Url bs" by simp
  then have "h = h_prefix ?spec @ ''_'' @ encodeBase64Url (?header @ ?nonce @ k_encrypt keys key ?nonce ?header p)"
    using split by simp
  from that [OF key nl pl f this] show ?thesis .
qed


section \<open>Packing what was unpacked\<close>

lemma pack_fields_cong:
  "(\<And>name. name \<in> fst ` set fs \<Longrightarrow> map_of vals name = map_of vals' name) \<Longrightarrow>
   pack_fields fs vals = pack_fields fs vals'"
  by (induction fs vals rule: pack_fields.induct) (auto split: option.splits)

lemma pack_unpack:
  "distinct (map fst fs) \<Longrightarrow> length p = sum_list (map snd fs) \<Longrightarrow>
   pack_fields fs (unpack_fields fs p) = Some p"
proof (induction fs arbitrary: p)
  case (Cons f fs)
  obtain name len where f: "f = (name, len)" by (cases f)
  have "pack_fields fs ((name, take len p) # unpack_fields fs (drop len p)) =
        pack_fields fs (unpack_fields fs (drop len p))"
    using Cons.prems f by (intro pack_fields_cong) auto
  then show ?case using Cons.IH [of "drop len p"] Cons.prems f by simp
qed simp

lemma handle_fields_distinct: "distinct (map fst (h_fields (HANDLE_TYPES type)))"
  by (cases type) simp_all

lemma sealHandle_defined:
  assumes "pack_fields (h_fields (HANDLE_TYPES type)) vals = Some p" and "k_aes keys (k_active keys) = Some key"
  shows "\<exists>h. sealHandle keys nonce type vals = Some h"
  using assms by (simp add: sealHandle_def Let_def)

lemma starts_with_same_length:
  assumes "starts_with p h" and "starts_with q h" and "length p = length q"
  shows "p = q"
proof -
  have "p = take (length p) h" using assms(1) by (simp add: starts_with_def)
  also have "\<dots> = take (length q) h" unfolding assms(3) ..
  also have "\<dots> = q" using assms(2) by (simp add: starts_with_def)
  finally show ?thesis .
qed

lemma prefix_length [simp]: "length (h_prefix (HANDLE_TYPES type)) = 6"
  by (cases type) simp_all

lemma prefix_inject [simp]: "h_prefix (HANDLE_TYPES t) = h_prefix (HANDLE_TYPES t') \<longleftrightarrow> t = t'"
  by (cases t; cases t') simp_all

lemma starts_with_prefix_unique:
  assumes "starts_with (h_prefix (HANDLE_TYPES t) @ ''_'') h" and "starts_with (h_prefix (HANDLE_TYPES t') @ ''_'') h"
  shows "t = t'"
  using starts_with_same_length [OF assms] by simp

lemma openHandle_prefix:
  "openHandle keys type h = Some f \<Longrightarrow> starts_with (h_prefix (HANDLE_TYPES type) @ ''_'') h"
  by (simp add: openHandle_def Let_def split: if_splits)

lemma all_handle_types_complete [simp]: "type \<in> set all_handle_types"
  by (cases type) (simp_all add: all_handle_types_def)

lemma find_unique:
  assumes "x \<in> set xs" and "P x" and unique: "\<And>y. P y \<Longrightarrow> y = x"
  shows "find P xs = Some x"
  using assms(1,2)
proof (induction xs)
  case (Cons y ys)
  show ?case
  proof (cases "P y")
    case True
    then show ?thesis using unique [OF True] by simp
  next
    case False
    then show ?thesis using Cons by auto
  qed
qed simp

text \<open>A cipher that satisfies the laws, for the witnesses: the tag is the key in sixteen bytes.\<close>

definition ex_crypto :: "byte crypto" where
  "ex_crypto =
     \<lparr>k_active = 1, k_aes = (\<lambda>v. if v = 1 then Some 7 else None),
      k_encrypt = (\<lambda>k n a p. p @ replicate 16 k),
      k_decrypt = (\<lambda>k n a c. if 16 \<le> length c \<and> drop (length c - 16) c = replicate 16 k
                              then Some (take (length c - 16) c) else None)\<rparr>"

lemma ex_crypto_ok: "aead_ok ex_crypto"
  unfolding aead_ok_def ex_crypto_def
  by (auto split: if_splits) (metis append_take_drop_id)

definition ex_uuid :: uuid_codec where
  "ex_uuid = \<lparr>uuidToBytes = (\<lambda>u. if u = ''u1'' then Some (replicate 16 1) else if u = ''u2'' then Some (replicate 16 2) else None),
              bytesToUuid = (\<lambda>b. if b = replicate 16 1 then ''u1'' else ''u2'')\<rparr>"

lemma ex_uuid_ok: "uuid_ok ex_uuid"
  by (auto simp: uuid_ok_def ex_uuid_def eval_nat_numeral split: if_splits)


section \<open>Properties\<close>

lemmas seal_open_defs =
  sealSessionHandle_def openSessionHandle_def sealCodeHandle_def openCodeHandle_def sealRefreshHandle_def
  openRefreshHandle_def sealInvitationHandle_def openInvitationHandle_def sealBindingHandle_def
  openBindingHandle_def sealFederationHandle_def openFederationHandle_def seal_ixid_def open_ixid_def field_def

text \<open>
  C22. The round trip of the handles: with a key for the active version, a twelve-byte nonce and a secret of 32
  bytes, sealing the ids of a session, a code, a refresh token or an invitation (any texts the UUID library reads)
  or of an interaction (any base64url text of 32 bytes) succeeds, and opening the handle gives back the same ids
  and the digest of the same secret.
\<close>

theorem handle_round_trip:
  assumes "aead_ok keys" and "uuid_ok uuid" and "length nonce = NONCE_LENGTH" and "length secret = 32"
    and "k_aes keys (k_active keys) = Some key"
    and "uuidToBytes uuid a = Some a'" and "uuidToBytes uuid b = Some b'"
    and "decodeBase64Url i = Some i'" and "length i' = 32"
  shows "(\<exists>h. sealSessionHandle keys uuid nonce a b secret = Some h \<and>
              openSessionHandle keys uuid sha256 h = Some \<lparr>sr_uid = a, sr_sid = b, sr_secret_hash = sha256 secret\<rparr>) \<and>
         (\<exists>h. sealCodeHandle keys uuid nonce a secret = Some h \<and>
              openCodeHandle keys uuid sha256 h = Some \<lparr>co_uid = a, co_secret_hash = sha256 secret\<rparr>) \<and>
         (\<exists>h. sealRefreshHandle keys uuid nonce a b secret = Some h \<and>
              openRefreshHandle keys uuid sha256 h =
                Some \<lparr>rr_uid = a, rr_family_id = b, rr_secret_hash = sha256 secret\<rparr>) \<and>
         (\<exists>h. sealInvitationHandle keys uuid nonce a secret = Some h \<and>
              openInvitationHandle keys uuid sha256 h = Some \<lparr>in_invitation_id = a, in_secret_hash = sha256 secret\<rparr>) \<and>
         (\<exists>h. sealBindingHandle keys nonce i secret = Some h \<and>
              openBindingHandle keys sha256 h = Some \<lparr>br_interaction_id = i, br_secret_hash = sha256 secret\<rparr>) \<and>
         (\<exists>h. sealFederationHandle keys nonce i secret = Some h \<and>
              openFederationHandle keys sha256 h = Some \<lparr>br_interaction_id = i, br_secret_hash = sha256 secret\<rparr>)"
proof -
  have ab: "length a' = 16" "bytesToUuid uuid a' = a" "length b' = 16" "bytesToUuid uuid b' = b"
    using assms(2,6,7) by (auto simp: uuid_ok_def)
  have i: "encodeBase64Url i' = i" using b64url.decode_canonical [OF assms(8)] by simp
  have sealed: "\<exists>h. sealHandle keys nonce type vals = Some h \<and> openHandle keys type h =
        Some (map (\<lambda>(name, _). (name, the (map_of vals name))) (h_fields (HANDLE_TYPES type)))"
    if "pack_fields (h_fields (HANDLE_TYPES type)) vals \<noteq> None" for type vals
    using sealHandle_defined [OF _ assms(5)] open_seal [OF assms(1,3)] that by fast
  obtain h1 h2 h3 h4 h5 h6 where
    "sealHandle keys nonce Session_handle [(''uid'', a'), (''sid'', b'), (''secret'', secret)] = Some h1"
    "openHandle keys Session_handle h1 = Some [(''uid'', a'), (''sid'', b'), (''secret'', secret)]"
    "sealHandle keys nonce Code_handle [(''uid'', a'), (''secret'', secret)] = Some h2"
    "openHandle keys Code_handle h2 = Some [(''uid'', a'), (''secret'', secret)]"
    "sealHandle keys nonce Refresh_handle [(''uid'', a'), (''family'', b'), (''secret'', secret)] = Some h3"
    "openHandle keys Refresh_handle h3 = Some [(''uid'', a'), (''family'', b'), (''secret'', secret)]"
    "sealHandle keys nonce Invitation_handle [(''invid'', a'), (''secret'', secret)] = Some h4"
    "openHandle keys Invitation_handle h4 = Some [(''invid'', a'), (''secret'', secret)]"
    "sealHandle keys nonce Interaction_handle [(''ixid'', i'), (''secret'', secret)] = Some h5"
    "openHandle keys Interaction_handle h5 = Some [(''ixid'', i'), (''secret'', secret)]"
    "sealHandle keys nonce Federation_handle [(''ixid'', i'), (''secret'', secret)] = Some h6"
    "openHandle keys Federation_handle h6 = Some [(''ixid'', i'), (''secret'', secret)]"
    using sealed [of Session_handle "[(''uid'', a'), (''sid'', b'), (''secret'', secret)]"]
      sealed [of Code_handle "[(''uid'', a'), (''secret'', secret)]"]
      sealed [of Refresh_handle "[(''uid'', a'), (''family'', b'), (''secret'', secret)]"]
      sealed [of Invitation_handle "[(''invid'', a'), (''secret'', secret)]"]
      sealed [of Interaction_handle "[(''ixid'', i'), (''secret'', secret)]"]
      sealed [of Federation_handle "[(''ixid'', i'), (''secret'', secret)]"]
    by (auto simp: assms(4,9) ab)
  then show ?thesis
    by (simp add: assms(6-9) ab i seal_open_defs)
qed

theorem handle_round_trip_witness:
  "\<exists>h. sealRefreshHandle ex_crypto ex_uuid (replicate 12 9) ''u1'' ''u2'' (replicate 32 5) = Some h \<and>
       openRefreshHandle ex_crypto ex_uuid id h =
         Some \<lparr>rr_uid = ''u1'', rr_family_id = ''u2'', rr_secret_hash = replicate 32 5\<rparr>"
  using handle_round_trip [OF ex_crypto_ok ex_uuid_ok, of "replicate 12 9" "replicate 32 5" 7 "''u1''" "replicate 16 1" "''u2''"
      "replicate 16 2" "encodeBase64Url (replicate 32 3)" "replicate 32 3" id]
  by (simp add: NONCE_LENGTH_def ex_crypto_def ex_uuid_def b64url.decode_encode)

text \<open>
  A handle of one type is never taken for another: a text that opens as one type is classified as that type
  by its prefix, and opens as no other type, whatever the keys.
\<close>

theorem handle_types_separate:
  fixes keys :: "'k crypto"
  assumes "openHandle keys type h = Some f"
  shows "handleType h = Some type \<and> (\<forall>(keys' :: 'k crypto) type'. type' \<noteq> type \<longrightarrow> openHandle keys' type' h = None)"
proof
  have pre: "starts_with (h_prefix (HANDLE_TYPES type) @ ''_'') h" by (rule openHandle_prefix [OF assms])
  show "handleType h = Some type"
    unfolding handleType_def using pre starts_with_prefix_unique by (intro find_unique) auto
  show "\<forall>(keys' :: 'k crypto) type'. type' \<noteq> type \<longrightarrow> openHandle keys' type' h = None"
    using openHandle_prefix starts_with_prefix_unique [OF pre] by (metis option.exhaust)
qed

theorem handle_types_separate_witness:
  "\<exists>h. sealHandle ex_crypto (replicate 12 9) Code_handle [(''uid'', replicate 16 1), (''secret'', replicate 32 5)] = Some h \<and>
       openHandle ex_crypto Session_handle h = None"
proof -
  let ?vals = "[(''uid'', replicate 16 (1 :: byte)), (''secret'', replicate 32 5)]"
  obtain h where h: "sealHandle ex_crypto (replicate 12 9) Code_handle ?vals = Some h"
    by (simp add: sealHandle_def ex_crypto_def Let_def)
  have "openHandle ex_crypto Code_handle h = Some ?vals"
    using open_seal [OF ex_crypto_ok _ h] by (simp add: NONCE_LENGTH_def)
  from handle_types_separate [OF this] h show ?thesis by simp
qed

text \<open>
  C23. No forgery: a text that opens as a handle is exactly the text that sealing the opened fields produces, with
  some nonce, under a key version the server knows.
\<close>

theorem opened_handle_was_sealed:
  assumes "aead_ok keys" and "openHandle keys type h = Some f"
  shows "\<exists>ver nonce. length nonce = NONCE_LENGTH \<and> k_aes keys ver \<noteq> None \<and>
           sealHandle (keys\<lparr>k_active := ver\<rparr>) nonce type f = Some h"
  using assms
proof (rule openHandle_Some)
  fix ver key nonce p
  assume "k_aes keys ver = Some key" and "length nonce = NONCE_LENGTH"
    and p: "length p = handle_layout (HANDLE_TYPES type)" and f: "f = unpack_fields (h_fields (HANDLE_TYPES type)) p"
    and "h = h_prefix (HANDLE_TYPES type) @ ''_'' @ encodeBase64Url
           ([ENVELOPE_VERSION, ver, h_type (HANDLE_TYPES type)] @ nonce @
            k_encrypt keys key nonce [ENVELOPE_VERSION, ver, h_type (HANDLE_TYPES type)] p)"
  moreover have "pack_fields (h_fields (HANDLE_TYPES type)) f = Some p"
    unfolding f using pack_unpack [OF handle_fields_distinct] p by (simp add: handle_layout_def)
  ultimately show ?thesis
    by (intro exI [of _ ver] exI [of _ nonce]) (simp add: sealHandle_def Let_def concatBytes_def)
qed

theorem opened_handle_was_sealed_witness:
  "\<exists>ver nonce. length nonce = NONCE_LENGTH \<and> k_aes ex_crypto ver \<noteq> None \<and>
     sealHandle (ex_crypto\<lparr>k_active := ver\<rparr>) nonce Code_handle [(''uid'', replicate 16 1), (''secret'', replicate 32 5)] =
     sealHandle ex_crypto (replicate 12 9) Code_handle [(''uid'', replicate 16 1), (''secret'', replicate 32 5)]"
proof -
  let ?vals = "[(''uid'', replicate 16 (1 :: byte)), (''secret'', replicate 32 5)]"
  obtain h where h: "sealHandle ex_crypto (replicate 12 9) Code_handle ?vals = Some h"
    by (simp add: sealHandle_def ex_crypto_def Let_def)
  have "openHandle ex_crypto Code_handle h = Some ?vals"
    using open_seal [OF ex_crypto_ok _ h] by (simp add: NONCE_LENGTH_def)
  from opened_handle_was_sealed [OF ex_crypto_ok this] show ?thesis unfolding h .
qed

end
