(* ===== verification/Endpoint_Safety.thy ===== *)
theory Endpoint_Safety
  imports Token_Endpoint Handle_Safety Token_Safety
begin

text \<open>
  The token endpoint: what the claims of a token are, that a client's own token carries nothing of a user, that
  every request is a sequence of operations of the user objects, and that the guarantees of the objects reach the
  caller of the endpoint.
\<close>


section \<open>Payloads\<close>

lemma map_of_set_claim [simp]: "map_of (set_claim name v cs) = (map_of cs)(name \<mapsto> v)"
  by (induction name v cs rule: set_claim.induct) (auto simp: fun_upd_twist)

lemma fst_set_claim: "fst ` set (set_claim name v cs) = insert name (fst ` set cs)"
  by (induction name v cs rule: set_claim.induct) auto

lemma distinct_set_claim [simp]: "distinct (map fst (set_claim name v cs)) \<longleftrightarrow> distinct (map fst cs)"
  by (induction name v cs rule: set_claim.induct) (auto simp: fst_set_claim simp del: set_map simp flip: image_set)

lemma map_of_set_optional:
  "map_of (set_optional name v cs) = (case v of None \<Rightarrow> map_of cs | Some w \<Rightarrow> (map_of cs)(name \<mapsto> w))"
  by (simp add: set_optional_def split: option.splits)

lemma distinct_set_optional [simp]: "distinct (map fst (set_optional name v cs)) \<longleftrightarrow> distinct (map fst cs)"
  by (simp add: set_optional_def split: option.splits)

lemma distinct_spread [simp]: "distinct (map fst (spread_claims src cs)) \<longleftrightarrow> distinct (map fst cs)"
  unfolding spread_claims_def by (induction src arbitrary: cs) (auto split: prod.splits)

lemma map_of_fold_set_claim:
  "map_of (fold (\<lambda>(n, v). set_claim n v) src cs) k =
     (case map_of (rev src) k of None \<Rightarrow> map_of cs k | Some v \<Rightarrow> Some v)"
  by (induction src arbitrary: cs) (auto simp: map_add_def split: option.splits)

lemma map_of_spread:
  assumes "distinct (map fst src)"
  shows "map_of (spread_claims src cs) k = (case map_of src k of None \<Rightarrow> map_of cs k | Some v \<Rightarrow> Some v)"
proof -
  have "map_of (rev src) = map_of src" using assms by (intro map_of_eqI) (auto simp: rev_map [symmetric])
  then show ?thesis by (simp add: spread_claims_def map_of_fold_set_claim)
qed

lemma scopedClaims_distinct [simp]: "distinct (map fst (scopedClaims scopes prof))"
  by (simp add: scopedClaims_def Let_def split: option.splits bool.splits)

lemma scopedClaims_get:
  "map_of (scopedClaims scopes prof) =
     (\<lambda>k. if k = ''name'' \<and> ''profile'' \<in> set scopes then map_option Text (pc_name prof)
          else if k = ''updated_at'' \<and> ''profile'' \<in> set scopes then map_option Number (pc_updated_at prof)
          else if k = ''email'' \<and> ''email'' \<in> set scopes then map_option Text (pc_email prof)
          else if k = ''email_verified'' \<and> ''email'' \<in> set scopes \<and> pc_email prof \<noteq> None
          then Some (Flag (pc_email_verified prof))
          else if k = ''groups'' \<and> ''groups'' \<in> set scopes then Some (Texts (sort (pc_groups prof)))
          else None)"
  by (cases "''profile'' \<in> set scopes"; cases "''email'' \<in> set scopes"; cases "''groups'' \<in> set scopes";
      cases "pc_email prof"; cases "pc_name prof"; cases "pc_updated_at prof")
     (simp_all add: scopedClaims_def Let_def map_of_set_optional fun_eq_iff)


section \<open>What a token discloses\<close>

text \<open>
  C32. An ID token discloses what the scope allows and nothing else: every member appears once and none is null;
  the name and the time of the last update need \<^verbatim>\<open>profile\<close>, the address \<^verbatim>\<open>email\<close>, and its
  verification only ever comes with the address; the groups, sorted, need \<^verbatim>\<open>groups\<close>; the session id is
  present exactly when the context has one and the nonce is the request's.
\<close>

theorem id_token_discloses_by_scope:
  fixes input sha256
  defines "c \<equiv> idTokenClaims sha256 input" and "scopes \<equiv> set (it_scopes input)" and "p \<equiv> it_profile input"
  shows "distinct (map fst c) \<and>
    map_of c ''sub'' = Some (Text (uc_sub (it_user input))) \<and>
    map_of c ''aud'' = Some (Text (it_client_id input)) \<and>
    map_of c ''exp'' = Some (Number (it_now input + it_ttl input)) \<and>
    map_of c ''name'' = (if ''profile'' \<in> scopes then map_option Text (pc_name p) else None) \<and>
    map_of c ''updated_at'' = (if ''profile'' \<in> scopes then map_option Number (pc_updated_at p) else None) \<and>
    map_of c ''email'' = (if ''email'' \<in> scopes then map_option Text (pc_email p) else None) \<and>
    map_of c ''email_verified'' =
      (if map_of c ''email'' = None then None else Some (Flag (pc_email_verified p))) \<and>
    map_of c ''groups'' = (if ''groups'' \<in> scopes then Some (Texts (sort (pc_groups p))) else None) \<and>
    map_of c ''sid'' = map_option Text (uc_sid (it_user input)) \<and>
    map_of c ''nonce'' = map_option Text (it_nonce input)"
proof -
  have d: "distinct (map fst c)" by (simp add: c_def idTokenClaims_def Let_def)
  have m: "map_of c k = (if k = ''nonce'' \<and> it_nonce input \<noteq> None then map_option Text (it_nonce input)
      else if k = ''sid'' \<and> uc_sid (it_user input) \<noteq> None then map_option Text (uc_sid (it_user input))
      else (case map_of (scopedClaims (it_scopes input) p) k of
              Some v \<Rightarrow> Some v
            | None \<Rightarrow> map_of [(''iss'', Text (it_issuer input)), (''sub'', Text (uc_sub (it_user input))),
                  (''aud'', Text (it_client_id input)), (''exp'', Number (it_now input + it_ttl input)),
                  (''iat'', Number (it_now input)), (''auth_time'', Number (uc_auth_time (it_user input))),
                  (''acr'', Text (uc_acr (it_user input))), (''amr'', Texts (uc_amr (it_user input))),
                  (''at_hash'', Text (atHash sha256 (it_access_token input)))] k))" for k
    unfolding c_def idTokenClaims_def Let_def p_def
    by (cases "it_nonce input"; cases "uc_sid (it_user input)")
       (simp_all only: map_of_set_optional map_of_spread [OF scopedClaims_distinct] option.simps fun_upd_apply, simp_all)
  show ?thesis
    using d unfolding m scopedClaims_get scopes_def
    by (cases "pc_email p"; cases "pc_name p"; cases "pc_updated_at p"; cases "it_nonce input"; cases "uc_sid (it_user input)")
       simp_all
qed

text \<open>The members an access token of a user has beside the common ones.\<close>

lemma access_token_user:
  assumes "at_user input = Some u"
  shows "map_of (accessTokenClaims input) ''sub'' = Some (Text (uc_sub u))"
    and "map_of (accessTokenClaims input) ''sid'' = map_option Text (uc_sid u)"
    and "map_of (accessTokenClaims input) ''scope'' = Some (Text (join_space (at_scopes input)))"
  using assms
  by (simp_all add: accessTokenClaims_def Let_def map_of_set_optional del: map_of_eq_Some_iff split: option.splits)

lemma access_token_client:
  assumes "at_user input = None"
  shows "map_of (accessTokenClaims input) ''sub'' = Some (Text (at_client_id input))"
    and "map_of (accessTokenClaims input) ''scope'' = Some (Text (join_space (at_scopes input)))"
    and "fst ` set (accessTokenClaims input) = {''iss'', ''sub'', ''aud'', ''exp'', ''iat'', ''jti'', ''client_id'', ''scope''}"
  using assms by (simp_all add: accessTokenClaims_def Let_def del: map_of_eq_Some_iff)


section \<open>Outcomes of the handler\<close>

lemma tokenHandler_Tokens:
  assumes "tokenHandler env form auth objs = (Tokens r, evs, objs')"
  obtains ps c st where "form = Inr ps" and "auth = Auth_ok c" and "te_settings env = Some st"
    and "param ps ''grant_type'' \<in> set (cl_grant_types c)"
    and "(param ps ''grant_type'' = ''client_credentials'' \<and>
            client_credentials_grant env st c ps objs = (Tokens r, evs, objs')) \<or>
         (param ps ''grant_type'' = ''authorization_code'' \<and>
            authorization_code_grant env st c ps objs = (Tokens r, evs, objs')) \<or>
         (param ps ''grant_type'' = ''refresh_token'' \<and>
            refresh_token_grant env st c ps objs = (Tokens r, evs, objs'))"
  | reply disabled where "auth = Auth_failed reply disabled" and "reply = Tokens r"
proof (cases auth)
  case (Auth_failed reply disabled)
  show ?thesis
  proof (cases "reply = Tokens r")
    case True
    then show ?thesis by (rule that(2) [OF Auth_failed])
  next
    case False
    then show ?thesis using assms Auth_failed
      by (auto simp: tokenHandler_def disabledClientRefresh_def unavailable_def invalidGrant_def
          split: sum.splits option.splits if_splits prod.splits do_result.splits)
  qed
next
  case (Auth_ok c)
  show ?thesis
  proof (cases form)
    case (Inl reason)
    then show ?thesis using assms by (simp add: tokenHandler_def)
  next
    case (Inr ps)
    have "\<not> te_limited env" and g: "param ps ''grant_type'' \<in> set grant_types_supported"
      "param ps ''grant_type'' \<in> set (cl_grant_types c)" and st: "te_settings env \<noteq> None"
      using assms Inr Auth_ok by (auto simp: tokenHandler_def Let_def split: if_splits option.splits)
    then obtain st where st: "te_settings env = Some st" by blast
    have "param ps ''grant_type'' = ''client_credentials'' \<or> param ps ''grant_type'' = ''authorization_code'' \<or>
      param ps ''grant_type'' = ''refresh_token''" using g(1) by (auto simp: grant_types_supported_def)
    then show ?thesis using assms Inr Auth_ok st g(2) \<open>\<not> te_limited env\<close>
      by (intro that(1) [OF Inr Auth_ok st g(2)])
         (auto simp: tokenHandler_def Let_def grant_types_supported_def)
  qed
qed


section \<open>The client's own token\<close>

lemma parseScope_Some:
  assumes "parseScope v = Some scopes"
  shows "distinct scopes \<and> set scopes \<subseteq> set scopes_supported"
  using assms
  by (auto simp: parseScope_def Let_def length_js_uniq list_all_iff isScope_def split: option.splits if_splits)

lemma not_user_only: "s \<in> set scopes_supported \<Longrightarrow> s \<notin> set USER_ONLY_SCOPES \<Longrightarrow> s = ''admin''"
  by (auto simp: USER_ONLY_SCOPES_def)

text \<open>Inputs for the witnesses: a confidential client that may use every grant, and its requests.\<close>

definition ex_service :: client where
  "ex_service =
     \<lparr>cl_client_id = ''web'', cl_client_name = ''Web'', cl_client_uri = None, cl_logo_uri = None,
      cl_redirect_uris = [''https://x/cb''], cl_post_logout_redirect_uris = [], cl_backchannel_logout_uri = None,
      cl_grant_types = [''authorization_code'', ''refresh_token'', ''client_credentials''],
      cl_token_endpoint_auth_method = ''client_secret_basic'', cl_client_secret_hash = Some [1], cl_jwks = None, cl_jwks_uri = None,
      cl_scopes_allowed = [''openid'', ''offline_access'', ''admin''], cl_audiences = [],
      cl_allowed_groups = Some [''staff''], cl_skip_consent = True, cl_require_par = False, cl_require_pkce = True,
      cl_offline_access = True, cl_access_token_ttl = None, cl_id_token_ttl = None, cl_refresh_token_ttl = None,
      cl_refresh_idle_ttl = None, cl_disabled_at = None, cl_created_at = 5, cl_updated_at = 5\<rparr>"

definition ex_settings :: settings where
  "ex_settings =
     \<lparr>st_login_url = Some ''https://login'', st_login_origins = Some [''https://login''],
      st_logout_landing_url = Some ''https://bye'', st_registration_mode = Invite, st_auto_create = False,
      st_link_by_verified_email = Reauth, st_passkeys_max = 20, st_attestation_policy = ''ignore'',
      st_interaction_ttl = 600, st_session_idle_ttl = 3600, st_session_absolute_ttl = 86400, st_access_ttl = 300,
      st_id_ttl = 300, st_refresh_idle_ttl = 1000, st_refresh_absolute_ttl = 5000, st_refresh_reuse_window = 86400,
      st_rotation_days = 90, st_prepublish_seconds = 86400, st_retire_after_seconds = 604800,
      st_hot_retention_days = 14, st_allow_email_change = False, st_passkey_add_max_auth_age = 900,
      st_bootstrapped_at = None, st_do_jurisdiction = None, st_webauthn_origins = [''https://login''],
      st_from_table = []\<rparr>"

definition ex_env :: "byte token_env" where
  "ex_env = \<lparr>te_issuer = ''https://op'', te_keys = ex_crypto, te_uuid = ex_uuid, te_sha256 = ex_sha256,
     te_sign = (\<lambda>typ cs. typ), te_settings = Some ex_settings, te_limited = False, te_now = 1010, te_jti = ''j'',
     te_secret = replicate 32 5, te_family_id = ''u2'', te_nonce = replicate 12 9\<rparr>"

definition ex_client_params :: params where
  "ex_client_params = [''grant_type'' \<mapsto> ''client_credentials'', ''scope'' \<mapsto> ''admin'']"

text \<open>
  A client's own token carries nothing of a user: when the client credentials grant answers with tokens, there is
  no ID token and no refresh token, no user object was touched, the granted scope is empty or
  \<^verbatim>\<open>admin\<close> alone and allowed to the client, and the access token names the client as its subject and has no
  session, authentication or group claim.
\<close>

theorem client_token_has_no_user:
  assumes "tokenHandler env (Inr ps) (Auth_ok c) objs = (Tokens r, evs, objs')"
    and "ps ''grant_type'' = Some ''client_credentials''"
  shows "objs' = objs \<and> id_token r = None \<and> refresh_token r = None \<and>
    (\<exists>scopes claims. (scopes = [] \<or> scopes = [''admin''] \<and> ''admin'' \<in> set (cl_scopes_allowed c)) \<and>
       resp_scope r = join_space scopes \<and> access_token r = te_sign env ''at+jwt'' claims \<and>
       map_of claims ''sub'' = Some (Text (cl_client_id c)) \<and>
       map_of claims ''scope'' = Some (Text (join_space scopes)) \<and>
       {''sid'', ''auth_time'', ''acr'', ''amr'', ''groups''} \<inter> fst ` set claims = {})"
proof -
  have g: "param ps ''grant_type'' = ''client_credentials''" using assms(2) by (simp add: param_def or_setting_def)
  obtain st where cc: "client_credentials_grant env st c ps objs = (Tokens r, evs, objs')"
    using assms(1) g by (auto elim: tokenHandler_Tokens)
  then obtain scopes where sc: "parseScope (ps ''scope'') = Some scopes"
    and ok: "list_all (\<lambda>s. s \<notin> set USER_ONLY_SCOPES \<and> s \<in> set (cl_scopes_allowed c)) scopes"
    and r: "access_token r = te_sign env ''at+jwt'' (accessTokenClaims (client_access_input env st c scopes))"
      "id_token r = None" "refresh_token r = None" "resp_scope r = join_space scopes" "objs' = objs"
    by (auto simp: client_credentials_grant_def split: option.splits if_splits)
  have "\<forall>s \<in> set scopes. s = ''admin'' \<and> s \<in> set (cl_scopes_allowed c)"
    using ok parseScope_Some [OF sc] not_user_only by (auto simp: list_all_iff)
  then have "scopes = [] \<or> scopes = [''admin''] \<and> ''admin'' \<in> set (cl_scopes_allowed c)"
    using parseScope_Some [OF sc] by (cases scopes; cases "tl scopes") auto
  note scope = this
  have u: "at_user (client_access_input env st c scopes) = None"
    and i: "at_client_id (client_access_input env st c scopes) = cl_client_id c"
      "at_scopes (client_access_input env st c scopes) = scopes"
    by (simp_all add: client_access_input_def)
  let ?claims = "accessTokenClaims (client_access_input env st c scopes)"
  have none: "{''sid'', ''auth_time'', ''acr'', ''amr'', ''groups''} \<inter> fst ` set ?claims = {}"
    unfolding access_token_client(3) [OF u] by simp
  show ?thesis
    by (intro conjI exI [of _ scopes] exI [of _ ?claims] scope r none access_token_client(1,2) [OF u, unfolded i])
qed

theorem client_token_has_no_user_witness:
  "\<exists>r. fst (tokenHandler ex_env (Inr ex_client_params) (Auth_ok ex_service) (\<lambda>_. fresh_user_do)) = Tokens r \<and>
       id_token r = None \<and> refresh_token r = None"
proof -
  have "case fst (tokenHandler ex_env (Inr ex_client_params) (Auth_ok ex_service) (\<lambda>_. fresh_user_do)) of
          Tokens _ \<Rightarrow> True | _ \<Rightarrow> False" by code_simp
  then obtain r evs objs' where
    h: "tokenHandler ex_env (Inr ex_client_params) (Auth_ok ex_service) (\<lambda>_. fresh_user_do) = (Tokens r, evs, objs')"
    by (cases "tokenHandler ex_env (Inr ex_client_params) (Auth_ok ex_service) (\<lambda>_. fresh_user_do)")
       (auto split: token_reply.splits)
  have "ex_client_params ''grant_type'' = Some ''client_credentials''" by (simp add: ex_client_params_def)
  from client_token_has_no_user [OF h this] h show ?thesis by simp
qed


section \<open>Requests are runs of the objects\<close>

lemma on_user_run:
  assumes "snd (call (objs uid)) = fold user_step xs (objs uid)"
  shows "snd (on_user uid call objs) = objs(uid := fold user_step xs (objs uid))"
  using assms by (cases "call (objs uid)") (simp add: on_user_def)

text \<open>The operations a request may run, with the fresh values of that request.\<close>

definition request_op :: "'key token_env \<Rightarrow> user_op \<Rightarrow> bool" where
  "request_op env x =
     (case x of
        Guard \<Rightarrow> True
      | Exchange input _ _ \<Rightarrow>
          (case xi_refresh input of
             None \<Rightarrow> True
           | Some r \<Rightarrow> ri_secret_hash r = te_sha256 env (te_secret env) \<and> ri_family_id r = te_family_id env)
      | Rotate input \<Rightarrow> rt_new_secret_hash input = te_sha256 env (te_secret env)
      | Revoke_family _ _ _ _ \<Rightarrow> True
      | _ \<Rightarrow> False)"

definition touches_one :: "'key token_env \<Rightarrow> users \<Rightarrow> users \<Rightarrow> bool" where
  "touches_one env objs objs' \<longleftrightarrow>
     (\<exists>uid xs. length xs \<le> 2 \<and> list_all (request_op env) xs \<and> objs' = objs(uid := fold user_step xs (objs uid)))"

lemma touches_none: "touches_one env objs objs"
  unfolding touches_one_def by (intro exI [of _ "[]"] exI) (simp add: fun_upd_idem)

lemma touches_on_user:
  assumes "length xs \<le> 2" and "list_all (request_op env) xs"
    and "snd (call (objs uid)) = fold user_step xs (objs uid)" and "on_user uid call objs = (r, objs')"
  shows "touches_one env objs objs'"
  unfolding touches_one_def using on_user_run [of call objs uid xs] assms by (intro exI [of _ uid] exI [of _ xs]) simp

lemma exchangeCode_run:
  "\<exists>xs. length xs \<le> 2 \<and> set xs \<subseteq> insert Guard (range (\<lambda>user. Exchange input user (exchange_challenge sha256 input))) \<and>
        snd (exchangeCode sha256 input s) = fold user_step xs s"
proof (cases "fst (guard s)")
  case (Inl e)
  then show ?thesis by (intro exI [of _ "[Guard]"]) (simp add: exchangeCode_steps)
next
  case (Inr user)
  then show ?thesis
    by (intro exI [of _ "[Guard, Exchange input user (exchange_challenge sha256 input)]"])
       (simp add: exchangeCode_steps)
qed

lemma exchange_touches:
  assumes "on_user uid (exchangeCode sha256 (exchange_request env st c h redirectUri verifier)) objs = (r, objs')"
  shows "touches_one env objs objs'"
proof -
  let ?input = "exchange_request env st c h redirectUri verifier"
  obtain xs where xs: "length xs \<le> 2"
    "set xs \<subseteq> insert Guard (range (\<lambda>user. Exchange ?input user (exchange_challenge sha256 ?input)))"
    "snd (exchangeCode sha256 ?input (objs uid)) = fold user_step xs (objs uid)"
    using exchangeCode_run by blast
  moreover have "list_all (request_op env) xs"
    using xs(2) by (auto simp: list_all_iff request_op_def exchange_request_def)
  ultimately show ?thesis using touches_on_user [OF _ _ _ assms] by blast
qed

lemma grant_touches:
  "touches_one env objs (snd (snd (client_credentials_grant env st c ps objs)))"
  "touches_one env objs (snd (snd (authorization_code_grant env st c ps objs)))"
  "touches_one env objs (snd (snd (refresh_token_grant env st c ps objs)))"
  "touches_one env objs (snd (snd (disabledClientRefresh env ps cid objs)))"
proof -
  have "touches_one env objs objs'" if "on_user uid (rotateRefreshToken (rotate_request env st c ref req)) objs = (r, objs')"
    for uid ref req r objs'
    using touches_on_user [OF _ _ _ that, of "[Rotate (rotate_request env st c ref req)]" env]
    by (simp add: request_op_def rotate_request_def)
  then show "touches_one env objs (snd (snd (refresh_token_grant env st c ps objs)))"
    using touches_none by (auto simp: refresh_token_grant_def split: option.splits prod.splits do_result.splits)
  have "touches_one env objs objs'" if "on_user uid (revokeFamilyById fid now reason (Some cid)) objs = (r, objs')"
    for uid fid now reason r objs'
    using touches_on_user [OF _ _ _ that, of "[Revoke_family fid now reason (Some cid)]" env] by (simp add: request_op_def)
  then show "touches_one env objs (snd (snd (disabledClientRefresh env ps cid objs)))"
    using touches_none by (auto simp: disabledClientRefresh_def split: option.splits prod.splits do_result.splits)
qed (use touches_none exchange_touches in
      \<open>auto simp: client_credentials_grant_def authorization_code_grant_def
        split: option.splits prod.splits do_result.splits\<close>)

lemma request_touches: "touches_one env objs (snd (snd (tokenHandler env form auth objs)))"
  by (simp add: tokenHandler_def Let_def grant_touches touches_none split: sum.splits form_auth.splits option.splits)

text \<open>
  The endpoint refines the objects: whatever the form, the authentication and the grant, a request changes at most
  one user's object, and changes it as at most two operations of the object do: the guard and an exchange, a
  rotation or the revocation of a family, carrying the fresh secret of that request.
\<close>

theorem token_request_refines_object:
  "\<exists>uid xs. length xs \<le> 2 \<and> list_all (request_op env) xs \<and>
     snd (snd (tokenHandler env form auth objs)) = objs(uid := fold user_step xs (objs uid))"
  using request_touches [of env objs form auth] unfolding touches_one_def .


section \<open>Single use, seen from the endpoint\<close>

text \<open>Token requests interleaved with any other calls to the objects.\<close>

datatype 'key endpoint_op =
    Token_request "'key token_env" "string + params" form_auth
  | Object_call string user_op

primrec endpoint_step :: "'key endpoint_op \<Rightarrow> users \<Rightarrow> users" where
  "endpoint_step (Token_request env form auth) objs = snd (snd (tokenHandler env form auth objs))"
| "endpoint_step (Object_call uid x) objs = objs(uid := user_step x (objs uid))"

definition users_wf :: "users \<Rightarrow> bool" where
  "users_wf objs \<longleftrightarrow> (\<forall>uid. user_wf (objs uid))"

lemma request_run:
  obtains xs where "list_all (request_op env) xs"
    and "snd (snd (tokenHandler env form auth objs)) uid = fold user_step xs (objs uid)"
proof -
  from request_touches [of env objs form auth] obtain uid' xs where "list_all (request_op env) xs"
    and "snd (snd (tokenHandler env form auth objs)) = objs(uid' := fold user_step xs (objs uid'))"
    unfolding touches_one_def by blast
  then show ?thesis by (cases "uid' = uid") (auto intro: that [of xs] that [of "[]"])
qed

interpretation endpoint: object_machine endpoint_step users_wf
proof unfold_locales
  fix objs and x :: "'a endpoint_op"
  assume wf: "users_wf objs"
  show "users_wf (endpoint_step x objs)"
  proof (cases x)
    case (Token_request env form auth)
    have "user_wf (snd (snd (tokenHandler env form auth objs)) uid)" for uid
      using wf user_object.inv_run [of "objs uid"] request_run [of env form auth objs uid]
      by (metis users_wf_def)
    then show ?thesis using Token_request by (simp add: users_wf_def)
  next
    case (Object_call uid y)
    then show ?thesis using wf user_step_wf by (simp add: users_wf_def)
  qed
qed


lemma request_op_issues_none: "request_op env x \<Longrightarrow> issues_none h x"
  by (cases x) (simp_all add: request_op_def issues_none_def new_codes_def)

lemma request_op_mints_none:
  assumes "request_op env x" and "te_family_id env \<noteq> fid" and "te_sha256 env (te_secret env) \<noteq> h"
  shows "mints_none fid h x"
  using assms by (cases x) (auto simp: request_op_def mints_none_def new_families_def new_tokens_def split: option.splits)

text \<open>What tokens out of the code grant say about the object, and what tokens out of the refresh grant say.\<close>

lemma code_grant_Tokens:
  assumes "authorization_code_grant env st c ps objs = (Tokens r, evs, objs')"
  obtains ref redirectUri res where
    "openCodeHandle (te_keys env) (te_uuid env) (te_sha256 env) (param ps ''code'') = Some ref"
    and "exchangeCode (te_sha256 env) (exchange_request env st c (co_secret_hash ref) redirectUri (ps ''code_verifier''))
           (objs (co_uid ref)) = (Ok res, objs' (co_uid ref))"
    and "code_reply env st c (co_uid ref) res = Tokens r"
  using assms
  by (auto simp: authorization_code_grant_def on_user_def invalidGrant_def unavailable_def intro: that
      split: option.splits if_splits prod.splits do_result.splits)

lemma refresh_grant_Tokens:
  assumes "refresh_token_grant env st c ps objs = (Tokens r, evs, objs')"
  obtains ref req res where
    "openRefreshHandle (te_keys env) (te_uuid env) (te_sha256 env) (param ps ''refresh_token'') = Some ref"
    and "rotateRefreshToken (rotate_request env st c ref req) (objs (rr_uid ref)) = (Ok res, objs' (rr_uid ref))"
    and "refresh_reply env st c ref res = Tokens r"
  using assms
  by (auto simp: refresh_token_grant_def on_user_def invalidGrant_def unavailable_def intro: that
      split: option.splits if_splits prod.splits do_result.splits)

lemma exchangeCode_wins:
  assumes "exchangeCode sha256 input s = (Ok r, s')"
  obtains user where
    "exchange_wins (xi_secret_hash input) (Exchange input user (exchange_challenge sha256 input)) (user_step Guard s)"
    and "s' = user_step (Exchange input user (exchange_challenge sha256 input)) (user_step Guard s)"
proof -
  obtain user where u: "fst (guard s) = Inr user"
    and x: "exchange_commit input user (exchange_challenge sha256 input) (snd (guard s)) = (Ok r, s')"
    using assms by (auto simp: exchangeCode_def guarded_def split: prod.splits sum.splits)
  then show ?thesis by (intro that [of user]) (simp_all add: exchange_wins_def)
qed

text \<open>A request of the code grant that presents the code of user \<open>uid\<close> with secret hash \<open>h\<close> is answered with tokens.\<close>

definition code_yields :: "string \<Rightarrow> bytes \<Rightarrow> 'key endpoint_op \<Rightarrow> users \<Rightarrow> bool" where
  "code_yields uid h x objs =
     (case x of
        Token_request env (Inr ps) (Auth_ok c) \<Rightarrow>
          param ps ''grant_type'' = ''authorization_code'' \<and>
          openCodeHandle (te_keys env) (te_uuid env) (te_sha256 env) (param ps ''code'') =
            Some \<lparr>co_uid = uid, co_secret_hash = h\<rparr> \<and>
          (case fst (tokenHandler env (Inr ps) (Auth_ok c) objs) of Tokens _ \<Rightarrow> True | _ \<Rightarrow> False)
      | _ \<Rightarrow> False)"

text \<open>No other call issues that code again.\<close>

definition reissues_none :: "string \<Rightarrow> bytes \<Rightarrow> 'key endpoint_op \<Rightarrow> bool" where
  "reissues_none uid h x = (case x of Token_request _ _ _ \<Rightarrow> True | Object_call u y \<Rightarrow> u = uid \<longrightarrow> issues_none h y)"

lemma code_yields_wins:
  assumes "code_yields uid h x objs"
  obtains y where "exchange_wins h y (user_step Guard (objs uid))"
    and "endpoint_step x objs uid = user_step y (user_step Guard (objs uid))"
proof -
  from assms obtain env ps c where x: "x = Token_request env (Inr ps) (Auth_ok c)"
    and g: "param ps ''grant_type'' = ''authorization_code''"
    and ref: "openCodeHandle (te_keys env) (te_uuid env) (te_sha256 env) (param ps ''code'') =
                Some \<lparr>co_uid = uid, co_secret_hash = h\<rparr>"
    and t: "case fst (tokenHandler env (Inr ps) (Auth_ok c) objs) of Tokens _ \<Rightarrow> True | _ \<Rightarrow> False"
    by (auto simp: code_yields_def split: endpoint_op.splits sum.splits form_auth.splits)
  then obtain r evs objs' where h: "tokenHandler env (Inr ps) (Auth_ok c) objs = (Tokens r, evs, objs')"
    by (cases "tokenHandler env (Inr ps) (Auth_ok c) objs") (auto split: token_reply.splits)
  then obtain st where "authorization_code_grant env st c ps objs = (Tokens r, evs, objs')"
    using g by (auto elim!: tokenHandler_Tokens)
  then obtain redirectUri res where
    ok: "exchangeCode (te_sha256 env) (exchange_request env st c h redirectUri (ps ''code_verifier'')) (objs uid) =
           (Ok res, objs' uid)"
    using ref by (auto elim!: code_grant_Tokens)
  show ?thesis
    by (rule exchangeCode_wins [OF ok]) (rule that, auto simp: exchange_request_def x h)
qed

interpretation code_at_endpoint:
  single_use endpoint_step users_wf "reissues_none uid h" "\<lambda>objs. code_spent h (objs uid)" "code_yields uid h"
  for uid h
proof unfold_locales
  fix objs and x :: "'a endpoint_op"
  assume wf: "users_wf objs" and ok: "reissues_none uid h x" and spent: "code_spent h (objs uid)"
  then have wfu: "user_wf (objs uid)" by (simp add: users_wf_def)
  show "code_spent h (endpoint_step x objs uid)"
  proof (cases x)
    case (Token_request env form auth)
    obtain xs where xs: "list_all (request_op env) xs"
      and run: "snd (snd (tokenHandler env form auth objs)) uid = fold user_step xs (objs uid)"
      by (rule request_run)
    have "list_all (issues_none h) xs" using xs request_op_issues_none by (auto simp: list_all_iff)
    from code_once.dead_run [OF wfu this spent] show ?thesis using Token_request run by simp
  next
    case (Object_call u y)
    then show ?thesis using code_once.dead_step [OF wfu _ spent] ok spent by (auto simp: reissues_none_def)
  qed
next
  fix objs and x :: "'a endpoint_op"
  assume wf: "users_wf objs" and win: "code_yields uid h x objs"
  then have wfu: "user_wf (user_step Guard (objs uid))" by (intro user_step_wf) (simp add: users_wf_def)
  from win show "code_spent h (endpoint_step x objs uid)"
    by (rule code_yields_wins) (use code_once.wins_spends [OF wfu] in simp)
  have "issues_none h Guard" by (simp add: issues_none_def new_codes_def)
  moreover from win have "\<not> code_spent h (user_step Guard (objs uid))"
    by (rule code_yields_wins) (rule code_once.wins_unspent [OF wfu])
  ultimately show "\<not> code_spent h (objs uid)"
    using code_once.dead_step [of "objs uid" h Guard] wf by (auto simp: users_wf_def)
qed


text \<open>
  C29. One code, one answer: over any sequence of token requests, by any clients and with any forms, interleaved with
  any other calls to the user objects, at most one request that presents the code of a user is answered with
  tokens, as long as the code is not issued again.
\<close>

theorem code_yields_tokens_at_most_once:
  assumes "list_all (reissues_none uid h) later"
  shows "run_wins endpoint_step (code_yields uid h) later (fold endpoint_step earlier (\<lambda>_. fresh_user_do)) \<le> 1"
proof -
  have "users_wf (\<lambda>_. fresh_user_do)" using user_wf_empty by (simp add: users_wf_def)
  from endpoint.inv_run [OF this] assms show ?thesis by (rule code_at_endpoint.at_most_once)
qed

text \<open>The login of the scenario by an object whose code has the hash the witnesses' digest gives every secret.\<close>

definition ex_code_handle :: string where
  "ex_code_handle = the (sealCodeHandle ex_crypto ex_uuid (replicate 12 9) ''u1'' (replicate 32 4))"

definition ex_code_params :: params where
  "ex_code_params =
     [''grant_type'' \<mapsto> ''authorization_code'', ''code'' \<mapsto> ex_code_handle, ''redirect_uri'' \<mapsto> ''https://x/cb'',
      ''code_verifier'' \<mapsto> replicate 43 (CHR ''a'')]"

definition ex_login :: "byte endpoint_op list" where
  "ex_login =
     [Object_call ''u1'' (Init ex_profile0 900 []),
      Object_call ''u1'' (Finalize (ex_finalize\<lparr>fi_code := Some (ex_code\<lparr>ci_secret_hash := [1, 2, 3]\<rparr>)\<rparr>))]"

definition ex_code_request :: "byte endpoint_op" where
  "ex_code_request = Token_request ex_env (Inr ex_code_params) (Auth_ok ex_service)"

theorem code_yields_tokens_at_most_once_witness:
  "list_all (reissues_none ''u1'' [1, 2, 3]) [ex_code_request, ex_code_request] \<and>
   run_wins endpoint_step (code_yields ''u1'' [1, 2, 3]) [ex_code_request, ex_code_request]
     (fold endpoint_step ex_login (\<lambda>_. fresh_user_do)) = 1"
proof -
  have ok: "list_all (reissues_none ''u1'' [1, 2, 3]) [ex_code_request, ex_code_request]"
    by (simp add: ex_code_request_def reissues_none_def)
  have "run_wins endpoint_step (code_yields ''u1'' [1, 2, 3]) [ex_code_request, ex_code_request]
     (fold endpoint_step ex_login (\<lambda>_. fresh_user_do)) > 0"
    by code_simp
  with code_yields_tokens_at_most_once [OF ok, of ex_login] ok show ?thesis by linarith
qed


text \<open>A request of the refresh grant that presents the token \<open>h\<close> of family \<open>fid\<close> of user \<open>uid\<close> is answered with tokens.\<close>

definition refresh_yields :: "string \<Rightarrow> string \<Rightarrow> bytes \<Rightarrow> 'key endpoint_op \<Rightarrow> users \<Rightarrow> bool" where
  "refresh_yields uid fid h x objs =
     (case x of
        Token_request env (Inr ps) (Auth_ok c) \<Rightarrow>
          param ps ''grant_type'' = ''refresh_token'' \<and>
          openRefreshHandle (te_keys env) (te_uuid env) (te_sha256 env) (param ps ''refresh_token'') =
            Some \<lparr>rr_uid = uid, rr_family_id = fid, rr_secret_hash = h\<rparr> \<and>
          (case fst (tokenHandler env (Inr ps) (Auth_ok c) objs) of Tokens _ \<Rightarrow> True | _ \<Rightarrow> False)
      | _ \<Rightarrow> False)"

text \<open>No request draws that family id or a secret with that hash, and no other call stores the token again.\<close>

definition redraws_none :: "string \<Rightarrow> string \<Rightarrow> bytes \<Rightarrow> 'key endpoint_op \<Rightarrow> bool" where
  "redraws_none uid fid h x =
     (case x of
        Token_request env _ _ \<Rightarrow> te_family_id env \<noteq> fid \<and> te_sha256 env (te_secret env) \<noteq> h
      | Object_call u y \<Rightarrow> u = uid \<longrightarrow> mints_none fid h y)"

lemma refresh_yields_wins:
  assumes "refresh_yields uid fid h x objs"
  obtains y where "rotate_wins fid h y (objs uid)" and "endpoint_step x objs uid = user_step y (objs uid)"
proof -
  from assms obtain env ps c where x: "x = Token_request env (Inr ps) (Auth_ok c)"
    and g: "param ps ''grant_type'' = ''refresh_token''"
    and ref: "openRefreshHandle (te_keys env) (te_uuid env) (te_sha256 env) (param ps ''refresh_token'') =
                Some \<lparr>rr_uid = uid, rr_family_id = fid, rr_secret_hash = h\<rparr>"
    and t: "case fst (tokenHandler env (Inr ps) (Auth_ok c) objs) of Tokens _ \<Rightarrow> True | _ \<Rightarrow> False"
    by (auto simp: refresh_yields_def split: endpoint_op.splits sum.splits form_auth.splits)
  then obtain r evs objs' where h: "tokenHandler env (Inr ps) (Auth_ok c) objs = (Tokens r, evs, objs')"
    by (cases "tokenHandler env (Inr ps) (Auth_ok c) objs") (auto split: token_reply.splits)
  then obtain st where "refresh_token_grant env st c ps objs = (Tokens r, evs, objs')"
    using g by (auto elim!: tokenHandler_Tokens)
  then obtain req res where
    "rotateRefreshToken (rotate_request env st c \<lparr>rr_uid = uid, rr_family_id = fid, rr_secret_hash = h\<rparr> req) (objs uid) =
       (Ok res, objs' uid)"
    using ref by (auto elim!: refresh_grant_Tokens)
  then show ?thesis
    by (intro that [of "Rotate (rotate_request env st c \<lparr>rr_uid = uid, rr_family_id = fid, rr_secret_hash = h\<rparr> req)"])
       (simp_all add: rotate_wins_def rotate_request_def x h)
qed

interpretation refresh_at_endpoint:
  single_use endpoint_step users_wf "redraws_none uid fid h" "\<lambda>objs. token_spent fid h (objs uid)"
    "refresh_yields uid fid h"
  for uid fid h
proof unfold_locales
  fix objs and x :: "'a endpoint_op"
  assume wf: "users_wf objs" and ok: "redraws_none uid fid h x" and spent: "token_spent fid h (objs uid)"
  then have wfu: "user_wf (objs uid)" by (simp add: users_wf_def)
  show "token_spent fid h (endpoint_step x objs uid)"
  proof (cases x)
    case (Token_request env form auth)
    obtain xs where xs: "list_all (request_op env) xs"
      and run: "snd (snd (tokenHandler env form auth objs)) uid = fold user_step xs (objs uid)"
      by (rule request_run)
    have "list_all (mints_none fid h) xs"
      using xs request_op_mints_none [of env] ok Token_request by (auto simp: list_all_iff redraws_none_def)
    from token_once.dead_run [OF wfu this spent] show ?thesis using Token_request run by simp
  next
    case (Object_call u y)
    then show ?thesis using token_once.dead_step [OF wfu _ spent] ok spent by (auto simp: redraws_none_def)
  qed
next
  fix objs and x :: "'a endpoint_op"
  assume "users_wf objs" and win: "refresh_yields uid fid h x objs"
  then have wfu: "user_wf (objs uid)" by (simp add: users_wf_def)
  from win show "\<not> token_spent fid h (objs uid)"
    by (rule refresh_yields_wins) (rule token_once.wins_unspent [OF wfu])
  from win show "token_spent fid h (endpoint_step x objs uid)"
    by (rule refresh_yields_wins) (use token_once.wins_spends [OF wfu] in simp)
qed

text \<open>
  C30. One refresh token, one answer: over any sequence of token requests interleaved with any other calls to the user
  objects, at most one request that presents a given refresh token is answered with tokens, as long as the random
  family ids and secrets do not repeat.
\<close>

theorem refresh_yields_tokens_at_most_once:
  assumes "list_all (redraws_none uid fid h) later"
  shows "run_wins endpoint_step (refresh_yields uid fid h) later (fold endpoint_step earlier (\<lambda>_. fresh_user_do)) \<le> 1"
proof -
  have "users_wf (\<lambda>_. fresh_user_do)" using user_wf_empty by (simp add: users_wf_def)
  from endpoint.inv_run [OF this] assms show ?thesis by (rule refresh_at_endpoint.at_most_once)
qed

text \<open>A digest that tells the two secrets of the requests apart, and the request that refreshes.\<close>

definition ex_first_byte :: "bytes \<Rightarrow> bytes" where
  "ex_first_byte b = (case b of [] \<Rightarrow> [] | x # _ \<Rightarrow> if x = 97 then [1, 2, 3] else [x])"

definition ex_refresh_handle :: string where
  "ex_refresh_handle = the (sealRefreshHandle ex_crypto ex_uuid (replicate 12 9) ''u1'' ''u2'' (replicate 32 5))"

definition ex_refresh_request :: "byte endpoint_op" where
  "ex_refresh_request =
     Token_request
       (ex_env\<lparr>te_sha256 := ex_first_byte, te_now := 1050, te_secret := replicate 32 6, te_family_id := ''u3''\<rparr>)
       (Inr [''grant_type'' \<mapsto> ''refresh_token'', ''refresh_token'' \<mapsto> ex_refresh_handle]) (Auth_ok ex_service)"

definition ex_session_start :: "byte endpoint_op list" where
  "ex_session_start =
     [Object_call ''u1'' (Init ex_profile0 900 []),
      Object_call ''u1'' (Finalize (ex_finalize\<lparr>fi_code := Some (ex_code\<lparr>ci_secret_hash := [4]\<rparr>)\<rparr>)),
      Token_request (ex_env\<lparr>te_sha256 := ex_first_byte\<rparr>) (Inr ex_code_params) (Auth_ok ex_service)]"

theorem refresh_yields_tokens_at_most_once_witness:
  "list_all (redraws_none ''u1'' ''u2'' [5]) [ex_refresh_request, ex_refresh_request] \<and>
   run_wins endpoint_step (refresh_yields ''u1'' ''u2'' [5]) [ex_refresh_request, ex_refresh_request]
     (fold endpoint_step ex_session_start (\<lambda>_. fresh_user_do)) = 1"
proof -
  have ok: "list_all (redraws_none ''u1'' ''u2'' [5]) [ex_refresh_request, ex_refresh_request]" by code_simp
  have "run_wins endpoint_step (refresh_yields ''u1'' ''u2'' [5]) [ex_refresh_request, ex_refresh_request]
     (fold endpoint_step ex_session_start (\<lambda>_. fresh_user_do)) > 0"
    by code_simp
  with refresh_yields_tokens_at_most_once [OF ok, of ex_session_start] ok show ?thesis by linarith
qed


section \<open>The refresh token a client receives\<close>

lemma open_refresh_sealed:
  assumes "aead_ok keys" and "uuid_ok uuid" and "length nonce = NONCE_LENGTH"
    and "sealRefreshHandle keys uuid nonce uid fid secret = Some h"
  shows "openRefreshHandle keys uuid sha256 h = Some \<lparr>rr_uid = uid, rr_family_id = fid, rr_secret_hash = sha256 secret\<rparr>"
proof -
  obtain u f where uf: "uuidToBytes uuid uid = Some u" "uuidToBytes uuid fid = Some f"
    and s: "sealHandle keys nonce Refresh_handle [(''uid'', u), (''family'', f), (''secret'', secret)] = Some h"
    using assms(4) by (auto simp: sealRefreshHandle_def split: option.splits)
  then show ?thesis
    using open_seal [OF assms(1,3) s] assms(2) by (simp add: openRefreshHandle_def field_def uuid_ok_def)
qed

definition holds_token :: "string \<Rightarrow> bytes \<Rightarrow> user_do \<Rightarrow> bool" where
  "holds_token fid h s \<longleftrightarrow> list_ex (\<lambda>t. t_family_id t = fid \<and> t_secret_hash t = h) (refresh_tokens (store s))"

lemma open_family_token:
  assumes "open_family input r code session tb = Some tb'"
  shows "list_ex (\<lambda>t. t_family_id t = ri_family_id r \<and> t_secret_hash t = ri_secret_hash r) (refresh_tokens tb')"
proof -
  obtain tb1 tb2 where "insert_token \<lparr>t_family_id = ri_family_id r, t_secret_hash = ri_secret_hash r, t_serial = 1,
                          t_created_at = xi_now input\<rparr> tb1 = Some tb2"
    and "tb' = limit_families (cr_client_id (xi_client input)) (xi_now input) tb2"
    using assms by (auto simp: open_family_def Let_def split: option.splits)
  then show ?thesis
    by (auto simp: insert_token_def insert_row_def limit_families_def Let_def split: option.splits if_splits)
qed

text \<open>The token an exchange or a rotation stores.\<close>

lemma exchange_stores_token:
  assumes "exchangeCode sha256 input s = (Ok r, s')" and "xo_family_id r = Some fid"
  obtains ri where "xi_refresh input = Some ri" and "ri_family_id ri = fid" and "holds_token fid (ri_secret_hash ri) s'"
proof -
  obtain user where "exchange_commit input user (exchange_challenge sha256 input) (migrate s) = (Ok r, s')"
    using assms(1) unfolding exchangeCode_def by (rule guarded_OkE)
  then have "\<exists>ri. xi_refresh input = Some ri \<and> ri_family_id ri = fid \<and> holds_token fid (ri_secret_hash ri) s'"
    using assms(2) open_family_token
    by (auto elim!: exchange_commit_OkE simp: holds_token_def split: option.splits)
  with that show ?thesis by blast
qed

lemma rotation_stores_token:
  assumes "rotateRefreshToken input s = (Ok r, s')"
  shows "holds_token (rt_family_id input) (rt_new_secret_hash input) s'"
  using assms
  by (rule rotate_OkE) (auto simp: holds_token_def rotatable_def dest: advance_family_after(1))

text \<open>
  C31. The refresh token a client receives is the one the object stored: whichever grant answered, the token in the
  reply opens under the server's keys to the user and the family whose object now holds a token with the digest of
  exactly that secret.
\<close>

theorem issued_refresh_token_is_stored:
  assumes "aead_ok (te_keys env)" and "uuid_ok (te_uuid env)" and "length (te_nonce env) = NONCE_LENGTH"
    and "tokenHandler env (Inr ps) (Auth_ok c) objs = (Tokens r, evs, objs')" and "refresh_token r = Some t"
  shows "\<exists>uid fid h. openRefreshHandle (te_keys env) (te_uuid env) (te_sha256 env) t =
           Some \<lparr>rr_uid = uid, rr_family_id = fid, rr_secret_hash = h\<rparr> \<and> holds_token fid h (objs' uid)"
  using assms(4)
proof (rule tokenHandler_Tokens)
  fix ps' c' st
  assume eq: "Inr ps = Inr ps'" "Auth_ok c = Auth_ok c'"
    and g: "param ps' ''grant_type'' = ''client_credentials'' \<and>
            client_credentials_grant env st c' ps' objs = (Tokens r, evs, objs') \<or>
         param ps' ''grant_type'' = ''authorization_code'' \<and>
            authorization_code_grant env st c' ps' objs = (Tokens r, evs, objs') \<or>
         param ps' ''grant_type'' = ''refresh_token'' \<and>
            refresh_token_grant env st c' ps' objs = (Tokens r, evs, objs')"
  note opened = open_refresh_sealed [OF assms(1-3)]
  have "client_credentials_grant env st c' ps' objs \<noteq> (Tokens r, evs, objs')"
    using assms(5) by (auto simp: client_credentials_grant_def split: option.splits if_splits)
  with g consider "authorization_code_grant env st c' ps' objs = (Tokens r, evs, objs')"
    | "refresh_token_grant env st c' ps' objs = (Tokens r, evs, objs')" by blast
  then show ?thesis
  proof cases
    case 1
    then obtain ref :: code_ref and redirectUri res where
      x: "exchangeCode (te_sha256 env) (exchange_request env st c' (co_secret_hash ref) redirectUri (ps' ''code_verifier''))
           (objs (co_uid ref)) = (Ok res, objs' (co_uid ref))"
      and rep: "code_reply env st c' (co_uid ref) res = Tokens r" by (rule code_grant_Tokens) blast
    obtain fid where fid: "xo_family_id res = Some fid"
      and s: "sealRefreshHandle (te_keys env) (te_uuid env) (te_nonce env) (co_uid ref) fid (te_secret env) = Some t"
      using rep assms(5) by (auto simp: code_reply_def userTokens_def Let_def split: option.splits)
    from x fid show ?thesis
      by (rule exchange_stores_token) (auto simp: exchange_request_def opened [OF s] split: if_splits)
  next
    case 2
    then obtain ref req res where
      x: "rotateRefreshToken (rotate_request env st c' ref req) (objs (rr_uid ref)) = (Ok res, objs' (rr_uid ref))"
      and rep: "refresh_reply env st c' ref res = Tokens r" by (rule refresh_grant_Tokens) blast
    have s: "sealRefreshHandle (te_keys env) (te_uuid env) (te_nonce env) (rr_uid ref) (rr_family_id ref) (te_secret env) = Some t"
      using rep assms(5) by (auto simp: refresh_reply_def split: option.splits)
    from rotation_stores_token [OF x] show ?thesis by (auto simp: rotate_request_def opened [OF s])
  qed
qed simp

theorem issued_refresh_token_is_stored_witness:
  "\<exists>r t uid fid h. fst (tokenHandler ex_env (Inr ex_code_params) (Auth_ok ex_service)
        (fold endpoint_step ex_login (\<lambda>_. fresh_user_do))) = Tokens r \<and> refresh_token r = Some t \<and>
     openRefreshHandle ex_crypto ex_uuid ex_sha256 t = Some \<lparr>rr_uid = uid, rr_family_id = fid, rr_secret_hash = h\<rparr>"
proof -
  let ?x = "tokenHandler ex_env (Inr ex_code_params) (Auth_ok ex_service) (fold endpoint_step ex_login (\<lambda>_. fresh_user_do))"
  have "case fst ?x of Tokens r \<Rightarrow> refresh_token r \<noteq> None | _ \<Rightarrow> False" by code_simp
  then obtain r t evs objs' where x: "?x = (Tokens r, evs, objs')" and t: "refresh_token r = Some t"
    by (cases ?x) (auto split: token_reply.splits)
  have env: "te_keys ex_env = ex_crypto" "te_uuid ex_env = ex_uuid" "te_sha256 ex_env = ex_sha256"
    and len: "length (te_nonce ex_env) = NONCE_LENGTH" by (simp_all add: ex_env_def NONCE_LENGTH_def)
  from issued_refresh_token_is_stored [of ex_env, unfolded env, OF ex_crypto_ok ex_uuid_ok len x t] x t
  show ?thesis by fastforce
qed

end
