(* ===== verification/Http.thy ===== *)
theory Http
  imports Token_Endpoint Interaction User_Sessions User_Credentials
begin

text \<open>
  What the browser-facing endpoints share: cookies (\<^verbatim>\<open>src/router/cookies.ts\<close>), parameters
  (\<^verbatim>\<open>src/router/form.ts\<close>), error texts (\<^verbatim>\<open>src/router/errors.ts\<close>) and the interaction
  plumbing of \<^verbatim>\<open>src/oidc/interactions.ts\<close>. A reply is its status and body with the cookies it sets; a
  redirect is kept as the URL and the parameters that \<open>withQuery\<close> appends. Audit events, logs and metrics of these
  endpoints are left out.
\<close>


section \<open>Replies\<close>

datatype http_reply =
    See_other string "(string \<times> string) list"
  | Error_json int string string
  | Created_json "(string \<times> claim) list"
  | Ok_json "(string \<times> claim) list"
  | Ok_empty
  | Too_many_requests
  | Server_error

datatype cookie_change = Set_cookie string string seconds

definition setCookie :: "string \<Rightarrow> string \<Rightarrow> seconds \<Rightarrow> cookie_change" where
  "setCookie name v maxAge = Set_cookie name v maxAge"

definition clearCookie :: "string \<Rightarrow> cookie_change" where
  "clearCookie name = setCookie name [] 0"

text \<open>\<open>encode\<close> is \<^verbatim>\<open>URLSearchParams.toString\<close> of the platform.\<close>

definition withQuery :: "((string \<times> string) list \<Rightarrow> string) \<Rightarrow> string \<Rightarrow> (string \<times> string) list \<Rightarrow> string" where
  "withQuery encode url ps = url @ (if CHR ''?'' \<in> set url then ''&'' else ''?'') @ encode ps"

definition sanitizeDescription :: "string \<Rightarrow> string" where
  "sanitizeDescription text =
     take 256 (map (\<lambda>ch. if 32 \<le> (of_char ch :: nat) \<and> (of_char ch :: nat) \<le> 126 then ch else CHR ''?'') text)"


section \<open>Cookies\<close>

definition SESSION_COOKIE :: string where "SESSION_COOKIE = ''__Host-tio_session''"
definition BINDING_COOKIE_PREFIX :: string where "BINDING_COOKIE_PREFIX = ''__Host-tio_ix_''"
definition BINDING_COOKIE_ID_LENGTH :: nat where "BINDING_COOKIE_ID_LENGTH = 16"

definition bindingCookieName :: "string \<Rightarrow> string" where
  "bindingCookieName interactionId = BINDING_COOKIE_PREFIX @ take BINDING_COOKIE_ID_LENGTH interactionId"

definition js_trim :: "string \<Rightarrow> string" where
  "js_trim text = rev (dropWhile is_space (rev (dropWhile is_space text)))"

text \<open>One pair of the header: the name before the first \<^verbatim>\<open>=\<close>, which must not be empty.\<close>

definition cookie_pair :: "string \<Rightarrow> (string \<times> string) option" where
  "cookie_pair pair =
     (let raw = takeWhile (\<lambda>ch. ch \<noteq> CHR ''='') pair in
      if length raw = length pair \<or> raw = [] then None
      else let name = js_trim raw in
           if name = [] then None else Some (name, js_trim (drop (length raw + 1) pair)))"

fun add_cookies :: "string list \<Rightarrow> (string \<times> string) list \<Rightarrow> (string \<times> string) list" where
  "add_cookies [] cookies = cookies"
| "add_cookies (pair # rest) cookies =
     (case cookie_pair pair of
        None \<Rightarrow> add_cookies rest cookies
      | Some (name, v) \<Rightarrow>
          add_cookies rest (if map_of cookies name = None then cookies @ [(name, v)] else cookies))"

definition parseCookies :: "string option \<Rightarrow> (string \<times> string) list" where
  "parseCookies header = (case header of None \<Rightarrow> [] | Some h \<Rightarrow> add_cookies (js_split (CHR '';'') h) [])"


section \<open>Parameters\<close>

text \<open>\<^verbatim>\<open>URLSearchParams\<close> of the platform yields the pairs; a name that appears twice is refused.\<close>

fun unique_from :: "(string \<times> string) list \<Rightarrow> (string \<times> string) list \<Rightarrow> string + (string \<times> string) list" where
  "unique_from [] ps = Inr ps"
| "unique_from ((name, v) # rest) ps =
     (if map_of ps name \<noteq> None then Inl ''duplicate parameter'' else unique_from rest (ps @ [(name, v)]))"

definition uniqueParams :: "(string \<times> string) list \<Rightarrow> string + (string \<times> string) list" where
  "uniqueParams source = unique_from source []"

definition FORM_CONTENT_TYPE :: string where
  "FORM_CONTENT_TYPE = ''application/x-www-form-urlencoded''"

definition readForm :: "string option \<Rightarrow> (string \<times> string) list \<Rightarrow> string + (string \<times> string) list" where
  "readForm contentType body =
     (let mediaType = map to_lower (js_trim (hd (js_split (CHR '';'') (or_setting contentType [])))) in
      if mediaType \<noteq> FORM_CONTENT_TYPE then Inl ''unsupported content type'' else uniqueParams body)"


section \<open>The objects of the deployment\<close>

record world =
  w_users :: users
  w_interactions :: "string \<Rightarrow> interaction_do"

definition userStub :: "string \<Rightarrow> (user_do \<Rightarrow> 'r \<times> user_do) \<Rightarrow> world \<Rightarrow> 'r \<times> world" where
  "userStub uid method w = (let (r, objs) = on_user uid method (w_users w) in (r, w\<lparr>w_users := objs\<rparr>))"

definition interactionStub :: "string \<Rightarrow> (interaction_do \<Rightarrow> 'r \<times> interaction_do) \<Rightarrow> world \<Rightarrow> 'r \<times> world" where
  "interactionStub iid method w =
     (let (r, s) = method (w_interactions w iid)
      in (r, w\<lparr>w_interactions := (w_interactions w)(iid := s)\<rparr>))"

text \<open>
  What a request runs against. \<open>ee_clients\<close> is the client directory: \<^term>\<open>None\<close> when it is unavailable. The
  random values are arguments: \<open>ee_code_secret\<close>, \<open>ee_session_secret\<close> and \<open>ee_binding_secret\<close>, the new interaction id
  and session id, and the nonce of each sealed handle by its type.
\<close>

record 'key endpoint_env =
  ee_issuer :: string
  ee_keys :: "'key crypto"
  ee_uuid :: uuid_codec
  ee_sha256 :: "bytes \<Rightarrow> bytes"
  ee_parse :: url_parser
  ee_settings :: "settings option"
  ee_clients :: "string \<Rightarrow> client option option"
  ee_now :: seconds
  ee_code_secret :: bytes
  ee_session_secret :: bytes
  ee_binding_secret :: bytes
  ee_interaction_id :: string
  ee_sid :: string
  ee_metadata :: session_metadata
  ee_nonce :: "handle_type \<Rightarrow> bytes"


section \<open>Interaction plumbing\<close>

definition INTERACTION_ID_PATTERN :: "string \<Rightarrow> bool" where
  "INTERACTION_ID_PATTERN v \<longleftrightarrow> length v = 43 \<and> list_all is_b64url_char v"

record binding =
  bi_cookie :: cookie_change
  bi_hash :: string

text \<open>\<^term>\<open>None\<close> where sealing throws on an id that does not decode to 32 bytes.\<close>

definition newBinding :: "'key endpoint_env \<Rightarrow> string \<Rightarrow> seconds \<Rightarrow> binding option" where
  "newBinding env iid ttl =
     map_option (\<lambda>handle. \<lparr>bi_cookie = setCookie (bindingCookieName iid) handle ttl,
                           bi_hash = encodeBase64Url (ee_sha256 env (ee_binding_secret env))\<rparr>)
       (sealBindingHandle (ee_keys env) (ee_nonce env Interaction_handle) iid (ee_binding_secret env))"

definition startInteraction ::
  "'key endpoint_env \<Rightarrow> string \<Rightarrow> create_interaction \<Rightarrow> seconds \<Rightarrow> world \<Rightarrow> (string \<times> cookie_change) option \<times> world" where
  "startInteraction env iid input ttl w =
     (case newBinding env iid ttl of
        None \<Rightarrow> (None, w)
      | Some b \<Rightarrow>
          (case interactionStub iid (create (input\<lparr>cx_id := iid, cx_binding_hash := bi_hash b\<rparr>) (ee_now env) ttl) w of
             (Ok _, w') \<Rightarrow> (Some (iid, bi_cookie b), w')
           | (_, w') \<Rightarrow> (None, w')))"

definition interactionClient :: "'key endpoint_env \<Rightarrow> interaction_document \<Rightarrow> client option" where
  "interactionClient env doc =
     (case d_client_id doc of
        None \<Rightarrow> None
      | Some cid \<Rightarrow> (case ee_clients env cid of None \<Rightarrow> None | Some found \<Rightarrow> found))"

end
