(* ===== verification/Navigation.thy ===== *)
theory Navigation
  imports Http
begin

text \<open>
  \<^verbatim>\<open>POST /par\<close> (\<^verbatim>\<open>src/oidc/par-endpoint.ts\<close>) and \<^verbatim>\<open>GET|POST /authorize\<close>
  (\<^verbatim>\<open>src/oidc/authorize-endpoint.ts\<close>): validation, the claim of a pushed request, the evaluation of the
  session cookie, and the code or the interaction that follows.
\<close>

definition REQUEST_URI_PREFIX :: string where
  "REQUEST_URI_PREFIX = ''urn:ietf:params:oauth:request_uri:''"

definition parseRequestUri :: "string \<Rightarrow> string option" where
  "parseRequestUri v =
     (if \<not> starts_with REQUEST_URI_PREFIX v then None
      else let iid = drop (length REQUEST_URI_PREFIX) v in
           if INTERACTION_ID_PATTERN iid then Some iid else None)"

fun error_code :: "authorize_error \<Rightarrow> string" where
  "error_code Invalid_request = ''invalid_request''"
| "error_code Unsupported_response_type = ''unsupported_response_type''"
| "error_code Invalid_scope_requested = ''invalid_scope''"
| "error_code Unauthorized_client = ''unauthorized_client''"
| "error_code Request_not_supported = ''request_not_supported''"


section \<open>Pushed authorization requests\<close>

definition REQUEST_URI_TTL_SECONDS :: seconds where
  "REQUEST_URI_TTL_SECONDS = 60"

definition pushed_input :: "'key endpoint_env \<Rightarrow> client \<Rightarrow> authorize_request \<Rightarrow> create_interaction" where
  "pushed_input env c request =
     \<lparr>cx_id = ee_interaction_id env, cx_kind = Kind_par, cx_status = Pushed,
      cx_binding_hash = encodeBase64Url (ee_sha256 env (ee_binding_secret env)),
      cx_client_id = Some (cl_client_id c), cx_request = Some request, cx_existing_session = None, cx_logout = None\<rparr>"

text \<open>The outcome of \<^verbatim>\<open>create\<close> is not looked at; an exception of the object reaches the router.\<close>

definition parHandler ::
  "'key endpoint_env \<Rightarrow> bool \<Rightarrow> string + (string \<times> string) list \<Rightarrow> http_reply + client \<Rightarrow> world \<Rightarrow> http_reply \<times> world" where
  "parHandler env limited form auth w =
     (if limited then (Too_many_requests, w)
      else
        (case form of
           Inl reason \<Rightarrow> (Error_json 400 ''invalid_request'' reason, w)
         | Inr ps \<Rightarrow>
             (case auth of
                Inl reply \<Rightarrow> (reply, w)
              | Inr c \<Rightarrow>
                  if map_of ps ''request_uri'' \<noteq> None
                  then (Error_json 400 ''invalid_request'' ''request_uri cannot be pushed'', w)
                  else if ''authorization_code'' \<notin> set (cl_grant_types c)
                  then (Error_json 400 ''unauthorized_client'' ''client cannot use the authorization code grant'', w)
                  else
                    (case validateAuthorizeRequest (ee_parse env) (map_of ps) c of
                       Non_redirectable description \<Rightarrow> (Error_json 400 ''invalid_request'' description, w)
                     | Redirectable _ _ err description \<Rightarrow> (Error_json 400 (error_code err) description, w)
                     | Valid request \<Rightarrow>
                         (case interactionStub (ee_interaction_id env)
                                 (create (pushed_input env c request) (ee_now env) REQUEST_URI_TTL_SECONDS) w of
                            (Threw, w') \<Rightarrow> (Server_error, w')
                          | (_, w') \<Rightarrow>
                              (Created_json [(''request_uri'', Text (REQUEST_URI_PREFIX @ ee_interaction_id env)),
                                             (''expires_in'', Number REQUEST_URI_TTL_SECONDS)], w'))))))"


section \<open>Evaluation of the session\<close>

datatype evaluation_outcome = No_session | Session_authorized | Session_login | Session_consent | Not_allowed

record evaluation =
  ev_outcome :: evaluation_outcome
  ev_existing_session :: "existing_session option"
  ev_code :: "string option"
  ev_clear :: bool

definition no_evaluation :: evaluation where
  "no_evaluation = \<lparr>ev_outcome = No_session, ev_existing_session = None, ev_code = None, ev_clear = False\<rparr>"

fun evaluated :: "authorize_outcome \<Rightarrow> evaluation_outcome" where
  "evaluated Authorized = Session_authorized"
| "evaluated Login_required = Session_login"
| "evaluated Consent_required = Session_consent"

definition session_request ::
  "'key endpoint_env \<Rightarrow> settings \<Rightarrow> client_ref \<Rightarrow> authorize_request \<Rightarrow> session_ref \<Rightarrow> authorize_input" where
  "session_request env st cref request ref =
     \<lparr>ai_sid = sr_sid ref, ai_secret_hash = sr_secret_hash ref, ai_now = ee_now env, ai_client = cref,
      ai_scope = ar_scope request, ai_prompt_login = (''login'' \<in> set (ar_prompt request)),
      ai_prompt_consent = (''consent'' \<in> set (ar_prompt request)), ai_max_age = ar_max_age request,
      ai_code = Some \<lparr>ci_secret_hash = ee_sha256 env (ee_code_secret env), ci_client_id = cr_client_id cref,
                      ci_redirect_uri = ar_redirect_uri request, ci_scope = ar_scope request,
                      ci_nonce = ar_nonce request, ci_code_challenge = ar_code_challenge request\<rparr>,
      ai_session_idle_ttl = st_session_idle_ttl st\<rparr>"

text \<open>\<^term>\<open>None\<close> where an exception reaches the router.\<close>

definition evaluateSession ::
  "'key endpoint_env \<Rightarrow> settings \<Rightarrow> client_ref \<Rightarrow> authorize_request \<Rightarrow> (string \<times> string) list \<Rightarrow> world \<Rightarrow>
   evaluation option \<times> world" where
  "evaluateSession env st cref request cookies w =
     (case map_of cookies SESSION_COOKIE of
        None \<Rightarrow> (Some no_evaluation, w)
      | Some cookie \<Rightarrow>
          (case openSessionHandle (ee_keys env) (ee_uuid env) (ee_sha256 env) cookie of
             None \<Rightarrow> (Some (no_evaluation\<lparr>ev_clear := True\<rparr>), w)
           | Some ref \<Rightarrow>
               (case userStub (sr_uid ref) (authorizeWithSession (session_request env st cref request ref)) w of
                  (Threw, w') \<Rightarrow> (None, w')
                | (Fail e, w') \<Rightarrow>
                    (Some (if e = User_not_allowed then no_evaluation\<lparr>ev_outcome := Not_allowed\<rparr>
                           else no_evaluation\<lparr>ev_clear := True\<rparr>), w')
                | (Ok result, w') \<Rightarrow>
                    let eva = \<lparr>ev_outcome = evaluated (ao_outcome result),
                               ev_existing_session = Some \<lparr>x_uid = sr_uid ref, x_sid = ss_sid (ao_session result),
                                                           x_auth_time = ss_auth_time (ao_session result)\<rparr>,
                               ev_code = None, ev_clear = False\<rparr>
                    in if ao_outcome result \<noteq> Authorized then (Some eva, w')
                       else
                         (case sealCodeHandle (ee_keys env) (ee_uuid env) (ee_nonce env Code_handle) (sr_uid ref)
                                 (ee_code_secret env) of
                            None \<Rightarrow> (None, w')
                          | Some code \<Rightarrow> (Some (eva\<lparr>ev_code := Some code\<rparr>), w')))))"


section \<open>The request of \<^verbatim>\<open>/authorize\<close>\<close>

definition redirectError :: "string \<Rightarrow> string \<Rightarrow> string \<Rightarrow> string \<Rightarrow> string option \<Rightarrow> http_reply" where
  "redirectError issuer redirectUri err description state =
     See_other redirectUri
       ([(''error'', err), (''error_description'', sanitizeDescription description)] @
        (case state of None \<Rightarrow> [] | Some s \<Rightarrow> [(''state'', s)]) @ [(''iss'', issuer)])"

definition toLoginApp :: "string \<Rightarrow> string \<Rightarrow> string \<Rightarrow> http_reply" where
  "toLoginApp loginUrl err description =
     See_other loginUrl [(''error'', err), (''error_description'', sanitizeDescription description)]"

record pushed_claim =
  pu_id :: string
  pu_cookie :: cookie_change

definition request_uri_refusal :: "string \<Rightarrow> string \<Rightarrow> http_reply" where
  "request_uri_refusal loginUrl requestUri =
     (if starts_with REQUEST_URI_PREFIX requestUri
      then toLoginApp loginUrl ''invalid_request'' ''request_uri is malformed''
      else toLoginApp loginUrl ''request_uri_not_supported''
             ''request_uri values other than pushed authorization requests are not supported'')"

text \<open>
  Steps 3 to 12: the request, pushed or in the parameters, or the reply that refuses it. A claimed document without a
  request, which no caller creates, would make the code fail on its first use.
\<close>

definition claim_pushed_request ::
  "'key endpoint_env \<Rightarrow> settings \<Rightarrow> string \<Rightarrow> client \<Rightarrow> string \<Rightarrow> world \<Rightarrow>
   (http_reply + authorize_request \<times> pushed_claim option) \<times> world" where
  "claim_pushed_request env st loginUrl c requestUri w =
     (case parseRequestUri requestUri of
        None \<Rightarrow> (Inl (request_uri_refusal loginUrl requestUri), w)
      | Some iid \<Rightarrow>
          (case newBinding env iid (st_interaction_ttl st) of
             None \<Rightarrow> (Inl Server_error, w)
           | Some b \<Rightarrow>
               (case interactionStub iid
                       (claimPushed (cl_client_id c) (bi_hash b) (ee_now env) (st_interaction_ttl st)) w of
                  (Ok doc, w') \<Rightarrow>
                    (case d_request doc of
                       None \<Rightarrow> (Inl Server_error, w')
                     | Some request \<Rightarrow> (Inr (request, Some \<lparr>pu_id = iid, pu_cookie = bi_cookie b\<rparr>), w'))
                | (Fail _, w') \<Rightarrow>
                    (Inl (toLoginApp loginUrl ''invalid_request''
                            ''request_uri is unknown, expired or already used''), w')
                | (Threw, w') \<Rightarrow> (Inl Server_error, w'))))"

definition resolve_request ::
  "'key endpoint_env \<Rightarrow> settings \<Rightarrow> string \<Rightarrow> client \<Rightarrow> (string \<times> string) list \<Rightarrow> world \<Rightarrow>
   (http_reply + authorize_request \<times> pushed_claim option) \<times> world" where
  "resolve_request env st loginUrl c ps w =
     (case map_of ps ''request_uri'' of
        Some requestUri \<Rightarrow>
          if list_ex (\<lambda>k. k \<noteq> ''client_id'' \<and> k \<noteq> ''request_uri'') (map fst ps)
          then (Inl (toLoginApp loginUrl ''invalid_request'' ''request_uri allows no other parameter than client_id''), w)
          else claim_pushed_request env st loginUrl c requestUri w
      | None \<Rightarrow>
          if cl_require_par c
          then (Inl (toLoginApp loginUrl ''invalid_request'' ''this client must use pushed authorization requests''), w)
          else
            (case validateAuthorizeRequest (ee_parse env) (map_of ps) c of
               Non_redirectable description \<Rightarrow> (Inl (toLoginApp loginUrl ''invalid_request'' description), w)
             | Redirectable uri state err description \<Rightarrow>
                 (Inl (redirectError (ee_issuer env) uri (error_code err) description state), w)
             | Valid request \<Rightarrow> (Inr (request, None), w)))"


section \<open>The outcome of \<^verbatim>\<open>/authorize\<close>\<close>

definition fail_request ::
  "'key endpoint_env \<Rightarrow> authorize_request \<Rightarrow> pushed_claim option \<Rightarrow> string \<Rightarrow> string \<Rightarrow> world \<Rightarrow> http_reply \<times> world" where
  "fail_request env request pushed err description w =
     (let reply = redirectError (ee_issuer env) (ar_redirect_uri request) err description (Some (ar_state request)) in
      (case pushed of
         None \<Rightarrow> (reply, w)
       | Some p \<Rightarrow>
           (case interactionStub (pu_id p)
                   (apply_op Fail_op Failed
                     (no_patch\<lparr>tp_error := Some (Some \<lparr>ie_error = err, ie_error_description = description\<rparr>)\<rparr>)
                     (ee_now env)) w of
              (Threw, w') \<Rightarrow> (Server_error, w')
            | (_, w') \<Rightarrow> (reply, w'))))"

definition code_redirect ::
  "'key endpoint_env \<Rightarrow> authorize_request \<Rightarrow> pushed_claim option \<Rightarrow> string \<Rightarrow> world \<Rightarrow> http_reply \<times> world" where
  "code_redirect env request pushed code w =
     (let reply = See_other (ar_redirect_uri request)
                    [(''code'', code), (''state'', ar_state request), (''iss'', ee_issuer env)] in
      (case pushed of
         None \<Rightarrow> (reply, w)
       | Some p \<Rightarrow>
           (case interactionStub (pu_id p) (apply_op Consume_par Completed no_patch (ee_now env)) w of
              (Threw, w') \<Rightarrow> (Server_error, w')
            | (_, w') \<Rightarrow> (reply, w'))))"

definition interaction_input ::
  "interaction_status \<Rightarrow> client \<Rightarrow> authorize_request \<Rightarrow> existing_session option \<Rightarrow> create_interaction" where
  "interaction_input status c request existing =
     \<lparr>cx_id = [], cx_kind = Kind_authorize, cx_status = status, cx_binding_hash = [],
      cx_client_id = Some (cl_client_id c), cx_request = Some request, cx_existing_session = existing, cx_logout = None\<rparr>"

definition begin_interaction ::
  "'key endpoint_env \<Rightarrow> settings \<Rightarrow> string \<Rightarrow> client \<Rightarrow> authorize_request \<Rightarrow> pushed_claim option \<Rightarrow> interaction_status \<Rightarrow>
   existing_session option \<Rightarrow> world \<Rightarrow> http_reply \<times> cookie_change list \<times> world" where
  "begin_interaction env st loginUrl c request pushed status existing w =
     (case pushed of
        Some p \<Rightarrow>
          (case interactionStub (pu_id p)
                  (apply_op Consume_par status (no_patch\<lparr>tp_existing_session := Some existing\<rparr>) (ee_now env)) w of
             (Threw, w') \<Rightarrow> (Server_error, [], w')
           | (_, w') \<Rightarrow> (See_other loginUrl [(''interaction'', pu_id p)], [pu_cookie p], w'))
      | None \<Rightarrow>
          (case startInteraction env (ee_interaction_id env) (interaction_input status c request existing)
                  (st_interaction_ttl st) w of
             (None, w') \<Rightarrow> (Server_error, [], w')
           | (Some (iid, cookie), w') \<Rightarrow> (See_other loginUrl [(''interaction'', iid)], [cookie], w')))"

definition status_text :: "interaction_status \<Rightarrow> string" where
  "status_text status = (if status = Consent_needed then ''consent_required'' else ''login_required'')"

definition status_words :: "interaction_status \<Rightarrow> string" where
  "status_words status = (if status = Consent_needed then ''consent required'' else ''login required'')"

definition conclude ::
  "'key endpoint_env \<Rightarrow> settings \<Rightarrow> string \<Rightarrow> client \<Rightarrow> authorize_request \<Rightarrow> pushed_claim option \<Rightarrow> evaluation \<Rightarrow> world \<Rightarrow>
   http_reply \<times> cookie_change list \<times> world" where
  "conclude env st loginUrl c request pushed eva w =
     (let cleared = (if ev_clear eva then [clearCookie SESSION_COOKIE] else []);
          status = (if ev_outcome eva = Session_consent then Consent_needed else Login_needed)
      in if ev_outcome eva = Session_authorized then
           let (reply, w') = code_redirect env request pushed (or_setting (ev_code eva) []) w in (reply, cleared, w')
         else if ev_outcome eva = Not_allowed then
           let (reply, w') = fail_request env request pushed ''access_denied'' ''user_not_allowed'' w in (reply, cleared, w')
         else if ''none'' \<in> set (ar_prompt request) then
           let (reply, w') = fail_request env request pushed (status_text status)
                               (''prompt=none and '' @ status_words status) w in (reply, cleared, w')
         else
           let (reply, cookies, w') =
             begin_interaction env st loginUrl c request pushed status (ev_existing_session eva) w
           in (reply, cleared @ cookies, w'))"

definition authorizeHandler ::
  "'key endpoint_env \<Rightarrow> string + (string \<times> string) list \<Rightarrow> string option \<Rightarrow> world \<Rightarrow>
   http_reply \<times> cookie_change list \<times> world" where
  "authorizeHandler env parsed cookieHeader w =
     (case ee_settings env of
        None \<Rightarrow> (Error_json 503 ''temporarily_unavailable'' ''settings unavailable'', [], w)
      | Some st \<Rightarrow>
          (case (st_login_url st, st_login_origins st) of
             (Some loginUrl, Some _) \<Rightarrow>
               (case parsed of
                  Inl reason \<Rightarrow> (toLoginApp loginUrl ''invalid_request'' reason, [], w)
                | Inr ps \<Rightarrow>
                    (case map_of ps ''client_id'' of
                       None \<Rightarrow> (toLoginApp loginUrl ''invalid_request'' ''client_id is required'', [], w)
                     | Some clientId \<Rightarrow>
                         (case ee_clients env clientId of
                            None \<Rightarrow>
                              (toLoginApp loginUrl ''temporarily_unavailable'' ''client directory unavailable'', [], w)
                          | Some None \<Rightarrow> (toLoginApp loginUrl ''invalid_request'' ''unknown client'', [], w)
                          | Some (Some c) \<Rightarrow>
                              if cl_disabled_at c \<noteq> None
                              then (toLoginApp loginUrl ''invalid_request'' ''unknown client'', [], w)
                              else if ''authorization_code'' \<notin> set (cl_grant_types c)
                              then (toLoginApp loginUrl ''unauthorized_client''
                                      ''client cannot use the authorization code grant'', [], w)
                              else
                                (case resolve_request env st loginUrl c ps w of
                                   (Inl reply, w') \<Rightarrow> (reply, [], w')
                                 | (Inr (request, pushed), w') \<Rightarrow>
                                     (case evaluateSession env st (clientRef c) request (parseCookies cookieHeader) w' of
                                        (None, w'') \<Rightarrow> (Server_error, [], w'')
                                      | (Some eva, w'') \<Rightarrow> conclude env st loginUrl c request pushed eva w'')))))
           | _ \<Rightarrow> (Error_json 503 ''not_configured'' ''login_url and login_origins are not set'', [], w)))"

end
