(* ===== verification/Completion.thy ===== *)
theory Completion
  imports Http
begin

text \<open>
  \<^verbatim>\<open>GET /interactions/{id}/complete\<close> (\<^verbatim>\<open>src/interaction/complete.ts\<close>), with the end of a session and
  the post-logout destination of \<^verbatim>\<open>src/logout/rp-logout.ts\<close>. The handler reads the document, then claims
  it; since other requests may reach the interaction in between, the two halves are separate definitions, and the
  second one works on the document the first one read, as the code does. The notification of clients after a session
  ended is left out.
\<close>


section \<open>Ending a session\<close>

text \<open>
  A destination without parameters is the URL as it is. \<^verbatim>\<open>settings.logout_landing_url as string\<close> renders an
  absent landing URL as \<^verbatim>\<open>null\<close>; the settings have one whenever they have a login URL.
\<close>

definition postLogoutDestination :: "settings \<Rightarrow> string option \<Rightarrow> string option \<Rightarrow> http_reply" where
  "postLogoutDestination st registered state =
     (case registered of
        None \<Rightarrow> See_other (or_setting (st_logout_landing_url st) ''null'') []
      | Some uri \<Rightarrow> See_other uri (case state of None \<Rightarrow> [] | Some s \<Rightarrow> [(''state'', s)]))"

text \<open>The session that ended, if one did; \<^term>\<open>Threw\<close> where the object's exception reaches the router.\<close>

definition endSession ::
  "'key endpoint_env \<Rightarrow> string \<Rightarrow> string \<Rightarrow> string \<Rightarrow> world \<Rightarrow> (revoked_session option, unit) do_result \<times> world" where
  "endSession env uid sid reason w =
     (case userStub uid (revokeSession sid (ee_now env) reason) w of
        (Ok revoked, w') \<Rightarrow> (Ok revoked, w')
      | (Fail _, w') \<Rightarrow> (Ok None, w')
      | (Threw, w') \<Rightarrow> (Threw, w'))"


section \<open>Reading the interaction\<close>

definition to_login :: "string \<Rightarrow> string \<Rightarrow> http_reply" where
  "to_login loginUrl err = See_other loginUrl [(''error'', err)]"

text \<open>The checks before the claim: the id, the binding cookie, the document and its status.\<close>

definition complete_read ::
  "'key endpoint_env \<Rightarrow> string \<Rightarrow> string \<Rightarrow> (string \<times> string) list \<Rightarrow> world \<Rightarrow> http_reply + interaction_document" where
  "complete_read env loginUrl iid cookies w =
     (if \<not> INTERACTION_ID_PATTERN iid then Inl (to_login loginUrl ''interaction_not_found'')
      else
        (case (case map_of cookies (bindingCookieName iid) of
                 None \<Rightarrow> None
               | Some cookie \<Rightarrow> openBindingHandle (ee_keys env) (ee_sha256 env) cookie) of
           None \<Rightarrow> Inl (to_login loginUrl ''interaction_binding_failed'')
         | Some bound \<Rightarrow>
             if br_interaction_id bound \<noteq> iid then Inl (to_login loginUrl ''interaction_binding_failed'')
             else
               (case get (ee_now env) (w_interactions w iid) of
                  Ok doc \<Rightarrow>
                    if d_status doc = Pushed then Inl (to_login loginUrl ''interaction_not_found'')
                    else if \<not> hashesEqual (d_binding_hash doc) (encodeBase64Url (br_secret_hash bound))
                    then Inl (to_login loginUrl ''interaction_binding_failed'')
                    else if d_status doc = Completed then Inl (to_login loginUrl ''interaction_already_completed'')
                    else if d_status doc \<noteq> Ready \<and> d_status doc \<noteq> Failed
                    then Inl (See_other loginUrl [(''interaction'', iid)])
                    else Inr doc
                | _ \<Rightarrow> Inl (to_login loginUrl ''interaction_not_found''))))"


section \<open>Finishing\<close>

type_synonym navigation = "http_reply \<times> cookie_change list \<times> world"

definition finish ::
  "'key endpoint_env \<Rightarrow> string \<Rightarrow> authorize_request \<Rightarrow> (string \<times> string) list \<Rightarrow> cookie_change list \<Rightarrow> world \<Rightarrow>
   navigation" where
  "finish env iid request ps sessionCookie w =
     (case interactionStub iid (apply_op Complete Completed no_patch (ee_now env)) w of
        (Threw, w') \<Rightarrow> (Server_error, [], w')
      | (_, w') \<Rightarrow>
          (See_other (ar_redirect_uri request) (ps @ [(''state'', ar_state request), (''iss'', ee_issuer env)]),
           clearCookie (bindingCookieName iid) # sessionCookie, w'))"

definition fail_with ::
  "'key endpoint_env \<Rightarrow> string \<Rightarrow> authorize_request \<Rightarrow> string \<Rightarrow> string \<Rightarrow> world \<Rightarrow> navigation" where
  "fail_with env iid request err description w =
     finish env iid request [(''error'', err), (''error_description'', sanitizeDescription description)] [] w"

definition accessDeniedDescription :: "user_do_error \<Rightarrow> string" where
  "accessDeniedDescription err = (if err = User_not_allowed then ''user_not_allowed'' else ''the user cannot sign in'')"

text \<open>The code of the user, with the cookie of the session it was issued on where that is new.\<close>

definition finish_with_code ::
  "'key endpoint_env \<Rightarrow> string \<Rightarrow> authorize_request \<Rightarrow> string \<Rightarrow> cookie_change list \<Rightarrow> world \<Rightarrow> navigation" where
  "finish_with_code env iid request uid cookie w =
     (case sealCodeHandle (ee_keys env) (ee_uuid env) (ee_nonce env Code_handle) uid (ee_code_secret env) of
        None \<Rightarrow> (Server_error, [], w)
      | Some code \<Rightarrow> finish env iid request [(''code'', code)] cookie w)"

definition completion_code ::
  "'key endpoint_env \<Rightarrow> client \<Rightarrow> authorize_request \<Rightarrow> interaction_document \<Rightarrow> code_input" where
  "completion_code env c request doc =
     \<lparr>ci_secret_hash = ee_sha256 env (ee_code_secret env), ci_client_id = cl_client_id c,
      ci_redirect_uri = ar_redirect_uri request, ci_scope = or_setting (d_consent doc) (ar_scope request),
      ci_nonce = ar_nonce request, ci_code_challenge = ar_code_challenge request\<rparr>"


section \<open>The three ways to a code\<close>

text \<open>Consent on the session the interaction started from.\<close>

definition presented_secret ::
  "'key endpoint_env \<Rightarrow> (string \<times> string) list \<Rightarrow> string \<Rightarrow> bytes" where
  "presented_secret env cookies sid =
     (case map_of cookies SESSION_COOKIE of
        None \<Rightarrow> replicate 32 0
      | Some cookie \<Rightarrow>
          (case openSessionHandle (ee_keys env) (ee_uuid env) (ee_sha256 env) cookie of
             None \<Rightarrow> replicate 32 0
           | Some opened \<Rightarrow> if sr_sid opened = sid then sr_secret_hash opened else replicate 32 0))"

definition complete_on_session ::
  "'key endpoint_env \<Rightarrow> settings \<Rightarrow> string \<Rightarrow> string \<Rightarrow> (string \<times> string) list \<Rightarrow> authorize_request \<Rightarrow> client \<Rightarrow>
   interaction_document \<Rightarrow> existing_session \<Rightarrow> string \<Rightarrow> world \<Rightarrow> navigation" where
  "complete_on_session env st loginUrl iid cookies request c doc session uid w =
     (let code = completion_code env c request doc;
          restart = (\<lambda>w1.
            (case interactionStub iid
                    (apply_op Restart Login_needed
                      (no_patch\<lparr>tp_existing_session := Some None, tp_consent := Some None, tp_completing := Some False\<rparr>)
                      (ee_now env)) w1 of
               (Threw, w2) \<Rightarrow> (Server_error, [], w2)
             | (_, w2) \<Rightarrow> (See_other loginUrl [(''interaction'', iid)], [clearCookie SESSION_COOKIE], w2)))
      in (case userStub uid
                 (authorizeWithSession
                   \<lparr>ai_sid = x_sid session, ai_secret_hash = presented_secret env cookies (x_sid session),
                    ai_now = ee_now env, ai_client = clientRef c, ai_scope = ci_scope code, ai_prompt_login = False,
                    ai_prompt_consent = False, ai_max_age = None, ai_code = Some code,
                    ai_session_idle_ttl = st_session_idle_ttl st\<rparr>) w of
            (Threw, w1) \<Rightarrow> (Server_error, [], w1)
          | (Fail _, w1) \<Rightarrow> restart w1
          | (Ok r, w1) \<Rightarrow>
              if ao_outcome r \<noteq> Authorized then restart w1 else finish_with_code env iid request uid [] w1))"

definition completion_auth :: "interaction_auth \<Rightarrow> auth_context" where
  "completion_auth a =
     \<lparr>a_auth_time = ia_auth_time a, a_amr = ia_amr a, a_acr = ia_acr a, a_upstream = ia_upstream a\<rparr>"

definition completion_login ::
  "'key endpoint_env \<Rightarrow> settings \<Rightarrow> client \<Rightarrow> code_input \<Rightarrow> session_change \<Rightarrow> finalize_input" where
  "completion_login env st c code change =
     \<lparr>fi_now = ee_now env, fi_session = change, fi_code = Some code, fi_client = Some (clientRef c),
      fi_session_idle_ttl = st_session_idle_ttl st\<rparr>"

definition session_cookie :: "'key endpoint_env \<Rightarrow> settings \<Rightarrow> string \<Rightarrow> string \<Rightarrow> cookie_change option" where
  "session_cookie env st uid sid =
     map_option (\<lambda>handle. setCookie SESSION_COOKIE handle (st_session_absolute_ttl st))
       (sealSessionHandle (ee_keys env) (ee_uuid env) (ee_nonce env Session_handle) uid sid (ee_session_secret env))"

definition finish_login ::
  "'key endpoint_env \<Rightarrow> settings \<Rightarrow> string \<Rightarrow> authorize_request \<Rightarrow> string \<Rightarrow> string \<Rightarrow> world \<Rightarrow> navigation" where
  "finish_login env st iid request uid sid w =
     (case session_cookie env st uid sid of
        None \<Rightarrow> (Server_error, [], w)
      | Some cookie \<Rightarrow> finish_with_code env iid request uid [cookie] w)"

text \<open>A new session, after another user's session that the browser held was ended.\<close>

definition complete_new_session ::
  "'key endpoint_env \<Rightarrow> settings \<Rightarrow> string \<Rightarrow> authorize_request \<Rightarrow> client \<Rightarrow> interaction_document \<Rightarrow> interaction_auth \<Rightarrow>
   string \<Rightarrow> world \<Rightarrow> navigation" where
  "complete_new_session env st iid request c doc auth uid w =
     (case (case d_existing_session doc of
              None \<Rightarrow> (Ok None, w)
            | Some existing \<Rightarrow>
                if x_uid existing \<noteq> uid then endSession env (x_uid existing) (x_sid existing) ''reauth'' w
                else (Ok None, w)) of
        (Ok _, w1) \<Rightarrow>
          (case userStub uid
                  (finalizeLogin (completion_login env st c (completion_code env c request doc)
                    (Create_session \<lparr>ns_sid = ee_sid env, ns_secret_hash = ee_sha256 env (ee_session_secret env),
                       ns_auth = completion_auth auth, ns_metadata = ee_metadata env,
                       ns_idle_ttl = st_session_idle_ttl st, ns_absolute_ttl = st_session_absolute_ttl st\<rparr>))) w1 of
             (Ok _, w2) \<Rightarrow> finish_login env st iid request uid (ee_sid env) w2
           | (Fail e, w2) \<Rightarrow> fail_with env iid request ''access_denied'' (accessDeniedDescription e) w2
           | (Threw, w2) \<Rightarrow> (Server_error, [], w2))
      | (_, w1) \<Rightarrow> (Server_error, [], w1))"

text \<open>The same user again: the session gets a new secret; one that vanished is replaced.\<close>

definition complete_login ::
  "'key endpoint_env \<Rightarrow> settings \<Rightarrow> string \<Rightarrow> authorize_request \<Rightarrow> client \<Rightarrow> interaction_document \<Rightarrow> interaction_auth \<Rightarrow>
   string \<Rightarrow> world \<Rightarrow> navigation" where
  "complete_login env st iid request c doc auth uid w =
     (case d_existing_session doc of
        Some existing \<Rightarrow>
          if ia_new_session auth then complete_new_session env st iid request c doc auth uid w
          else
            (case userStub uid
                    (finalizeLogin (completion_login env st c (completion_code env c request doc)
                      (Rotate_session (x_sid existing) (ee_sha256 env (ee_session_secret env)) (completion_auth auth)))) w of
               (Ok _, w1) \<Rightarrow> finish_login env st iid request uid (x_sid existing) w1
             | (Fail e, w1) \<Rightarrow>
                 if e \<noteq> Session_invalid
                 then fail_with env iid request ''access_denied'' (accessDeniedDescription e) w1
                 else complete_new_session env st iid request c doc auth uid w1
             | (Threw, w1) \<Rightarrow> (Server_error, [], w1))
      | None \<Rightarrow> complete_new_session env st iid request c doc auth uid w)"


section \<open>After the claim\<close>

definition complete_logout ::
  "'key endpoint_env \<Rightarrow> settings \<Rightarrow> string \<Rightarrow> (string \<times> string) list \<Rightarrow> interaction_document \<Rightarrow> logout_request \<Rightarrow> world \<Rightarrow>
   navigation" where
  "complete_logout env st iid cookies doc logout w =
     (let presented = (case map_of cookies SESSION_COOKIE of
                         None \<Rightarrow> None
                       | Some cookie \<Rightarrow> openSessionHandle (ee_keys env) (ee_uuid env) (ee_sha256 env) cookie);
          same = (case presented of
                    None \<Rightarrow> False
                  | Some ref \<Rightarrow> lr_sid logout = Some (sr_sid ref) \<and> lr_uid logout = Some (sr_uid ref));
          ends = (d_status doc = Ready \<and> lr_decision logout = Some Confirm \<and> same)
      in (case (if ends then endSession env (or_setting (lr_uid logout) []) (or_setting (lr_sid logout) []) ''logout'' w
                else (Ok None, w)) of
            (Ok _, w1) \<Rightarrow>
              (case interactionStub iid (apply_op Complete Completed no_patch (ee_now env)) w1 of
                 (Threw, w2) \<Rightarrow> (Server_error, [], w2)
               | (_, w2) \<Rightarrow>
                   (postLogoutDestination st (lr_post_logout_redirect_uri logout) (lr_state logout),
                    (if ends then [clearCookie SESSION_COOKIE] else []) @ [clearCookie (bindingCookieName iid)], w2))
          | (_, w1) \<Rightarrow> (Server_error, [], w1)))"

definition completion_uid :: "interaction_document \<Rightarrow> string option" where
  "completion_uid doc =
     (case d_auth doc of Some a \<Rightarrow> Some (ia_uid a) | None \<Rightarrow> map_option x_uid (d_existing_session doc))"

definition complete_request ::
  "'key endpoint_env \<Rightarrow> settings \<Rightarrow> string \<Rightarrow> string \<Rightarrow> (string \<times> string) list \<Rightarrow> interaction_document \<Rightarrow> authorize_request \<Rightarrow>
   world \<Rightarrow> navigation" where
  "complete_request env st loginUrl iid cookies doc request w =
     (if d_status doc = Failed then
        let e = or_setting (d_error doc)
                  \<lparr>ie_error = ''server_error'', ie_error_description = ''interaction failed''\<rparr>
        in fail_with env iid request (ie_error e) (ie_error_description e) w
      else
        (case interactionClient env doc of
           None \<Rightarrow> fail_with env iid request ''server_error'' ''client unavailable'' w
         | Some c \<Rightarrow>
             (case completion_uid doc of
                None \<Rightarrow> fail_with env iid request ''server_error'' ''no user'' w
              | Some uid \<Rightarrow>
                  (case d_auth doc of
                     Some auth \<Rightarrow> complete_login env st iid request c doc auth uid w
                   | None \<Rightarrow>
                       (case d_existing_session doc of
                          Some session \<Rightarrow>
                            complete_on_session env st loginUrl iid cookies request c doc session uid w
                        | None \<Rightarrow> (Server_error, [], w))))))"

text \<open>The claim and what follows, on the document that was read before.\<close>

definition complete_claim ::
  "'key endpoint_env \<Rightarrow> settings \<Rightarrow> string \<Rightarrow> string \<Rightarrow> (string \<times> string) list \<Rightarrow> interaction_document \<Rightarrow> world \<Rightarrow>
   navigation" where
  "complete_claim env st loginUrl iid cookies doc w =
     (case interactionStub iid (claimCompletion (ee_now env)) w of
        (Ok _, w1) \<Rightarrow>
          if d_kind doc = Kind_logout then
            (case d_logout doc of
               None \<Rightarrow> (Server_error, [], w1)
             | Some logout \<Rightarrow> complete_logout env st iid cookies doc logout w1)
          else
            (case d_request doc of
               None \<Rightarrow> (Server_error, [], w1)
             | Some request \<Rightarrow> complete_request env st loginUrl iid cookies doc request w1)
      | (Fail _, w1) \<Rightarrow> (to_login loginUrl ''interaction_already_completed'', [], w1)
      | (Threw, w1) \<Rightarrow> (Server_error, [], w1))"

definition completeHandler ::
  "'key endpoint_env \<Rightarrow> string \<Rightarrow> string option \<Rightarrow> world \<Rightarrow> navigation" where
  "completeHandler env iid cookieHeader w =
     (case ee_settings env of
        None \<Rightarrow> (Error_json 503 ''temporarily_unavailable'' ''settings unavailable'', [], w)
      | Some st \<Rightarrow>
          (case st_login_url st of
             None \<Rightarrow> (Error_json 503 ''not_configured'' ''login_url and login_origins are not set'', [], w)
           | Some loginUrl \<Rightarrow>
               let cookies = parseCookies cookieHeader in
               (case complete_read env loginUrl iid cookies w of
                  Inl reply \<Rightarrow> (reply, [], w)
                | Inr doc \<Rightarrow> complete_claim env st loginUrl iid cookies doc w)))"

end
