(* ===== verification/Interaction_Api.thy ===== *)
theory Interaction_Api
  imports Completion
begin

text \<open>
  The part of the Interaction API that moves an interaction without a credential ceremony: the guard, abort and consent
  of \<^verbatim>\<open>src/interaction/api.ts\<close>, and \<^verbatim>\<open>GET|POST /logout\<close> of \<^verbatim>\<open>src/logout/rp-logout.ts\<close>.
\<close>

datatype http_method = GET | POST


section \<open>The guard\<close>

definition ATTEMPT_LIMIT :: int where "ATTEMPT_LIMIT = 10"

definition interactionUid :: "interaction_document \<Rightarrow> string option" where
  "interactionUid doc =
     (case d_auth doc of Some a \<Rightarrow> Some (ia_uid a) | None \<Rightarrow> map_option x_uid (d_existing_session doc))"

definition redirectTo :: "'key endpoint_env \<Rightarrow> string \<Rightarrow> string" where
  "redirectTo env iid = ee_issuer env @ ''/interactions/'' @ iid @ ''/complete''"

text \<open>What the request carries: the method, the origin, the fetch metadata and the cookies.\<close>

record api_request =
  rq_method :: http_method
  rq_origin :: "string option"
  rq_sec_fetch_site :: "string option"
  rq_cookies :: "string option"
  rq_limited :: bool

definition origin_allowed :: "settings \<Rightarrow> api_request \<Rightarrow> bool" where
  "origin_allowed st rq =
     (case rq_origin rq of
        Some origin \<Rightarrow> (case st_login_origins st of None \<Rightarrow> False | Some origins \<Rightarrow> origin \<in> set origins)
      | None \<Rightarrow> rq_method rq = GET \<and> or_setting (rq_sec_fetch_site rq) [] \<in> set [''same-origin'', ''same-site''])"

definition binding_failed :: http_reply where
  "binding_failed = Error_json 403 ''interaction_binding_failed'' ''interaction binding failed''"

definition no_interaction :: http_reply where
  "no_interaction = Error_json 404 ''interaction_not_found'' ''no such interaction''"

definition api_guard :: "'key endpoint_env \<Rightarrow> api_request \<Rightarrow> string \<Rightarrow> world \<Rightarrow> http_reply + interaction_document" where
  "api_guard env rq iid w =
     (if rq_limited rq then Inl Too_many_requests
      else if \<not> INTERACTION_ID_PATTERN iid then Inl no_interaction
      else
        (case ee_settings env of
           None \<Rightarrow> Inl (Error_json 503 ''temporarily_unavailable'' ''settings unavailable'')
         | Some st \<Rightarrow>
             if \<not> origin_allowed st rq then Inl (Error_json 403 ''origin_not_allowed'' ''origin not allowed'')
             else
               (case map_of (parseCookies (rq_cookies rq)) (bindingCookieName iid) of
                  None \<Rightarrow> Inl binding_failed
                | Some cookie \<Rightarrow>
                    (case openBindingHandle (ee_keys env) (ee_sha256 env) cookie of
                       None \<Rightarrow> Inl binding_failed
                     | Some bound \<Rightarrow>
                         if br_interaction_id bound \<noteq> iid then Inl binding_failed
                         else
                           (case get (ee_now env) (w_interactions w iid) of
                              Ok doc \<Rightarrow>
                                if d_status doc = Pushed then Inl no_interaction
                                else if \<not> hashesEqual (d_binding_hash doc) (encodeBase64Url (br_secret_hash bound))
                                then Inl binding_failed
                                else if rq_method rq \<noteq> GET \<and> isTerminal (d_status doc) then Inl no_interaction
                                else Inr doc
                            | _ \<Rightarrow> Inl no_interaction)))))"


section \<open>Abort and consent\<close>

definition step_json :: "'key endpoint_env \<Rightarrow> string \<Rightarrow> string \<Rightarrow> http_reply" where
  "step_json env iid status = Ok_json [(''status'', Text status), (''redirect_to'', Text (redirectTo env iid))]"

definition api_apply ::
  "'key endpoint_env \<Rightarrow> string \<Rightarrow> interaction_operation \<Rightarrow> interaction_status \<Rightarrow> transition_patch \<Rightarrow> http_reply \<Rightarrow> world \<Rightarrow>
   http_reply \<times> world" where
  "api_apply env iid op status patch reply w =
     (case interactionStub iid (apply_op op status patch (ee_now env)) w of
        (Threw, w') \<Rightarrow> (Server_error, w')
      | (_, w') \<Rightarrow> (reply, w'))"

definition error_patch :: "string \<Rightarrow> string \<Rightarrow> transition_patch" where
  "error_patch err description =
     no_patch\<lparr>tp_error := Some (Some \<lparr>ie_error = err, ie_error_description = description\<rparr>)\<rparr>"

definition abortHandler :: "'key endpoint_env \<Rightarrow> api_request \<Rightarrow> string \<Rightarrow> world \<Rightarrow> http_reply \<times> world" where
  "abortHandler env rq iid w =
     (case api_guard env rq iid w of
        Inl reply \<Rightarrow> (reply, w)
      | Inr doc \<Rightarrow>
          api_apply env iid Abort Failed (error_patch ''access_denied'' ''aborted by the user'')
            (step_json env iid ''failed'') w)"

text \<open>The decision as the schema of the body parses it; \<^term>\<open>Inl\<close> is why it was refused.\<close>

datatype consent_decision = Deny | Grant "string list"

definition invalidState :: http_reply where
  "invalidState = Error_json 409 ''interaction_invalid_state'' ''not allowed in this state''"

fun do_error_text :: "user_do_error \<Rightarrow> string" where
  "do_error_text User_not_initialized = ''user_not_initialized''"
| "do_error_text User_destroyed = ''user_destroyed''"
| "do_error_text User_id_mismatch = ''user_id_mismatch''"
| "do_error_text User_disabled = ''user_disabled''"
| "do_error_text User_not_allowed = ''user_not_allowed''"
| "do_error_text Session_invalid = ''session_invalid''"
| "do_error_text Invalid_grant = ''invalid_grant''"
| "do_error_text Invalid_scope = ''invalid_scope''"
| "do_error_text Passkey_exists = ''passkey_exists''"
| "do_error_text Passkey_limit_reached = ''passkey_limit_reached''"
| "do_error_text Passkey_verification_failed = ''passkey_verification_failed''"
| "do_error_text Passkey_counter_regression = ''passkey_counter_regression''"
| "do_error_text Identity_exists = ''identity_exists''"
| "do_error_text Last_login_method = ''last_login_method''"
| "do_error_text Too_many_attempts = ''too_many_attempts''"

definition consentHandler ::
  "'key endpoint_env \<Rightarrow> api_request \<Rightarrow> string \<Rightarrow> string + consent_decision \<Rightarrow> world \<Rightarrow> http_reply \<times> world" where
  "consentHandler env rq iid body w =
     (case api_guard env rq iid w of
        Inl reply \<Rightarrow> (reply, w)
      | Inr doc \<Rightarrow>
          (case (d_status doc = Consent_needed, d_request doc, d_client_id doc) of
             (True, Some request, Some _) \<Rightarrow>
               (case body of
                  Inl err \<Rightarrow> (Error_json 400 ''invalid_request'' err, w)
                | Inr Deny \<Rightarrow>
                    api_apply env iid Consent Failed (error_patch ''access_denied'' ''consent denied'')
                      (step_json env iid ''failed'') w
                | Inr (Grant chosen) \<Rightarrow>
                    if \<not> list_all (\<lambda>s. s \<in> set (ar_scope request)) chosen
                    then (Error_json 400 ''invalid_request'' ''scopes must be a subset of the request'', w)
                    else
                      let scopes = js_uniq (''openid'' # chosen) in
                      (case interactionClient env doc of
                         None \<Rightarrow> (Error_json 503 ''temporarily_unavailable'' ''client unavailable'', w)
                       | Some c \<Rightarrow>
                           (case interactionUid doc of
                              None \<Rightarrow> (Server_error, w)
                            | Some uid \<Rightarrow>
                                (case userStub uid (grantConsent (clientRef c) scopes (ee_now env)) w of
                                   (Ok _, w1) \<Rightarrow>
                                     api_apply env iid Consent Ready (no_patch\<lparr>tp_consent := Some (Some scopes)\<rparr>)
                                       (step_json env iid ''ready'') w1
                                 | (Fail e, w1) \<Rightarrow> (Error_json 403 ''access_denied'' (do_error_text e), w1)
                                 | (Threw, w1) \<Rightarrow> (Server_error, w1)))))
           | _ \<Rightarrow> (invalidState, w)))"


section \<open>Logout\<close>

text \<open>
  The hint: \<open>verify\<close> gives the claims of an ID token the server signed, expiry ignored; it is \<^term>\<open>None\<close> when the
  keys cannot be loaded. The client names the token's only audience.
\<close>

definition hintAudience :: "claims \<Rightarrow> string option \<Rightarrow> string option" where
  "hintAudience payload clientId =
     (case (case map_of payload ''aud'' of Some (Text v) \<Rightarrow> Some v | Some (Texts [v]) \<Rightarrow> Some v | _ \<Rightarrow> None) of
        None \<Rightarrow> None
      | Some single \<Rightarrow>
          (case clientId of None \<Rightarrow> Some single | Some cid \<Rightarrow> if cid = single then Some single else None))"

record logout_hint =
  lh_sub :: string
  lh_sid :: "string option"
  lh_client :: client

definition lookupClient :: "'key endpoint_env \<Rightarrow> string \<Rightarrow> client option" where
  "lookupClient env clientId = (case ee_clients env clientId of None \<Rightarrow> None | Some found \<Rightarrow> found)"

definition read_hint ::
  "'key endpoint_env \<Rightarrow> claims option \<Rightarrow> string option \<Rightarrow> logout_hint option" where
  "read_hint env payload clientId =
     (case payload of
        None \<Rightarrow> None
      | Some p \<Rightarrow>
          (case hintAudience p clientId of
             None \<Rightarrow> None
           | Some aud \<Rightarrow>
               map_option (\<lambda>c. \<lparr>lh_sub = (case map_of p ''sub'' of Some (Text v) \<Rightarrow> v | _ \<Rightarrow> []),
                                lh_sid = (case map_of p ''sid'' of Some (Text v) \<Rightarrow> Some v | _ \<Rightarrow> None),
                                lh_client = c\<rparr>)
                 (lookupClient env aud)))"

definition logout_input ::
  "string option \<Rightarrow> session_ref \<Rightarrow> string option \<Rightarrow> string option \<Rightarrow> create_interaction" where
  "logout_input clientId ref registered state =
     \<lparr>cx_id = [], cx_kind = Kind_logout, cx_status = Login_needed, cx_binding_hash = [], cx_client_id = clientId,
      cx_request = None, cx_existing_session = None,
      cx_logout = Some \<lparr>lr_sid = Some (sr_sid ref), lr_uid = Some (sr_uid ref),
                        lr_post_logout_redirect_uri = registered, lr_state = state, lr_decision = None\<rparr>\<rparr>"

text \<open>With a hint the hinted session ends at once; the cookie goes only when it was that session's.\<close>

definition logout_hinted ::
  "'key endpoint_env \<Rightarrow> logout_hint \<Rightarrow> session_ref option \<Rightarrow> http_reply \<Rightarrow> world \<Rightarrow> navigation" where
  "logout_hinted env hint ref destination w =
     (case lh_sid hint of
        None \<Rightarrow> (destination, [], w)
      | Some sid \<Rightarrow>
          let own = (case ref of None \<Rightarrow> False | Some r \<Rightarrow> sr_sid r = sid);
              uid = (case ref of Some r \<Rightarrow> if own then sr_uid r else lh_sub hint | None \<Rightarrow> lh_sub hint)
          in (case endSession env uid sid ''rp_logout'' w of
                (Ok _, w') \<Rightarrow> (destination, if own then [clearCookie SESSION_COOKIE] else [], w')
              | (_, w') \<Rightarrow> (Server_error, [], w')))"

text \<open>Without one, a browser that holds a live session is asked first.\<close>

definition logout_unhinted ::
  "'key endpoint_env \<Rightarrow> settings \<Rightarrow> string \<Rightarrow> client option \<Rightarrow> string option \<Rightarrow> session_ref option \<Rightarrow> string option \<Rightarrow>
   string option \<Rightarrow> world \<Rightarrow> navigation" where
  "logout_unhinted env st loginUrl c cookie ref registered state w =
     (let destination = postLogoutDestination st registered state in
      (case ref of
         None \<Rightarrow> (destination, if cookie \<noteq> None then [clearCookie SESSION_COOKIE] else [], w)
       | Some r \<Rightarrow>
           (case userStub (sr_uid r) (getSession (sr_sid r) (sr_secret_hash r) (ee_now env)) w of
              (Threw, w1) \<Rightarrow> (Server_error, [], w1)
            | (Fail _, w1) \<Rightarrow> (destination, [clearCookie SESSION_COOKIE], w1)
            | (Ok _, w1) \<Rightarrow>
                (case startInteraction env (ee_interaction_id env)
                        (logout_input (map_option cl_client_id c) r registered state) (st_interaction_ttl st) w1 of
                   (None, w2) \<Rightarrow> (Server_error, [], w2)
                 | (Some (iid, started), w2) \<Rightarrow> (See_other loginUrl [(''interaction'', iid)], [started], w2)))))"

definition logoutHandler ::
  "'key endpoint_env \<Rightarrow> bool \<Rightarrow> string + (string \<times> string) list \<Rightarrow> (string \<Rightarrow> claims option) option \<Rightarrow> string option \<Rightarrow>
   world \<Rightarrow> navigation" where
  "logoutHandler env limited parsed verify cookieHeader w =
     (if limited then (Too_many_requests, [], w)
      else
        (case ee_settings env of
           None \<Rightarrow> (Error_json 503 ''temporarily_unavailable'' ''settings unavailable'', [], w)
         | Some st \<Rightarrow>
             (case st_login_url st of
                None \<Rightarrow> (Error_json 503 ''not_configured'' ''login_url and login_origins are not set'', [], w)
              | Some loginUrl \<Rightarrow>
                  (case parsed of
                     Inl _ \<Rightarrow> (to_login loginUrl ''invalid_request'', [], w)
                   | Inr ps \<Rightarrow>
                       let requested = map_of ps ''post_logout_redirect_uri'';
                           state = map_of ps ''state'';
                           registered = (\<lambda>c. case (requested, c) of
                             (Some uri, Some cl) \<Rightarrow>
                               if matchRedirectUri (ee_parse env) (cl_post_logout_redirect_uris cl) uri \<noteq> None
                               then Some uri else None
                           | _ \<Rightarrow> None);
                           cookie = map_of (parseCookies cookieHeader) SESSION_COOKIE;
                           ref = (case cookie of
                                    None \<Rightarrow> None
                                  | Some v \<Rightarrow> openSessionHandle (ee_keys env) (ee_uuid env) (ee_sha256 env) v)
                       in (case map_of ps ''id_token_hint'' of
                             Some token \<Rightarrow>
                               (case verify of
                                  None \<Rightarrow> (Error_json 503 ''temporarily_unavailable'' ''keys unavailable'', [], w)
                                | Some verifyOwnJwt \<Rightarrow>
                                    (case read_hint env (verifyOwnJwt token) (map_of ps ''client_id'') of
                                       None \<Rightarrow> (to_login loginUrl ''invalid_request'', [], w)
                                     | Some hint \<Rightarrow>
                                         logout_hinted env hint ref
                                           (postLogoutDestination st (registered (Some (lh_client hint))) state) w))
                           | None \<Rightarrow>
                               let c = (case map_of ps ''client_id'' of None \<Rightarrow> None | Some cid \<Rightarrow> lookupClient env cid)
                               in logout_unhinted env st loginUrl c cookie ref (registered c) state w)))))"

end
