(* ===== verification/Resource_Endpoints.thy ===== *)
theory Resource_Endpoints
  imports Http
begin

text \<open>
  The endpoints that take a token back: \<^verbatim>\<open>src/oidc/bearer.ts\<close>, \<^verbatim>\<open>/userinfo\<close>
  (\<^verbatim>\<open>src/oidc/userinfo-endpoint.ts\<close>) and \<^verbatim>\<open>/revoke\<close> (\<^verbatim>\<open>src/oidc/revoke-endpoint.ts\<close>).
  The verification of a JWT the server signed is a parameter: the claims of an access token with a valid signature, type,
  issuer and expiry, if it is one.
\<close>

record access_token_info =
  ati_sub :: string
  ati_client_id :: string
  ati_scopes :: "string list"
  ati_auth_time :: "seconds option"
  ati_sid :: "string option"

definition text_claim :: "string \<Rightarrow> claims \<Rightarrow> string" where
  "text_claim name cs = (case map_of cs name of Some (Text v) \<Rightarrow> v | _ \<Rightarrow> [])"

definition audience_of :: "claims \<Rightarrow> string list" where
  "audience_of cs = (case map_of cs ''aud'' of Some (Texts aud) \<Rightarrow> aud | Some (Text v) \<Rightarrow> [v] | _ \<Rightarrow> [])"

definition verifyAccessToken ::
  "(string \<Rightarrow> claims option) \<Rightarrow> string \<Rightarrow> string \<Rightarrow> bool \<Rightarrow> access_token_info option" where
  "verifyAccessToken verifyOwnJwt token issuer acceptClient =
     (case verifyOwnJwt token of
        None \<Rightarrow> None
      | Some payload \<Rightarrow>
          let clientId = text_claim ''client_id'' payload;
              accepted = (if acceptClient then [issuer, clientId] else [issuer])
          in if \<not> list_ex (\<lambda>a. a \<in> set accepted) (audience_of payload) then None
             else Some \<lparr>ati_sub = text_claim ''sub'' payload, ati_client_id = clientId,
                        ati_scopes = tokens (text_claim ''scope'' payload),
                        ati_auth_time = (case map_of payload ''auth_time'' of Some (Number n) \<Rightarrow> Some n | _ \<Rightarrow> None),
                        ati_sid = (case map_of payload ''sid'' of Some (Text v) \<Rightarrow> Some v | _ \<Rightarrow> None)\<rparr>)"

definition invalidToken :: http_reply where
  "invalidToken = Error_json 401 ''invalid_token'' ''invalid token''"


section \<open>Userinfo\<close>

text \<open>
  \<open>token\<close> is what \<^verbatim>\<open>presentedBearer\<close> found in the request; \<open>keys\<close> is \<^term>\<open>None\<close> when the keys cannot be
  loaded, and the verification of JWTs with them otherwise.
\<close>

definition profile_of_user :: "user_profile \<Rightarrow> profile_claims" where
  "profile_of_user p =
     \<lparr>pc_name = p_display_name p, pc_updated_at = Some (p_updated_at p), pc_email = p_email p,
      pc_email_verified = p_email_verified p, pc_groups = p_groups p\<rparr>"

definition userinfoHandler ::
  "string \<Rightarrow> (string \<Rightarrow> claims option) option \<Rightarrow> string option \<Rightarrow> world \<Rightarrow> http_reply \<times> world" where
  "userinfoHandler issuer keys token w =
     (case token of
        None \<Rightarrow> (invalidToken, w)
      | Some t \<Rightarrow>
          (case keys of
             None \<Rightarrow> (Error_json 503 ''temporarily_unavailable'' ''keys unavailable'', w)
           | Some verifyOwnJwt \<Rightarrow>
               (case verifyAccessToken verifyOwnJwt t issuer True of
                  None \<Rightarrow> (invalidToken, w)
                | Some access \<Rightarrow>
                    if ati_auth_time access = None then (invalidToken, w)
                    else
                      (case userStub (ati_sub access) getProfile w of
                         (Ok p, w') \<Rightarrow>
                           if p_disabled_at p \<noteq> None then (invalidToken, w')
                           else (Ok_json (spread_claims (scopedClaims (ati_scopes access) (profile_of_user p))
                                            [(''sub'', Text (p_id p))]), w')
                       | (Fail _, w') \<Rightarrow> (invalidToken, w')
                       | (Threw, w') \<Rightarrow> (Server_error, w')))))"


section \<open>Revocation\<close>

definition revoke_refresh :: "'key endpoint_env \<Rightarrow> client \<Rightarrow> string \<Rightarrow> world \<Rightarrow> http_reply \<times> world" where
  "revoke_refresh env c token w =
     (case openRefreshHandle (ee_keys env) (ee_uuid env) (ee_sha256 env) token of
        None \<Rightarrow> (Ok_empty, w)
      | Some refresh \<Rightarrow>
          (case userStub (rr_uid refresh)
                  (revokeFamilyById (rr_family_id refresh) (ee_now env) ''client_revoke'' (Some (cl_client_id c))) w of
             (Threw, w') \<Rightarrow> (Server_error, w')
           | (_, w') \<Rightarrow> (Ok_empty, w')))"

definition revokeHandler ::
  "'key endpoint_env \<Rightarrow> (string \<Rightarrow> claims option) option \<Rightarrow> string + (string \<times> string) list \<Rightarrow> http_reply + client \<Rightarrow>
   world \<Rightarrow> http_reply \<times> world" where
  "revokeHandler env keys form auth w =
     (case form of
        Inl reason \<Rightarrow> (Error_json 400 ''invalid_request'' reason, w)
      | Inr ps \<Rightarrow>
          (case auth of
             Inl reply \<Rightarrow> (reply, w)
           | Inr c \<Rightarrow>
               (case map_of ps ''token'' of
                  None \<Rightarrow> (Error_json 400 ''invalid_request'' ''token is required'', w)
                | Some token \<Rightarrow>
                    if handleType token = Some Refresh_handle then revoke_refresh env c token w
                    else
                      (case keys of
                         None \<Rightarrow> (Error_json 503 ''temporarily_unavailable'' ''keys unavailable'', w)
                       | Some verifyOwnJwt \<Rightarrow>
                           (case verifyAccessToken verifyOwnJwt token (ee_issuer env) True of
                              None \<Rightarrow> (Ok_empty, w)
                            | Some access \<Rightarrow>
                                (case ati_sid access of
                                   None \<Rightarrow> (Ok_empty, w)
                                 | Some sid \<Rightarrow>
                                     if ati_client_id access \<noteq> cl_client_id c then (Ok_empty, w)
                                     else
                                       (case userStub (ati_sub access)
                                               (revokeSessionFamiliesOfClient sid (cl_client_id c) (ee_now env)) w of
                                          (Threw, w') \<Rightarrow> (Server_error, w')
                                        | (_, w') \<Rightarrow> (Ok_empty, w'))))))))"

end
