(* ===== verification/Clients.thy ===== *)
theory Clients
  imports Http
begin

text \<open>
  The client directory: the model and its rules (\<^verbatim>\<open>src/oidc/clients.ts\<close>), the table
  (\<^verbatim>\<open>src/db/clients.ts\<close>) and the administration endpoints that change it
  (\<^verbatim>\<open>src/admin/clients.ts\<close>). A request body is a record of its members with the JSON types the schema asks for,
  absent members \<^term>\<open>None\<close>; a body of another shape is the list of the schema library's issues. Rows are kept
  decoded. Since a handler reads a client and writes it back in two statements, the reading and the writing half are
  separate definitions.
\<close>


section \<open>The input schema\<close>

definition token_endpoint_auth_methods_supported :: "string list" where
  "token_endpoint_auth_methods_supported =
     [''none'', ''client_secret_basic'', ''client_secret_post'', ''private_key_jwt'']"

definition is_id_char :: "char \<Rightarrow> bool" where
  "is_id_char ch \<longleftrightarrow> (CHR ''a'' \<le> ch \<and> ch \<le> CHR ''z'') \<or> is_digit ch"

definition CLIENT_ID_PATTERN :: "string \<Rightarrow> bool" where
  "CLIENT_ID_PATTERN v \<longleftrightarrow>
     3 \<le> length v \<and> length v \<le> 64 \<and> is_id_char (hd v) \<and>
     list_all (\<lambda>ch. is_id_char ch \<or> ch \<in> set ''._-'') (tl v)"

text \<open>\<open>TTL_BOUNDS\<close>, one constant per key.\<close>

definition TTL_access :: "int \<times> int" where "TTL_access = (60, 3600)"
definition TTL_id :: "int \<times> int" where "TTL_id = (60, 3600)"
definition TTL_refresh :: "int \<times> int" where "TTL_refresh = (86400, 7776000)"
definition TTL_refresh_idle :: "int \<times> int" where "TTL_refresh_idle = (3600, 2592000)"

record client_input =
  in_client_id :: "string option"
  in_client_name :: string
  in_client_uri :: "string option"
  in_logo_uri :: "string option"
  in_redirect_uris :: "string list"
  in_post_logout_redirect_uris :: "string list"
  in_backchannel_logout_uri :: "string option"
  in_grant_types :: "string list"
  in_token_endpoint_auth_method :: string
  in_jwks :: "jwk list option"
  in_jwks_uri :: "string option"
  in_scopes_allowed :: "string list"
  in_audiences :: "string list"
  in_allowed_groups :: "string list option"
  in_skip_consent :: bool
  in_require_par :: bool
  in_require_pkce :: bool
  in_offline_access :: bool
  in_access_token_ttl :: "seconds option"
  in_id_token_ttl :: "seconds option"
  in_refresh_token_ttl :: "seconds option"
  in_refresh_idle_ttl :: "seconds option"

record client_body =
  b_client_id :: "string option"
  b_client_name :: "string option"
  b_client_uri :: "string option option"
  b_logo_uri :: "string option option"
  b_redirect_uris :: "string list option"
  b_post_logout_redirect_uris :: "string list option"
  b_backchannel_logout_uri :: "string option option"
  b_grant_types :: "string list option"
  b_token_endpoint_auth_method :: "string option"
  b_jwks :: "jwk list option option"
  b_jwks_uri :: "string option option"
  b_scopes_allowed :: "string list option"
  b_audiences :: "string list option"
  b_allowed_groups :: "string list option option"
  b_skip_consent :: "bool option"
  b_require_par :: "bool option"
  b_require_pkce :: "bool option"
  b_offline_access :: "bool option"
  b_access_token_ttl :: "seconds option option"
  b_id_token_ttl :: "seconds option option"
  b_refresh_token_ttl :: "seconds option option"
  b_refresh_idle_ttl :: "seconds option option"

text \<open>A value that a check may refuse.\<close>

definition checked :: "('a \<Rightarrow> bool) \<Rightarrow> 'a \<Rightarrow> 'a option" where
  "checked ok v = (if ok v then Some v else None)"

definition null_or :: "('a \<Rightarrow> bool) \<Rightarrow> 'a option \<Rightarrow> bool" where
  "null_or ok v = (case v of None \<Rightarrow> True | Some x \<Rightarrow> ok x)"

definition short_list :: "nat \<Rightarrow> nat \<Rightarrow> string list \<Rightarrow> bool" where
  "short_list width n xs \<longleftrightarrow> length xs \<le> n \<and> list_all (\<lambda>x. length x \<le> width) xs"

definition ttl :: "int \<times> int \<Rightarrow> seconds option \<Rightarrow> bool" where
  "ttl bounds = null_or (\<lambda>n. fst bounds \<le> n \<and> n \<le> snd bounds)"

definition PublicJwkSchema :: "jwk \<Rightarrow> bool" where
  "PublicJwkSchema k \<longleftrightarrow>
     jwk_kty k \<in> set [''EC'', ''RSA'', ''OKP''] \<and> 1 \<le> length (jwk_kid k) \<and> length (jwk_kid k) \<le> 128"

definition JwksSchema :: "jwk list \<Rightarrow> bool" where
  "JwksSchema keys \<longleftrightarrow> 1 \<le> length keys \<and> length keys \<le> 8 \<and> list_all PublicJwkSchema keys"

text \<open>\<open>httpsUrl\<close> is the URL check of the schema library.\<close>

definition ClientInputSchema :: "(string \<Rightarrow> bool) \<Rightarrow> client_body \<Rightarrow> client_input option" where
  "ClientInputSchema httpsUrl b =
     do {
       client_id \<leftarrow> checked (null_or CLIENT_ID_PATTERN) (b_client_id b);
       name \<leftarrow> b_client_name b;
       client_name \<leftarrow> checked (\<lambda>n. 1 \<le> length n \<and> length n \<le> 128) (js_trim name);
       client_uri \<leftarrow> checked (null_or httpsUrl) (or_setting (b_client_uri b) None);
       logo_uri \<leftarrow> checked (null_or httpsUrl) (or_setting (b_logo_uri b) None);
       redirect_uris \<leftarrow> checked (short_list 2048 32) (or_setting (b_redirect_uris b) []);
       post_logout \<leftarrow> checked (short_list 2048 32) (or_setting (b_post_logout_redirect_uris b) []);
       backchannel \<leftarrow> checked (null_or (\<lambda>u. length u \<le> 2048)) (or_setting (b_backchannel_logout_uri b) None);
       grants \<leftarrow> b_grant_types b;
       grant_types \<leftarrow> checked (\<lambda>gs. 1 \<le> length gs \<and> list_all (\<lambda>g. g \<in> set grant_types_supported) gs) grants;
       auth \<leftarrow> b_token_endpoint_auth_method b;
       auth_method \<leftarrow> checked (\<lambda>m. m \<in> set token_endpoint_auth_methods_supported) auth;
       jwks \<leftarrow> checked (null_or JwksSchema) (or_setting (b_jwks b) None);
       jwks_uri \<leftarrow> checked (null_or httpsUrl) (or_setting (b_jwks_uri b) None);
       scopes \<leftarrow> b_scopes_allowed b;
       scopes_allowed \<leftarrow> checked (\<lambda>ss. 1 \<le> length ss \<and> list_all isScope ss) scopes;
       audiences \<leftarrow> checked (short_list 512 16) (or_setting (b_audiences b) []);
       access \<leftarrow> checked (ttl TTL_access) (or_setting (b_access_token_ttl b) None);
       id \<leftarrow> checked (ttl TTL_id) (or_setting (b_id_token_ttl b) None);
       refresh \<leftarrow> checked (ttl TTL_refresh) (or_setting (b_refresh_token_ttl b) None);
       refresh_idle \<leftarrow> checked (ttl TTL_refresh_idle) (or_setting (b_refresh_idle_ttl b) None);
       Some \<lparr>in_client_id = client_id, in_client_name = client_name, in_client_uri = client_uri,
             in_logo_uri = logo_uri, in_redirect_uris = redirect_uris, in_post_logout_redirect_uris = post_logout,
             in_backchannel_logout_uri = backchannel, in_grant_types = grant_types,
             in_token_endpoint_auth_method = auth_method, in_jwks = jwks, in_jwks_uri = jwks_uri,
             in_scopes_allowed = scopes_allowed, in_audiences = audiences,
             in_allowed_groups = or_setting (b_allowed_groups b) None,
             in_skip_consent = or_setting (b_skip_consent b) False,
             in_require_par = or_setting (b_require_par b) False,
             in_require_pkce = or_setting (b_require_pkce b) True,
             in_offline_access = or_setting (b_offline_access b) False, in_access_token_ttl = access,
             in_id_token_ttl = id, in_refresh_token_ttl = refresh, in_refresh_idle_ttl = refresh_idle\<rparr>
     }"


section \<open>The cross-field rules\<close>

record validation_context =
  vc_issuer :: string
  vc_actor_has_admin :: bool
  vc_existing_groups :: "string list"

text \<open>\<^verbatim>\<open>/^urn:[a-z0-9][a-z0-9-]{0,31}:\S+$/i\<close>.\<close>

definition is_urn :: "string \<Rightarrow> bool" where
  "is_urn value =
     (if map to_lower (take 4 value) \<noteq> ''urn:'' then False
      else
        let rest = drop 4 value;
            nid = takeWhile (\<lambda>ch. ch \<noteq> CHR '':'') rest;
            nss = drop (length nid + 1) rest
        in length nid < length rest \<and> 1 \<le> length nid \<and> length nid \<le> 32 \<and>
           is_id_char (to_lower (hd nid)) \<and>
           list_all (\<lambda>ch. is_id_char (to_lower ch) \<or> ch = CHR ''-'') (tl nid) \<and>
           nss \<noteq> [] \<and> list_all (\<lambda>ch. \<not> is_space ch) nss)"

definition isAudience :: "url_parser \<Rightarrow> string \<Rightarrow> bool" where
  "isAudience parse value =
     (if CHR ''#'' \<in> set value then False
      else if is_urn value then True
      else
        (case parse value of
           None \<Rightarrow> False
         | Some url \<Rightarrow>
             url_protocol url = ''https:'' \<and> url_hostname url \<noteq> [] \<and>
             (url_href url = value \<or> url_href url = value @ ''/'')))"

definition hasDuplicates :: "string list \<Rightarrow> bool" where
  "hasDuplicates values \<longleftrightarrow> length (js_uniq values) \<noteq> length values"

abbreviation violation_if :: "bool \<Rightarrow> string \<Rightarrow> string list" where
  "violation_if b v \<equiv> (if b then [v] else [])"

definition grant_violations :: "client_input \<Rightarrow> string list" where
  "grant_violations i =
     (let grants = set (in_grant_types i); code = (''authorization_code'' \<in> grants) in
      violation_if (hasDuplicates (in_grant_types i)) ''grant_types: duplicates'' @
      violation_if (''refresh_token'' \<in> grants \<and> \<not> code) ''grant_types: refresh_token requires authorization_code'' @
      violation_if (code \<and> in_redirect_uris i = []) ''redirect_uris: required for authorization_code'' @
      violation_if (\<not> code \<and> in_redirect_uris i \<noteq> [])
        ''redirect_uris: must be empty without authorization_code'')"

definition uri_violations :: "url_parser \<Rightarrow> string \<Rightarrow> string list \<Rightarrow> string list" where
  "uri_violations parse key uris =
     violation_if (hasDuplicates uris) (key @ '': duplicates'') @
     concat (map (\<lambda>uri. violation_if (\<not> isRegistrableRedirectUri parse uri)
                     (key @ '': \"'' @ uri @ ''\" is not registrable'')) uris)"

definition backchannel_violations :: "(string \<Rightarrow> bool) \<Rightarrow> string option \<Rightarrow> string list" where
  "backchannel_violations httpsUrl uri =
     (case uri of
        None \<Rightarrow> []
      | Some u \<Rightarrow>
          violation_if (\<not> (httpsUrl u \<and> CHR ''#'' \<notin> set u))
            ''backchannel_logout_uri: must be an https URL without a fragment'')"

definition auth_violations :: "client_input \<Rightarrow> string list" where
  "auth_violations i =
     (let grants = set (in_grant_types i); code = (''authorization_code'' \<in> grants);
          auth = in_token_endpoint_auth_method i in
      violation_if (auth = ''none'' \<and>
          (\<not> code \<or> \<not> list_all (\<lambda>g. g = ''authorization_code'' \<or> g = ''refresh_token'') (in_grant_types i)))
        ''token_endpoint_auth_method: none requires grant_types of authorization_code with optional refresh_token'' @
      violation_if (''client_credentials'' \<in> grants \<and> auth = ''none'')
        ''grant_types: client_credentials requires a confidential authentication method'' @
      violation_if (auth = ''none'' \<and> \<not> in_require_pkce i) ''require_pkce: a public client cannot clear it'' @
      (if auth = ''private_key_jwt''
       then violation_if ((in_jwks i = None) = (in_jwks_uri i = None))
              ''jwks: private_key_jwt requires exactly one of jwks or jwks_uri''
       else violation_if (in_jwks i \<noteq> None \<or> in_jwks_uri i \<noteq> None)
              ''jwks: only private_key_jwt clients register keys''))"

definition scope_violations :: "validation_context \<Rightarrow> client_input \<Rightarrow> string list" where
  "scope_violations context i =
     violation_if (hasDuplicates (in_scopes_allowed i)) ''scopes_allowed: duplicates'' @
     violation_if (''admin'' \<in> set (in_scopes_allowed i) \<and> \<not> vc_actor_has_admin context)
       ''scopes_allowed: admin may only be granted by an administrator''"

definition audience_violations :: "url_parser \<Rightarrow> validation_context \<Rightarrow> string list \<Rightarrow> string list" where
  "audience_violations parse context audiences =
     violation_if (hasDuplicates audiences) ''audiences: duplicates'' @
     concat (map (\<lambda>audience.
       if \<not> isAudience parse audience then [''audiences: \"'' @ audience @ ''\" is not an https URI or URN'']
       else violation_if (audience = vc_issuer context)
              ''audiences: the issuer is added by scope, never configured'') audiences)"

definition group_violations :: "validation_context \<Rightarrow> string list option \<Rightarrow> string list" where
  "group_violations context groups =
     (case groups of
        None \<Rightarrow> []
      | Some gs \<Rightarrow>
          violation_if (hasDuplicates gs) ''allowed_groups: duplicates'' @
          concat (map (\<lambda>g. violation_if (g \<notin> set (vc_existing_groups context))
                         (''allowed_groups: group \"'' @ g @ ''\" does not exist'')) gs))"

definition validateClientInput ::
  "url_parser \<Rightarrow> (string \<Rightarrow> bool) \<Rightarrow> client_input \<Rightarrow> validation_context \<Rightarrow> string list" where
  "validateClientInput parse httpsUrl i context =
     grant_violations i @
     uri_violations parse ''redirect_uris'' (in_redirect_uris i) @
     uri_violations parse ''post_logout_redirect_uris'' (in_post_logout_redirect_uris i) @
     backchannel_violations httpsUrl (in_backchannel_logout_uri i) @
     auth_violations i @
     scope_violations context i @
     audience_violations parse context (in_audiences i) @
     group_violations context (in_allowed_groups i)"


section \<open>Ids and secrets\<close>

definition CLIENT_ID_ALPHABET :: string where
  "CLIENT_ID_ALPHABET = ''abcdefghijklmnopqrstuvwxyz0123456789''"

text \<open>The arguments are the random bytes drawn.\<close>

definition generateClientId :: "bytes \<Rightarrow> string" where
  "generateClientId bytes = ''c_'' @ map (\<lambda>b. CLIENT_ID_ALPHABET ! (unat b mod length CLIENT_ID_ALPHABET)) bytes"

record generated_secret =
  gs_secret :: string
  gs_hash :: bytes

definition generateClientSecret :: "(bytes \<Rightarrow> bytes) \<Rightarrow> bytes \<Rightarrow> generated_secret" where
  "generateClientSecret sha256 drawn =
     (let secret = encodeBase64Url drawn in \<lparr>gs_secret = secret, gs_hash = sha256 (utf8 secret)\<rparr>)"

definition usesSecret :: "string \<Rightarrow> bool" where
  "usesSecret m \<longleftrightarrow> m = ''client_secret_basic'' \<or> m = ''client_secret_post''"

definition clientFromInput :: "client_input \<Rightarrow> string \<Rightarrow> bytes option \<Rightarrow> seconds \<Rightarrow> client" where
  "clientFromInput i clientId secretHash now =
     \<lparr>cl_client_id = clientId, cl_client_name = in_client_name i, cl_client_uri = in_client_uri i,
      cl_logo_uri = in_logo_uri i, cl_redirect_uris = in_redirect_uris i,
      cl_post_logout_redirect_uris = in_post_logout_redirect_uris i,
      cl_backchannel_logout_uri = in_backchannel_logout_uri i, cl_grant_types = in_grant_types i,
      cl_token_endpoint_auth_method = in_token_endpoint_auth_method i, cl_client_secret_hash = secretHash,
      cl_jwks = in_jwks i, cl_jwks_uri = in_jwks_uri i, cl_scopes_allowed = in_scopes_allowed i,
      cl_audiences = in_audiences i, cl_allowed_groups = in_allowed_groups i, cl_skip_consent = in_skip_consent i,
      cl_require_par = in_require_par i, cl_require_pkce = in_require_pkce i,
      cl_offline_access = in_offline_access i, cl_access_token_ttl = in_access_token_ttl i,
      cl_id_token_ttl = in_id_token_ttl i, cl_refresh_token_ttl = in_refresh_token_ttl i,
      cl_refresh_idle_ttl = in_refresh_idle_ttl i, cl_disabled_at = None, cl_created_at = now, cl_updated_at = now\<rparr>"


section \<open>The table\<close>

type_synonym directory = "client list"

definition getClient :: "directory \<Rightarrow> string \<Rightarrow> client option" where
  "getClient db clientId = select_one (\<lambda>c. cl_client_id c = clientId) db"

text \<open>\<^verbatim>\<open>ON CONFLICT(client_id) DO NOTHING\<close>; the flag is whether a row was written.\<close>

definition insertClient :: "directory \<Rightarrow> client \<Rightarrow> bool \<times> directory" where
  "insertClient db c =
     (case insert_row (\<lambda>r. cl_client_id r = cl_client_id c) c db of
        None \<Rightarrow> (False, db)
      | Some db' \<Rightarrow> (True, db'))"

definition update_client_row :: "directory \<Rightarrow> string \<Rightarrow> (client \<Rightarrow> client) \<Rightarrow> bool \<times> directory" where
  "update_client_row db clientId f =
     (getClient db clientId \<noteq> None, update_where (\<lambda>r. cl_client_id r = clientId) f db)"

definition setClientDisabled :: "directory \<Rightarrow> string \<Rightarrow> seconds option \<Rightarrow> seconds \<Rightarrow> bool \<times> directory" where
  "setClientDisabled db clientId disabledAt now =
     update_client_row db clientId (\<lambda>r. r\<lparr>cl_disabled_at := disabledAt, cl_updated_at := now\<rparr>)"

definition updateClientSecretHash :: "directory \<Rightarrow> string \<Rightarrow> bytes \<Rightarrow> seconds \<Rightarrow> bool \<times> directory" where
  "updateClientSecretHash db clientId hash now =
     update_client_row db clientId (\<lambda>r. r\<lparr>cl_client_secret_hash := Some hash, cl_updated_at := now\<rparr>)"

definition deleteClient :: "directory \<Rightarrow> string \<Rightarrow> bool \<times> directory" where
  "deleteClient db clientId =
     (getClient db clientId \<noteq> None, delete_where (\<lambda>r. cl_client_id r = clientId) db)"

text \<open>Every column the statement sets; the id, the creation time and \<^verbatim>\<open>disabled_at\<close> stay.\<close>

definition updateClient :: "directory \<Rightarrow> client \<Rightarrow> seconds \<Rightarrow> bool \<times> directory" where
  "updateClient db c now =
     update_client_row db (cl_client_id c)
       (\<lambda>r. c\<lparr>cl_client_id := cl_client_id r, cl_disabled_at := cl_disabled_at r, cl_created_at := cl_created_at r,
              cl_updated_at := now\<rparr>)"


section \<open>Creating and changing a client\<close>

text \<open>
  What the code takes from outside: the URL parser, the URL check and the issue texts of the schema library, the
  digest, the random bytes drawn for an id and for a secret.
\<close>

record client_env =
  ce_parse :: url_parser
  ce_https_url :: "string \<Rightarrow> bool"
  ce_issues :: "client_body \<Rightarrow> string list"
  ce_sha256 :: "bytes \<Rightarrow> bytes"
  ce_id_bytes :: bytes
  ce_secret_bytes :: bytes

datatype client_change =
    Changed client "string option"
  | Invalid_client "string list"
  | Client_exists
  | Client_not_found

definition created_secret :: "client_env \<Rightarrow> client_input \<Rightarrow> generated_secret option" where
  "created_secret env i =
     (if usesSecret (in_token_endpoint_auth_method i)
      then Some (generateClientSecret (ce_sha256 env) (ce_secret_bytes env)) else None)"

definition created_client :: "client_env \<Rightarrow> client_input \<Rightarrow> seconds \<Rightarrow> client" where
  "created_client env i now =
     clientFromInput i (or_setting (in_client_id i) (generateClientId (ce_id_bytes env)))
       (map_option gs_hash (created_secret env i)) now"

definition createClient ::
  "client_env \<Rightarrow> directory \<Rightarrow> string list + client_body \<Rightarrow> validation_context \<Rightarrow> seconds \<Rightarrow>
   client_change \<times> directory" where
  "createClient env db raw context now =
     (case raw of
        Inl issues \<Rightarrow> (Invalid_client issues, db)
      | Inr body \<Rightarrow>
          (case ClientInputSchema (ce_https_url env) body of
             None \<Rightarrow> (Invalid_client (ce_issues env body), db)
           | Some i \<Rightarrow>
               let violations = validateClientInput (ce_parse env) (ce_https_url env) i context in
               if violations \<noteq> [] then (Invalid_client violations, db)
               else
                 let c = created_client env i now in
                 (case insertClient db c of
                    (False, db') \<Rightarrow> (Client_exists, db')
                  | (True, db') \<Rightarrow> (Changed c (map_option gs_secret (created_secret env i)), db'))))"

text \<open>The stored record as an input, and a patch laid over it.\<close>

definition inputOf :: "client \<Rightarrow> client_body" where
  "inputOf c =
     \<lparr>b_client_id = Some (cl_client_id c), b_client_name = Some (cl_client_name c),
      b_client_uri = Some (cl_client_uri c), b_logo_uri = Some (cl_logo_uri c),
      b_redirect_uris = Some (cl_redirect_uris c),
      b_post_logout_redirect_uris = Some (cl_post_logout_redirect_uris c),
      b_backchannel_logout_uri = Some (cl_backchannel_logout_uri c), b_grant_types = Some (cl_grant_types c),
      b_token_endpoint_auth_method = Some (cl_token_endpoint_auth_method c), b_jwks = Some (cl_jwks c),
      b_jwks_uri = Some (cl_jwks_uri c), b_scopes_allowed = Some (cl_scopes_allowed c),
      b_audiences = Some (cl_audiences c), b_allowed_groups = Some (cl_allowed_groups c),
      b_skip_consent = Some (cl_skip_consent c), b_require_par = Some (cl_require_par c),
      b_require_pkce = Some (cl_require_pkce c), b_offline_access = Some (cl_offline_access c),
      b_access_token_ttl = Some (cl_access_token_ttl c), b_id_token_ttl = Some (cl_id_token_ttl c),
      b_refresh_token_ttl = Some (cl_refresh_token_ttl c), b_refresh_idle_ttl = Some (cl_refresh_idle_ttl c)\<rparr>"

definition laid_over :: "'a option \<Rightarrow> 'a option \<Rightarrow> 'a option" where
  "laid_over patch old = (case patch of None \<Rightarrow> old | Some v \<Rightarrow> Some v)"

definition spread_body :: "client_body \<Rightarrow> client_body \<Rightarrow> client_body" where
  "spread_body old raw =
     \<lparr>b_client_id = laid_over (b_client_id raw) (b_client_id old),
      b_client_name = laid_over (b_client_name raw) (b_client_name old),
      b_client_uri = laid_over (b_client_uri raw) (b_client_uri old),
      b_logo_uri = laid_over (b_logo_uri raw) (b_logo_uri old),
      b_redirect_uris = laid_over (b_redirect_uris raw) (b_redirect_uris old),
      b_post_logout_redirect_uris = laid_over (b_post_logout_redirect_uris raw) (b_post_logout_redirect_uris old),
      b_backchannel_logout_uri = laid_over (b_backchannel_logout_uri raw) (b_backchannel_logout_uri old),
      b_grant_types = laid_over (b_grant_types raw) (b_grant_types old),
      b_token_endpoint_auth_method = laid_over (b_token_endpoint_auth_method raw) (b_token_endpoint_auth_method old),
      b_jwks = laid_over (b_jwks raw) (b_jwks old), b_jwks_uri = laid_over (b_jwks_uri raw) (b_jwks_uri old),
      b_scopes_allowed = laid_over (b_scopes_allowed raw) (b_scopes_allowed old),
      b_audiences = laid_over (b_audiences raw) (b_audiences old),
      b_allowed_groups = laid_over (b_allowed_groups raw) (b_allowed_groups old),
      b_skip_consent = laid_over (b_skip_consent raw) (b_skip_consent old),
      b_require_par = laid_over (b_require_par raw) (b_require_par old),
      b_require_pkce = laid_over (b_require_pkce raw) (b_require_pkce old),
      b_offline_access = laid_over (b_offline_access raw) (b_offline_access old),
      b_access_token_ttl = laid_over (b_access_token_ttl raw) (b_access_token_ttl old),
      b_id_token_ttl = laid_over (b_id_token_ttl raw) (b_id_token_ttl old),
      b_refresh_token_ttl = laid_over (b_refresh_token_ttl raw) (b_refresh_token_ttl old),
      b_refresh_idle_ttl = laid_over (b_refresh_idle_ttl raw) (b_refresh_idle_ttl old)\<rparr>"

text \<open>A switch to a method with a secret mints one, a switch away drops the hash.\<close>

definition patch_secret :: "client_env \<Rightarrow> client \<Rightarrow> client_input \<Rightarrow> generated_secret option" where
  "patch_secret env current merged =
     (if usesSecret (in_token_endpoint_auth_method merged) \<and> cl_client_secret_hash current = None
      then Some (generateClientSecret (ce_sha256 env) (ce_secret_bytes env)) else None)"

definition patched_client :: "client_env \<Rightarrow> client \<Rightarrow> client_input \<Rightarrow> seconds \<Rightarrow> client" where
  "patched_client env current merged now =
     (let secretHash = (if \<not> usesSecret (in_token_endpoint_auth_method merged) then None
                        else case patch_secret env current merged of
                               Some g \<Rightarrow> Some (gs_hash g)
                             | None \<Rightarrow> cl_client_secret_hash current)
      in (clientFromInput merged (cl_client_id current) secretHash (cl_created_at current))
           \<lparr>cl_disabled_at := cl_disabled_at current, cl_updated_at := now\<rparr>)"

definition updateClientRecord ::
  "client_env \<Rightarrow> directory \<Rightarrow> client \<Rightarrow> string list + client_body \<Rightarrow> validation_context \<Rightarrow> seconds \<Rightarrow>
   client_change \<times> directory" where
  "updateClientRecord env db current raw context now =
     (case raw of
        Inl issues \<Rightarrow> (Invalid_client issues, db)
      | Inr patch \<Rightarrow>
          if b_client_id patch \<noteq> None then (Invalid_client [''client_id: cannot be changed''], db)
          else
            let body = spread_body (inputOf current) patch in
            (case ClientInputSchema (ce_https_url env) body of
               None \<Rightarrow> (Invalid_client (ce_issues env body), db)
             | Some merged \<Rightarrow>
                 let violations = validateClientInput (ce_parse env) (ce_https_url env) merged context in
                 if violations \<noteq> [] then (Invalid_client violations, db)
                 else
                   let c = patched_client env current merged now in
                   (case updateClient db c now of
                      (False, db') \<Rightarrow> (Client_not_found, db')
                    | (True, db') \<Rightarrow> (Changed c (map_option gs_secret (patch_secret env current merged)), db'))))"


section \<open>Administration\<close>

text \<open>
  \<open>Shown\<close> is the record as the API shows it. A handler that fails to reach the database answers 503; \<open>down\<close> is
  whether a statement of its guarded block failed.
\<close>

datatype client_reply =
    Shown int client
  | Shown_with_secret int client "string option"
  | Secret_rotated string string seconds
  | No_content
  | Refused int string string

definition publicClient :: "client \<Rightarrow> client" where
  "publicClient c = c\<lparr>cl_client_secret_hash := None\<rparr>"

definition client_missing :: client_reply where
  "client_missing = Refused 404 ''client_not_found'' ''client not found''"

definition directory_unavailable :: client_reply where
  "directory_unavailable = Refused 503 ''temporarily_unavailable'' ''client directory unavailable''"

definition loadClient :: "bool \<Rightarrow> string \<Rightarrow> directory \<Rightarrow> client_reply + client" where
  "loadClient down clientId db =
     (if \<not> CLIENT_ID_PATTERN clientId then Inl client_missing
      else if down then Inl directory_unavailable
      else (case getClient db clientId of None \<Rightarrow> Inl client_missing | Some c \<Rightarrow> Inr c))"

definition createClientHandler ::
  "client_env \<Rightarrow> bool \<Rightarrow> string + (string list + client_body) \<Rightarrow> validation_context \<Rightarrow> seconds \<Rightarrow> directory \<Rightarrow>
   client_reply \<times> directory" where
  "createClientHandler env down body context now db =
     (case body of
        Inl err \<Rightarrow> (Refused 400 ''invalid_request'' err, db)
      | Inr raw \<Rightarrow>
          if down then (directory_unavailable, db)
          else
            (case createClient env db raw context now of
               (Changed c secret, db') \<Rightarrow> (Shown_with_secret 201 (publicClient c) secret, db')
             | (Client_exists, db') \<Rightarrow> (Refused 409 ''client_exists'' ''a client with this id exists'', db')
             | (Invalid_client violations, db') \<Rightarrow> (Refused 400 ''invalid_client'' (js_join ''; '' violations), db')
             | (Client_not_found, db') \<Rightarrow> (client_missing, db')))"

definition getClientHandler :: "bool \<Rightarrow> string \<Rightarrow> directory \<Rightarrow> client_reply" where
  "getClientHandler down clientId db =
     (case loadClient down clientId db of Inl reply \<Rightarrow> reply | Inr c \<Rightarrow> Shown 200 (publicClient c))"

text \<open>The halves after the client was read.\<close>

definition patch_write ::
  "client_env \<Rightarrow> bool \<Rightarrow> client \<Rightarrow> string list + client_body \<Rightarrow> validation_context \<Rightarrow> seconds \<Rightarrow> directory \<Rightarrow>
   client_reply \<times> directory" where
  "patch_write env down current raw context now db =
     (if down then (directory_unavailable, db)
      else
        (case updateClientRecord env db current raw context now of
           (Changed c secret, db') \<Rightarrow> (Shown_with_secret 200 (publicClient c) secret, db')
         | (Invalid_client violations, db') \<Rightarrow> (Refused 400 ''invalid_client'' (js_join ''; '' violations), db')
         | (_, db') \<Rightarrow> (client_missing, db')))"

definition delete_write :: "bool \<Rightarrow> client \<Rightarrow> directory \<Rightarrow> client_reply \<times> directory" where
  "delete_write down current db =
     (if down then (directory_unavailable, db)
      else (case deleteClient db (cl_client_id current) of
              (False, db') \<Rightarrow> (client_missing, db')
            | (True, db') \<Rightarrow> (No_content, db')))"

definition rotate_write :: "client_env \<Rightarrow> bool \<Rightarrow> client \<Rightarrow> seconds \<Rightarrow> directory \<Rightarrow> client_reply \<times> directory" where
  "rotate_write env down current now db =
     (if \<not> usesSecret (cl_token_endpoint_auth_method current)
      then (Refused 409 ''no_secret'' ''the client's method uses no shared secret'', db)
      else
        let generated = generateClientSecret (ce_sha256 env) (ce_secret_bytes env) in
        if down then (directory_unavailable, db)
        else (case updateClientSecretHash db (cl_client_id current) (gs_hash generated) now of
                (False, db') \<Rightarrow> (client_missing, db')
              | (True, db') \<Rightarrow> (Secret_rotated (cl_client_id current) (gs_secret generated) now, db')))"

definition disable_write :: "bool \<Rightarrow> bool \<Rightarrow> client \<Rightarrow> seconds \<Rightarrow> directory \<Rightarrow> client_reply \<times> directory" where
  "disable_write disabled down current now db =
     (let after = current\<lparr>cl_disabled_at := (if disabled then Some now else None), cl_updated_at := now\<rparr> in
      if down then (directory_unavailable, db)
      else (case setClientDisabled db (cl_client_id current) (cl_disabled_at after) now of
              (False, db') \<Rightarrow> (client_missing, db')
            | (True, db') \<Rightarrow> (Shown 200 (publicClient after), db')))"

text \<open>A handler without another writer in between: read, then write.\<close>

definition with_client ::
  "bool \<Rightarrow> string \<Rightarrow> (client \<Rightarrow> directory \<Rightarrow> client_reply \<times> directory) \<Rightarrow> directory \<Rightarrow> client_reply \<times> directory" where
  "with_client down clientId write db =
     (case loadClient down clientId db of Inl reply \<Rightarrow> (reply, db) | Inr c \<Rightarrow> write c db)"

definition patchClientHandler ::
  "client_env \<Rightarrow> bool \<Rightarrow> string \<Rightarrow> string + (string list + client_body) \<Rightarrow> validation_context \<Rightarrow> seconds \<Rightarrow> directory \<Rightarrow>
   client_reply \<times> directory" where
  "patchClientHandler env down clientId body context now =
     with_client down clientId (\<lambda>c db.
       case body of
         Inl err \<Rightarrow> (Refused 400 ''invalid_request'' err, db)
       | Inr raw \<Rightarrow> patch_write env down c raw context now db)"

definition deleteClientHandler :: "bool \<Rightarrow> string \<Rightarrow> directory \<Rightarrow> client_reply \<times> directory" where
  "deleteClientHandler down clientId = with_client down clientId (delete_write down)"

definition rotateSecretHandler :: "client_env \<Rightarrow> bool \<Rightarrow> string \<Rightarrow> seconds \<Rightarrow> directory \<Rightarrow> client_reply \<times> directory" where
  "rotateSecretHandler env down clientId now =
     with_client down clientId (\<lambda>c. rotate_write env down c now)"

definition setClientDisabledHandler :: "bool \<Rightarrow> bool \<Rightarrow> string \<Rightarrow> seconds \<Rightarrow> directory \<Rightarrow> client_reply \<times> directory" where
  "setClientDisabledHandler disabled down clientId now =
     with_client down clientId (\<lambda>c. disable_write disabled down c now)"

end
