(* ===== verification/Client_Auth.thy ===== *)
theory Client_Auth
  imports Clients
begin

text \<open>
  Client authentication at the token-style endpoints: \<^verbatim>\<open>src/oidc/client-auth.ts\<close> and
  \<^verbatim>\<open>src/oidc/token-common.ts\<close>. Decoding of a Basic header's payload (\<^verbatim>\<open>atob\<close>,
  \<^verbatim>\<open>decodeURIComponent\<close>) is the platform's and JWT decoding and verification are the JOSE library's; both are
  parameters.
\<close>


section \<open>What is presented\<close>

definition CLIENT_ASSERTION_TYPE :: string where
  "CLIENT_ASSERTION_TYPE = ''urn:ietf:params:oauth:client-assertion-type:jwt-bearer''"

definition ASSERTION_ALGORITHMS :: "string list" where
  "ASSERTION_ALGORITHMS = [''ES256'', ''ES384'', ''EdDSA'', ''PS256'', ''RS256'']"

definition ASSERTION_WINDOW_SECONDS :: seconds where "ASSERTION_WINDOW_SECONDS = 60"
definition ASSERTION_JTI_MAX_LENGTH :: nat where "ASSERTION_JTI_MAX_LENGTH = 255"

record basic_credentials =
  bc_id :: string
  bc_secret :: string

text \<open>
  What the code uses of the platform and the library. \<open>jo_issuer\<close> is the \<^verbatim>\<open>iss\<close> of an unverified
  assertion when it decodes and has one, \<open>jo_algorithm\<close> the protected header's \<^verbatim>\<open>alg\<close> (\<^term>\<open>None\<close> when
  the header does not decode, the inner option when it names none). \<open>jo_verify\<close> verifies the assertion with a key
  set for an issuer, a subject and a list of audiences at a time: the message of the exception, or the claims.
\<close>

datatype key_set = Local_keys "jwk list" | Remote_keys string

record verified_assertion =
  va_iss :: string
  va_sub :: string
  va_aud :: "string list"
  va_iat :: int
  va_exp :: int
  va_jti :: "string option"

record auth_library =
  jo_atob :: "string \<Rightarrow> string option"
  jo_decode_uri :: "string \<Rightarrow> string option"
  jo_issuer :: "string \<Rightarrow> string option"
  jo_algorithm :: "string \<Rightarrow> string option option"
  jo_verify :: "key_set \<Rightarrow> string \<Rightarrow> string \<Rightarrow> string list \<Rightarrow> seconds \<Rightarrow> string + verified_assertion"

record auth_context_of_client =
  ac_lookup :: "string \<Rightarrow> client option option"
  ac_issuer :: string
  ac_token_endpoint :: string
  ac_now :: seconds
  ac_sha256 :: "bytes \<Rightarrow> bytes"
  ac_library :: auth_library

text \<open>\<^verbatim>\<open>/^Basic\s+([A-Za-z0-9+/=]+)$/i\<close> on the trimmed header.\<close>

definition is_base64_char :: "char \<Rightarrow> bool" where
  "is_base64_char ch \<longleftrightarrow> is_lower_or_upper ch \<or> is_digit ch \<or> ch \<in> set ''+/=''"

definition basic_payload :: "string \<Rightarrow> string option" where
  "basic_payload header =
     (let text = js_trim header; rest = drop 5 text; payload = dropWhile is_space rest in
      if map to_lower (take 5 text) = ''basic'' \<and> rest \<noteq> [] \<and> is_space (hd rest) \<and> payload \<noteq> [] \<and>
         list_all is_base64_char payload
      then Some payload else None)"

definition parseBasic :: "auth_library \<Rightarrow> string \<Rightarrow> basic_credentials option" where
  "parseBasic lib header =
     do {
       payload \<leftarrow> basic_payload header;
       decoded \<leftarrow> jo_atob lib payload;
       (let user = takeWhile (\<lambda>ch. ch \<noteq> CHR '':'') decoded in
        if length user = length decoded then None
        else do {
          id \<leftarrow> jo_decode_uri lib user;
          secret \<leftarrow> jo_decode_uri lib (drop (length user + 1) decoded);
          Some \<lparr>bc_id = id, bc_secret = secret\<rparr>
        })
     }"

definition secretMatches :: "(bytes \<Rightarrow> bytes) \<Rightarrow> client \<Rightarrow> string \<Rightarrow> bool" where
  "secretMatches sha256 c secret =
     (case cl_client_secret_hash c of
        None \<Rightarrow> False
      | Some hash \<Rightarrow> secretsEqual (sha256 (utf8 secret)) hash)"


section \<open>Assertions\<close>

text \<open>The failing condition, or \<^term>\<open>None\<close> when the assertion is acceptable.\<close>

definition assertion_window :: "seconds \<Rightarrow> verified_assertion \<Rightarrow> string option" where
  "assertion_window now a =
     (if va_iat a < now - ASSERTION_WINDOW_SECONDS then Some ''assertion iat too old''
      else if va_iat a > now + ASSERTION_WINDOW_SECONDS then Some ''assertion iat in the future''
      else if va_exp a > now + ASSERTION_WINDOW_SECONDS then Some ''assertion exp too far ahead''
      else
        (case va_jti a of
           None \<Rightarrow> Some ''assertion jti missing or too long''
         | Some jti \<Rightarrow>
             if jti = [] \<or> length jti > ASSERTION_JTI_MAX_LENGTH
             then Some ''assertion jti missing or too long'' else None))"

definition client_keys :: "client \<Rightarrow> key_set option" where
  "client_keys c =
     (case cl_jwks c of
        Some keys \<Rightarrow> Some (Local_keys keys)
      | None \<Rightarrow> map_option Remote_keys (cl_jwks_uri c))"

definition verify_client_assertion :: "auth_context_of_client \<Rightarrow> string \<Rightarrow> client \<Rightarrow> string option" where
  "verify_client_assertion ctx assertion c =
     (case jo_algorithm (ac_library ctx) assertion of
        None \<Rightarrow> Some ''malformed client_assertion''
      | Some alg \<Rightarrow>
          if or_setting alg [] \<notin> set ASSERTION_ALGORITHMS then Some ''unsupported assertion alg''
          else
            (case client_keys c of
               None \<Rightarrow> Some ''client has no keys''
             | Some keys \<Rightarrow>
                 (case jo_verify (ac_library ctx) keys assertion (cl_client_id c)
                         [ac_issuer ctx, ac_token_endpoint ctx] (ac_now ctx) of
                    Inl err \<Rightarrow> Some (''assertion rejected: '' @ err)
                  | Inr payload \<Rightarrow> assertion_window (ac_now ctx) payload)))"


section \<open>Authentication\<close>

datatype client_auth_result =
    Authenticated client
  | Rejected string "string option" bool
  | Directory_unavailable

definition rejected :: "string \<Rightarrow> string option \<Rightarrow> bool \<Rightarrow> client_auth_result" where
  "rejected reason clientId basic =
     Rejected reason (case clientId of None \<Rightarrow> None | Some i \<Rightarrow> if CLIENT_ID_PATTERN i then Some i else None) basic"

text \<open>Who the request claims to be: the refusal, or the Basic credentials and the claimed id.\<close>

definition claimed_identity ::
  "auth_library \<Rightarrow> params \<Rightarrow> string option \<Rightarrow> client_auth_result + basic_credentials option \<times> string" where
  "claimed_identity lib ps authorization =
     (let bodyId = ps ''client_id''; usedBasic = (authorization \<noteq> None);
          basic = (case authorization of None \<Rightarrow> None | Some h \<Rightarrow> parseBasic lib h);
          assertionIssuer = (case ps ''client_assertion'' of None \<Rightarrow> None | Some a \<Rightarrow> jo_issuer lib a)
      in if usedBasic \<and> basic = None then Inl (rejected ''malformed Authorization header'' bodyId usedBasic)
         else if (case (basic, bodyId) of (Some b, Some i) \<Rightarrow> i \<noteq> bc_id b | _ \<Rightarrow> False)
         then Inl (rejected ''client_id differs between header and body'' bodyId usedBasic)
         else if ps ''client_assertion'' \<noteq> None \<and> assertionIssuer = None
         then Inl (rejected ''malformed client_assertion'' bodyId usedBasic)
         else if (case (assertionIssuer, bodyId) of (Some iss, Some i) \<Rightarrow> i \<noteq> iss | _ \<Rightarrow> False)
         then Inl (rejected ''client_id differs between assertion and body'' bodyId usedBasic)
         else
           (case (case basic of Some b \<Rightarrow> Some (bc_id b)
                              | None \<Rightarrow> (case assertionIssuer of Some iss \<Rightarrow> Some iss | None \<Rightarrow> bodyId)) of
              None \<Rightarrow> Inl (rejected ''no client identification'' None usedBasic)
            | Some clientId \<Rightarrow>
                if \<not> CLIENT_ID_PATTERN clientId then Inl (rejected ''malformed client_id'' None usedBasic)
                else Inr (basic, clientId)))"

definition extra_credentials :: "params \<Rightarrow> basic_credentials option \<Rightarrow> string \<Rightarrow> string list" where
  "extra_credentials ps basic auth =
     (if basic \<noteq> None \<and> auth \<noteq> ''client_secret_basic'' then [''Authorization header''] else []) @
     (if ps ''client_secret'' \<noteq> None \<and> auth \<noteq> ''client_secret_post'' then [''client_secret''] else []) @
     (if (ps ''client_assertion'' \<noteq> None \<or> ps ''client_assertion_type'' \<noteq> None) \<and> auth \<noteq> ''private_key_jwt''
      then [''client_assertion''] else [])"

text \<open>The registered method, exactly; the columns admit no other value than the four.\<close>

definition check_method ::
  "auth_context_of_client \<Rightarrow> params \<Rightarrow> basic_credentials option \<Rightarrow> bool \<Rightarrow> string \<Rightarrow> client \<Rightarrow> client_auth_result" where
  "check_method ctx ps basic usedBasic clientId c =
     (let auth = cl_token_endpoint_auth_method c in
      if auth = ''none'' then Authenticated c
      else if auth = ''client_secret_basic'' then
        (case basic of
           None \<Rightarrow> rejected ''missing Authorization header'' (Some clientId) True
         | Some b \<Rightarrow>
             if secretMatches (ac_sha256 ctx) c (bc_secret b) then Authenticated c
             else rejected ''wrong client secret'' (Some clientId) True)
      else if auth = ''client_secret_post'' then
        (case (ps ''client_id'', ps ''client_secret'') of
           (Some _, Some secret) \<Rightarrow>
             if secretMatches (ac_sha256 ctx) c secret then Authenticated c
             else rejected ''wrong client secret'' (Some clientId) usedBasic
         | _ \<Rightarrow> rejected ''missing client_id or client_secret in the body'' (Some clientId) usedBasic)
      else
        (if ps ''client_assertion_type'' \<noteq> Some CLIENT_ASSERTION_TYPE
         then rejected ''missing or unsupported client_assertion_type'' (Some clientId) usedBasic
         else
           (case ps ''client_assertion'' of
              None \<Rightarrow> rejected ''missing client_assertion'' (Some clientId) usedBasic
            | Some assertion \<Rightarrow>
                (case verify_client_assertion ctx assertion c of
                   None \<Rightarrow> Authenticated c
                 | Some failure \<Rightarrow> rejected failure (Some clientId) usedBasic))))"

definition authenticateClient :: "auth_context_of_client \<Rightarrow> params \<Rightarrow> string option \<Rightarrow> client_auth_result" where
  "authenticateClient ctx ps authorization =
     (let usedBasic = (authorization \<noteq> None) in
      (case claimed_identity (ac_library ctx) ps authorization of
         Inl refusal \<Rightarrow> refusal
       | Inr (basic, clientId) \<Rightarrow>
           (case ac_lookup ctx clientId of
              None \<Rightarrow> Directory_unavailable
            | Some None \<Rightarrow> rejected ''unknown client'' (Some clientId) usedBasic
            | Some (Some c) \<Rightarrow>
                if cl_disabled_at c \<noteq> None then rejected ''client disabled'' (Some clientId) usedBasic
                else
                  let auth = cl_token_endpoint_auth_method c;
                      wantsBasic = (usedBasic \<or> auth = ''client_secret_basic'');
                      extra = extra_credentials ps basic auth
                  in if extra \<noteq> []
                     then rejected (auth @ '' client presented '' @ js_join '', '' extra) (Some clientId) wantsBasic
                     else check_method ctx ps basic usedBasic clientId c)))"


section \<open>The form endpoints\<close>

text \<open>
  \<open>limited\<close> answers for the failed-authentication limits: of the client id and of the address. The challenge header of
  the 401 is not part of the reply here.
\<close>

definition auth_failure_reply :: "(string \<Rightarrow> bool) \<Rightarrow> bool \<Rightarrow> string option \<Rightarrow> token_reply" where
  "auth_failure_reply client_limited ip_limited clientId =
     (if (case clientId of None \<Rightarrow> False | Some i \<Rightarrow> client_limited i) then Rate_limited
      else if ip_limited then Rate_limited
      else Error_reply 401 ''invalid_client'' ''client authentication failed'')"

definition authenticateFormClient ::
  "auth_context_of_client \<Rightarrow> (string \<Rightarrow> bool) \<Rightarrow> bool \<Rightarrow> params \<Rightarrow> string option \<Rightarrow> form_auth" where
  "authenticateFormClient ctx client_limited ip_limited ps authorization =
     (case authenticateClient ctx ps authorization of
        Authenticated c \<Rightarrow> Auth_ok c
      | Directory_unavailable \<Rightarrow>
          Auth_failed (Error_reply 503 ''temporarily_unavailable'' ''client directory unavailable'') None
      | Rejected reason clientId basic \<Rightarrow>
          Auth_failed (auth_failure_reply client_limited ip_limited clientId)
            (if reason = ''client disabled'' then clientId else None))"

text \<open>The whole of \<^verbatim>\<open>POST /token\<close>: the form, the client, the grant.\<close>

definition token_endpoint ::
  "'key token_env \<Rightarrow> auth_context_of_client \<Rightarrow> (string \<Rightarrow> bool) \<Rightarrow> bool \<Rightarrow> string option \<Rightarrow> (string \<times> string) list \<Rightarrow>
   string option \<Rightarrow> users \<Rightarrow> token_outcome" where
  "token_endpoint env ctx client_limited ip_limited contentType body authorization objs =
     (case readForm contentType body of
        Inl reason \<Rightarrow> tokenHandler env (Inl reason) (Auth_failed unavailable None) objs
      | Inr ps \<Rightarrow>
          tokenHandler env (Inr (map_of ps))
            (authenticateFormClient ctx client_limited ip_limited (map_of ps) authorization) objs)"

end
