(* ===== verification/Client_Safety.thy ===== *)
theory Client_Safety
  imports Clients Machines Authorize_Safety
begin

text \<open>
  The client directory keeps its rules: over any sequence of administrative writes, with the reading and the writing
  half of different requests interleaved in any way, every registered client satisfies the schema and the cross-field
  rules. Shown too: what a change keeps, and that a patch puts back the secret that a rotation replaced between the
  two halves of the patch.
\<close>


section \<open>The rules of a registered client\<close>

definition grants_sound :: "client \<Rightarrow> bool" where
  "grants_sound c \<longleftrightarrow>
     cl_grant_types c \<noteq> [] \<and> distinct (cl_grant_types c) \<and> set (cl_grant_types c) \<subseteq> set grant_types_supported \<and>
     (''refresh_token'' \<in> set (cl_grant_types c) \<longrightarrow> ''authorization_code'' \<in> set (cl_grant_types c))"

definition uris_sound :: "url_parser \<Rightarrow> client \<Rightarrow> bool" where
  "uris_sound parse c \<longleftrightarrow>
     (''authorization_code'' \<in> set (cl_grant_types c) \<longleftrightarrow> cl_redirect_uris c \<noteq> []) \<and>
     distinct (cl_redirect_uris c) \<and> list_all (isRegistrableRedirectUri parse) (cl_redirect_uris c) \<and>
     distinct (cl_post_logout_redirect_uris c) \<and>
     list_all (isRegistrableRedirectUri parse) (cl_post_logout_redirect_uris c)"

text \<open>
  A public client has PKCE and no grant of its own; a client with a shared secret has its digest; exactly the clients
  that sign assertions have keys, from one source.
\<close>

definition auth_sound :: "client \<Rightarrow> bool" where
  "auth_sound c \<longleftrightarrow>
     cl_token_endpoint_auth_method c \<in> set token_endpoint_auth_methods_supported \<and>
     (cl_token_endpoint_auth_method c = ''none'' \<longrightarrow>
        cl_require_pkce c \<and> set (cl_grant_types c) \<subseteq> {''authorization_code'', ''refresh_token''}) \<and>
     (usesSecret (cl_token_endpoint_auth_method c) \<longrightarrow> cl_client_secret_hash c \<noteq> None) \<and>
     (if cl_token_endpoint_auth_method c = ''private_key_jwt'' then (cl_jwks c = None) \<noteq> (cl_jwks_uri c = None)
      else cl_jwks c = None \<and> cl_jwks_uri c = None)"

definition scopes_sound :: "client \<Rightarrow> bool" where
  "scopes_sound c \<longleftrightarrow>
     cl_scopes_allowed c \<noteq> [] \<and> distinct (cl_scopes_allowed c) \<and> list_all isScope (cl_scopes_allowed c) \<and>
     ttl TTL_access (cl_access_token_ttl c) \<and> ttl TTL_id (cl_id_token_ttl c) \<and>
     ttl TTL_refresh (cl_refresh_token_ttl c) \<and> ttl TTL_refresh_idle (cl_refresh_idle_ttl c)"

definition client_sound :: "url_parser \<Rightarrow> client \<Rightarrow> bool" where
  "client_sound parse c \<longleftrightarrow>
     CLIENT_ID_PATTERN (cl_client_id c) \<and> grants_sound c \<and> uris_sound parse c \<and> auth_sound c \<and> scopes_sound c"

definition directory_sound :: "url_parser \<Rightarrow> directory \<Rightarrow> bool" where
  "directory_sound parse db \<longleftrightarrow> distinct (map cl_client_id db) \<and> list_all (client_sound parse) db"

lemmas sound_defs = client_sound_def grants_sound_def uris_sound_def auth_sound_def scopes_sound_def


section \<open>What the schema and the rules establish\<close>

lemma checked_Some [simp]: "checked ok v = Some w \<longleftrightarrow> w = v \<and> ok v"
  by (auto simp: checked_def)

lemma ClientInputSchema_SomeD:
  assumes "ClientInputSchema httpsUrl b = Some i"
  shows "null_or CLIENT_ID_PATTERN (in_client_id i) \<and> in_client_id i = b_client_id b"
    and "in_grant_types i \<noteq> [] \<and> list_all (\<lambda>g. g \<in> set grant_types_supported) (in_grant_types i)"
    and "in_token_endpoint_auth_method i \<in> set token_endpoint_auth_methods_supported"
    and "in_scopes_allowed i \<noteq> [] \<and> list_all isScope (in_scopes_allowed i)"
    and "ttl TTL_access (in_access_token_ttl i) \<and> ttl TTL_id (in_id_token_ttl i) \<and>
         ttl TTL_refresh (in_refresh_token_ttl i) \<and> ttl TTL_refresh_idle (in_refresh_idle_ttl i)"
  using assms unfolding ClientInputSchema_def by (auto simp: Option.bind_eq_Some_conv Suc_le_eq)

lemma no_duplicates [simp]: "\<not> hasDuplicates xs \<longleftrightarrow> distinct xs"
  by (simp add: hasDuplicates_def length_js_uniq)

lemma violation_if_Nil [simp]: "violation_if b v = [] \<longleftrightarrow> \<not> b"
  by simp

lemma uri_violations_Nil:
  "uri_violations parse key uris = [] \<longleftrightarrow> distinct uris \<and> list_all (isRegistrableRedirectUri parse) uris"
  by (auto simp: uri_violations_def list_all_iff split: if_splits)

lemma validateClientInput_NilD:
  assumes "validateClientInput parse httpsUrl i context = []"
  shows "grant_violations i = []" and "auth_violations i = []" and "distinct (in_scopes_allowed i)"
    and "distinct (in_redirect_uris i) \<and> list_all (isRegistrableRedirectUri parse) (in_redirect_uris i)"
    and "distinct (in_post_logout_redirect_uris i) \<and>
         list_all (isRegistrableRedirectUri parse) (in_post_logout_redirect_uris i)"
  using assms
  by (auto simp: validateClientInput_def uri_violations_Nil scope_violations_def split: if_splits)

lemma clientFromInput_sound:
  assumes schema: "ClientInputSchema httpsUrl b = Some i" and rules: "validateClientInput parse httpsUrl i context = []"
    and id: "CLIENT_ID_PATTERN clientId"
    and secret: "usesSecret (in_token_endpoint_auth_method i) \<Longrightarrow> hash \<noteq> None"
  shows "client_sound parse (clientFromInput i clientId hash now)"
proof -
  note s = ClientInputSchema_SomeD [OF schema] and r = validateClientInput_NilD [OF rules]
  have "grants_sound (clientFromInput i clientId hash now)"
    using s(2) r(1) by (auto simp: grants_sound_def clientFromInput_def grant_violations_def Let_def list_all_iff
        split: if_splits)
  moreover have "uris_sound parse (clientFromInput i clientId hash now)"
    using r(1,4,5) by (auto simp: uris_sound_def clientFromInput_def grant_violations_def Let_def split: if_splits)
  moreover have "auth_sound (clientFromInput i clientId hash now)"
    using s(3) r(2) secret
    by (auto simp: auth_sound_def clientFromInput_def auth_violations_def Let_def list_all_iff usesSecret_def
        split: if_splits)
  moreover have "scopes_sound (clientFromInput i clientId hash now)"
    using s(4,5) r(3) by (simp add: scopes_sound_def clientFromInput_def)
  ultimately show ?thesis using id by (simp add: client_sound_def clientFromInput_def)
qed

lemma generated_id_char: "n < 36 \<Longrightarrow> is_id_char (CLIENT_ID_ALPHABET ! n)"
proof -
  have "list_all is_id_char CLIENT_ID_ALPHABET" by code_simp
  moreover have "length CLIENT_ID_ALPHABET = 36" by code_simp
  ultimately show "n < 36 \<Longrightarrow> is_id_char (CLIENT_ID_ALPHABET ! n)" by (simp add: list_all_length)
qed

lemma generateClientId_pattern:
  assumes "length bytes = 22"
  shows "CLIENT_ID_PATTERN (generateClientId bytes)"
proof -
  have len: "length CLIENT_ID_ALPHABET = 36" by code_simp
  have "list_all (\<lambda>ch. is_id_char ch \<or> ch \<in> set ''._-'')
          (map (\<lambda>b. CLIENT_ID_ALPHABET ! (unat b mod length CLIENT_ID_ALPHABET)) bytes)"
    by (auto simp: list_all_iff len intro: generated_id_char)
  moreover have "is_id_char (CHR ''c'')" by code_simp
  ultimately show ?thesis using assms by (simp add: CLIENT_ID_PATTERN_def generateClientId_def)
qed


section \<open>The directory as a machine\<close>

text \<open>Every write of the administration endpoints; \<open>current\<close> is what the request read, at any earlier time.\<close>

datatype client_op =
    Create_client client_env bool "string + (string list + client_body)" validation_context seconds
  | Patch_client client_env bool client "string list + client_body" validation_context seconds
  | Delete_client bool client
  | Rotate_secret client_env bool client seconds
  | Disable_client bool bool client seconds

fun client_step :: "client_op \<Rightarrow> directory \<Rightarrow> directory" where
  "client_step (Create_client env down body context now) db = snd (createClientHandler env down body context now db)"
| "client_step (Patch_client env down current raw context now) db = snd (patch_write env down current raw context now db)"
| "client_step (Delete_client down current) db = snd (delete_write down current db)"
| "client_step (Rotate_secret env down current now) db = snd (rotate_write env down current now db)"
| "client_step (Disable_client disabled down current now) db = snd (disable_write disabled down current now db)"

text \<open>All requests parse URLs alike, and an id is drawn from 22 bytes.\<close>

fun client_op_ok :: "url_parser \<Rightarrow> client_op \<Rightarrow> bool" where
  "client_op_ok parse (Create_client env down body context now) \<longleftrightarrow> ce_parse env = parse \<and> length (ce_id_bytes env) = 22"
| "client_op_ok parse (Patch_client env down current raw context now) \<longleftrightarrow> ce_parse env = parse"
| "client_op_ok parse _ \<longleftrightarrow> True"

lemma insertClient_sound:
  assumes "directory_sound parse db" and "client_sound parse c"
  shows "directory_sound parse (snd (insertClient db c))"
proof (cases "insert_row (\<lambda>r. cl_client_id r = cl_client_id c) c db")
  case None
  then show ?thesis using assms by (simp add: insertClient_def)
next
  case (Some db')
  then have db': "db' = db @ [c]" and fresh: "\<forall>r \<in> set db. cl_client_id r \<noteq> cl_client_id c"
    by (auto simp: insert_row_def list_ex_iff split: if_splits)
  have "cl_client_id c \<notin> cl_client_id ` set db" using fresh by auto
  then show ?thesis using assms Some db' by (simp add: insertClient_def directory_sound_def)
qed

lemma update_client_row_sound:
  assumes "directory_sound parse db" and "\<And>r. cl_client_id (f r) = cl_client_id r"
    and "\<And>r. r \<in> set db \<Longrightarrow> cl_client_id r = clientId \<Longrightarrow> client_sound parse (f r)"
  shows "directory_sound parse (snd (update_client_row db clientId f))"
  using assms by (auto simp: directory_sound_def update_client_row_def list_all_iff set_update_where)

lemma created_client_sound:
  assumes schema: "ClientInputSchema httpsUrl b = Some i" and rules: "validateClientInput parse httpsUrl i context = []"
    and "length (ce_id_bytes env) = 22"
  shows "client_sound parse (created_client env i now)"
  unfolding created_client_def
proof (rule clientFromInput_sound [OF schema rules])
  show "CLIENT_ID_PATTERN (or_setting (in_client_id i) (generateClientId (ce_id_bytes env)))"
    using ClientInputSchema_SomeD(1) [OF schema] generateClientId_pattern [OF assms(3)]
    by (auto simp: or_setting_def null_or_def split: option.splits)
qed (simp add: created_secret_def)

lemma createClient_writes:
  "snd (createClient env db raw context now) = db \<or>
   (\<exists>body i. ClientInputSchema (ce_https_url env) body = Some i \<and>
      validateClientInput (ce_parse env) (ce_https_url env) i context = [] \<and>
      snd (createClient env db raw context now) = snd (insertClient db (created_client env i now)))"
proof (cases raw)
  case (Inr body)
  show ?thesis
  proof (cases "ClientInputSchema (ce_https_url env) body")
    case (Some i)
    then show ?thesis
      using Inr by (cases "validateClientInput (ce_parse env) (ce_https_url env) i context = []")
        (auto simp: createClient_def Let_def intro!: exI [of _ body] exI [of _ i] split: prod.split bool.split)
  qed (use Inr in \<open>simp add: createClient_def\<close>)
qed (simp add: createClient_def)

lemma createClient_sound:
  assumes "directory_sound parse db" and "ce_parse env = parse" and "length (ce_id_bytes env) = 22"
  shows "directory_sound parse (snd (createClient env db raw context now))"
  using createClient_writes [of env db raw _ now] created_client_sound [where env = env] insertClient_sound
    assms by metis

lemma client_row_sound:
  assumes "client_sound parse c" and "CLIENT_ID_PATTERN clientId"
  shows "client_sound parse
           (c\<lparr>cl_client_id := clientId, cl_disabled_at := d, cl_created_at := t, cl_updated_at := now\<rparr>)"
  using assms by (auto simp: sound_defs)

lemma updateClient_sound:
  assumes "directory_sound parse db" and "client_sound parse c"
  shows "directory_sound parse (snd (updateClient db c now))"
  unfolding updateClient_def
proof (rule update_client_row_sound [OF assms(1)])
  fix r
  assume "r \<in> set db"
  then have "CLIENT_ID_PATTERN (cl_client_id r)"
    using assms(1) by (auto simp: directory_sound_def client_sound_def list_all_iff)
  then show "client_sound parse (c\<lparr>cl_client_id := cl_client_id r, cl_disabled_at := cl_disabled_at r,
               cl_created_at := cl_created_at r, cl_updated_at := now\<rparr>)"
    by (rule client_row_sound [OF assms(2)])
qed simp

text \<open>The id a patch writes is the stored one: the merged body has it, and the schema let it pass.\<close>

lemma merged_id:
  assumes "ClientInputSchema httpsUrl (spread_body (inputOf current) patch) = Some i" and "b_client_id patch = None"
  shows "CLIENT_ID_PATTERN (cl_client_id current)"
  using ClientInputSchema_SomeD(1) [OF assms(1)] assms(2)
  by (simp add: spread_body_def inputOf_def laid_over_def null_or_def split: option.splits)

lemma patched_client_sound:
  assumes schema: "ClientInputSchema httpsUrl (spread_body (inputOf current) patch) = Some merged"
    and "b_client_id patch = None" and rules: "validateClientInput parse httpsUrl merged context = []"
  shows "client_sound parse (patched_client env current merged now)"
proof -
  have id: "CLIENT_ID_PATTERN (cl_client_id current)" using merged_id assms(1,2) by blast
  have "client_sound parse (clientFromInput merged (cl_client_id current)
          (if \<not> usesSecret (in_token_endpoint_auth_method merged) then None
           else case patch_secret env current merged of Some g \<Rightarrow> Some (gs_hash g) | None \<Rightarrow> cl_client_secret_hash current)
          (cl_created_at current))"
    by (rule clientFromInput_sound [OF schema rules id]) (simp add: patch_secret_def)
  then show ?thesis by (auto simp: patched_client_def Let_def sound_defs)
qed

lemma updateClientRecord_writes:
  "snd (updateClientRecord env db current raw context now) = db \<or>
   (\<exists>patch merged. raw = Inr patch \<and> b_client_id patch = None \<and>
      ClientInputSchema (ce_https_url env) (spread_body (inputOf current) patch) = Some merged \<and>
      validateClientInput (ce_parse env) (ce_https_url env) merged context = [] \<and>
      snd (updateClientRecord env db current raw context now) =
        snd (updateClient db (patched_client env current merged now) now))"
proof (cases raw)
  case (Inr patch)
  show ?thesis
  proof (cases "b_client_id patch = None")
    case True
    show ?thesis
    proof (cases "ClientInputSchema (ce_https_url env) (spread_body (inputOf current) patch)")
      case (Some merged)
      then show ?thesis
        using Inr True by (cases "validateClientInput (ce_parse env) (ce_https_url env) merged context = []")
          (auto simp: updateClientRecord_def Let_def split: prod.split bool.split)
    qed (use Inr True in \<open>simp add: updateClientRecord_def Let_def\<close>)
  qed (use Inr in \<open>auto simp: updateClientRecord_def\<close>)
qed (simp add: updateClientRecord_def)

lemma updateClientRecord_sound:
  assumes "directory_sound parse db" and "ce_parse env = parse"
  shows "directory_sound parse (snd (updateClientRecord env db current raw context now))"
  using updateClientRecord_writes [of env db current raw _ now] patched_client_sound [where env = env]
    updateClient_sound assms by metis

lemma row_fields_sound:
  assumes "client_sound parse c"
  shows "client_sound parse (c\<lparr>cl_disabled_at := d, cl_updated_at := now\<rparr>)"
    and "client_sound parse (c\<lparr>cl_client_secret_hash := Some h, cl_updated_at := now\<rparr>)"
  using assms by (auto simp: sound_defs)

lemma client_step_sound:
  assumes "directory_sound parse db" and "client_op_ok parse x"
  shows "directory_sound parse (client_step x db)"
proof (cases x)
  case (Create_client env down body c now)
  then show ?thesis
    using assms createClient_sound [of parse db env _ c now]
    by (auto simp: createClientHandler_def split: sum.splits prod.splits client_change.splits if_splits)
       (metis snd_conv)+
next
  case (Patch_client env down current raw c now)
  then show ?thesis
    using assms updateClientRecord_sound [of parse db env current raw c now]
    by (auto simp: patch_write_def split: prod.splits client_change.splits if_splits)
next
  case (Delete_client down current)
  then show ?thesis
    using assms
    by (auto simp: delete_write_def deleteClient_def directory_sound_def list_all_iff split: prod.splits bool.splits)
next
  case (Rotate_secret env down current now)
  have "directory_sound parse (snd (updateClientSecretHash db cid h now))" for cid h
    unfolding updateClientSecretHash_def
    by (rule update_client_row_sound [OF assms(1)])
       (use assms(1) in \<open>auto simp: directory_sound_def list_all_iff intro: row_fields_sound\<close>)
  with Rotate_secret assms show ?thesis
    by (auto simp: rotate_write_def Let_def split: prod.splits bool.splits) (metis snd_conv)+
next
  case (Disable_client disabled down current now)
  have "directory_sound parse (snd (setClientDisabled db cid d now))" for cid d
    unfolding setClientDisabled_def
    by (rule update_client_row_sound [OF assms(1)])
       (use assms(1) in \<open>auto simp: directory_sound_def list_all_iff intro: row_fields_sound\<close>)
  with Disable_client assms show ?thesis
    by (auto simp: disable_write_def Let_def split: prod.splits bool.splits) (metis snd_conv)+
qed

interpretation client_directory:
  absorbing client_step "\<lambda>_. True" "client_op_ok parse" "directory_sound parse" for parse
  by unfold_locales (simp_all add: client_step_sound)


section \<open>Properties\<close>

text \<open>
  C10. Every registered client satisfies the rules, whatever the administrators did and in whatever order the two halves
  of their requests ran: ids are unique and well formed; a refresh token grant comes with the code grant; a client with
  the code grant, and no other, has redirect URIs, all registrable; a public client has PKCE and no grant of its own; a
  client that authenticates with a secret has the digest of one; exactly the clients that sign assertions have keys,
  from one source; lifetimes are within their bounds.
\<close>

theorem registered_clients_sound:
  assumes "list_all (client_op_ok parse) ops"
  shows "directory_sound parse (fold client_step ops [])"
proof -
  have "directory_sound parse []" by (simp add: directory_sound_def)
  then show ?thesis by (rule client_directory.dead_run [OF TrueI assms])
qed

text \<open>The writes of a scenario: a confidential client, a patch that makes it public, and a second client.\<close>

definition ex_client_env :: client_env where
  "ex_client_env =
     \<lparr>ce_parse = ex_url, ce_https_url = (\<lambda>_. True), ce_issues = (\<lambda>_. []), ce_sha256 = (\<lambda>b. take 2 b),
      ce_id_bytes = replicate 22 7, ce_secret_bytes = replicate 32 9\<rparr>"

definition no_body :: client_body where
  "no_body =
     \<lparr>b_client_id = None, b_client_name = None, b_client_uri = None, b_logo_uri = None, b_redirect_uris = None,
      b_post_logout_redirect_uris = None, b_backchannel_logout_uri = None, b_grant_types = None,
      b_token_endpoint_auth_method = None, b_jwks = None, b_jwks_uri = None, b_scopes_allowed = None,
      b_audiences = None, b_allowed_groups = None, b_skip_consent = None, b_require_par = None,
      b_require_pkce = None, b_offline_access = None, b_access_token_ttl = None, b_id_token_ttl = None,
      b_refresh_token_ttl = None, b_refresh_idle_ttl = None\<rparr>"

definition ex_body :: client_body where
  "ex_body =
     no_body\<lparr>b_client_id := Some ''web-app'', b_client_name := Some '' Web '',
       b_redirect_uris := Some [''https://app.example/cb''],
       b_grant_types := Some [''authorization_code'', ''refresh_token''],
       b_token_endpoint_auth_method := Some ''client_secret_basic'', b_scopes_allowed := Some [''openid'', ''email'']\<rparr>"

definition ex_actor :: validation_context where
  "ex_actor = \<lparr>vc_issuer = ''https://op'', vc_actor_has_admin = True, vc_existing_groups = [''staff'']\<rparr>"

definition ex_registered :: client where
  "ex_registered = hd (client_step (Create_client ex_client_env False (Inr (Inr ex_body)) ex_actor 5) [])"

definition ex_client_ops :: "client_op list" where
  "ex_client_ops =
     [Create_client ex_client_env False (Inr (Inr ex_body)) ex_actor 5,
      Rotate_secret (ex_client_env\<lparr>ce_secret_bytes := replicate 32 8\<rparr>) False ex_registered 6,
      Patch_client ex_client_env False ex_registered
        (Inr (no_body\<lparr>b_token_endpoint_auth_method := Some ''none''\<rparr>)) ex_actor 7,
      Create_client ex_client_env False (Inr (Inr (ex_body\<lparr>b_client_id := None\<rparr>))) ex_actor 8,
      Disable_client True False ex_registered 9]"

theorem registered_clients_sound_witness:
  "list_all (client_op_ok ex_url) ex_client_ops \<and> directory_sound ex_url (fold client_step ex_client_ops []) \<and>
   map (\<lambda>c. (cl_client_id c, cl_token_endpoint_auth_method c, cl_disabled_at c)) (fold client_step ex_client_ops []) =
     [(''web-app'', ''none'', Some 9), (''c_hhhhhhhhhhhhhhhhhhhhhh'', ''client_secret_basic'', None)]"
proof -
  have ok: "list_all (client_op_ok ex_url) ex_client_ops" by (simp add: ex_client_ops_def ex_client_env_def)
  moreover have "map (\<lambda>c. (cl_client_id c, cl_token_endpoint_auth_method c, cl_disabled_at c)) (fold client_step ex_client_ops []) =
     [(''web-app'', ''none'', Some 9), (''c_hhhhhhhhhhhhhhhhhhhhhh'', ''client_secret_basic'', None)]"
    by code_simp
  ultimately show ?thesis using registered_clients_sound [OF ok] by blast
qed


section \<open>Secrets\<close>

fun shown_secret :: "client_reply \<Rightarrow> (string \<times> string) option" where
  "shown_secret (Shown_with_secret _ c (Some s)) = Some (cl_client_id c, s)"
| "shown_secret (Secret_rotated clientId s _) = Some (clientId, s)"
| "shown_secret _ = None"

fun client_answer :: "client_op \<Rightarrow> directory \<Rightarrow> client_reply" where
  "client_answer (Create_client env down body context now) db = fst (createClientHandler env down body context now db)"
| "client_answer (Patch_client env down current raw context now) db = fst (patch_write env down current raw context now db)"
| "client_answer (Delete_client down current) db = fst (delete_write down current db)"
| "client_answer (Rotate_secret env down current now) db = fst (rotate_write env down current now db)"
| "client_answer (Disable_client disabled down current now) db = fst (disable_write disabled down current now db)"

fun op_digest :: "client_op \<Rightarrow> bytes \<Rightarrow> bytes" where
  "op_digest (Create_client env down body context now) = ce_sha256 env"
| "op_digest (Patch_client env down current raw context now) = ce_sha256 env"
| "op_digest (Rotate_secret env down current now) = ce_sha256 env"
| "op_digest _ = (\<lambda>b. b)"

definition stores_secret :: "directory \<Rightarrow> string \<Rightarrow> bytes \<Rightarrow> bool" where
  "stores_secret db clientId hash \<longleftrightarrow> map_option cl_client_secret_hash (getClient db clientId) = Some (Some hash)"

lemma getClient_insert:
  "insertClient db c = (True, db') \<Longrightarrow> getClient db' (cl_client_id c) = Some c"
  by (auto simp: insertClient_def getClient_def insert_row_Some select_one_append dest!: select_one_SomeD split: option.splits)

lemma getClient_update:
  assumes "update_client_row db clientId f = (True, db')" and "\<And>r. cl_client_id (f r) = cl_client_id r"
  shows "\<exists>r. getClient db clientId = Some r \<and> getClient db' clientId = Some (f r)"
  using assms by (auto simp: update_client_row_def getClient_def select_one_update_where dest: select_one_SomeD)

lemma createClient_Changed:
  assumes "createClient env db raw ctx now = (Changed c secret, db')"
  shows "\<exists>i. c = created_client env i now \<and> secret = map_option gs_secret (created_secret env i) \<and>
             insertClient db c = (True, db')"
  using assms
  by (auto simp: createClient_def Let_def split: sum.splits option.splits if_splits prod.splits bool.splits)

lemma updateClientRecord_Changed:
  assumes "updateClientRecord env db current raw ctx now = (Changed c secret, db')"
  shows "\<exists>merged. c = patched_client env current merged now \<and>
             secret = map_option gs_secret (patch_secret env current merged) \<and> updateClient db c now = (True, db')"
  using assms
  by (auto simp: updateClientRecord_def Let_def split: sum.splits option.splits if_splits prod.splits bool.splits)

lemma created_secret_stored:
  assumes "createClient env db raw ctx now = (Changed c (Some s), db')"
  shows "stores_secret db' (cl_client_id c) (ce_sha256 env (utf8 s))"
proof -
  obtain i where c: "c = created_client env i now" and s: "Some s = map_option gs_secret (created_secret env i)"
    and ins: "insertClient db c = (True, db')"
    using createClient_Changed [OF assms] by blast
  have "cl_client_secret_hash c = Some (ce_sha256 env (utf8 s))"
    using c s by (auto simp: created_client_def created_secret_def clientFromInput_def generateClientSecret_def Let_def
        split: if_splits)
  then show ?thesis using getClient_insert [OF ins] by (simp add: stores_secret_def)
qed

lemma patched_secret_stored:
  assumes "updateClientRecord env db current raw ctx now = (Changed c (Some s), db')"
  shows "stores_secret db' (cl_client_id c) (ce_sha256 env (utf8 s))"
proof -
  obtain merged where c: "c = patched_client env current merged now"
    and s: "Some s = map_option gs_secret (patch_secret env current merged)" and u: "updateClient db c now = (True, db')"
    using updateClientRecord_Changed [OF assms] by blast
  have "cl_client_secret_hash c = Some (ce_sha256 env (utf8 s))"
    using c s by (auto simp: patched_client_def patch_secret_def clientFromInput_def generateClientSecret_def Let_def
        split: if_splits)
  moreover have "\<exists>r. getClient db' (cl_client_id c) = Some r \<and> cl_client_secret_hash r = cl_client_secret_hash c"
    using getClient_update [OF u [unfolded updateClient_def]] by auto
  ultimately show ?thesis by (auto simp: stores_secret_def)
qed

lemma rotated_secret_stored:
  assumes "rotate_write env down current now db = (Secret_rotated clientId s t, db')"
  shows "stores_secret db' clientId (ce_sha256 env (utf8 s))"
proof -
  have u: "update_client_row db clientId
             (\<lambda>r. r\<lparr>cl_client_secret_hash := Some (ce_sha256 env (utf8 s)), cl_updated_at := now\<rparr>) = (True, db')"
    using assms by (auto simp: rotate_write_def generateClientSecret_def updateClientSecretHash_def client_missing_def
        directory_unavailable_def Let_def split: if_splits prod.splits bool.splits)
  show ?thesis using getClient_update [OF u] by (auto simp: stores_secret_def)
qed

lemma shown_secret_stored:
  assumes "shown_secret (client_answer x db) = Some (clientId, s)"
  shows "stores_secret (client_step x db) clientId (op_digest x (utf8 s))"
proof (cases x)
  case (Create_client env down body c now)
  then show ?thesis
    using assms created_secret_stored [of env db _ c now]
    by (auto simp: createClientHandler_def publicClient_def client_missing_def directory_unavailable_def
        elim!: shown_secret.elims split: sum.splits if_splits prod.splits client_change.splits)
next
  case (Patch_client env down current raw c now)
  then show ?thesis
    using assms patched_secret_stored [of env db current raw c now]
    by (auto simp: patch_write_def publicClient_def client_missing_def directory_unavailable_def
        elim!: shown_secret.elims split: if_splits prod.splits client_change.splits)
next
  case (Rotate_secret env down current now)
  then show ?thesis
    using assms rotated_secret_stored [of env down current now db]
    by (cases "rotate_write env down current now db")
       (auto simp: rotate_write_def Let_def client_missing_def directory_unavailable_def
         elim!: shown_secret.elims split: if_splits prod.splits bool.splits)
next
  case (Delete_client down current)
  then show ?thesis
    using assms by (auto simp: delete_write_def client_missing_def directory_unavailable_def split: if_splits prod.splits bool.splits)
next
  case (Disable_client disabled down current now)
  then show ?thesis
    using assms by (auto simp: disable_write_def Let_def client_missing_def directory_unavailable_def split: if_splits prod.splits bool.splits)
qed

lemma shown_secret_stored_row:
  assumes "shown_secret (client_answer x db) = Some (clientId, s)" and "getClient (client_step x db) clientId = Some c"
  shows "cl_client_secret_hash c = Some (op_digest x (utf8 s))"
  using shown_secret_stored [OF assms(1)] assms(2) by (simp add: stores_secret_def)

text \<open>
  A patch that read the client before its secret was rotated writes the replaced digest back: the secret shown by the
  rotation is then refused, and the one it replaced is valid again.
\<close>

theorem patch_undoes_rotation:
  assumes "cl_client_secret_hash current = Some old" and "usesSecret (cl_token_endpoint_auth_method current)"
    and "b_token_endpoint_auth_method patch = None"
    and "patch_write env down current (Inr patch) ctx now db = (Shown_with_secret code c secret, db')"
  shows "stores_secret db' (cl_client_id current) old \<and> secret = None"
proof -
  obtain merged where schema: "ClientInputSchema (ce_https_url env) (spread_body (inputOf current) patch) = Some merged"
    and upd: "updateClient db (patched_client env current merged now) now = (True, db')"
    and secret: "secret = map_option gs_secret (patch_secret env current merged)"
    using assms(4) by (auto simp: patch_write_def updateClientRecord_def client_missing_def directory_unavailable_def
        Let_def split: option.splits if_splits prod.splits bool.splits client_change.splits)
  have m: "in_token_endpoint_auth_method merged = cl_token_endpoint_auth_method current"
    using schema assms(3)
    by (auto simp: ClientInputSchema_def Option.bind_eq_Some_conv spread_body_def inputOf_def laid_over_def)
  have none: "patch_secret env current merged = None" using assms(1) by (simp add: patch_secret_def)
  have "cl_client_secret_hash (patched_client env current merged now) = Some old \<and>
        cl_client_id (patched_client env current merged now) = cl_client_id current"
    using m none assms(1,2) by (simp add: patched_client_def clientFromInput_def)
  then show ?thesis
    using getClient_update [OF upd [unfolded updateClient_def]] secret none by (auto simp: stores_secret_def)
qed

end
