(* ===== verification/Client_Auth_Safety.thy ===== *)
theory Client_Auth_Safety
  imports Client_Auth Client_Safety Endpoint_Safety
begin

text \<open>
  Tokens are issued only to a client that proved who it is by its registered method and by nothing else; and the
  secret an administrator was shown is the one that authenticates.
\<close>


section \<open>What authentication proves\<close>

definition no_assertion :: "params \<Rightarrow> bool" where
  "no_assertion ps \<longleftrightarrow> ps ''client_assertion'' = None \<and> ps ''client_assertion_type'' = None"

text \<open>An assertion signed with the client's own keys, for this server, made and expiring within a minute.\<close>

definition proved_by_assertion :: "auth_context_of_client \<Rightarrow> params \<Rightarrow> client \<Rightarrow> bool" where
  "proved_by_assertion ctx ps c \<longleftrightarrow>
     (\<exists>assertion keys a jti.
        ps ''client_assertion_type'' = Some CLIENT_ASSERTION_TYPE \<and> ps ''client_assertion'' = Some assertion \<and>
        client_keys c = Some keys \<and>
        jo_verify (ac_library ctx) keys assertion (cl_client_id c) [ac_issuer ctx, ac_token_endpoint ctx] (ac_now ctx) =
          Inr a \<and>
        \<bar>va_iat a - ac_now ctx\<bar> \<le> 60 \<and> va_exp a \<le> ac_now ctx + 60 \<and>
        va_jti a = Some jti \<and> jti \<noteq> [] \<and> length jti \<le> 255)"

text \<open>The proof the registered method asks for, with no credential of another method beside it.\<close>

definition proved :: "auth_context_of_client \<Rightarrow> params \<Rightarrow> string option \<Rightarrow> string \<Rightarrow> client \<Rightarrow> bool" where
  "proved ctx ps authorization clientId c =
     (let auth = cl_token_endpoint_auth_method c; digest = (\<lambda>s. ac_sha256 ctx (utf8 s)) in
      if auth = ''none'' then
        authorization = None \<and> ps ''client_secret'' = None \<and> no_assertion ps \<and> ps ''client_id'' = Some clientId
      else if auth = ''client_secret_basic'' then
        ps ''client_secret'' = None \<and> no_assertion ps \<and>
        (\<exists>header secret. authorization = Some header \<and>
           parseBasic (ac_library ctx) header = Some \<lparr>bc_id = clientId, bc_secret = secret\<rparr> \<and>
           cl_client_secret_hash c = Some (digest secret))
      else if auth = ''client_secret_post'' then
        authorization = None \<and> no_assertion ps \<and> ps ''client_id'' = Some clientId \<and>
        (\<exists>secret. ps ''client_secret'' = Some secret \<and> cl_client_secret_hash c = Some (digest secret))
      else authorization = None \<and> ps ''client_secret'' = None \<and> proved_by_assertion ctx ps c)"

lemma rejected_not [simp]: "rejected reason clientId b \<noteq> Authenticated c"
  by (simp add: rejected_def)

lemma claimed_identity_InrD:
  assumes "claimed_identity lib ps authorization = Inr (basic, clientId)"
  shows "CLIENT_ID_PATTERN clientId"
    and "basic = (case authorization of None \<Rightarrow> None | Some h \<Rightarrow> parseBasic lib h)"
    and "authorization \<noteq> None \<Longrightarrow> \<exists>b. basic = Some b \<and> bc_id b = clientId"
    and "basic = None \<Longrightarrow> ps ''client_assertion'' = None \<Longrightarrow> ps ''client_id'' = Some clientId"
    and "ps ''client_id'' \<noteq> None \<Longrightarrow> ps ''client_id'' = Some clientId"
  using assms by (auto simp: claimed_identity_def Let_def rejected_def split: if_splits option.splits)

lemma extra_credentials_Nil:
  "extra_credentials ps basic auth = [] \<longleftrightarrow>
     (basic \<noteq> None \<longrightarrow> auth = ''client_secret_basic'') \<and> (ps ''client_secret'' \<noteq> None \<longrightarrow> auth = ''client_secret_post'') \<and>
     (no_assertion ps \<or> auth = ''private_key_jwt'')"
  by (auto simp: extra_credentials_def no_assertion_def)

lemma assertion_window_None:
  "assertion_window now a = None \<longleftrightarrow>
     \<bar>va_iat a - now\<bar> \<le> 60 \<and> va_exp a \<le> now + 60 \<and>
     (\<exists>jti. va_jti a = Some jti \<and> jti \<noteq> [] \<and> length jti \<le> 255)"
  by (auto simp: assertion_window_def ASSERTION_WINDOW_SECONDS_def ASSERTION_JTI_MAX_LENGTH_def split: option.splits)

lemma verify_client_assertion_None:
  assumes "verify_client_assertion ctx assertion c = None"
  shows "\<exists>keys a. client_keys c = Some keys \<and>
           jo_verify (ac_library ctx) keys assertion (cl_client_id c) [ac_issuer ctx, ac_token_endpoint ctx] (ac_now ctx) =
             Inr a \<and> assertion_window (ac_now ctx) a = None"
  using assms by (auto simp: verify_client_assertion_def split: option.splits if_splits sum.splits)

lemma secretMatches_iff [simp]:
  "secretMatches sha256 c s \<longleftrightarrow> cl_client_secret_hash c = Some (sha256 (utf8 s))"
  by (auto simp: secretMatches_def secretsEqual_def split: option.splits)

lemma check_method_proved:
  assumes "check_method ctx ps basic (authorization \<noteq> None) clientId c = Authenticated c'"
    and id: "claimed_identity (ac_library ctx) ps authorization = Inr (basic, clientId)"
    and extra: "extra_credentials ps basic (cl_token_endpoint_auth_method c) = []"
  shows "c' = c \<and> proved ctx ps authorization clientId c"
proof -
  note i = claimed_identity_InrD [OF id] and e = extra [unfolded extra_credentials_Nil]
  consider "cl_token_endpoint_auth_method c = ''none''" | "cl_token_endpoint_auth_method c = ''client_secret_basic''"
    | "cl_token_endpoint_auth_method c = ''client_secret_post''"
    | "cl_token_endpoint_auth_method c \<notin> {''none'', ''client_secret_basic'', ''client_secret_post''}"
    by blast
  then show ?thesis
  proof cases
    case 1
    then show ?thesis
      using assms(1) i e by (cases authorization) (auto simp: check_method_def proved_def no_assertion_def)
  next
    case 2
    then obtain b where b: "basic = Some b" "cl_client_secret_hash c = Some (ac_sha256 ctx (utf8 (bc_secret b)))" "c' = c"
      using assms(1) by (auto simp: check_method_def split: option.splits if_splits)
    then obtain header where "authorization = Some header" "parseBasic (ac_library ctx) header = Some b" "bc_id b = clientId"
      using i(2,3) by (auto split: option.splits)
    then show ?thesis using 2 b e by (cases b) (auto simp: proved_def no_assertion_def)
  next
    case 3
    then obtain secret where "ps ''client_secret'' = Some secret" "ps ''client_id'' \<noteq> None" "c' = c"
        "cl_client_secret_hash c = Some (ac_sha256 ctx (utf8 secret))"
      using assms(1) by (auto simp: check_method_def split: option.splits if_splits)
    moreover have "authorization = None" using 3 i(2,3) e by (cases authorization) auto
    moreover have "no_assertion ps" using 3 e by simp
    ultimately show ?thesis using 3 i(5) by (simp add: proved_def)
  next
    case 4
    then obtain assertion where "ps ''client_assertion_type'' = Some CLIENT_ASSERTION_TYPE"
        "ps ''client_assertion'' = Some assertion" "verify_client_assertion ctx assertion c = None" "c' = c"
      using assms(1) by (auto simp: check_method_def split: option.splits if_splits)
    moreover have "authorization = None \<and> ps ''client_secret'' = None"
      using 4 i(2,3) e by (cases authorization) auto
    ultimately show ?thesis
      using 4 verify_client_assertion_None [of ctx assertion c]
      by (auto simp: proved_def proved_by_assertion_def assertion_window_None)
  qed
qed

lemma authenticateClient_proved:
  assumes "authenticateClient ctx ps authorization = Authenticated c"
  shows "\<exists>clientId. CLIENT_ID_PATTERN clientId \<and> ac_lookup ctx clientId = Some (Some c) \<and> cl_disabled_at c = None \<and>
           proved ctx ps authorization clientId c"
proof -
  obtain basic clientId c0 where id: "claimed_identity (ac_library ctx) ps authorization = Inr (basic, clientId)"
    and lookup: "ac_lookup ctx clientId = Some (Some c0)" and en: "cl_disabled_at c0 = None"
    and extra: "extra_credentials ps basic (cl_token_endpoint_auth_method c0) = []"
    and ok: "check_method ctx ps basic (authorization \<noteq> None) clientId c0 = Authenticated c"
    using assms
    by (auto simp: authenticateClient_def Let_def claimed_identity_def split: sum.splits option.splits if_splits)
  show ?thesis
    using check_method_proved [OF ok id extra] claimed_identity_InrD(1) [OF id] lookup en by auto
qed

lemma authenticateFormClient_ok:
  "authenticateFormClient ctx client_limited ip_limited ps authorization = Auth_ok c \<longleftrightarrow>
     authenticateClient ctx ps authorization = Authenticated c"
  by (auto simp: authenticateFormClient_def split: client_auth_result.splits)

lemma authenticateFormClient_no_tokens:
  "authenticateFormClient ctx client_limited ip_limited ps authorization \<noteq> Auth_failed (Tokens r) disabled"
  by (auto simp: authenticateFormClient_def auth_failure_reply_def split: client_auth_result.splits option.splits)


section \<open>Properties\<close>

text \<open>
  C8. No tokens without proof: when the token endpoint answers a request with tokens, the request named a registered,
  enabled client and carried the proof of exactly the method that client is registered for: a secret whose digest is
  stored, in the place the method says; or an assertion verified with the client's own keys for this server, within a
  minute of now; or, for a public client, nothing but the id. It carried no credential of any other method, and the grant
  type is one of the client's.
\<close>

theorem tokens_need_proof:
  assumes "token_endpoint env ctx client_limited ip_limited contentType body authorization objs = (Tokens r, evs, objs')"
  shows "\<exists>ps clientId c. readForm contentType body = Inr ps \<and> CLIENT_ID_PATTERN clientId \<and>
           ac_lookup ctx clientId = Some (Some c) \<and> cl_disabled_at c = None \<and>
           proved ctx (map_of ps) authorization clientId c \<and>
           param (map_of ps) ''grant_type'' \<in> set (cl_grant_types c)"
proof (cases "readForm contentType body")
  case (Inl reason)
  then show ?thesis using assms by (simp add: token_endpoint_def tokenHandler_def)
next
  case (Inr ps)
  have "tokenHandler env (Inr (map_of ps))
          (authenticateFormClient ctx client_limited ip_limited (map_of ps) authorization) objs = (Tokens r, evs, objs')"
    using assms Inr by (simp add: token_endpoint_def)
  then obtain c where "authenticateFormClient ctx client_limited ip_limited (map_of ps) authorization = Auth_ok c"
    and grant: "param (map_of ps) ''grant_type'' \<in> set (cl_grant_types c)"
    by (rule tokenHandler_Tokens) (use authenticateFormClient_no_tokens in auto)
  then have "authenticateClient ctx (map_of ps) authorization = Authenticated c"
    by (simp add: authenticateFormClient_ok)
  from authenticateClient_proved [OF this] grant Inr show ?thesis by blast
qed

text \<open>A directory with the client of the scenario, and its request by Basic with the secret it has.\<close>

definition ex_library :: auth_library where
  "ex_library =
     \<lparr>jo_atob = (\<lambda>t. Some ''web:pw''), jo_decode_uri = Some, jo_issuer = (\<lambda>_. None), jo_algorithm = (\<lambda>_. None),
      jo_verify = (\<lambda>_ _ _ _ _. Inl ''unsigned'')\<rparr>"

definition ex_auth_context :: auth_context_of_client where
  "ex_auth_context =
     \<lparr>ac_lookup = (\<lambda>i. Some (if i = ''web'' then Some ex_service else None)), ac_issuer = ''https://op'',
      ac_token_endpoint = ''https://op/token'', ac_now = 1010, ac_sha256 = (\<lambda>_. [1]), ac_library = ex_library\<rparr>"

definition ex_token_form :: "(string \<times> string) list" where
  "ex_token_form = [(''grant_type'', ''client_credentials''), (''scope'', ''admin'')]"

theorem tokens_need_proof_witness:
  "\<exists>r evs objs'. token_endpoint ex_env ex_auth_context (\<lambda>_. False) False
       (Some ''application/x-www-form-urlencoded; charset=UTF-8'') ex_token_form (Some ''Basic d2ViOnB3'') (\<lambda>_. fresh_user_do) =
       (Tokens r, evs, objs') \<and>
     (\<exists>ps clientId c. readForm (Some ''application/x-www-form-urlencoded; charset=UTF-8'') ex_token_form = Inr ps \<and>
        CLIENT_ID_PATTERN clientId \<and> ac_lookup ex_auth_context clientId = Some (Some c) \<and> cl_disabled_at c = None \<and>
        proved ex_auth_context (map_of ps) (Some ''Basic d2ViOnB3'') clientId c \<and>
        param (map_of ps) ''grant_type'' \<in> set (cl_grant_types c))"
proof -
  let ?out = "token_endpoint ex_env ex_auth_context (\<lambda>_. False) False
       (Some ''application/x-www-form-urlencoded; charset=UTF-8'') ex_token_form (Some ''Basic d2ViOnB3'') (\<lambda>_. fresh_user_do)"
  have "case fst ?out of Tokens r \<Rightarrow> True | _ \<Rightarrow> False" by code_simp
  then obtain r evs objs' where out: "?out = (Tokens r, evs, objs')"
    by (cases ?out) (auto split: token_reply.splits)
  from tokens_need_proof [OF out] out show ?thesis by blast
qed

section \<open>The secret that was shown\<close>

text \<open>
  A later administrative call keeps the stored secret of a client unless it rotates or deletes that client, or patches it
  away from a method with a secret, or lays its patch over a record read before the secret was stored.
\<close>

fun keeps_secret_of :: "string \<Rightarrow> bytes \<Rightarrow> client_op \<Rightarrow> bool" where
  "keeps_secret_of clientId hash (Create_client env down body context now) \<longleftrightarrow> True"
| "keeps_secret_of clientId hash (Patch_client env down current raw context now) \<longleftrightarrow>
     cl_client_id current \<noteq> clientId \<or>
     cl_client_secret_hash current = Some hash \<and>
     (case raw of
        Inl _ \<Rightarrow> True
      | Inr patch \<Rightarrow> usesSecret (or_setting (b_token_endpoint_auth_method patch) (cl_token_endpoint_auth_method current)))"
| "keeps_secret_of clientId hash (Delete_client down current) \<longleftrightarrow> cl_client_id current \<noteq> clientId"
| "keeps_secret_of clientId hash (Rotate_secret env down current now) \<longleftrightarrow> cl_client_id current \<noteq> clientId"
| "keeps_secret_of clientId hash (Disable_client disabled down current now) \<longleftrightarrow> True"

lemma stores_update:
  assumes "stores_secret db clientId hash" and "\<And>r. cl_client_id (f r) = cl_client_id r"
    and "\<And>r. clientId' = clientId \<Longrightarrow> cl_client_secret_hash r = Some hash \<Longrightarrow> cl_client_secret_hash (f r) = Some hash"
  shows "stores_secret (snd (update_client_row db clientId' f)) clientId hash"
proof -
  obtain r where r: "select_one (\<lambda>r. cl_client_id r = clientId) db = Some r" "cl_client_secret_hash r = Some hash"
    using assms(1) by (auto simp: stores_secret_def getClient_def)
  have id: "cl_client_id r = clientId" using select_one_SomeD [OF r(1)] by simp
  have "select_one (\<lambda>r. cl_client_id r = clientId) (update_where (\<lambda>r. cl_client_id r = clientId') f db) =
      Some (if cl_client_id r = clientId' then f r else r)"
    using r(1) assms(2) by (simp add: select_one_update_where)
  moreover have "cl_client_secret_hash (if cl_client_id r = clientId' then f r else r) = Some hash"
    using assms(3) r(2) id by simp
  ultimately show ?thesis by (simp add: stores_secret_def getClient_def update_client_row_def)
qed

lemma stores_insert: "stores_secret db clientId hash \<Longrightarrow> stores_secret (snd (insertClient db c)) clientId hash"
  by (auto simp: stores_secret_def getClient_def insertClient_def insert_row_def select_one_append split: option.splits if_splits)

lemma stores_delete:
  assumes "stores_secret db clientId hash" and "clientId' \<noteq> clientId"
  shows "stores_secret (snd (deleteClient db clientId')) clientId hash"
proof -
  have "select_one (\<lambda>r. cl_client_id r = clientId) (delete_where (\<lambda>r. cl_client_id r = clientId') db) =
      select_one (\<lambda>r. cl_client_id r = clientId) db"
    using assms(2) by (induction db) (auto simp: select_one_def delete_where_def)
  then show ?thesis using assms(1) by (simp add: stores_secret_def getClient_def deleteClient_def)
qed

lemma patch_keeps_secret:
  assumes "stores_secret db clientId hash" and "keeps_secret_of clientId hash (Patch_client env down current raw context now)"
  shows "stores_secret (snd (updateClientRecord env db current raw context now)) clientId hash"
  using updateClientRecord_writes [of env db current raw "context" now]
proof (elim disjE exE conjE)
  fix patch merged
  assume raw: "raw = Inr patch"
    and schema: "ClientInputSchema (ce_https_url env) (spread_body (inputOf current) patch) = Some merged"
    and upd: "snd (updateClientRecord env db current raw context now) = snd (updateClient db (patched_client env current merged now) now)"
  have auth: "in_token_endpoint_auth_method merged =
      or_setting (b_token_endpoint_auth_method patch) (cl_token_endpoint_auth_method current)"
    using schema
    by (cases "b_token_endpoint_auth_method patch")
       (auto simp: ClientInputSchema_def Option.bind_eq_Some_conv spread_body_def inputOf_def laid_over_def or_setting_def)
  have "cl_client_secret_hash (patched_client env current merged now) = Some hash" if "cl_client_id current = clientId"
    using assms(2) that raw auth by (simp add: patched_client_def patch_secret_def clientFromInput_def)
  moreover have "cl_client_id (patched_client env current merged now) = cl_client_id current"
    by (simp add: patched_client_def clientFromInput_def Let_def)
  ultimately show ?thesis unfolding upd updateClient_def by (intro stores_update [OF assms(1)]) simp_all
qed (use assms(1) in simp)

lemma create_keeps_secret:
  "stores_secret db clientId hash \<Longrightarrow> stores_secret (snd (createClient env db raw context now)) clientId hash"
  using createClient_writes [of env db raw "context" now] stores_insert by fastforce

lemma client_step_keeps_secret:
  assumes "stores_secret db clientId hash" and "keeps_secret_of clientId hash x"
  shows "stores_secret (client_step x db) clientId hash"
proof (cases x)
  case (Create_client env down body c now)
  have "client_step x db = db \<or> (\<exists>raw. client_step x db = snd (createClient env db raw c now))"
    using Create_client by (auto simp: createClientHandler_def split: sum.splits prod.splits client_change.splits)
      (metis snd_conv)+
  then show ?thesis using create_keeps_secret [OF assms(1)] assms(1) by auto
next
  case (Patch_client env down current raw c now)
  have "client_step x db = db \<or> client_step x db = snd (updateClientRecord env db current raw c now)"
    using Patch_client by (auto simp: patch_write_def split: prod.splits client_change.splits)
  then show ?thesis using patch_keeps_secret [OF assms(1)] assms Patch_client by auto
next
  case (Delete_client down current)
  then show ?thesis
    using stores_delete [OF assms(1)] assms by (auto simp: delete_write_def split: prod.splits bool.splits) (metis snd_conv)+
next
  case (Rotate_secret env down current now)
  have "client_step x db = db \<or> (\<exists>h. client_step x db = snd (updateClientSecretHash db (cl_client_id current) h now))"
    using Rotate_secret by (auto simp: rotate_write_def Let_def split: prod.splits bool.splits) (metis snd_conv)+
  then show ?thesis
    using assms Rotate_secret unfolding updateClientSecretHash_def by (auto intro!: stores_update)
next
  case (Disable_client disabled down current now)
  have "client_step x db = db \<or> (\<exists>d. client_step x db = snd (setClientDisabled db (cl_client_id current) d now))"
    using Disable_client by (auto simp: disable_write_def Let_def split: prod.splits bool.splits) (metis snd_conv)+
  then show ?thesis using assms(1) unfolding setClientDisabled_def by (auto intro!: stores_update)
qed

lemma later_calls_keep_secret:
  "stores_secret db clientId hash \<Longrightarrow> list_all (keeps_secret_of clientId hash) ops \<Longrightarrow>
   stores_secret (fold client_step ops db) clientId hash"
  by (induction ops arbitrary: db) (auto intro: client_step_keeps_secret)

text \<open>The secret where the client's method wants it, and no other credential.\<close>

definition presents_secret :: "auth_library \<Rightarrow> string \<Rightarrow> string \<Rightarrow> string \<Rightarrow> params \<Rightarrow> string option \<Rightarrow> bool" where
  "presents_secret lib auth clientId s ps authorization \<longleftrightarrow>
     no_assertion ps \<and>
     (if auth = ''client_secret_basic''
      then ps ''client_id'' \<in> {None, Some clientId} \<and> ps ''client_secret'' = None \<and>
        (case authorization of None \<Rightarrow> False | Some header \<Rightarrow> parseBasic lib header = Some \<lparr>bc_id = clientId, bc_secret = s\<rparr>)
      else ps ''client_id'' = Some clientId \<and> ps ''client_secret'' = Some s \<and> authorization = None)"

text \<open>
  C18. The secret that was shown is the one that works. After any administrative write whose answer shows a secret, and any
  later administrative calls, on records as old as they may be, that neither rotate or delete that client nor patch it to a
  method without a secret or from a record read before the secret was stored: if the client then uses HTTP Basic or a form
  secret and is not disabled, a request that names it, carries the shown secret the way its method says and no other
  credential, is authenticated as that client.
\<close>

theorem shown_secret_authenticates:
  assumes "shown_secret (client_answer x db) = Some (clientId, s)"
    and "list_all (keeps_secret_of clientId (op_digest x (utf8 s))) ops"
    and "getClient (fold client_step ops (client_step x db)) clientId = Some c" and "cl_disabled_at c = None"
    and "cl_token_endpoint_auth_method c \<in> {''client_secret_basic'', ''client_secret_post''}" and "CLIENT_ID_PATTERN clientId"
    and "ac_lookup ctx = (\<lambda>i. Some (getClient (fold client_step ops (client_step x db)) i))" and "ac_sha256 ctx = op_digest x"
    and "presents_secret (ac_library ctx) (cl_token_endpoint_auth_method c) clientId s ps authorization"
  shows "authenticateClient ctx ps authorization = Authenticated c"
proof -
  have "stores_secret (fold client_step ops (client_step x db)) clientId (op_digest x (utf8 s))"
    by (rule later_calls_keep_secret [OF shown_secret_stored [OF assms(1)] assms(2)])
  then have hash: "cl_client_secret_hash c = Some (ac_sha256 ctx (utf8 s))"
    using assms(3,8) by (simp add: stores_secret_def)
  show ?thesis
  proof (cases "cl_token_endpoint_auth_method c = ''client_secret_basic''")
    case True
    then obtain header where h: "authorization = Some header" "parseBasic (ac_library ctx) header = Some \<lparr>bc_id = clientId, bc_secret = s\<rparr>"
        "ps ''client_id'' \<in> {None, Some clientId}" "ps ''client_secret'' = None" "no_assertion ps"
      using assms(9) by (auto simp: presents_secret_def split: option.splits)
    have "claimed_identity (ac_library ctx) ps authorization = Inr (Some \<lparr>bc_id = clientId, bc_secret = s\<rparr>, clientId)"
      using h assms(6) by (auto simp: claimed_identity_def no_assertion_def)
    moreover have "extra_credentials ps (Some \<lparr>bc_id = clientId, bc_secret = s\<rparr>) ''client_secret_basic'' = []"
      using h by (simp add: extra_credentials_Nil)
    ultimately show ?thesis
      using assms(3,4,7) True hash by (simp add: authenticateClient_def check_method_def)
  next
    case False
    then have post: "cl_token_endpoint_auth_method c = ''client_secret_post''" using assms(5) by simp
    have p: "authorization = None" "ps ''client_id'' = Some clientId" "ps ''client_secret'' = Some s" "no_assertion ps"
      using assms(9) False by (auto simp: presents_secret_def)
    have "claimed_identity (ac_library ctx) ps authorization = Inr (None, clientId)"
      using p assms(6) by (simp add: claimed_identity_def no_assertion_def)
    moreover have "extra_credentials ps None ''client_secret_post'' = []"
      using p by (simp add: extra_credentials_Nil)
    ultimately show ?thesis
      using assms(3,4,7) post p(2,3) hash by (simp add: authenticateClient_def check_method_def)
  qed
qed

text \<open>
  The client of the administrative scenario after its secret was rotated, then disabled and enabled, while another client
  was deleted; and a request with the rotated secret.
\<close>

definition ex_rotation :: client_op where
  "ex_rotation = Rotate_secret (ex_client_env\<lparr>ce_secret_bytes := replicate 32 8\<rparr>) False ex_registered 6"

definition ex_new_secret :: string where
  "ex_new_secret = encodeBase64Url (replicate 32 8)"

definition ex_later_calls :: "client_op list" where
  "ex_later_calls =
     [Disable_client True False ex_registered 7, Disable_client False False ex_registered 8,
      Delete_client False (ex_registered\<lparr>cl_client_id := ''other''\<rparr>)]"

definition ex_later_directory :: directory where
  "ex_later_directory = fold client_step ex_later_calls (client_step ex_rotation [ex_registered])"

definition ex_rotated_context :: auth_context_of_client where
  "ex_rotated_context =
     ex_auth_context\<lparr>ac_lookup := (\<lambda>i. Some (getClient ex_later_directory i)), ac_sha256 := op_digest ex_rotation,
       ac_library := ex_library\<lparr>jo_atob := (\<lambda>t. Some (''web-app:'' @ ex_new_secret))\<rparr>\<rparr>"

theorem shown_secret_authenticates_witness:
  "\<exists>c. authenticateClient ex_rotated_context Map.empty (Some ''Basic d2Vi'') = Authenticated c \<and> cl_client_id c = ''web-app''"
proof -
  have shown: "shown_secret (client_answer ex_rotation [ex_registered]) = Some (''web-app'', ex_new_secret)" by code_simp
  have later: "list_all (keeps_secret_of ''web-app'' (op_digest ex_rotation (utf8 ex_new_secret))) ex_later_calls"
    by (simp add: ex_later_calls_def)
  have "case getClient ex_later_directory ''web-app'' of None \<Rightarrow> False
        | Some c \<Rightarrow> cl_client_id c = ''web-app'' \<and> cl_disabled_at c = None \<and>
                    cl_token_endpoint_auth_method c = ''client_secret_basic''"
    by code_simp
  then obtain c where c: "getClient ex_later_directory ''web-app'' = Some c" "cl_client_id c = ''web-app''" "cl_disabled_at c = None"
      "cl_token_endpoint_auth_method c = ''client_secret_basic''"
    by (auto split: option.splits)
  have pat: "CLIENT_ID_PATTERN ''web-app''" by code_simp
  have basic: "parseBasic (ac_library ex_rotated_context) ''Basic d2Vi'' =
      Some \<lparr>bc_id = ''web-app'', bc_secret = ex_new_secret\<rparr>" by code_simp
  have req: "presents_secret (ac_library ex_rotated_context) (cl_token_endpoint_auth_method c) ''web-app'' ex_new_secret Map.empty
      (Some ''Basic d2Vi'')"
    using basic c(4) by (simp add: presents_secret_def no_assertion_def)
  have "authenticateClient ex_rotated_context Map.empty (Some ''Basic d2Vi'') = Authenticated c"
    by (rule shown_secret_authenticates [OF shown later c(1) [unfolded ex_later_directory_def] c(3) _ pat _ _ req])
       (simp_all add: ex_rotated_context_def c(4) ex_later_directory_def)
  with c show ?thesis by blast
qed

end
