(* ===== verification/Caches.thy ===== *)
theory Caches
  imports Settings
begin

text \<open>
  The isolate caches: the early-refresh policy of \<^verbatim>\<open>src/util/swr.ts\<close>, \<^verbatim>\<open>RecordCache\<close> of
  \<^verbatim>\<open>src/oidc/client-cache.ts\<close> and \<^verbatim>\<open>SettingsLoader\<close> of \<^verbatim>\<open>src/env.ts\<close>. The outcome of
  reading the database is an argument. A background refresh is an event of its own: it stores what it read, stamped with
  the time at which it was started. \<open>stale_cache\<close> is what all of them promise.
\<close>


section \<open>The policy\<close>

datatype freshness = Fresh | Early | Expired

text \<open>\<^verbatim>\<open>REFRESH_AFTER_SHARE\<close> is three quarters.\<close>

definition verdict :: "int \<Rightarrow> int \<Rightarrow> freshness" where
  "verdict age ttl = (if age \<ge> ttl then Expired else if 4 * age \<ge> 3 * ttl then Early else Fresh)"

datatype ('k, 'l, 'v) cache_event =
    Got 'k seconds 'l
  | Refreshed 'k seconds 'v
  | Dropped "'k option"

fun cache_step ::
  "('k \<Rightarrow> seconds \<Rightarrow> 'l \<Rightarrow> 's \<Rightarrow> 'v option \<times> 's) \<Rightarrow> ('k \<Rightarrow> seconds \<Rightarrow> 'v \<Rightarrow> 's \<Rightarrow> 's) \<Rightarrow> ('k option \<Rightarrow> 's \<Rightarrow> 's) \<Rightarrow>
   ('k, 'l, 'v) cache_event \<Rightarrow> 's \<Rightarrow> 's" where
  "cache_step get refresh invalidate (Got k now l) s = snd (get k now l s)"
| "cache_step get refresh invalidate (Refreshed k now v) s = refresh k now v s"
| "cache_step get refresh invalidate (Dropped k) s = invalidate k s"

text \<open>The reads of the database in a sequence of events: key, time of the start, value.\<close>

fun reads_of :: "('l \<Rightarrow> 'v option) \<Rightarrow> ('k, 'l, 'v) cache_event \<Rightarrow> ('k \<times> seconds \<times> 'v) list" where
  "reads_of load (Got k now l) = (case load l of None \<Rightarrow> [] | Some v \<Rightarrow> [(k, now, v)])"
| "reads_of load (Refreshed k now v) = [(k, now, v)]"
| "reads_of load (Dropped k) = []"

definition all_reads :: "('l \<Rightarrow> 'v option) \<Rightarrow> ('k, 'l, 'v) cache_event list \<Rightarrow> ('k \<times> seconds \<times> 'v) list" where
  "all_reads load evs = concat (map (reads_of load) evs)"

text \<open>
  The promise. \<open>holds s k v t\<close>: the cache holds the value \<open>v\<close> for the key, from a read started at \<open>t\<close>. What is
  held came from a read; what \<open>get\<close> answers was just read, or is held and younger than \<open>stale\<close>, and younger than
  \<open>ttl\<close> if the database answered.
\<close>

locale stale_cache =
  fixes holds :: "'s \<Rightarrow> 'k \<Rightarrow> 'v \<Rightarrow> seconds \<Rightarrow> bool"
    and get :: "'k \<Rightarrow> seconds \<Rightarrow> 'l \<Rightarrow> 's \<Rightarrow> 'v option \<times> 's"
    and refresh :: "'k \<Rightarrow> seconds \<Rightarrow> 'v \<Rightarrow> 's \<Rightarrow> 's"
    and invalidate :: "'k option \<Rightarrow> 's \<Rightarrow> 's"
    and load :: "'l \<Rightarrow> 'v option" and ttl :: seconds and stale :: seconds
  assumes get_holds: "holds (snd (get k now l s)) k' v t \<Longrightarrow>
      holds s k' v t \<or> k' = k \<and> t = now \<and> load l = Some v"
    and refresh_holds: "holds (refresh k now w s) k' v t \<Longrightarrow> holds s k' v t \<or> k' = k \<and> t = now \<and> v = w"
    and invalidate_holds: "holds (invalidate x s) k' v t \<Longrightarrow> holds s k' v t"
    and get_serves: "fst (get k now l s) = Some v \<Longrightarrow>
      load l = Some v \<or> (\<exists>t. holds s k v t \<and> now - t < stale \<and> (load l \<noteq> None \<longrightarrow> now - t < ttl))"
begin

lemma held_was_read:
  assumes "\<And>k v t. \<not> holds s k v t" and "holds (fold (cache_step get refresh invalidate) evs s) k v t"
  shows "(k, t, v) \<in> set (all_reads load evs)"
  using assms(2)
proof (induction evs arbitrary: v t k rule: rev_induct)
  case Nil
  then show ?case using assms(1) by simp
next
  case (snoc e evs)
  then show ?case
    by (cases e) (auto simp: all_reads_def dest!: get_holds refresh_holds invalidate_holds)
qed

lemma served_age:
  assumes "\<And>k v t. \<not> holds s k v t"
    and "fst (get k now l (fold (cache_step get refresh invalidate) evs s)) = Some v"
  shows "load l = Some v \<or>
         (\<exists>t. (k, t, v) \<in> set (all_reads load evs) \<and> now - t < stale \<and> (load l \<noteq> None \<longrightarrow> now - t < ttl))"
  using get_serves [OF assms(2)] held_was_read [OF assms(1)] by blast

end


section \<open>Directory records\<close>

definition CLIENT_CACHE_TTL_SECONDS :: seconds where "CLIENT_CACHE_TTL_SECONDS = 60"
definition CLIENT_CACHE_STALE_SECONDS :: seconds where "CLIENT_CACHE_STALE_SECONDS = 3600"
definition CLIENT_CACHE_CAPACITY :: nat where "CLIENT_CACHE_CAPACITY = 1000"

text \<open>
  The entries in the order of a JavaScript map, least recently used first. A record that does not exist is cached as
  \<^term>\<open>None\<close>.
\<close>

type_synonym 'r record_cache = "(string \<times> 'r option \<times> seconds) list"

definition touch_entry :: "string \<Rightarrow> 'r option \<times> seconds \<Rightarrow> 'r record_cache \<Rightarrow> 'r record_cache" where
  "touch_entry k e cache =
     (let moved = filter (\<lambda>(k', _). k' \<noteq> k) cache @ [(k, e)] in
      if length moved > CLIENT_CACHE_CAPACITY then tl moved else moved)"

definition cache_refresh :: "string \<Rightarrow> seconds \<Rightarrow> 'r option \<Rightarrow> 'r record_cache \<Rightarrow> 'r record_cache" where
  "cache_refresh k now r cache = touch_entry k (r, now) cache"

text \<open>\<open>loaded\<close> is \<^term>\<open>None\<close> when the database fails; so is the answer when the directory is unavailable.\<close>

definition RecordCache_get ::
  "string \<Rightarrow> seconds \<Rightarrow> 'r option option \<Rightarrow> 'r record_cache \<Rightarrow> 'r option option \<times> 'r record_cache" where
  "RecordCache_get k now loaded cache =
     (case map_of cache k of
        Some (r, t) \<Rightarrow>
          if verdict (now - t) CLIENT_CACHE_TTL_SECONDS \<noteq> Expired then (Some r, touch_entry k (r, t) cache)
          else
            (case loaded of
               Some r' \<Rightarrow> (Some r', cache_refresh k now r' cache)
             | None \<Rightarrow> (if now - t < CLIENT_CACHE_STALE_SECONDS then Some r else None, cache))
      | None \<Rightarrow>
          (case loaded of
             Some r' \<Rightarrow> (Some r', cache_refresh k now r' cache)
           | None \<Rightarrow> (None, cache)))"

definition cache_invalidate :: "string option \<Rightarrow> 'r record_cache \<Rightarrow> 'r record_cache" where
  "cache_invalidate k cache = (case k of None \<Rightarrow> [] | Some k' \<Rightarrow> filter (\<lambda>(k'', _). k'' \<noteq> k') cache)"


section \<open>Settings\<close>

definition SETTINGS_TTL_SECONDS :: seconds where "SETTINGS_TTL_SECONDS = 60"
definition SETTINGS_STALE_SECONDS :: seconds where "SETTINGS_STALE_SECONDS = 3600"

type_synonym 'v loader = "('v \<times> seconds) option"

text \<open>Reading the settings: the table, if the database answers, resolved as a whole or refused.\<close>

definition settings_refresh ::
  "url_parser \<Rightarrow> (stored \<Rightarrow> string list) \<Rightarrow> config \<Rightarrow> stored option \<Rightarrow> settings option" where
  "settings_refresh safeUrl message config table =
     (case table of
        None \<Rightarrow> None
      | Some stored \<Rightarrow> (case resolveSettings safeUrl message stored config of Inl _ \<Rightarrow> None | Inr s \<Rightarrow> Some s))"

definition SettingsLoader_get ::
  "url_parser \<Rightarrow> (stored \<Rightarrow> string list) \<Rightarrow> config \<Rightarrow> seconds \<Rightarrow> stored option \<Rightarrow> settings loader \<Rightarrow>
   settings option \<times> settings loader" where
  "SettingsLoader_get safeUrl message config now table cached =
     (case cached of
        Some (s, t) \<Rightarrow>
          if verdict (now - t) SETTINGS_TTL_SECONDS \<noteq> Expired then (Some s, cached)
          else
            (case settings_refresh safeUrl message config table of
               Some s' \<Rightarrow> (Some s', Some (s', now))
             | None \<Rightarrow> (if now - t < SETTINGS_STALE_SECONDS then Some s else None, cached))
      | None \<Rightarrow>
          (case settings_refresh safeUrl message config table of
             Some s' \<Rightarrow> (Some s', Some (s', now))
           | None \<Rightarrow> (None, cached)))"

definition settings_store :: "seconds \<Rightarrow> settings \<Rightarrow> settings loader \<Rightarrow> settings loader" where
  "settings_store now s cached = Some (s, now)"

definition settings_invalidate :: "settings loader \<Rightarrow> settings loader" where
  "settings_invalidate cached = None"


section \<open>Both keep the promise\<close>

lemma verdict_Expired [simp]: "verdict age ttl = Expired \<longleftrightarrow> age \<ge> ttl"
  by (simp add: verdict_def)

definition record_held :: "'r record_cache \<Rightarrow> string \<Rightarrow> 'r option \<Rightarrow> seconds \<Rightarrow> bool" where
  "record_held cache k r t \<longleftrightarrow> (k, r, t) \<in> set cache"

definition settings_held :: "settings loader \<Rightarrow> unit \<Rightarrow> settings \<Rightarrow> seconds \<Rightarrow> bool" where
  "settings_held cached k s t \<longleftrightarrow> cached = Some (s, t)"

lemma touch_entry_set: "set (touch_entry k e cache) \<subseteq> insert (k, e) (set cache)"
proof -
  let ?moved = "filter (\<lambda>(k', _). k' \<noteq> k) cache @ [(k, e)]"
  have "set (tl ?moved) \<subseteq> set ?moved" by (cases ?moved) auto
  moreover have "set ?moved \<subseteq> insert (k, e) (set cache)" by auto
  ultimately show ?thesis by (auto simp: touch_entry_def Let_def)
qed

lemma touch_entry_held:
  "record_held (touch_entry k (r, u) cache) k' v t \<Longrightarrow> record_held cache k' v t \<or> k' = k \<and> v = r \<and> t = u"
  using touch_entry_set [of k "(r, u)" cache] by (auto simp: record_held_def)

lemma cached_held: "map_of cache k = Some (r, t) \<Longrightarrow> record_held cache k r t"
  by (auto simp: record_held_def dest: map_of_SomeD)

interpretation record_cache:
  stale_cache record_held RecordCache_get cache_refresh cache_invalidate "\<lambda>l. l" CLIENT_CACHE_TTL_SECONDS
    CLIENT_CACHE_STALE_SECONDS
proof (unfold_locales, goal_cases)
  case (1 k now l s k' v t)
  then show ?case
    by (auto simp: RecordCache_get_def cache_refresh_def split: option.splits if_splits
        dest!: touch_entry_held dest: cached_held)
next
  case (2 k now w s k' v t)
  then show ?case by (auto simp: cache_refresh_def dest!: touch_entry_held)
next
  case (3 x s k' v t)
  then show ?case by (auto simp: cache_invalidate_def record_held_def split: option.splits)
next
  case (4 k now l s v)
  then show ?case
    by (auto simp: RecordCache_get_def CLIENT_CACHE_TTL_SECONDS_def CLIENT_CACHE_STALE_SECONDS_def
        split: option.splits if_splits dest!: cached_held)
qed

interpretation settings_loader:
  stale_cache settings_held "\<lambda>_ :: unit. SettingsLoader_get safeUrl message config" "\<lambda>_. settings_store"
    "\<lambda>_. settings_invalidate" "settings_refresh safeUrl message config" SETTINGS_TTL_SECONDS SETTINGS_STALE_SECONDS
  for safeUrl message config
  by unfold_locales
     (auto simp: settings_held_def SettingsLoader_get_def settings_store_def settings_invalidate_def
        SETTINGS_TTL_SECONDS_def SETTINGS_STALE_SECONDS_def split: option.splits if_splits)


section \<open>Bounds\<close>

text \<open>A record cache as a JavaScript map: keys once, and at most the capacity.\<close>

definition cache_wf :: "'r record_cache \<Rightarrow> bool" where
  "cache_wf cache \<longleftrightarrow> distinct (map fst cache) \<and> length cache \<le> CLIENT_CACHE_CAPACITY"

lemma touch_entry_wf:
  assumes "cache_wf cache"
  shows "cache_wf (touch_entry k e cache)"
proof -
  let ?rest = "filter (\<lambda>(k', _). k' \<noteq> k) cache"
  have "distinct (map fst ?rest)" using assms by (auto simp: cache_wf_def distinct_map_filter)
  then have d: "distinct (map fst (?rest @ [(k, e)]))" by auto
  have l: "length ?rest \<le> CLIENT_CACHE_CAPACITY"
    using assms by (auto simp: cache_wf_def intro: le_trans [OF length_filter_le])
  have "distinct (map fst (tl (?rest @ [(k, e)])))" using d by (metis distinct_tl map_tl)
  then show ?thesis using d l by (simp add: touch_entry_def Let_def cache_wf_def)
qed

lemma cache_event_wf:
  assumes "cache_wf cache"
  shows "cache_wf (cache_step RecordCache_get cache_refresh cache_invalidate e cache)"
proof (cases e)
  case (Got k now l)
  then show ?thesis
    using assms by (auto simp: RecordCache_get_def cache_refresh_def intro: touch_entry_wf split: option.splits)
next
  case (Refreshed k now v)
  then show ?thesis using assms by (simp add: cache_refresh_def touch_entry_wf)
next
  case (Dropped k)
  have "length (filter P cache) \<le> CLIENT_CACHE_CAPACITY" for P
    using assms by (auto simp: cache_wf_def intro: le_trans [OF length_filter_le])
  then show ?thesis
    using assms Dropped by (auto simp: cache_invalidate_def cache_wf_def distinct_map_filter split: option.split)
qed

text \<open>
  C21. A directory record is never served too old: over any sequence of lookups, background refreshes and invalidations,
  what a lookup answers was just read, or was read from the database less than an hour before, and less than a minute
  before if the database answers; and the cache never holds more than 1000 entries.
\<close>

theorem served_record_age:
  fixes evs :: "(string, 'r option option, 'r option) cache_event list"
  assumes "fst (RecordCache_get k now l (fold (cache_step RecordCache_get cache_refresh cache_invalidate) evs [])) = Some r"
  shows "(l = Some r \<or> (\<exists>t. (k, t, r) \<in> set (all_reads (\<lambda>l. l) evs) \<and> now - t < 3600 \<and> (l \<noteq> None \<longrightarrow> now - t < 60))) \<and>
         length (fold (cache_step RecordCache_get cache_refresh cache_invalidate) evs []) \<le> 1000"
proof
  show "l = Some r \<or> (\<exists>t. (k, t, r) \<in> set (all_reads (\<lambda>l. l) evs) \<and> now - t < 3600 \<and> (l \<noteq> None \<longrightarrow> now - t < 60))"
    using record_cache.served_age [OF _ assms]
    by (simp add: record_held_def CLIENT_CACHE_TTL_SECONDS_def CLIENT_CACHE_STALE_SECONDS_def)
  have "cache_wf (fold (cache_step RecordCache_get cache_refresh cache_invalidate) evs c)"
    if "cache_wf c" for c :: "'r record_cache"
    using that by (induction evs arbitrary: c) (auto intro: cache_event_wf)
  from this [of "[]"]
  show "length (fold (cache_step RecordCache_get cache_refresh cache_invalidate) evs []) \<le> 1000"
    by (simp add: cache_wf_def CLIENT_CACHE_CAPACITY_def)
qed

definition ex_cache_events :: "(string, int option option, int option) cache_event list" where
  "ex_cache_events =
     [Got ''web'' 100 (Some (Some 1)), Got ''nobody'' 110 (Some None), Refreshed ''web'' 150 (Some 2), Dropped (Some ''nobody'')]"

theorem served_record_age_witness:
  "fst (RecordCache_get ''web'' 3000 None
          (fold (cache_step RecordCache_get cache_refresh cache_invalidate) ex_cache_events [])) = Some (Some 2) \<and>
   (\<exists>t. (''web'', t, Some 2) \<in> set (all_reads (\<lambda>l. l) ex_cache_events) \<and> 3000 - t < 3600)"
proof -
  have *: "fst (RecordCache_get ''web'' 3000 None
             (fold (cache_step RecordCache_get cache_refresh cache_invalidate) ex_cache_events [])) = Some (Some 2)"
    by code_simp
  from served_record_age [OF *] * show ?thesis by auto
qed

text \<open>
  Settings are never served too old and always valid: over any sequence of reads, background refreshes of resolved
  tables and invalidations, the settings a request gets were resolved, without a violation, from a table that was read
  at the time of the request or less than an hour before it, and less than a minute before it if the table could be
  read and resolved.
\<close>

theorem served_settings_age:
  assumes "fst (SettingsLoader_get safeUrl message config now table
             (fold (cache_step (\<lambda>_ :: unit. SettingsLoader_get safeUrl message config) (\<lambda>_. settings_store)
                      (\<lambda>_. settings_invalidate)) evs None)) = Some s"
  shows "settings_refresh safeUrl message config table = Some s \<or>
         (\<exists>t. ((), t, s) \<in> set (all_reads (settings_refresh safeUrl message config) evs) \<and> now - t < 3600 \<and>
              (settings_refresh safeUrl message config table \<noteq> None \<longrightarrow> now - t < 60))"
  using settings_loader.served_age [OF _ assms]
  by (simp add: settings_held_def SETTINGS_TTL_SECONDS_def SETTINGS_STALE_SECONDS_def)

definition ex_settings_events :: "(unit, stored option, settings) cache_event list" where
  "ex_settings_events = [Got () 100 (Some ex_table), Dropped None, Got () 130 (Some ex_table), Got () 150 None]"

theorem served_settings_age_witness:
  "\<exists>s t. fst (SettingsLoader_get ex_site (\<lambda>_. []) ex_config 3000 None
           (fold (cache_step (\<lambda>_ :: unit. SettingsLoader_get ex_site (\<lambda>_. []) ex_config) (\<lambda>_. settings_store)
                    (\<lambda>_. settings_invalidate)) ex_settings_events None)) = Some s \<and>
         ((), t, s) \<in> set (all_reads (settings_refresh ex_site (\<lambda>_. []) ex_config) ex_settings_events) \<and> 3000 - t < 3600"
proof -
  let ?got = "fst (SettingsLoader_get ex_site (\<lambda>_. []) ex_config 3000 None
           (fold (cache_step (\<lambda>_ :: unit. SettingsLoader_get ex_site (\<lambda>_. []) ex_config) (\<lambda>_. settings_store)
                    (\<lambda>_. settings_invalidate)) ex_settings_events None))"
  have "case ?got of None \<Rightarrow> False | Some _ \<Rightarrow> True" by code_simp
  then obtain s where s: "?got = Some s" by (auto split: option.splits)
  moreover have "settings_refresh ex_site (\<lambda>_. []) ex_config None = None" by (simp add: settings_refresh_def)
  ultimately show ?thesis using served_settings_age [OF s] by auto
qed

end
