(* ===== verification/Keystore.thy ===== *)
theory Keystore
  imports Caches Handles Tables
begin

text \<open>
  Signing keys: the table (\<^verbatim>\<open>src/db/keys.ts\<close>), encryption at rest
  (\<^verbatim>\<open>src/crypto/secretbox.ts\<close>), roles, rotation, retirement, maintenance, re-encryption and the cached store
  (\<^verbatim>\<open>src/crypto/keystore.ts\<close>). The keys of the secret box are a \<^typ>\<open>'key crypto\<close> whose \<^term>\<open>k_aes\<close> derives
  the \<^verbatim>\<open>keystore\<close> key; the generated key pair, its thumbprint, the JSON texts and their parsing, and the import of
  a private key are parameters or arguments.
\<close>


section \<open>The table\<close>

record signing_key =
  sk_kid :: string
  sk_public_jwk :: string
  sk_private_jwk_enc :: "bytes option"
  sk_created_at :: seconds
  sk_activates_at :: seconds
  sk_retired_at :: "seconds option"

type_synonym key_table = "signing_key list"

definition listSigningKeys :: "key_table \<Rightarrow> signing_key list" where
  "listSigningKeys db = sort_key (\<lambda>r. (sk_activates_at r, sk_kid r)) db"

text \<open>The primary key makes a second row with the same thumbprint fail.\<close>

definition insertSigningKey :: "signing_key \<Rightarrow> key_table \<Rightarrow> key_table option" where
  "insertSigningKey row db = insert_row (\<lambda>r. sk_kid r = sk_kid row) row db"

definition insertFirstSigningKey :: "signing_key \<Rightarrow> key_table \<Rightarrow> (bool \<times> key_table) option" where
  "insertFirstSigningKey row db =
     (if list_ex (\<lambda>r. sk_retired_at r = None) db then Some (False, db)
      else map_option (\<lambda>db'. (True, db')) (insertSigningKey row db))"

definition retireSigningKey :: "string \<Rightarrow> seconds \<Rightarrow> key_table \<Rightarrow> key_table" where
  "retireSigningKey kid now db =
     update_where (\<lambda>r. sk_kid r = kid \<and> sk_retired_at r = None)
       (\<lambda>r. r\<lparr>sk_retired_at := Some now, sk_private_jwk_enc := None\<rparr>) db"

definition key_deletable :: "seconds \<Rightarrow> signing_key \<Rightarrow> bool" where
  "key_deletable cutoff r = (case sk_retired_at r of None \<Rightarrow> False | Some t \<Rightarrow> t < cutoff)"

definition deleteRetiredSigningKeys :: "seconds \<Rightarrow> key_table \<Rightarrow> string list \<times> key_table" where
  "deleteRetiredSigningKeys cutoff db =
     (map sk_kid (select_where (key_deletable cutoff) db), delete_where (key_deletable cutoff) db)"

definition updatePrivateJwkEnc :: "string \<Rightarrow> bytes \<Rightarrow> key_table \<Rightarrow> key_table" where
  "updatePrivateJwkEnc kid enc db =
     update_where (\<lambda>r. sk_kid r = kid \<and> sk_retired_at r = None) (\<lambda>r. r\<lparr>sk_private_jwk_enc := Some enc\<rparr>) db"


section \<open>Encryption at rest\<close>

definition FORMAT :: byte where "FORMAT = 1"

definition SECRET_HEADER_LENGTH :: nat where "SECRET_HEADER_LENGTH = 2"

text \<open>\<^term>\<open>None\<close> where the active version has no key and the code throws.\<close>

definition sealSecret :: "'key crypto \<Rightarrow> bytes \<Rightarrow> bytes \<Rightarrow> bytes option" where
  "sealSecret keys nonce plaintext =
     (let header = [FORMAT, k_active keys] in
      map_option (\<lambda>key. concatBytes [header, nonce, k_encrypt keys key nonce header plaintext])
        (k_aes keys (k_active keys)))"

definition sealedUnderVersion :: "bytes \<Rightarrow> byte option" where
  "sealedUnderVersion blob =
     (if length blob < SECRET_HEADER_LENGTH + NONCE_LENGTH + TAG_LENGTH \<or> blob ! 0 \<noteq> FORMAT then None
      else Some (blob ! 1))"

definition openSecret :: "'key crypto \<Rightarrow> bytes \<Rightarrow> bytes option" where
  "openSecret keys blob =
     (case sealedUnderVersion blob of
        None \<Rightarrow> None
      | Some version \<Rightarrow>
          (case k_aes keys version of
             None \<Rightarrow> None
           | Some key \<Rightarrow>
               k_decrypt keys key (take NONCE_LENGTH (drop SECRET_HEADER_LENGTH blob))
                 (take SECRET_HEADER_LENGTH blob) (drop (SECRET_HEADER_LENGTH + NONCE_LENGTH) blob)))"


section \<open>Roles\<close>

datatype key_role = Signing | Next | Verifying | Retired

definition roleOf :: "signing_key \<Rightarrow> seconds \<Rightarrow> seconds option \<Rightarrow> key_role" where
  "roleOf row now signingActivatesAt =
     (if sk_retired_at row \<noteq> None then Retired
      else if sk_activates_at row > now then Next
      else if (case signingActivatesAt of None \<Rightarrow> False | Some t \<Rightarrow> sk_activates_at row < t) then Verifying
      else Signing)"

definition signs_before :: "signing_key \<Rightarrow> signing_key \<Rightarrow> bool" where
  "signs_before r best \<longleftrightarrow>
     sk_activates_at r > sk_activates_at best \<or>
     (sk_activates_at r = sk_activates_at best \<and>
       (sk_created_at r > sk_created_at best \<or> (sk_created_at r = sk_created_at best \<and> sk_kid r > sk_kid best)))"

fun best_key :: "signing_key option \<Rightarrow> signing_key list \<Rightarrow> signing_key option" where
  "best_key best [] = best"
| "best_key best (r # rs) =
     best_key (case best of None \<Rightarrow> Some r | Some b \<Rightarrow> if signs_before r b then Some r else best) rs"

record key_roles =
  kr_signing :: "signing_key option"
  kr_next :: "signing_key list"
  kr_verifying :: "signing_key list"
  kr_retired :: "signing_key list"

definition signing_key_of :: "signing_key list \<Rightarrow> seconds \<Rightarrow> signing_key option" where
  "signing_key_of rows now =
     best_key None (filter (\<lambda>r. sk_activates_at r \<le> now) (filter (\<lambda>r. sk_retired_at r = None) rows))"

definition deriveRoles :: "signing_key list \<Rightarrow> seconds \<Rightarrow> key_roles" where
  "deriveRoles rows now =
     (let signing = signing_key_of rows now;
          role = (\<lambda>row. roleOf row now (map_option sk_activates_at signing))
      in \<lparr>kr_signing = signing, kr_next = filter (\<lambda>r. role r = Next) rows,
          kr_verifying = filter (\<lambda>r. role r = Verifying) rows, kr_retired = filter (\<lambda>r. role r = Retired) rows\<rparr>)"

definition rolesByKid :: "signing_key list \<Rightarrow> seconds \<Rightarrow> (string \<times> key_role) list" where
  "rolesByKid rows now =
     map (\<lambda>row. (sk_kid row, roleOf row now (map_option sk_activates_at (kr_signing (deriveRoles rows now))))) rows"


section \<open>Rotation, retirement and maintenance\<close>

definition RETIRED_KEY_RETENTION_SECONDS :: seconds where
  "RETIRED_KEY_RETENTION_SECONDS = 90 * 86400"

text \<open>
  A generated pair: its thumbprint, the JSON text of its public half and the plaintext of its private half, with the
  nonce drawn to seal it.
\<close>

record generated_key =
  gk_kid :: string
  gk_public_jwk :: string
  gk_private :: bytes
  gk_nonce :: bytes

definition generated_row :: "'key crypto \<Rightarrow> generated_key \<Rightarrow> seconds \<Rightarrow> seconds \<Rightarrow> signing_key option" where
  "generated_row keys g activatesAt now =
     map_option (\<lambda>enc. \<lparr>sk_kid = gk_kid g, sk_public_jwk = gk_public_jwk g, sk_private_jwk_enc = Some enc,
                        sk_created_at = now, sk_activates_at = activatesAt, sk_retired_at = None\<rparr>)
       (sealSecret keys (gk_nonce g) (gk_private g))"

text \<open>\<^term>\<open>None\<close> where the code throws.\<close>

definition rotateSigningKey ::
  "'key crypto \<Rightarrow> generated_key \<Rightarrow> seconds \<Rightarrow> seconds \<Rightarrow> bool \<Rightarrow> key_table \<Rightarrow> (string \<times> key_table) option" where
  "rotateSigningKey keys g now prepublishSeconds immediate db =
     do {
       row \<leftarrow> generated_row keys g (if immediate then now else now + prepublishSeconds) now;
       db' \<leftarrow> insertSigningKey row db;
       Some (gk_kid g, db')
     }"

datatype retire_result = Retired_now | Key_not_found | Last_active_key

text \<open>The check on the rows that were read, then the statement.\<close>

definition retire_check :: "signing_key list \<Rightarrow> string \<Rightarrow> seconds \<Rightarrow> retire_result" where
  "retire_check rows kid now =
     (case find (\<lambda>r. sk_kid r = kid \<and> sk_retired_at r = None) rows of
        None \<Rightarrow> Key_not_found
      | Some target \<Rightarrow>
          let activeOthers = filter (\<lambda>r. sk_kid r \<noteq> kid \<and> sk_retired_at r = None \<and> sk_activates_at r \<le> now) rows in
          if sk_activates_at target \<le> now \<and> activeOthers = [] then Last_active_key else Retired_now)"

definition retireSigningKeyNow :: "string \<Rightarrow> seconds \<Rightarrow> key_table \<Rightarrow> retire_result \<times> key_table" where
  "retireSigningKeyNow kid now db =
     (case retire_check (listSigningKeys db) kid now of
        Retired_now \<Rightarrow> (Retired_now, retireSigningKey kid now db)
      | refusal \<Rightarrow> (refusal, db))"

record maintenance_result =
  mr_created :: "string option"
  mr_retired :: "string list"
  mr_deleted_kids :: "string list"

definition maintenance_rotates :: "settings \<Rightarrow> key_roles \<Rightarrow> seconds \<Rightarrow> bool" where
  "maintenance_rotates st roles now =
     (case kr_signing roles of
        None \<Rightarrow> False
      | Some s \<Rightarrow>
          st_rotation_days st * 86400 > 0 \<and> now - sk_activates_at s \<ge> st_rotation_days st * 86400 \<and> kr_next roles = [])"

definition maintenance_retires :: "settings \<Rightarrow> key_roles \<Rightarrow> seconds \<Rightarrow> string list" where
  "maintenance_retires st roles now =
     (case kr_signing roles of
        None \<Rightarrow> []
      | Some s \<Rightarrow>
          if now - sk_activates_at s \<ge> st_retire_after_seconds st then map sk_kid (kr_verifying roles) else [])"

definition maintainSigningKeys ::
  "'key crypto \<Rightarrow> generated_key \<Rightarrow> settings \<Rightarrow> seconds \<Rightarrow> key_table \<Rightarrow> (maintenance_result \<times> key_table) option" where
  "maintainSigningKeys keys g st now db =
     (let roles = deriveRoles (listSigningKeys db) now in
      do {
        (created, db1) \<leftarrow>
          (if maintenance_rotates st roles now
           then map_option (\<lambda>(kid, db'). (Some kid, db')) (rotateSigningKey keys g now (st_prepublish_seconds st) False db)
           else Some (None, db));
        (let retired = maintenance_retires st roles now;
             db2 = fold (\<lambda>kid. retireSigningKey kid now) retired db1;
             (deleted, db3) = deleteRetiredSigningKeys (now - RETIRED_KEY_RETENTION_SECONDS) db2
         in Some (\<lparr>mr_created = created, mr_retired = retired, mr_deleted_kids = deleted\<rparr>, db3))
      })"

text \<open>Re-encryption under the active version; \<open>nonces\<close> are the nonces drawn, one per row that opens.\<close>

record rekey_result =
  rk_rekeyed :: "string list"
  rk_unrecoverable :: "string list"
  rk_remaining :: nat

definition needs_rekey :: "'key crypto \<Rightarrow> signing_key \<Rightarrow> bool" where
  "needs_rekey keys r =
     (case sk_private_jwk_enc r of None \<Rightarrow> False | Some enc \<Rightarrow> sealedUnderVersion enc \<noteq> Some (k_active keys))"

fun rekey_rows ::
  "'key crypto \<Rightarrow> (string \<Rightarrow> bytes) \<Rightarrow> signing_key list \<Rightarrow> key_table \<Rightarrow> (string list \<times> string list \<times> key_table) option" where
  "rekey_rows keys nonces [] db = Some ([], [], db)"
| "rekey_rows keys nonces (row # rows) db =
     (case openSecret keys (or_setting (sk_private_jwk_enc row) []) of
        None \<Rightarrow>
          map_option (\<lambda>(rekeyed, lost, db'). (rekeyed, sk_kid row # lost, db')) (rekey_rows keys nonces rows db)
      | Some plaintext \<Rightarrow>
          (case sealSecret keys (nonces (sk_kid row)) plaintext of
             None \<Rightarrow> None
           | Some enc \<Rightarrow>
               map_option (\<lambda>(rekeyed, lost, db'). (sk_kid row # rekeyed, lost, db'))
                 (rekey_rows keys nonces rows (updatePrivateJwkEnc (sk_kid row) enc db))))"

definition rekeySigningKeys ::
  "'key crypto \<Rightarrow> (string \<Rightarrow> bytes) \<Rightarrow> nat \<Rightarrow> key_table \<Rightarrow> (rekey_result \<times> key_table) option" where
  "rekeySigningKeys keys nonces limit db =
     (let rows = filter (needs_rekey keys) (listSigningKeys db) in
      map_option (\<lambda>(rekeyed, lost, db').
          (\<lparr>rk_rekeyed = rekeyed, rk_unrecoverable = lost, rk_remaining = length rows - limit\<rparr>, db'))
        (rekey_rows keys nonces (take limit rows) db))"


section \<open>The store\<close>

definition KEYS_TTL_SECONDS :: seconds where "KEYS_TTL_SECONDS = 60"
definition KEYS_STALE_SECONDS :: seconds where "KEYS_STALE_SECONDS = 3600"

text \<open>
  \<open>'priv\<close> is an imported private key; \<open>ks_parse\<close> parses the decrypted JSON text of a private JWK, \<open>ks_import\<close>
  imports it (\<^term>\<open>None\<close> where the library throws), \<open>ks_publish\<close> parses the public JSON text into the published JWK.
  \<open>Keys_unread\<close> is every other exception, a failed read among them.
\<close>

record 'priv loaded_keys =
  lk_kid :: string
  lk_private :: 'priv
  lk_jwks :: "claims list"
  lk_rows :: "signing_key list"

record 'priv key_library =
  ks_parse :: "bytes \<Rightarrow> claims option"
  ks_import :: "claims \<Rightarrow> 'priv option"
  ks_publish :: "string \<Rightarrow> string \<Rightarrow> claims option"

datatype 'v key_load = Keys_loaded 'v | No_signing_key | Keys_unavailable | Keys_unread

definition published_keys :: "'priv key_library \<Rightarrow> signing_key list \<Rightarrow> claims list" where
  "published_keys lib rows =
     List.map_filter (\<lambda>r. if sk_retired_at r \<noteq> None then None else ks_publish lib (sk_kid r) (sk_public_jwk r)) rows"

definition load_keys ::
  "'key crypto \<Rightarrow> 'priv key_library \<Rightarrow> seconds \<Rightarrow> signing_key list \<Rightarrow> 'priv loaded_keys key_load" where
  "load_keys keys lib now rows =
     (case kr_signing (deriveRoles rows now) of
        None \<Rightarrow> No_signing_key
      | Some s \<Rightarrow>
          (case sk_private_jwk_enc s of
             None \<Rightarrow> No_signing_key
           | Some enc \<Rightarrow>
               (case Option.bind (openSecret keys enc) (ks_parse lib) of
                  None \<Rightarrow> Keys_unavailable
                | Some jwk \<Rightarrow>
                    (case ks_import lib jwk of
                       None \<Rightarrow> Keys_unread
                     | Some priv \<Rightarrow>
                         Keys_loaded \<lparr>lk_kid = sk_kid s, lk_private = priv, lk_jwks = published_keys lib rows,
                                      lk_rows = rows\<rparr>))))"

text \<open>The rows, with the first key created on a table without an unretired one.\<close>

definition store_rows ::
  "'key crypto \<Rightarrow> generated_key \<Rightarrow> seconds \<Rightarrow> key_table \<Rightarrow> (signing_key list \<times> key_table) option" where
  "store_rows keys g now db =
     (if list_ex (\<lambda>r. sk_retired_at r = None) (listSigningKeys db) then Some (listSigningKeys db, db)
      else
        do {
          row \<leftarrow> generated_row keys g now now;
          (inserted, db') \<leftarrow> insertFirstSigningKey row db;
          Some (listSigningKeys db', db')
        })"

definition loadNow ::
  "'key crypto \<Rightarrow> 'priv key_library \<Rightarrow> generated_key \<Rightarrow> seconds \<Rightarrow> key_table \<Rightarrow> 'priv loaded_keys key_load \<times> key_table" where
  "loadNow keys lib g now db =
     (case store_rows keys g now db of
        None \<Rightarrow> (Keys_unread, db)
      | Some (rows, db') \<Rightarrow> (load_keys keys lib now rows, db'))"

text \<open>The cached store: \<open>loaded\<close> is the outcome of \<^term>\<open>loadNow\<close>; \<^term>\<open>None\<close> where \<^verbatim>\<open>get\<close> throws.\<close>

definition KeyStore_get :: "seconds \<Rightarrow> 'v key_load \<Rightarrow> 'v loader \<Rightarrow> 'v option \<times> 'v loader" where
  "KeyStore_get now loaded cached =
     (case cached of
        Some (v, t) \<Rightarrow>
          if verdict (now - t) KEYS_TTL_SECONDS \<noteq> Expired then (Some v, cached)
          else
            (case loaded of
               Keys_loaded v' \<Rightarrow> (Some v', Some (v', now))
             | Keys_unread \<Rightarrow> (if now - t < KEYS_STALE_SECONDS then Some v else None, cached)
             | _ \<Rightarrow> (None, cached))
      | None \<Rightarrow>
          (case loaded of
             Keys_loaded v' \<Rightarrow> (Some v', Some (v', now))
           | _ \<Rightarrow> (None, cached)))"

definition key_store_put :: "seconds \<Rightarrow> 'v \<Rightarrow> 'v loader \<Rightarrow> 'v loader" where
  "key_store_put now v cached = Some (v, now)"

definition key_store_invalidate :: "'v loader \<Rightarrow> 'v loader" where
  "key_store_invalidate cached = None"

end
