(* ===== verification/Keystore_Safety.thy ===== *)
theory Keystore_Safety
  imports Keystore Clients Machines Handle_Safety
begin

text \<open>
  Signing keys are available and outlive what they signed: which key signs; that no sequence of rotations, retirements and
  maintenance runs, each ending before the next begins, leaves a deployment without a signing key; that a key is retired only after every token
  signed with it has expired; and that re-encryption keeps every secret. The last section has the situations in which
  the code falls short of its comments.
\<close>


section \<open>The signing key\<close>

definition active_key :: "seconds \<Rightarrow> signing_key \<Rightarrow> bool" where
  "active_key now r \<longleftrightarrow> sk_retired_at r = None \<and> sk_activates_at r \<le> now"

lemma signs_before_irrefl: "\<not> signs_before r r"
  by (auto simp: signs_before_def)

lemma signs_before_trans: "signs_before a b \<Longrightarrow> signs_before b c \<Longrightarrow> signs_before a c"
  by (auto simp: signs_before_def)

lemma signs_before_linear: "\<not> signs_before a b \<Longrightarrow> \<not> signs_before b c \<Longrightarrow> \<not> signs_before a c"
  by (auto simp: signs_before_def)

lemma best_key_Some:
  "best_key (Some b) rs = Some s \<Longrightarrow> s \<in> insert b (set rs) \<and> (\<forall>r \<in> insert b (set rs). \<not> signs_before r s)"
proof (induction rs arbitrary: b)
  case Nil
  then show ?case by (simp add: signs_before_irrefl)
next
  case (Cons r rs)
  have "s \<in> insert (if signs_before r b then r else b) (set rs)"
    and max: "\<forall>x \<in> insert (if signs_before r b then r else b) (set rs). \<not> signs_before x s"
    using Cons.IH [of "if signs_before r b then r else b"] Cons.prems by (auto split: if_splits)
  moreover have "\<not> signs_before r s \<and> \<not> signs_before b s"
    using max signs_before_trans [of r b s] signs_before_linear [of r b s] signs_before_irrefl signs_before_trans [of b r s]
    by (auto split: if_splits)
  ultimately show ?case by (auto split: if_splits)
qed

lemma best_key_None: "best_key None rs = None \<longleftrightarrow> rs = []"
proof -
  have "best_key (Some b) rs \<noteq> None" for b rs
    by (induction rs arbitrary: b) (auto split: if_splits)
  then show ?thesis by (cases rs) auto
qed

lemma signing_key_of_Some:
  assumes "signing_key_of rows now = Some s"
  shows "s \<in> set rows" and "active_key now s" and "\<And>r. r \<in> set rows \<Longrightarrow> active_key now r \<Longrightarrow> \<not> signs_before r s"
proof -
  let ?act = "filter (\<lambda>r. sk_activates_at r \<le> now) (filter (\<lambda>r. sk_retired_at r = None) rows)"
  have act: "set ?act = {r \<in> set rows. active_key now r}" by (auto simp: active_key_def)
  obtain b rs where "?act = b # rs"
    using assms unfolding signing_key_of_def by (cases ?act) auto
  then have "best_key (Some b) rs = Some s" and ins: "insert b (set rs) = {r \<in> set rows. active_key now r}"
    using assms act unfolding signing_key_of_def by auto
  from best_key_Some [OF this(1)] show "s \<in> set rows" "active_key now s"
      "\<And>r. r \<in> set rows \<Longrightarrow> active_key now r \<Longrightarrow> \<not> signs_before r s"
    unfolding ins by auto
qed

lemma signing_key_of_None: "signing_key_of rows now = None \<longleftrightarrow> (\<forall>r \<in> set rows. \<not> active_key now r)"
  by (auto simp: signing_key_of_def best_key_None filter_empty_conv active_key_def)

lemma set_listSigningKeys [simp]: "set (listSigningKeys db) = set db"
  by (simp add: listSigningKeys_def)

lemma roles_simps [simp]:
  "kr_signing (deriveRoles rows now) = signing_key_of rows now"
  "set (kr_verifying (deriveRoles rows now)) =
     {r \<in> set rows. active_key now r \<and> (\<exists>s. signing_key_of rows now = Some s \<and> sk_activates_at r < sk_activates_at s)}"
  by (auto simp: deriveRoles_def Let_def roleOf_def active_key_def split: if_splits option.splits)


section \<open>The table as a machine\<close>

text \<open>Operations with the time since the previous one, so that the clock does not run backwards.\<close>

datatype key_op =
    Rotate_key generated_key seconds bool nat
  | Retire_key string nat
  | Maintain_keys generated_key settings nat
  | Rekey_keys "string \<Rightarrow> bytes" nat nat
  | Load_keys generated_key nat

fun key_op_time :: "key_op \<Rightarrow> nat" where
  "key_op_time (Rotate_key g prepublish immediate d) = d"
| "key_op_time (Retire_key kid d) = d"
| "key_op_time (Maintain_keys g st d) = d"
| "key_op_time (Rekey_keys nonces limit d) = d"
| "key_op_time (Load_keys g d) = d"

fun key_write :: "'key crypto \<Rightarrow> key_op \<Rightarrow> seconds \<Rightarrow> key_table \<Rightarrow> key_table" where
  "key_write keys (Rotate_key g prepublish immediate d) now db =
     (case rotateSigningKey keys g now prepublish immediate db of None \<Rightarrow> db | Some (_, db') \<Rightarrow> db')"
| "key_write keys (Retire_key kid d) now db = snd (retireSigningKeyNow kid now db)"
| "key_write keys (Maintain_keys g st d) now db =
     (case maintainSigningKeys keys g st now db of None \<Rightarrow> db | Some (_, db') \<Rightarrow> db')"
| "key_write keys (Rekey_keys nonces limit d) now db =
     (case rekeySigningKeys keys nonces limit db of None \<Rightarrow> db | Some (_, db') \<Rightarrow> db')"
| "key_write keys (Load_keys g d) now db =
     (case store_rows keys g now db of None \<Rightarrow> db | Some (_, db') \<Rightarrow> db')"

definition key_step :: "'key crypto \<Rightarrow> key_op \<Rightarrow> key_table \<times> seconds \<Rightarrow> key_table \<times> seconds" where
  "key_step keys x s = (let now = snd s + int (key_op_time x) in (key_write keys x now (fst s), now))"

definition kids_unique :: "key_table \<times> seconds \<Rightarrow> bool" where
  "kids_unique s \<longleftrightarrow> distinct (map sk_kid (fst s))"

definition can_sign :: "key_table \<times> seconds \<Rightarrow> bool" where
  "can_sign s \<longleftrightarrow> (\<exists>r \<in> set (fst s). active_key (snd s) r)"

text \<open>How one write relates the rows before and after: a row is new, or it was there with the same dates.\<close>

definition stems_from :: "seconds \<Rightarrow> key_table \<Rightarrow> signing_key \<Rightarrow> bool" where
  "stems_from now db r \<longleftrightarrow>
     (\<exists>r0 \<in> set db. sk_kid r0 = sk_kid r \<and> sk_activates_at r0 = sk_activates_at r \<and>
        (sk_retired_at r = None \<longrightarrow> sk_retired_at r0 = None)) \<or>
     now \<le> sk_activates_at r"

definition keeps_rows :: "seconds \<Rightarrow> key_table \<Rightarrow> key_table \<Rightarrow> bool" where
  "keeps_rows now db db' \<longleftrightarrow> (distinct (map sk_kid db) \<longrightarrow> distinct (map sk_kid db')) \<and> (\<forall>r \<in> set db'. stems_from now db r)"

lemma keeps_rows_refl [simp, intro]: "keeps_rows now db db"
  by (auto simp: keeps_rows_def stems_from_def)

lemma keeps_rows_trans: "keeps_rows now a b \<Longrightarrow> keeps_rows now b c \<Longrightarrow> keeps_rows now a c"
  unfolding keeps_rows_def stems_from_def by (metis (no_types, lifting))

lemma keeps_rows_update:
  assumes "\<And>r. sk_kid (f r) = sk_kid r" and "\<And>r. sk_activates_at (f r) = sk_activates_at r"
    and "\<And>r. sk_retired_at (f r) = None \<Longrightarrow> sk_retired_at r = None"
  shows "keeps_rows now db (update_where P f db)"
  using assms by (auto simp: keeps_rows_def stems_from_def set_update_where split: if_splits)

lemma keeps_rows_delete: "keeps_rows now db (delete_where P db)"
  by (auto simp: keeps_rows_def stems_from_def)

lemma keeps_rows_insert:
  assumes "insertSigningKey row db = Some db'" and "now \<le> sk_activates_at row"
  shows "keeps_rows now db db'"
  using assms by (auto simp: keeps_rows_def stems_from_def insertSigningKey_def insert_row_Some)

lemma keeps_rows_retire: "keeps_rows now db (retireSigningKey kid t db)"
  unfolding retireSigningKey_def by (rule keeps_rows_update) auto

lemma generated_row_dates: "generated_row keys g a now = Some row \<Longrightarrow> sk_activates_at row = a \<and> sk_kid row = gk_kid g \<and> sk_retired_at row = None"
  by (auto simp: generated_row_def)

lemma keeps_rows_rotate:
  assumes "rotateSigningKey keys g now prepublish immediate db = Some (kid, db')" and "0 \<le> prepublish"
  shows "keeps_rows now db db'"
  using assms by (auto simp: rotateSigningKey_def Option.bind_eq_Some_conv dest!: generated_row_dates intro!: keeps_rows_insert)

lemma keeps_rows_fold_retire: "keeps_rows now db (fold (\<lambda>kid. retireSigningKey kid t) kids db)"
proof (induction kids arbitrary: db)
  case (Cons k kids)
  then show ?case using keeps_rows_trans [OF keeps_rows_retire Cons.IH] by simp
qed simp

lemma keeps_rows_rekey: "rekey_rows keys nonces rows db = Some (a, b, db') \<Longrightarrow> keeps_rows now db db'"
proof (induction rows arbitrary: db a b)
  case (Cons row rows)
  have "keeps_rows now db (updatePrivateJwkEnc (sk_kid row) enc db)" for enc
    unfolding updatePrivateJwkEnc_def by (rule keeps_rows_update) auto
  moreover have "(\<exists>a' b' db1. rekey_rows keys nonces rows db1 = Some (a', b', db') \<and> keeps_rows now db db1)"
    using Cons.prems calculation by (fastforce split: option.splits)
  ultimately show ?case using Cons.IH keeps_rows_trans by blast
qed auto

text \<open>Lifetimes of a publication period are not negative, as the schema of the settings has them.\<close>

fun key_op_ok :: "key_op \<Rightarrow> bool" where
  "key_op_ok (Rotate_key g prepublish immediate d) \<longleftrightarrow> 0 \<le> prepublish"
| "key_op_ok (Maintain_keys g st d) \<longleftrightarrow> 0 \<le> st_prepublish_seconds st"
| "key_op_ok _ \<longleftrightarrow> True"

lemma maintain_writes:
  assumes "maintainSigningKeys keys g st now db = Some (m, db')"
  shows "\<exists>db1. (db1 = db \<or> (\<exists>kid. rotateSigningKey keys g now (st_prepublish_seconds st) False db = Some (kid, db1))) \<and>
           mr_retired m = maintenance_retires st (deriveRoles (listSigningKeys db) now) now \<and>
           db' = delete_where (key_deletable (now - RETIRED_KEY_RETENTION_SECONDS))
                   (fold (\<lambda>kid. retireSigningKey kid now) (mr_retired m) db1)"
  using assms
  by (auto simp: maintainSigningKeys_def Let_def Option.bind_eq_Some_conv deleteRetiredSigningKeys_def split: if_splits)

lemma key_write_keeps:
  assumes "key_op_ok x"
  shows "keeps_rows now db (key_write keys x now db)"
proof (cases x)
  case (Rotate_key g prepublish immediate d)
  then show ?thesis using assms keeps_rows_rotate by (auto split: option.splits)
next
  case (Retire_key kid d)
  then show ?thesis by (auto simp: retireSigningKeyNow_def intro: keeps_rows_retire split: retire_result.splits)
next
  case (Maintain_keys g st d)
  show ?thesis
  proof (cases "maintainSigningKeys keys g st now db")
    case (Some r)
    then obtain m db' where r: "maintainSigningKeys keys g st now db = Some (m, db')" by (cases r) auto
    then obtain db1 where "keeps_rows now db db1"
      and "db' = delete_where (key_deletable (now - RETIRED_KEY_RETENTION_SECONDS))
             (fold (\<lambda>kid. retireSigningKey kid now) (mr_retired m) db1)"
      using Maintain_keys assms maintain_writes [OF r] keeps_rows_rotate by fastforce
    then have "keeps_rows now db db'"
      using keeps_rows_trans keeps_rows_fold_retire keeps_rows_delete by blast
    then show ?thesis using Maintain_keys r by simp
  qed (simp add: Maintain_keys)
next
  case (Rekey_keys nonces limit d)
  then show ?thesis
    by (auto simp: rekeySigningKeys_def Let_def intro: keeps_rows_rekey split: option.splits)
next
  case (Load_keys g d)
  then show ?thesis
    by (auto simp: store_rows_def insertFirstSigningKey_def Option.bind_eq_Some_conv list_ex_iff dest!: generated_row_dates
        intro!: keeps_rows_insert split: option.splits if_splits)
qed


section \<open>A signing key survives\<close>

lemma active_mono: "active_key t r \<Longrightarrow> t \<le> t' \<Longrightarrow> active_key t' r"
  by (auto simp: active_key_def)

lemma can_sign_insert: "insertSigningKey row db = Some db' \<Longrightarrow> can_sign (db, now) \<Longrightarrow> can_sign (db', now)"
  by (auto simp: insertSigningKey_def insert_row_Some can_sign_def)

lemma can_sign_retire_other:
  assumes "r \<in> set db" and "active_key now r" and "sk_kid r \<noteq> kid"
  shows "r \<in> set (retireSigningKey kid t db)"
  using assms by (auto simp: retireSigningKey_def set_update_where rev_image_eqI)

lemma fold_retire_keeps:
  "r \<in> set db \<Longrightarrow> active_key now r \<Longrightarrow> sk_kid r \<notin> set kids \<Longrightarrow> r \<in> set (fold (\<lambda>kid. retireSigningKey kid t) kids db)"
  by (induction kids arbitrary: db) (auto intro: can_sign_retire_other)

lemma retire_check_leaves:
  assumes "retire_check rows kid now = Retired_now" and "r0 \<in> set rows" and "active_key now r0"
    and "distinct (map sk_kid db)" and "set rows = set db"
  shows "\<exists>r \<in> set rows. active_key now r \<and> sk_kid r \<noteq> kid"
proof (cases "sk_kid r0 = kid")
  case True
  obtain target where find: "find (\<lambda>r. sk_kid r = kid \<and> sk_retired_at r = None) rows = Some target"
    and others: "\<not> (sk_activates_at target \<le> now \<and>
        filter (\<lambda>r. sk_kid r \<noteq> kid \<and> sk_retired_at r = None \<and> sk_activates_at r \<le> now) rows = [])"
    using assms(1) by (auto simp: retire_check_def Let_def split: option.splits if_splits)
  have "target \<in> set rows" "sk_kid target = kid" using find by (auto simp: find_Some_iff)
  then have "target = r0" using assms(2,4,5) True by (metis (no_types, lifting) distinct_map inj_on_def)
  then show ?thesis using others assms(3) by (auto simp: active_key_def filter_empty_conv)
qed (use assms in blast)

lemma can_sign_update_enc:
  assumes "can_sign (db, now)"
  shows "can_sign (updatePrivateJwkEnc kid enc db, now)"
proof -
  let ?f = "\<lambda>r. if sk_kid r = kid \<and> sk_retired_at r = None then r\<lparr>sk_private_jwk_enc := Some enc\<rparr> else r"
  obtain r where r: "r \<in> set db" "active_key now r" using assms by (auto simp: can_sign_def)
  have "?f r \<in> set (updatePrivateJwkEnc kid enc db)"
    unfolding updatePrivateJwkEnc_def set_update_where using r(1) by (rule imageI)
  moreover have "active_key now (?f r)" using r(2) by (simp add: active_key_def)
  ultimately show ?thesis unfolding can_sign_def fst_conv snd_conv by (rule bexI [rotated])
qed

lemma can_sign_rekey: "rekey_rows keys nonces rows db = Some (a, b, db') \<Longrightarrow> can_sign (db, now) \<Longrightarrow> can_sign (db', now)"
proof (induction rows arbitrary: db a b)
  case (Cons row rows)
  have "\<exists>a' b' db1. rekey_rows keys nonces rows db1 = Some (a', b', db') \<and> can_sign (db1, now)"
    using Cons.prems can_sign_update_enc by (fastforce split: option.splits)
  then show ?case using Cons.IH by blast
qed auto

lemma signing_outlives_maintenance:
  assumes "maintainSigningKeys keys g st now db = Some (m, db')" and "can_sign (db, now)" and "distinct (map sk_kid db)"
  shows "can_sign (db', now)"
proof -
  obtain s where s: "signing_key_of (listSigningKeys db) now = Some s"
    using assms(2) signing_key_of_None [of "listSigningKeys db" now]
    by (cases "signing_key_of (listSigningKeys db) now") (auto simp: can_sign_def)
  note sig = signing_key_of_Some [OF s, unfolded set_listSigningKeys]
  obtain db1 where db1: "db1 = db \<or> (\<exists>kid. rotateSigningKey keys g now (st_prepublish_seconds st) False db = Some (kid, db1))"
    and ret: "mr_retired m = maintenance_retires st (deriveRoles (listSigningKeys db) now) now"
    and db': "db' = delete_where (key_deletable (now - RETIRED_KEY_RETENTION_SECONDS))
             (fold (\<lambda>kid. retireSigningKey kid now) (mr_retired m) db1)"
    using maintain_writes [OF assms(1)] by blast
  have in1: "s \<in> set db1"
    using db1 sig(1) by (auto simp: rotateSigningKey_def Option.bind_eq_Some_conv insertSigningKey_def insert_row_Some)
  have "sk_kid s \<notin> set (mr_retired m)"
  proof
    assume "sk_kid s \<in> set (mr_retired m)"
    then obtain r where "r \<in> set db" "sk_kid r = sk_kid s" "sk_activates_at r < sk_activates_at s"
      using ret s by (auto simp: maintenance_retires_def split: if_splits)
    then show False using sig(1) assms(3) by (auto simp: distinct_map dest: inj_onD)
  qed
  then have "s \<in> set (fold (\<lambda>kid. retireSigningKey kid now) (mr_retired m) db1)"
    using fold_retire_keeps in1 sig(2) by blast
  then show ?thesis using sig(2) db' by (auto simp: can_sign_def active_key_def key_deletable_def)
qed

lemma can_sign_retire_now:
  assumes "can_sign (db, now)" and "distinct (map sk_kid db)"
  shows "can_sign (snd (retireSigningKeyNow kid now db), now)"
proof (cases "retire_check (listSigningKeys db) kid now")
  case Retired_now
  then obtain r where r: "r \<in> set db" "active_key now r" "sk_kid r \<noteq> kid"
    using retire_check_leaves [OF Retired_now _ _ assms(2)] assms(1) by (auto simp: can_sign_def)
  from can_sign_retire_other [OF this] this(2) show ?thesis
    using Retired_now by (auto simp: retireSigningKeyNow_def can_sign_def)
qed (use assms in \<open>simp_all add: retireSigningKeyNow_def\<close>)

lemma key_step_can_sign:
  assumes "kids_unique s" and "can_sign s"
  shows "can_sign (key_step keys x s)"
proof -
  let ?now = "snd s + int (key_op_time x)"
  have c: "can_sign (fst s, ?now)" using assms(2) active_mono [of "snd s" _ ?now] by (auto simp: can_sign_def)
  have d: "distinct (map sk_kid (fst s))" using assms(1) by (simp add: kids_unique_def)
  have "can_sign (key_write keys x ?now (fst s), ?now)"
  proof (cases x)
    case (Rotate_key g prepublish immediate d)
    then show ?thesis
      using c by (auto simp: rotateSigningKey_def Option.bind_eq_Some_conv intro: can_sign_insert split: option.splits)
  next
    case (Retire_key kid e)
    then show ?thesis using can_sign_retire_now [OF c d] by simp
  next
    case (Maintain_keys g st e)
    then show ?thesis using c d by (auto intro: signing_outlives_maintenance split: option.splits)
  next
    case (Rekey_keys nonces limit e)
    then show ?thesis
      using c by (auto simp: rekeySigningKeys_def Let_def intro: can_sign_rekey split: option.splits)
  next
    case (Load_keys g e)
    then show ?thesis
      using c by (auto simp: store_rows_def insertFirstSigningKey_def Option.bind_eq_Some_conv intro: can_sign_insert
          split: option.splits if_splits)
  qed
  then show ?thesis by (simp add: key_step_def Let_def)
qed

lemma key_step_keeps: "key_op_ok x \<Longrightarrow> keeps_rows (snd s) (fst s) (fst (key_step keys x s))"
  using key_write_keeps [of x "snd s + int (key_op_time x)" "fst s" keys]
  by (force simp: key_step_def Let_def keeps_rows_def stems_from_def)

lemma key_step_unique: "key_op_ok x \<Longrightarrow> kids_unique s \<Longrightarrow> kids_unique (key_step keys x s)"
  using key_step_keeps [of x s keys] by (simp add: kids_unique_def keeps_rows_def)

interpretation key_table:
  absorbing "key_step keys" "\<lambda>_. True" key_op_ok "\<lambda>s. kids_unique s \<and> can_sign s" for keys
  by unfold_locales (simp_all add: key_step_unique key_step_can_sign)

lemma can_sign_signing: "can_sign s \<longleftrightarrow> signing_key_of (listSigningKeys (fst s)) (snd s) \<noteq> None"
  by (auto simp: can_sign_def signing_key_of_None)

text \<open>
  Operations that run one after the other never leave the table without a signing key. \<^verbatim>\<open>Key_Interleavings\<close> has the
  statement for operations whose statements interleave.
\<close>

lemma signing_key_survives_in_turn:
  assumes "k_aes keys (k_active keys) \<noteq> None" and "list_all key_op_ok ops"
    and "fold (key_step keys) (Load_keys g d # ops) ([], t) = (db, now)"
  shows "\<exists>s \<in> set db. signing_key_of (listSigningKeys db) now = Some s \<and> active_key now s \<and>
           \<not> (\<exists>r \<in> set db. active_key now r \<and> sk_activates_at r > sk_activates_at s)"
proof -
  let ?s1 = "key_step keys (Load_keys g d) ([], t)"
  have "kids_unique ?s1 \<and> can_sign ?s1"
    using assms(1) by (auto simp: key_step_def Let_def store_rows_def generated_row_def sealSecret_def listSigningKeys_def
        insertFirstSigningKey_def insertSigningKey_def insert_row_def kids_unique_def can_sign_def active_key_def)
  then have "can_sign (db, now)"
    using key_table.dead_run [OF TrueI assms(2), of ?s1 keys] assms(3) by simp
  then obtain s where s: "signing_key_of (listSigningKeys db) now = Some s"
    by (auto simp: can_sign_signing)
  from signing_key_of_Some [OF this] s show ?thesis by (auto simp: signs_before_def)
qed


definition ex_generated :: "string \<Rightarrow> generated_key" where
  "ex_generated kid = \<lparr>gk_kid = kid, gk_public_jwk = ''pub'', gk_private = [9, 8], gk_nonce = replicate 12 3\<rparr>"


section \<open>A key outlives its tokens\<close>

lemma keeps_rows_mono: "keeps_rows t' a b \<Longrightarrow> t \<le> t' \<Longrightarrow> keeps_rows t a b"
  unfolding keeps_rows_def stems_from_def by force

lemma key_run_keeps:
  "list_all key_op_ok ops \<Longrightarrow> t0 \<le> snd s \<Longrightarrow>
   keeps_rows t0 (fst s) (fst (fold (key_step keys) ops s)) \<and> t0 \<le> snd (fold (key_step keys) ops s)"
proof (induction ops arbitrary: s)
  case (Cons x ops)
  let ?s = "key_step keys x s"
  have "t0 \<le> snd ?s" using Cons.prems(2) by (simp add: key_step_def Let_def)
  then have "keeps_rows t0 (fst ?s) (fst (fold (key_step keys) ops ?s)) \<and> t0 \<le> snd (fold (key_step keys) ops ?s)"
    using Cons by simp
  moreover have "keeps_rows t0 (fst s) (fst ?s)"
    using Cons.prems by (intro keeps_rows_mono [OF key_step_keeps]) auto
  ultimately show ?case using keeps_rows_trans by simp
qed simp

text \<open>Maintenance retires a key only when a key that activated after it was last loaded has signed long enough.\<close>

lemma retired_after_successor:
  assumes s0: "signing_key_of (listSigningKeys db0) t0 = Some s0" and unique: "distinct (map sk_kid db0)"
    and keeps: "keeps_rows t0 db0 db1" and "sk_kid s0 \<in> set (maintenance_retires st (deriveRoles (listSigningKeys db1) t1) t1)"
  shows "t0 + st_retire_after_seconds st \<le> t1"
proof -
  obtain s1 r where s1: "signing_key_of (listSigningKeys db1) t1 = Some s1"
    and late: "sk_activates_at s1 + st_retire_after_seconds st \<le> t1"
    and r: "r \<in> set db1" "sk_kid r = sk_kid s0" "sk_activates_at r < sk_activates_at s1"
    using assms(4) by (auto simp: maintenance_retires_def split: option.splits if_splits)
  note k0 = signing_key_of_Some [OF s0, unfolded set_listSigningKeys] and k1 = signing_key_of_Some [OF s1, unfolded set_listSigningKeys]
  have "stems_from t0 db0 s1" and "stems_from t0 db0 r" using keeps k1(1) r(1) by (auto simp: keeps_rows_def)
  moreover have "sk_activates_at r' = sk_activates_at s0" if "r' \<in> set db0" "sk_kid r' = sk_kid r" for r'
    using that k0(1) unique r(2) by (metis (no_types, lifting) distinct_map inj_onD)
  ultimately have "t0 \<le> sk_activates_at s1"
    using k0(3) k1(2) r(3) by (fastforce simp: stems_from_def active_key_def signs_before_def)
  then show ?thesis using late by simp
qed

lemma load_keys_signing:
  "load_keys keys lib t rows = Keys_loaded L \<Longrightarrow> \<exists>s. signing_key_of rows t = Some s \<and> lk_kid L = sk_kid s"
  by (auto simp: load_keys_def split: option.splits)

text \<open>
  C11. No token outlives its key through maintenance: take the keys an isolate loaded at \<open>t0\<close> and still serves at \<open>t\<close>
  when the database cannot be read, settings that pass the rules of the table, and a token signed with them at \<open>t\<close> whose
  lifetime is at most the longest of the configured ones. Whatever rotations, retirements, maintenance and loads happen
  meanwhile, the maintenance run that retires the key runs after that token has expired.
\<close>

theorem token_expires_before_its_key_is_retired:
  assumes "distinct (map sk_kid db0)" and "load_keys keys lib t0 (listSigningKeys db0) = Keys_loaded L"
    and "fst (KeyStore_get t Keys_unread (Some (L, t0))) = Some L"
    and "lifetime \<le> max (max (st_access_ttl st) (st_id_ttl st)) LOGOUT_TOKEN_TTL" and "consistent safeUrl config st"
    and "list_all key_op_ok ops" and "fold (key_step keys) ops (db0, t0) = (db1, t1)"
    and "maintainSigningKeys keys g st t1 db1 = Some (m, db2)" and "lk_kid L \<in> set (mr_retired m)"
  shows "t + lifetime < t1"
proof -
  obtain s0 where s0: "signing_key_of (listSigningKeys db0) t0 = Some s0" "lk_kid L = sk_kid s0"
    using load_keys_signing [OF assms(2)] by blast
  have "keeps_rows t0 db0 db1" using key_run_keeps [OF assms(6), of t0 "(db0, t0)" keys] assms(7) by simp
  then have "t0 + st_retire_after_seconds st \<le> t1"
    using retired_after_successor [OF s0(1) assms(1)] assms(9) s0(2) maintain_writes [OF assms(8)] by auto
  moreover have "t - t0 < 3600"
    using assms(3) by (auto simp: KeyStore_get_def KEYS_TTL_SECONDS_def KEYS_STALE_SECONDS_def split: if_splits)
  moreover have "lifetime + 3600 < st_retire_after_seconds st" using assms(4,5) by (auto simp: consistent_def LOGOUT_TOKEN_TTL_def)
  ultimately show ?thesis by simp
qed

definition ex_key_lib :: "bytes key_library" where
  "ex_key_lib = \<lparr>ks_parse = (\<lambda>b. Some []), ks_import = (\<lambda>c. Some [1]), ks_publish = (\<lambda>kid pub. Some [(''kid'', Text kid)])\<rparr>"

definition ex_tight_table :: stored where
  "ex_tight_table = [''tokens.access_ttl'' \<mapsto> Number 300, ''tokens.id_ttl'' \<mapsto> Number 300,
                     ''keys.retire_after_seconds'' \<mapsto> Number 3901, ''keys.prepublish_seconds'' \<mapsto> Number 0]"

definition ex_tight_settings :: settings where
  "ex_tight_settings = projr (resolveSettings ex_site (\<lambda>_. []) ex_tight_table ex_config)"

definition ex_first_table :: key_table where
  "ex_first_table = fst (key_step ex_crypto (Load_keys (ex_generated ''a'') 0) ([], 1000))"

definition ex_loaded :: "bytes loaded_keys" where
  "ex_loaded = (case load_keys ex_crypto ex_key_lib 1000 (listSigningKeys ex_first_table) of Keys_loaded L \<Rightarrow> L)"

definition ex_rotated :: "key_op list" where
  "ex_rotated = [Rotate_key (ex_generated ''b'') 0 True 1, Load_keys (ex_generated ''c'') 3901]"

definition ex_rotated_table :: key_table where
  "ex_rotated_table = fst (fold (key_step ex_crypto) ex_rotated (ex_first_table, 1000))"

lemma ex_tight_settings_ok: "resolveSettings ex_site (\<lambda>_. []) ex_tight_table ex_config = Inr ex_tight_settings"
proof -
  have "case resolveSettings ex_site (\<lambda>_. []) ex_tight_table ex_config of Inl _ \<Rightarrow> False | Inr _ \<Rightarrow> True" by code_simp
  then show ?thesis by (auto simp: ex_tight_settings_def split: sum.splits)
qed

lemma ex_loaded_ok: "load_keys ex_crypto ex_key_lib 1000 (listSigningKeys ex_first_table) = Keys_loaded ex_loaded"
  by code_simp

lemma ex_rotated_retires:
  "map_option (mr_retired \<circ> fst) (maintainSigningKeys ex_crypto (ex_generated ''d'') ex_tight_settings 4902 ex_rotated_table) =
   Some [''a'']"
  by code_simp

theorem token_expires_before_its_key_is_retired_witness:
  "lk_kid ex_loaded = ''a'' \<and>
   map_option (mr_retired \<circ> fst) (maintainSigningKeys ex_crypto (ex_generated ''d'') ex_tight_settings 4902 ex_rotated_table) =
     Some [lk_kid ex_loaded] \<and> 4599 + 300 < (4902 :: int)"
proof -
  have kid: "lk_kid ex_loaded = ''a''" by code_simp
  obtain m db2 where m: "maintainSigningKeys ex_crypto (ex_generated ''d'') ex_tight_settings 4902 ex_rotated_table = Some (m, db2)"
      "lk_kid ex_loaded \<in> set (mr_retired m)"
    using ex_rotated_retires kid by auto
  have run: "fold (key_step ex_crypto) ex_rotated (ex_first_table, 1000) = (ex_rotated_table, 4902)"
    by code_simp
  have served: "fst (KeyStore_get 4599 Keys_unread (Some (ex_loaded, 1000))) = Some ex_loaded"
    by (simp add: KeyStore_get_def KEYS_TTL_SECONDS_def KEYS_STALE_SECONDS_def)
  have "distinct (map sk_kid ex_first_table)" and ok: "list_all key_op_ok ex_rotated" by code_simp+
  moreover have "300 \<le> max (max (st_access_ttl ex_tight_settings) (st_id_ttl ex_tight_settings)) LOGOUT_TOKEN_TTL" by code_simp
  moreover have "consistent ex_site ex_config ex_tight_settings"
    using resolved_settings_ok ex_tight_settings_ok by blast
  ultimately show ?thesis
    using token_expires_before_its_key_is_retired [OF _ ex_loaded_ok served _ _ ok run m] ex_rotated_retires kid by simp
qed


section \<open>Re-encryption\<close>

lemma seal_open:
  assumes "aead_ok keys" and "length nonce = NONCE_LENGTH" and "sealSecret keys nonce p = Some b"
  shows "openSecret keys b = Some p" and "sealedUnderVersion b = Some (k_active keys)"
proof -
  obtain key where key: "k_aes keys (k_active keys) = Some key"
    and b: "b = [FORMAT, k_active keys] @ nonce @ k_encrypt keys key nonce [FORMAT, k_active keys] p"
    using assms(3) by (auto simp: sealSecret_def concatBytes_def)
  have "length b = 2 + 12 + (length p + 16)"
    using assms(1,2) b by (simp add: aead_ok_def NONCE_LENGTH_def)
  then show "sealedUnderVersion b = Some (k_active keys)"
    using b by (simp add: sealedUnderVersion_def SECRET_HEADER_LENGTH_def NONCE_LENGTH_def TAG_LENGTH_def)
  then show "openSecret keys b = Some p"
    using assms(1,2) key b by (simp add: openSecret_def SECRET_HEADER_LENGTH_def aead_ok_def)
qed

definition secret_of :: "'key crypto \<Rightarrow> signing_key \<Rightarrow> bytes option" where
  "secret_of keys r = Option.bind (sk_private_jwk_enc r) (openSecret keys)"

definition same_secret :: "'key crypto \<Rightarrow> signing_key \<Rightarrow> signing_key \<Rightarrow> bool" where
  "same_secret keys r r' \<longleftrightarrow>
     r'\<lparr>sk_private_jwk_enc := None\<rparr> = r\<lparr>sk_private_jwk_enc := None\<rparr> \<and> secret_of keys r' = secret_of keys r"

lemma same_secret_refl [simp]: "same_secret keys r r"
  by (simp add: same_secret_def)

lemma same_secret_trans: "same_secret keys a b \<Longrightarrow> same_secret keys b c \<Longrightarrow> same_secret keys a c"
  by (simp add: same_secret_def)

lemma same_secret_kid: "same_secret keys r r' \<Longrightarrow> sk_kid r' = sk_kid r \<and> sk_retired_at r' = sk_retired_at r"
  unfolding same_secret_def by (cases r; cases r') simp

lemma same_secrets_kids: "list_all2 (same_secret keys) db db' \<Longrightarrow> map sk_kid db' = map sk_kid db"
  by (induction db db' rule: list_all2_induct) (auto dest: same_secret_kid)

lemma open_empty [simp]: "openSecret keys [] = None"
  by (simp add: openSecret_def sealedUnderVersion_def SECRET_HEADER_LENGTH_def)

lemma or_setting_enc: "openSecret keys (or_setting (sk_private_jwk_enc r) []) = secret_of keys r"
  by (simp add: secret_of_def or_setting_def split: option.split)

text \<open>A retired key has no private half: retirement erases it.\<close>

definition retired_erased :: "key_table \<Rightarrow> bool" where
  "retired_erased db \<longleftrightarrow> (\<forall>r \<in> set db. sk_retired_at r \<noteq> None \<longrightarrow> sk_private_jwk_enc r = None)"

lemma rekey_one:
  assumes "aead_ok keys" and "length nonce = NONCE_LENGTH" and "distinct (map sk_kid db)" and "row \<in> set db"
    and "secret_of keys row = Some p" and "sealSecret keys nonce p = Some enc"
  shows "list_all2 (same_secret keys) db (updatePrivateJwkEnc (sk_kid row) enc db)"
  using assms(3,4)
  unfolding updatePrivateJwkEnc_def update_where_def
proof (intro list_all2_all_nthI)
  fix i
  assume i: "i < length db"
  show "same_secret keys (db ! i)
     (map (\<lambda>r. if sk_kid r = sk_kid row \<and> sk_retired_at r = None then r\<lparr>sk_private_jwk_enc := Some enc\<rparr> else r) db ! i)"
  proof (cases "sk_kid (db ! i) = sk_kid row")
    case True
    then have "db ! i = row" using i assms(3,4) by (metis (no_types, lifting) distinct_map inj_onD nth_mem)
    then show ?thesis using i assms(5) seal_open(1) [OF assms(1,2,6)] by (simp add: same_secret_def secret_of_def)
  qed (use i in simp)
qed simp

definition only_rekeyed :: "'key crypto \<Rightarrow> key_table \<Rightarrow> string list \<Rightarrow> key_table \<Rightarrow> bool" where
  "only_rekeyed keys db rekeyed db' \<longleftrightarrow>
     (\<forall>r \<in> set db'. if sk_kid r \<in> set rekeyed then \<not> needs_rekey keys r else r \<in> set db)"

lemma rekey_rows_sound:
  assumes "aead_ok keys" and "\<And>kid. length (nonces kid) = NONCE_LENGTH"
  shows "rekey_rows keys nonces rows db = Some (rekeyed, lost, db') \<Longrightarrow> distinct (map sk_kid db) \<Longrightarrow> retired_erased db \<Longrightarrow>
    distinct (map sk_kid rows) \<Longrightarrow> set rows \<subseteq> set db \<Longrightarrow>
    list_all2 (same_secret keys) db db' \<and> 
    only_rekeyed keys db rekeyed db' \<and>
    set lost = sk_kid ` {r \<in> set rows. secret_of keys r = None} \<and>
    set rekeyed = sk_kid ` {r \<in> set rows. secret_of keys r \<noteq> None}"
proof (induction rows arbitrary: db rekeyed lost)
  case Nil
  then show ?case by (auto simp: list_all2_refl only_rekeyed_def)
next
  case (Cons row rows)
  have d: "distinct (map sk_kid rows)" and s: "set rows \<subseteq> set db" using Cons.prems(4,5) by auto
  show ?case
  proof (cases "secret_of keys row")
    case None
    then obtain lost' where lost: "lost = sk_kid row # lost'" and rest: "rekey_rows keys nonces rows db = Some (rekeyed, lost', db')"
      using Cons.prems(1) by (auto simp: or_setting_enc)
    have "{r \<in> set (row # rows). secret_of keys r = None} = insert row {r \<in> set rows. secret_of keys r = None}"
      "{r \<in> set (row # rows). secret_of keys r \<noteq> None} = {r \<in> set rows. secret_of keys r \<noteq> None}"
      using None by auto
    then show ?thesis using Cons.IH [OF rest Cons.prems(2,3) d s] lost by simp
  next
    case (Some p)
    then obtain enc rk where enc: "sealSecret keys (nonces (sk_kid row)) p = Some enc" and rk: "rekeyed = sk_kid row # rk"
      and rest: "rekey_rows keys nonces rows (updatePrivateJwkEnc (sk_kid row) enc db) = Some (rk, lost, db')"
      using Cons.prems(1) by (auto simp: or_setting_enc split: option.splits)
    let ?db = "updatePrivateJwkEnc (sk_kid row) enc db"
    have same: "list_all2 (same_secret keys) db ?db"
      using rekey_one [OF assms(1,2) Cons.prems(2) _ Some enc] Cons.prems(5) by simp
    have live: "sk_retired_at row = None"
      using Some Cons.prems(3,5) by (auto simp: retired_erased_def secret_of_def)
    have sub: "set rows \<subseteq> set ?db"
      using Cons.prems(4,5) by (auto simp: updatePrivateJwkEnc_def update_where_def image_iff)
    have "retired_erased ?db"
      using Cons.prems(3) by (auto simp: retired_erased_def updatePrivateJwkEnc_def set_update_where split: if_splits)
    then have IH: "list_all2 (same_secret keys) ?db db'"
        "only_rekeyed keys ?db rk db'"
        "set lost = sk_kid ` {r \<in> set rows. secret_of keys r = None}"
        "set rk = sk_kid ` {r \<in> set rows. secret_of keys r \<noteq> None}"
      using Cons.IH [OF rest _ _ d sub] same_secrets_kids [OF same] Cons.prems(2) by simp_all
    have "r \<in> set db \<and> sk_kid r \<noteq> sk_kid row \<or> sk_kid r = sk_kid row \<and> \<not> needs_rekey keys r" if "r \<in> set ?db" for r
      using that live Cons.prems(2,5) seal_open(2) [OF assms(1,2) enc]
      by (auto simp: updatePrivateJwkEnc_def set_update_where needs_rekey_def distinct_map dest: inj_onD split: if_splits)
    then have rows: "only_rekeyed keys db rekeyed db'"
      using IH(2) rk unfolding only_rekeyed_def by (auto split: if_splits)
    have "{r \<in> set (row # rows). secret_of keys r = None} = {r \<in> set rows. secret_of keys r = None}"
      "{r \<in> set (row # rows). secret_of keys r \<noteq> None} = insert row {r \<in> set rows. secret_of keys r \<noteq> None}"
      using Some by auto
    moreover have "list_all2 (same_secret keys) db db'"
      using list_all2_trans [OF same_secret_trans same IH(1)] .
    ultimately show ?thesis using IH(3,4) rows rk by simp
  qed
qed

text \<open>
  Both hypotheses on the table hold of every table the operations produce: thumbprints are its primary key, and
  \<^verbatim>\<open>retireSigningKey\<close> erases the private half.
\<close>

lemma retired_erased_update:
  "retired_erased db \<Longrightarrow> (\<And>r. P r \<Longrightarrow> sk_retired_at (f r) = None \<or> sk_private_jwk_enc (f r) = None) \<Longrightarrow>
   retired_erased (update_where P f db)"
proof -
  assume db: "retired_erased db" and f: "\<And>r. P r \<Longrightarrow> sk_retired_at (f r) = None \<or> sk_private_jwk_enc (f r) = None"
  have "\<forall>r \<in> set db. sk_retired_at (if P r then f r else r) \<noteq> None \<longrightarrow> sk_private_jwk_enc (if P r then f r else r) = None"
  proof
    fix r
    assume "r \<in> set db"
    then show "sk_retired_at (if P r then f r else r) \<noteq> None \<longrightarrow> sk_private_jwk_enc (if P r then f r else r) = None"
      using db f [of r] by (cases "P r") (auto simp: retired_erased_def)
  qed
  then show ?thesis by (simp only: retired_erased_def set_update_where ball_simps)
qed

lemma retired_erased_retire: "retired_erased db \<Longrightarrow> retired_erased (retireSigningKey kid now db)"
  unfolding retireSigningKey_def by (rule retired_erased_update) auto

lemma retired_erased_reseal: "retired_erased db \<Longrightarrow> retired_erased (updatePrivateJwkEnc kid enc db)"
  unfolding updatePrivateJwkEnc_def by (rule retired_erased_update) auto

lemma retired_erased_insert:
  "retired_erased db \<Longrightarrow> insertSigningKey row db = Some db' \<Longrightarrow> sk_retired_at row = None \<Longrightarrow> retired_erased db'"
  by (auto simp: retired_erased_def insertSigningKey_def insert_row_Some)

lemma retired_erased_delete: "retired_erased db \<Longrightarrow> retired_erased (delete_where P db)"
  by (auto simp: retired_erased_def)

lemma retired_erased_fold_retire: "retired_erased db \<Longrightarrow> retired_erased (fold (\<lambda>kid. retireSigningKey kid t) kids db)"
  by (induction kids arbitrary: db) (auto intro: retired_erased_retire)

lemma retired_erased_rekey: "rekey_rows keys nonces rows db = Some (a, b, db') \<Longrightarrow> retired_erased db \<Longrightarrow> retired_erased db'"
proof (induction rows arbitrary: db a b)
  case (Cons row rows)
  then obtain a' b' db1 where "rekey_rows keys nonces rows db1 = Some (a', b', db')" "retired_erased db1"
    by (fastforce intro: retired_erased_reseal split: option.splits)
  then show ?case using Cons.IH by blast
qed auto

lemma retired_erased_rotate:
  "rotateSigningKey keys g now prepublish immediate db = Some (kid, db') \<Longrightarrow> retired_erased db \<Longrightarrow> retired_erased db'"
  by (auto simp: rotateSigningKey_def Option.bind_eq_Some_conv dest!: generated_row_dates intro: retired_erased_insert)

lemma key_write_erased: "retired_erased db \<Longrightarrow> retired_erased (key_write keys x now db)"
proof (cases x)
  case (Maintain_keys g st d)
  assume e: "retired_erased db"
  show ?thesis
  proof (cases "maintainSigningKeys keys g st now db")
    case (Some r)
    then obtain m db' where r: "maintainSigningKeys keys g st now db = Some (m, db')" by (cases r) auto
    from maintain_writes [OF this] e have "retired_erased db'"
      by (auto intro: retired_erased_rotate retired_erased_fold_retire retired_erased_delete)
    then show ?thesis using Maintain_keys r by simp
  qed (simp add: Maintain_keys e)
qed (auto simp: retireSigningKeyNow_def rekeySigningKeys_def store_rows_def insertFirstSigningKey_def Let_def
    Option.bind_eq_Some_conv dest!: generated_row_dates
    intro: retired_erased_rotate retired_erased_retire retired_erased_rekey retired_erased_insert
    split: option.splits retire_result.splits if_splits)

lemma reachable_table: "list_all key_op_ok ops \<Longrightarrow> distinct (map sk_kid (fst s)) \<and> retired_erased (fst s) \<Longrightarrow>
   distinct (map sk_kid (fst (fold (key_step keys) ops s))) \<and> retired_erased (fst (fold (key_step keys) ops s))"
proof (induction ops arbitrary: s)
  case (Cons x ops)
  have "distinct (map sk_kid (fst (key_step keys x s)))"
    using Cons.prems key_step_unique [of x s keys] by (simp add: kids_unique_def)
  moreover have "retired_erased (fst (key_step keys x s))"
    using Cons.prems(2) by (simp add: key_step_def Let_def key_write_erased)
  ultimately show ?case using Cons by simp
qed simp

text \<open>
  C20. Re-encryption loses nothing, whatever the limit. The rows of the table have distinct thumbprints and the private half
  of a retired key is erased, as in every table the operations produce. With AES-GCM and twelve-byte nonces, every row then
  keeps all its columns and the same private key under its ciphertext (or stays unreadable); a row reported as re-encrypted
  is sealed under the active version, every other row is unchanged; the rows reported as unrecoverable are rows that do not
  open; and a row that is still under another version was reported as unrecoverable or is one of those beyond the limit, of
  which there are as many as the run reports as remaining. So when none remains, only unrecoverable rows are left.
\<close>

theorem rekey_keeps_secrets:
  assumes "aead_ok keys" and "\<And>kid. length (nonces kid) = NONCE_LENGTH" and "distinct (map sk_kid db)" and "retired_erased db"
    and "rekeySigningKeys keys nonces limit db = Some (res, db')"
  shows "list_all2 (same_secret keys) db db' \<and>
         (\<forall>r \<in> set db'. if sk_kid r \<in> set (rk_rekeyed res) then \<not> needs_rekey keys r else r \<in> set db) \<and>
         (\<forall>kid \<in> set (rk_unrecoverable res). \<exists>r \<in> set db'. sk_kid r = kid \<and> secret_of keys r = None) \<and>
         (\<forall>r \<in> set db'. needs_rekey keys r \<longrightarrow>
            sk_kid r \<in> set (rk_unrecoverable res) \<or> r \<in> set (drop limit (filter (needs_rekey keys) (listSigningKeys db)))) \<and>
         length (drop limit (filter (needs_rekey keys) (listSigningKeys db))) = rk_remaining res"
proof -
  let ?rows = "filter (needs_rekey keys) (listSigningKeys db)"
  have run: "rekey_rows keys nonces (take limit ?rows) db = Some (rk_rekeyed res, rk_unrecoverable res, db')"
    and rem: "rk_remaining res = length ?rows - limit"
    using assms(5) by (auto simp: rekeySigningKeys_def Let_def)
  have "distinct (map sk_kid (listSigningKeys db))"
    using assms(3) by (simp add: listSigningKeys_def distinct_map)
  then have "distinct (map sk_kid (take limit ?rows))"
    by (metis distinct_map_filter distinct_take take_map)
  moreover have sub: "set (take limit ?rows) \<subseteq> set db" using set_take_subset [of limit ?rows] by auto
  ultimately have *: "list_all2 (same_secret keys) db db'"
      "only_rekeyed keys db (rk_rekeyed res) db'"
      "set (rk_unrecoverable res) = sk_kid ` {r \<in> set (take limit ?rows). secret_of keys r = None}"
      "set (rk_rekeyed res) = sk_kid ` {r \<in> set (take limit ?rows). secret_of keys r \<noteq> None}"
    using rekey_rows_sound [OF assms(1,2) run assms(3,4)] by simp_all
  have "\<exists>r' \<in> set db'. sk_kid r' = sk_kid r \<and> secret_of keys r' = None" if r: "r \<in> set db" "secret_of keys r = None" for r
  proof -
    obtain i where "i < length db" "db ! i = r" using r(1) by (auto simp: in_set_conv_nth)
    then have "db' ! i \<in> set db'" "same_secret keys r (db' ! i)"
      using *(1) by (auto simp: list_all2_conv_all_nth)
    then show ?thesis using r(2) same_secret_kid [of keys r "db' ! i"] by (intro bexI [of _ "db' ! i"]) (auto simp: same_secret_def)
  qed
  note keeps_lost = this
  have lost: "\<forall>kid \<in> set (rk_unrecoverable res). \<exists>r \<in> set db'. sk_kid r = kid \<and> secret_of keys r = None"
  proof
    fix kid
    assume "kid \<in> set (rk_unrecoverable res)"
    then obtain r where "r \<in> set db" "secret_of keys r = None" "kid = sk_kid r" using *(3) sub by auto
    then show "\<exists>r \<in> set db'. sk_kid r = kid \<and> secret_of keys r = None" using keeps_lost [of r] by simp
  qed
  have left: "sk_kid r \<in> set (rk_unrecoverable res)" if "r \<in> set db'" "needs_rekey keys r" "r \<notin> set (drop limit ?rows)" for r
  proof -
    have "r \<in> set db" and kept: "sk_kid r \<notin> set (rk_rekeyed res)"
      using that(1,2) *(2) by (auto simp: only_rekeyed_def split: if_splits)
    then have "r \<in> set ?rows" using that(2) by simp
    then have "r \<in> set (take limit ?rows)"
      using that(3) set_append [of "take limit ?rows" "drop limit ?rows"] unfolding append_take_drop_id by blast
    then show ?thesis using kept unfolding *(3,4) by (cases "secret_of keys r") auto
  qed
  have "(\<forall>r \<in> set db'. needs_rekey keys r \<longrightarrow> sk_kid r \<in> set (rk_unrecoverable res) \<or> r \<in> set (drop limit ?rows)) \<and>
      length (drop limit ?rows) = rk_remaining res"
    using left rem by auto
  then show ?thesis using *(1,2) lost unfolding only_rekeyed_def by blast
qed


definition ex_old_crypto :: "byte crypto" where
  "ex_old_crypto = ex_crypto\<lparr>k_active := 0, k_aes := (\<lambda>v. if v = 0 then Some 5 else None)\<rparr>"

definition ex_new_crypto :: "byte crypto" where
  "ex_new_crypto = ex_crypto\<lparr>k_aes := (\<lambda>v. if v = 0 then Some 5 else if v = 1 then Some 7 else None)\<rparr>"

definition ex_old_table :: key_table where
  "ex_old_table = fst (fold (key_step ex_old_crypto)
     [Load_keys (ex_generated ''a'') 0, Rotate_key (ex_generated ''b'') 50 False 10] ([], 1000))"

theorem rekey_keeps_secrets_witness:
  "\<exists>res db'. rekeySigningKeys ex_new_crypto (\<lambda>_. replicate 12 6) 1 ex_old_table = Some (res, db') \<and>
     rk_rekeyed res = [''a''] \<and> rk_remaining res = 1 \<and> list_all2 (same_secret ex_new_crypto) ex_old_table db' \<and>
     filter (needs_rekey ex_new_crypto) db' \<noteq> []"
proof -
  let ?run = "rekeySigningKeys ex_new_crypto (\<lambda>_. replicate 12 6) 1 ex_old_table"
  have "map_option (\<lambda>(res, db'). (rk_rekeyed res, rk_remaining res, filter (needs_rekey ex_new_crypto) db' = [])) ?run =
      Some ([''a''], 1, False)" by code_simp
  then obtain res db' where run: "?run = Some (res, db')" and rk: "rk_rekeyed res = [''a'']" "rk_remaining res = 1"
      "filter (needs_rekey ex_new_crypto) db' \<noteq> []" by auto
  have "aead_ok ex_new_crypto"
    using ex_crypto_ok by (simp add: aead_ok_def ex_new_crypto_def)
  moreover have "distinct (map sk_kid ex_old_table)" and "retired_erased ex_old_table" by code_simp+
  ultimately show ?thesis
    using rekey_keeps_secrets [OF _ _ _ _ run] run rk by (simp add: NONCE_LENGTH_def)
qed

text \<open>
  Every run takes the first rows under another version. When as many of them as the limit admits do not open, a row after
  them that does open is not reached by this run, nor by any later one.
\<close>

definition ex_blocked_table :: key_table where
  "ex_blocked_table =
     [\<lparr>sk_kid = ''lost'', sk_public_jwk = ''pub'', sk_private_jwk_enc = Some [1, 9], sk_created_at = 0, sk_activates_at = 0, sk_retired_at = None\<rparr>,
      \<lparr>sk_kid = ''b'', sk_public_jwk = ''pub'', sk_private_jwk_enc = sealSecret ex_old_crypto (replicate 12 3) [9, 8], sk_created_at = 5,
       sk_activates_at = 5, sk_retired_at = None\<rparr>]"

theorem unrecoverable_rows_block_the_rest:
  "map_option (\<lambda>(res, db'). (rk_rekeyed res, rk_unrecoverable res, rk_remaining res, db' = ex_blocked_table))
     (rekeySigningKeys ex_new_crypto (\<lambda>_. replicate 12 6) 1 ex_blocked_table) = Some ([], [''lost''], 1, True) \<and>
   secret_of ex_new_crypto (ex_blocked_table ! 1) = Some [9, 8]"
  by code_simp


section \<open>The cached store\<close>

definition keys_held :: "'v loader \<Rightarrow> unit \<Rightarrow> 'v \<Rightarrow> seconds \<Rightarrow> bool" where
  "keys_held cached k v t \<longleftrightarrow> cached = Some (v, t)"

definition loaded_value :: "'v key_load \<Rightarrow> 'v option" where
  "loaded_value l = (case l of Keys_loaded v \<Rightarrow> Some v | _ \<Rightarrow> None)"

interpretation key_store:
  stale_cache keys_held "\<lambda>_. KeyStore_get" "\<lambda>_. key_store_put" "\<lambda>_. key_store_invalidate" loaded_value
    KEYS_TTL_SECONDS KEYS_STALE_SECONDS
  by unfold_locales
     (auto simp: keys_held_def KeyStore_get_def key_store_put_def key_store_invalidate_def loaded_value_def
        KEYS_TTL_SECONDS_def KEYS_STALE_SECONDS_def split: option.splits if_splits key_load.splits)

text \<open>
  Keys are never served too old, and never when there is nothing to sign with: over any sequence of loads,
  background refreshes and invalidations, the keys a request gets were loaded for it or less than an hour before it, less
  than a minute before it if the load succeeds; and the load of a table without a signing key, or whose signing key does
  not open, makes the request fail unless keys were loaded less than a minute before.
\<close>

theorem served_keys_age:
  assumes "fst (KeyStore_get now l (fold (cache_step (\<lambda>_ :: unit. KeyStore_get) (\<lambda>_. key_store_put)
             (\<lambda>_. key_store_invalidate)) evs None)) = Some v"
  shows "l = Keys_loaded v \<or>
         (\<exists>t. ((), t, v) \<in> set (all_reads loaded_value evs) \<and> now - t < 3600 \<and> (l \<noteq> Keys_unread \<longrightarrow> now - t < 60))"
proof -
  let ?c = "fold (cache_step (\<lambda>_ :: unit. KeyStore_get) (\<lambda>_. key_store_put) (\<lambda>_. key_store_invalidate)) evs None"
  have "l = Keys_loaded v \<or> (\<exists>t. ?c = Some (v, t) \<and> now - t < 3600 \<and> (l \<noteq> Keys_unread \<longrightarrow> now - t < 60))"
    using assms by (auto simp: KeyStore_get_def KEYS_TTL_SECONDS_def KEYS_STALE_SECONDS_def
        split: option.splits if_splits key_load.splits)
  moreover have "((), t, v) \<in> set (all_reads loaded_value evs)" if "?c = Some (v, t)" for t
    using key_store.held_was_read [of None evs "()" v t] that by (simp add: keys_held_def)
  ultimately show ?thesis by blast
qed

theorem served_keys_age_witness:
  "(\<exists>t. ((), t, 5 :: int) \<in> set (all_reads loaded_value [Got () 100 (Keys_loaded 4), Refreshed () 150 5]) \<and> 3700 - t < 3600) \<and>
   KeyStore_get 3700 No_signing_key (Some (5 :: int, 150)) = (None, Some (5, 150))"
proof -
  have "fst (KeyStore_get 3700 Keys_unread (fold (cache_step (\<lambda>_ :: unit. KeyStore_get) (\<lambda>_. key_store_put)
          (\<lambda>_. key_store_invalidate)) [Got () 100 (Keys_loaded 4), Refreshed () 150 5] None)) = Some (5 :: int)"
    by code_simp
  from served_keys_age [OF this] show ?thesis
    by (auto simp: KeyStore_get_def KEYS_TTL_SECONDS_def)
qed


section \<open>Where the code falls short\<close>

text \<open>
  The rule on \<^verbatim>\<open>keys.retire_after_seconds\<close> compares with the lifetimes of the table only; a client may have an access-token
  lifetime of its own of up to an hour. With settings that pass, a token of that client signed with the cached keys is
  still valid when maintenance retires its key.
\<close>

theorem client_token_outlives_its_key:
  "resolveSettings ex_site (\<lambda>_. []) ex_tight_table ex_config = Inr ex_tight_settings \<and>
   (3600 :: int) \<le> snd TTL_access \<and>
   fst (KeyStore_get 4599 Keys_unread (Some (ex_loaded, 1000))) = Some ex_loaded \<and>
   map_option (mr_retired \<circ> fst) (maintainSigningKeys ex_crypto (ex_generated ''d'') ex_tight_settings 4902 ex_rotated_table) =
     Some [lk_kid ex_loaded] \<and>
   4902 < 4599 + (3600 :: int)"
proof -
  have "lk_kid ex_loaded = ''a''" by code_simp
  then show ?thesis
    using ex_tight_settings_ok ex_rotated_retires
    by (simp add: TTL_access_def KeyStore_get_def KEYS_TTL_SECONDS_def KEYS_STALE_SECONDS_def)
qed

text \<open>
  Two keys that activate in the same second, as two emergency rotations make them: the key listing reports both as
  signing, and the one that does not sign is in no list of \<^verbatim>\<open>deriveRoles\<close>, so maintenance does not retire it.
\<close>

definition ex_tied_table :: key_table where
  "ex_tied_table = fst (fold (key_step ex_crypto)
     [Load_keys (ex_generated ''a'') 0, Rotate_key (ex_generated ''b'') 0 True 50, Rotate_key (ex_generated ''c'') 0 True 0] ([], 1000))"

theorem tied_key_has_no_role:
  "rolesByKid (listSigningKeys ex_tied_table) 1060 = [(''a'', Verifying), (''b'', Signing), (''c'', Signing)] \<and>
   map_option sk_kid (kr_signing (deriveRoles (listSigningKeys ex_tied_table) 1060)) = Some ''c'' \<and>
   map sk_kid (kr_verifying (deriveRoles (listSigningKeys ex_tied_table) 1060)) = [''a'']"
  by code_simp

text \<open>
  Two emergency retirements that read the table before either writes: each sees the other key as the one that remains,
  and the store is left without a signing key, with nothing that would create one because an unretired key exists.
\<close>

definition ex_two_keys :: key_table where
  "ex_two_keys = fst (fold (key_step ex_crypto)
     [Load_keys (ex_generated ''a'') 0, Rotate_key (ex_generated ''b'') 0 True 50, Rotate_key (ex_generated ''c'') 1000 False 50] ([], 1000))"

theorem concurrent_retirements_leave_no_key:
  "retire_check (listSigningKeys ex_two_keys) ''a'' 1200 = Retired_now \<and>
   retire_check (listSigningKeys ex_two_keys) ''b'' 1200 = Retired_now \<and>
   fst (loadNow ex_crypto ex_key_lib (ex_generated ''d'') 1200
          (retireSigningKey ''b'' 1200 (retireSigningKey ''a'' 1200 ex_two_keys))) = No_signing_key"
  by code_simp

end
