(* ===== verification/Key_Interleavings.thy ===== *)
theory Key_Interleavings
  imports Keystore_Safety
begin

text \<open>
  The key table under operations that interleave. \<^verbatim>\<open>retireSigningKeyNow\<close> and \<^verbatim>\<open>maintainSigningKeys\<close>
  (\<^verbatim>\<open>src/crypto/keystore.ts\<close>) take the time, wait for a \<^verbatim>\<open>SELECT\<close>, decide, and wait for one
  \<^verbatim>\<open>UPDATE\<close> per key; another request can run at each wait. Here every SQL statement is an event of its own, the decision
  of a call is made on the rows it read, and the events of all calls come in any order.
\<close>


section \<open>Statements as events\<close>

datatype key_call = Retire_call string | Maintain_call settings

text \<open>A call has taken the time; then it has read, and knows the keys it will retire, one statement each.\<close>

datatype call_state = No_call | Started key_call seconds | Has_read "string list" seconds

record key_world =
  kw_db :: key_table
  kw_now :: seconds
  kw_calls :: "nat \<Rightarrow> call_state"

fun call_retires :: "key_call \<Rightarrow> signing_key list \<Rightarrow> seconds \<Rightarrow> string list" where
  "call_retires (Retire_call kid) rows now = (if retire_check rows kid now = Retired_now then [kid] else [])"
| "call_retires (Maintain_call st) rows now = maintenance_retires st (deriveRoles rows now) now"

datatype key_event =
    Call_start nat key_call
  | Call_read nat
  | Call_write nat
  | Insert_key signing_key
  | Insert_first signing_key
  | Reseal string bytes
  | Purge seconds
  | Tick nat

fun key_event_step :: "key_event \<Rightarrow> key_world \<Rightarrow> key_world" where
  "key_event_step (Call_start i c) w = w\<lparr>kw_calls := (kw_calls w)(i := Started c (kw_now w))\<rparr>"
| "key_event_step (Call_read i) w =
     (case kw_calls w i of
        Started c t \<Rightarrow> w\<lparr>kw_calls := (kw_calls w)(i := Has_read (call_retires c (listSigningKeys (kw_db w)) t) t)\<rparr>
      | _ \<Rightarrow> w)"
| "key_event_step (Call_write i) w =
     (case kw_calls w i of
        Has_read (kid # kids) t \<Rightarrow>
          w\<lparr>kw_db := retireSigningKey kid t (kw_db w), kw_calls := (kw_calls w)(i := Has_read kids t)\<rparr>
      | _ \<Rightarrow> w)"
| "key_event_step (Insert_key row) w = (case insertSigningKey row (kw_db w) of None \<Rightarrow> w | Some db \<Rightarrow> w\<lparr>kw_db := db\<rparr>)"
| "key_event_step (Insert_first row) w =
     (case insertFirstSigningKey row (kw_db w) of None \<Rightarrow> w | Some (_, db) \<Rightarrow> w\<lparr>kw_db := db\<rparr>)"
| "key_event_step (Reseal kid enc) w = w\<lparr>kw_db := updatePrivateJwkEnc kid enc (kw_db w)\<rparr>"
| "key_event_step (Purge cutoff) w = w\<lparr>kw_db := snd (deleteRetiredSigningKeys cutoff (kw_db w))\<rparr>"
| "key_event_step (Tick d) w = w\<lparr>kw_now := kw_now w + int d\<rparr>"


section \<open>The operations are their statements\<close>

definition quiet_world :: "key_table \<Rightarrow> seconds \<Rightarrow> key_world" where
  "quiet_world db now = \<lparr>kw_db = db, kw_now = now, kw_calls = (\<lambda>_. No_call)\<rparr>"

lemma retire_statements:
  "kw_db (fold key_event_step [Call_start i (Retire_call kid), Call_read i, Call_write i] (quiet_world db now)) =
   snd (retireSigningKeyNow kid now db)"
  by (simp add: quiet_world_def retireSigningKeyNow_def split: retire_result.split)

lemma write_all:
  "kw_calls w i = Has_read kids t \<Longrightarrow>
   kw_db (fold key_event_step (replicate (length kids) (Call_write i)) w) = fold (\<lambda>kid. retireSigningKey kid t) kids (kw_db w)"
  by (induction kids arbitrary: w) simp_all

definition maintain_events :: "nat \<Rightarrow> settings \<Rightarrow> signing_key option \<Rightarrow> nat \<Rightarrow> seconds \<Rightarrow> key_event list" where
  "maintain_events i st created n now =
     [Call_start i (Maintain_call st), Call_read i] @ (case created of None \<Rightarrow> [] | Some row \<Rightarrow> [Insert_key row]) @
     replicate n (Call_write i) @ [Purge (now - RETIRED_KEY_RETENTION_SECONDS)]"

lemma maintain_statements:
  assumes "maintainSigningKeys keys g st now db = Some (m, db')"
  shows "kw_db (fold key_event_step
      (maintain_events i st (if mr_created m = None then None else generated_row keys g (now + st_prepublish_seconds st) now)
         (length (mr_retired m)) now) (quiet_world db now)) = db'"
proof -
  let ?roles = "deriveRoles (listSigningKeys db) now"
  let ?kids = "maintenance_retires st ?roles now"
  let ?w = "(quiet_world db now)\<lparr>kw_calls := (\<lambda>_. No_call)(i := Has_read ?kids now)\<rparr>"
  let ?row = "if mr_created m = None then None else generated_row keys g (now + st_prepublish_seconds st) now"
  let ?w1 = "fold key_event_step (case ?row of None \<Rightarrow> [] | Some row \<Rightarrow> [Insert_key row]) ?w"
  obtain created db1 where rot: "(if maintenance_rotates st ?roles now
        then map_option (\<lambda>(kid, db'). (Some kid, db')) (rotateSigningKey keys g now (st_prepublish_seconds st) False db)
        else Some (None, db)) = Some (created, db1)"
    and m: "mr_created m = created" "mr_retired m = ?kids"
    and db': "db' = snd (deleteRetiredSigningKeys (now - RETIRED_KEY_RETENTION_SECONDS) (fold (\<lambda>kid. retireSigningKey kid now) ?kids db1))"
    using assms by (auto simp: maintainSigningKeys_def Let_def Option.bind_eq_Some_conv split_def split: if_splits)
  have w1: "kw_db ?w1 = db1 \<and> kw_calls ?w1 i = Has_read ?kids now"
  proof (cases "maintenance_rotates st ?roles now")
    case True
    then obtain kid where "rotateSigningKey keys g now (st_prepublish_seconds st) False db = Some (kid, db1)" "created = Some kid"
      using rot by auto
    then obtain row where "generated_row keys g (now + st_prepublish_seconds st) now = Some row" "insertSigningKey row db = Some db1"
      by (auto simp: rotateSigningKey_def Option.bind_eq_Some_conv)
    then show ?thesis using m(1) \<open>created = Some kid\<close> by (simp add: quiet_world_def)
  next
    case False
    then show ?thesis using rot m(1) by (simp add: quiet_world_def)
  qed
  have pre: "fold key_event_step [Call_start i (Maintain_call st), Call_read i] (quiet_world db now) = ?w"
    by (simp add: quiet_world_def)
  show ?thesis
    using write_all [of ?w1 i ?kids now] w1 unfolding maintain_events_def fold_append o_apply pre m(2) by (simp add: db')
qed

lemma rotate_statement:
  assumes "rotateSigningKey keys g now prepublish immediate db = Some (kid, db')"
  shows "\<exists>row. generated_row keys g (if immediate then now else now + prepublish) now = Some row \<and>
    kw_db (key_event_step (Insert_key row) (quiet_world db now)) = db'"
  using assms by (auto simp: rotateSigningKey_def Option.bind_eq_Some_conv quiet_world_def)

lemma rekey_statements:
  "rekey_rows keys nonces rows (kw_db w) = Some (rekeyed, lost, db') \<Longrightarrow>
   \<exists>es. (\<forall>e \<in> set es. \<exists>kid enc. e = Reseal kid enc) \<and> kw_db (fold key_event_step es w) = db'"
proof (induction rows arbitrary: w rekeyed lost)
  case (Cons row rows)
  show ?case
  proof (cases "openSecret keys (or_setting (sk_private_jwk_enc row) [])")
    case None
    then show ?thesis using Cons by auto
  next
    case (Some p)
    then obtain enc a b where rest: "rekey_rows keys nonces rows (updatePrivateJwkEnc (sk_kid row) enc (kw_db w)) = Some (a, b, db')"
      using Cons.prems by (auto split: option.splits)
    let ?e = "Reseal (sk_kid row) enc"
    obtain es where "\<forall>e \<in> set es. \<exists>kid enc. e = Reseal kid enc" "kw_db (fold key_event_step es (key_event_step ?e w)) = db'"
      using Cons.IH [of "key_event_step ?e w"] rest by auto
    then show ?thesis by (intro exI [of _ "?e # es"]) auto
  qed
qed (auto intro: exI [of _ "[]"])


section \<open>Retirements that do not overlap\<close>

text \<open>
  \<open>fresh\<close> are the calls since whose start no other call has retired a key. A retirement needs its call to be among them:
  no retirement of one call falls between the start of another and its last update.
\<close>

fun no_overlap :: "nat list \<Rightarrow> key_event list \<Rightarrow> bool" where
  "no_overlap fresh [] \<longleftrightarrow> True"
| "no_overlap fresh (e # es) \<longleftrightarrow>
     (case e of
        Call_start i c \<Rightarrow> no_overlap (i # fresh) es
      | Call_write i \<Rightarrow> i \<in> set fresh \<and> no_overlap [i] es
      | _ \<Rightarrow> no_overlap fresh es)"

definition call_ok :: "key_world \<Rightarrow> nat \<Rightarrow> bool" where
  "call_ok w i \<longleftrightarrow>
     (case kw_calls w i of
        No_call \<Rightarrow> True
      | Started c t \<Rightarrow> t \<le> kw_now w \<and> (\<exists>r \<in> set (kw_db w). active_key t r)
      | Has_read kids t \<Rightarrow> t \<le> kw_now w \<and> (\<exists>r \<in> set (kw_db w). active_key t r \<and> sk_kid r \<notin> set kids))"

definition world_ok :: "nat list \<Rightarrow> key_world \<Rightarrow> bool" where
  "world_ok fresh w \<longleftrightarrow> distinct (map sk_kid (kw_db w)) \<and> can_sign (kw_db w, kw_now w) \<and> (\<forall>i \<in> set fresh. call_ok w i)"

text \<open>Statements that retire nothing: a key that is active stays in the table under its thumbprint.\<close>

definition keeps_active :: "key_table \<Rightarrow> key_table \<Rightarrow> bool" where
  "keeps_active db db' \<longleftrightarrow>
     (\<forall>t. \<forall>r \<in> set db. active_key t r \<longrightarrow> (\<exists>r' \<in> set db'. active_key t r' \<and> sk_kid r' = sk_kid r))"

lemma keeps_active_superset: "set db \<subseteq> set db' \<Longrightarrow> keeps_active db db'"
  by (auto simp: keeps_active_def)

lemma keeps_active_reseal: "keeps_active db (updatePrivateJwkEnc kid enc db)"
  unfolding keeps_active_def
proof (intro allI ballI impI)
  fix t r
  assume r: "r \<in> set db" "active_key t r"
  let ?f = "\<lambda>r. if sk_kid r = kid \<and> sk_retired_at r = None then r\<lparr>sk_private_jwk_enc := Some enc\<rparr> else r"
  have "?f r \<in> set (updatePrivateJwkEnc kid enc db)"
    unfolding updatePrivateJwkEnc_def set_update_where using r(1) by (rule imageI)
  moreover have "active_key t (?f r) \<and> sk_kid (?f r) = sk_kid r" using r(2) by (simp add: active_key_def)
  ultimately show "\<exists>r' \<in> set (updatePrivateJwkEnc kid enc db). active_key t r' \<and> sk_kid r' = sk_kid r" by blast
qed

lemma keeps_active_purge: "keeps_active db (snd (deleteRetiredSigningKeys cutoff db))"
  by (auto simp: keeps_active_def deleteRetiredSigningKeys_def active_key_def key_deletable_def)

lemma world_ok_write:
  assumes "world_ok fresh w" and "keeps_active (kw_db w) db" and "distinct (map sk_kid db)"
  shows "world_ok fresh (w\<lparr>kw_db := db\<rparr>)"
proof -
  have act: "\<exists>r' \<in> set db. active_key t r' \<and> sk_kid r' = sk_kid r" if "r \<in> set (kw_db w)" "active_key t r" for r t
    using assms(2) that unfolding keeps_active_def by blast
  obtain r where "r \<in> set (kw_db w)" "active_key (kw_now w) r" using assms(1) by (auto simp: world_ok_def can_sign_def)
  then have "can_sign (db, kw_now w)" using act [of r "kw_now w"] by (auto simp: can_sign_def)
  moreover have "call_ok (w\<lparr>kw_db := db\<rparr>) i" if "call_ok w i" for i
    using that act by (fastforce simp: call_ok_def split: call_state.splits)
  ultimately show ?thesis using assms(1,3) by (simp add: world_ok_def)
qed

lemma world_ok_insert:
  assumes "world_ok fresh w" and "insertSigningKey row (kw_db w) = Some db"
  shows "world_ok fresh (w\<lparr>kw_db := db\<rparr>)"
proof -
  have db: "db = kw_db w @ [row]" and new: "\<forall>r \<in> set (kw_db w). sk_kid r \<noteq> sk_kid row"
    using assms(2) by (auto simp: insertSigningKey_def insert_row_Some)
  have "distinct (map sk_kid db)" using assms(1) new unfolding db by (auto simp: world_ok_def)
  moreover have "keeps_active (kw_db w) db" by (rule keeps_active_superset) (auto simp: db)
  ultimately show ?thesis by (intro world_ok_write [OF assms(1)])
qed

lemma call_retires_leaves:
  assumes "distinct (map sk_kid db)" and "r0 \<in> set db" and "active_key t r0"
  shows "\<exists>r \<in> set db. active_key t r \<and> sk_kid r \<notin> set (call_retires c (listSigningKeys db) t)"
proof (cases c)
  case (Retire_call kid)
  then show ?thesis
    using assms retire_check_leaves [of "listSigningKeys db" kid t r0 db] by auto
next
  case (Maintain_call st)
  obtain s where s: "signing_key_of (listSigningKeys db) t = Some s"
    using assms(2,3) signing_key_of_None [of "listSigningKeys db" t] by fastforce
  note sig = signing_key_of_Some [OF s, unfolded set_listSigningKeys]
  have "sk_kid s \<notin> set (maintenance_retires st (deriveRoles (listSigningKeys db) t) t)"
  proof
    assume "sk_kid s \<in> set (maintenance_retires st (deriveRoles (listSigningKeys db) t) t)"
    then obtain r where r: "r \<in> set db" "sk_kid r = sk_kid s" "sk_activates_at r < sk_activates_at s"
      using s by (auto simp: maintenance_retires_def split: if_splits)
    have "inj_on sk_kid (set db)" using assms(1) by (simp add: distinct_map)
    then have "r = s" using r(1,2) sig(1) by (blast dest: inj_onD)
    then show False using r(3) by simp
  qed
  then show ?thesis using sig(1,2) Maintain_call by auto
qed

text \<open>What an event needs, and the calls that are fresh after it.\<close>

definition fresh_after :: "nat list \<Rightarrow> key_event \<Rightarrow> nat list" where
  "fresh_after fresh e = (case e of Call_start i c \<Rightarrow> i # fresh | Call_write i \<Rightarrow> [i] | _ \<Rightarrow> fresh)"

definition event_allowed :: "nat list \<Rightarrow> key_event \<Rightarrow> bool" where
  "event_allowed fresh e = (case e of Call_write i \<Rightarrow> i \<in> set fresh | _ \<Rightarrow> True)"

lemma no_overlap_Cons: "no_overlap fresh (e # es) \<longleftrightarrow> event_allowed fresh e \<and> no_overlap (fresh_after fresh e) es"
  by (cases e) (auto simp: event_allowed_def fresh_after_def)

lemma event_keeps_world:
  assumes w: "world_ok fresh w" and e: "event_allowed fresh e"
  shows "world_ok (fresh_after fresh e) (key_event_step e w)"
proof (cases e)
  case (Call_start i c)
  let ?w = "key_event_step (Call_start i c) w"
  have "call_ok ?w i" using w by (simp add: world_ok_def call_ok_def can_sign_def)
  moreover have "call_ok ?w j = call_ok w j" if "j \<noteq> i" for j using that by (simp add: call_ok_def split: call_state.split)
  ultimately have "\<forall>j \<in> set (i # fresh). call_ok ?w j" using w unfolding world_ok_def by (metis set_ConsD)
  then show ?thesis using w Call_start by (simp add: world_ok_def fresh_after_def)
next
  case (Call_read i)
  show ?thesis
  proof (cases "kw_calls w i")
    case (Started c t)
    let ?w = "key_event_step (Call_read i) w"
    have "call_ok ?w i" if ok: "call_ok w i"
    proof -
      obtain r0 where r0: "r0 \<in> set (kw_db w)" "active_key t r0" "t \<le> kw_now w" using ok Started by (auto simp: call_ok_def)
      have "distinct (map sk_kid (kw_db w))" using w by (simp add: world_ok_def)
      from call_retires_leaves [OF this r0(1,2)] show ?thesis using Started r0(3) by (simp add: call_ok_def)
    qed
    moreover have "call_ok ?w j = call_ok w j" if "j \<noteq> i" for j using that Started by (simp add: call_ok_def split: call_state.split)
    ultimately have "\<forall>j \<in> set fresh. call_ok ?w j" using w unfolding world_ok_def by metis
    then show ?thesis using w Call_read Started by (simp add: world_ok_def fresh_after_def)
  qed (use w Call_read in \<open>simp_all add: fresh_after_def\<close>)
next
  case (Call_write i)
  have i: "call_ok w i" using w e Call_write by (simp add: world_ok_def event_allowed_def)
  show ?thesis
  proof (cases "\<exists>kid kids t. kw_calls w i = Has_read (kid # kids) t")
    case True
    then obtain kid kids t where h: "kw_calls w i = Has_read (kid # kids) t" by blast
    obtain r where r: "r \<in> set (kw_db w)" "active_key t r" "sk_kid r \<notin> set (kid # kids)" "t \<le> kw_now w"
      using i h by (auto simp: call_ok_def)
    have kept: "r \<in> set (retireSigningKey kid t (kw_db w))" using can_sign_retire_other [OF r(1,2)] r(3) by simp
    have "distinct (map sk_kid (retireSigningKey kid t (kw_db w)))"
      using w keeps_rows_retire [of t "kw_db w" kid t] by (simp add: world_ok_def keeps_rows_def)
    then show ?thesis
      using Call_write h kept r active_mono [OF r(2,4)]
      by (auto simp: world_ok_def call_ok_def can_sign_def fresh_after_def)
  next
    case False
    then have "key_event_step e w = w" using Call_write by (auto split: call_state.splits list.splits)
    then show ?thesis using w i Call_write by (simp add: world_ok_def fresh_after_def)
  qed
next
  case (Insert_key row)
  then show ?thesis
    using w world_ok_insert [OF w] by (auto simp: fresh_after_def split: option.split)
next
  case (Insert_first row)
  then show ?thesis
    using w world_ok_insert [OF w]
    by (auto simp: insertFirstSigningKey_def fresh_after_def split: option.split)
next
  case (Reseal kid enc)
  have "distinct (map sk_kid (updatePrivateJwkEnc kid enc (kw_db w)))"
    using w keeps_rows_update [of "\<lambda>r. r\<lparr>sk_private_jwk_enc := Some enc\<rparr>"]
    by (simp add: updatePrivateJwkEnc_def world_ok_def keeps_rows_def)
  from world_ok_write [OF w keeps_active_reseal this] show ?thesis using Reseal by (simp add: fresh_after_def)
next
  case (Purge cutoff)
  have "distinct (map sk_kid (snd (deleteRetiredSigningKeys cutoff (kw_db w))))"
    using w by (simp add: deleteRetiredSigningKeys_def delete_where_def world_ok_def distinct_map_filter)
  from world_ok_write [OF w keeps_active_purge this] show ?thesis using Purge by (simp add: fresh_after_def)
next
  case (Tick d)
  have "active_key (kw_now w + int d) r" if "active_key (kw_now w) r" for r using active_mono [OF that] by simp
  then have "can_sign (kw_db w, kw_now w + int d)" using w by (auto simp: world_ok_def can_sign_def)
  moreover have "call_ok (w\<lparr>kw_now := kw_now w + int d\<rparr>) i" if "call_ok w i" for i
    using that by (auto simp: call_ok_def split: call_state.splits)
  ultimately show ?thesis using w Tick by (simp add: world_ok_def fresh_after_def)
qed

lemma events_keep_world:
  "no_overlap fresh es \<Longrightarrow> world_ok fresh w \<Longrightarrow> \<exists>fresh'. world_ok fresh' (fold key_event_step es w)"
proof (induction es arbitrary: fresh w)
  case (Cons e es)
  then show ?case using event_keeps_world [of fresh w e] no_overlap_Cons [of fresh e es] by auto
qed auto


section \<open>A signing key survives\<close>

text \<open>
  C9. Once the store made its first key there always is a signing key, as long as no two retirements overlap. The history
  starts with the first load of an empty table and is then any sequence of single SQL statements and clock readings:
  rotations, re-encryptions, deletions of retired rows and first-key insertions come in between wherever they like, emergency
  retirements and maintenance runs are interleaved with them statement by statement, and the one condition is that no key is
  retired by one call between the moment another call took its time and the moment that call wrote its last retirement. In
  every state of such a history some unretired key has activated, and the key that signs is the one that activated last.
\<close>

theorem signing_key_survives:
  assumes "store_rows keys g t [] = Some (rows, db0)" and "no_overlap [] events"
    and "w = fold key_event_step events (quiet_world db0 t)"
  shows "\<exists>s \<in> set (kw_db w). signing_key_of (listSigningKeys (kw_db w)) (kw_now w) = Some s \<and> active_key (kw_now w) s \<and>
           \<not> (\<exists>r \<in> set (kw_db w). active_key (kw_now w) r \<and> sk_activates_at r > sk_activates_at s)"
proof -
  obtain row where row: "db0 = [row]" "active_key t row"
    using assms(1)
    by (auto simp: store_rows_def listSigningKeys_def generated_row_def insertFirstSigningKey_def insertSigningKey_def insert_row_def
        active_key_def Option.bind_eq_Some_conv split: if_splits)
  have "world_ok [] (quiet_world db0 t)" using row by (simp add: world_ok_def quiet_world_def can_sign_def)
  then obtain fresh where "world_ok fresh w" using events_keep_world [OF assms(2)] assms(3) by blast
  then have "can_sign (kw_db w, kw_now w)" by (simp add: world_ok_def)
  then obtain s where s: "signing_key_of (listSigningKeys (kw_db w)) (kw_now w) = Some s"
    by (auto simp: can_sign_signing)
  from signing_key_of_Some [OF this] s show ?thesis by (auto simp: signs_before_def)
qed

text \<open>
  A history in which two emergency retirements are under way at once while a key is rotated in and another is sealed anew;
  the second takes its time again once the first has written.
\<close>

definition ex_key_row :: "string \<Rightarrow> seconds \<Rightarrow> signing_key" where
  "ex_key_row kid activates =
     \<lparr>sk_kid = kid, sk_public_jwk = ''pub'', sk_private_jwk_enc = Some [1], sk_created_at = 1000, sk_activates_at = activates,
      sk_retired_at = None\<rparr>"

definition ex_key_history :: "key_event list" where
  "ex_key_history =
     [Insert_key (ex_key_row ''b'' 1100), Tick 500, Call_start 1 (Retire_call ''a''), Call_start 2 (Retire_call ''b''),
      Call_read 2, Call_read 1, Insert_key (ex_key_row ''c'' 1600), Reseal ''b'' [2], Call_write 1, Call_start 2 (Retire_call ''b''),
      Tick 600, Call_read 2, Purge 1400, Call_start 3 (Retire_call ''b''), Call_read 3, Call_write 3]"

definition ex_first_load :: key_table where
  "ex_first_load = (case store_rows ex_crypto (ex_generated ''a'') 1000 [] of Some (_, db) \<Rightarrow> db | None \<Rightarrow> [])"

theorem signing_key_survives_witness:
  "\<exists>s \<in> set (kw_db (fold key_event_step ex_key_history (quiet_world ex_first_load 1000))). sk_kid s = ''c'' \<and> active_key 2100 s"
proof -
  let ?w = "fold key_event_step ex_key_history (quiet_world ex_first_load 1000)"
  have "map_option (\<lambda>(rows, db). db) (store_rows ex_crypto (ex_generated ''a'') 1000 []) = Some ex_first_load" by code_simp
  then obtain rows where load: "store_rows ex_crypto (ex_generated ''a'') 1000 [] = Some (rows, ex_first_load)" by auto
  have "no_overlap [] ex_key_history" by (simp add: ex_key_history_def)
  from signing_key_survives [OF load this refl] obtain s where
    s: "s \<in> set (kw_db ?w)" "signing_key_of (listSigningKeys (kw_db ?w)) (kw_now ?w) = Some s" "active_key (kw_now ?w) s"
    by blast
  have "(kw_now ?w, map_option sk_kid (signing_key_of (listSigningKeys (kw_db ?w)) (kw_now ?w))) = (2100, Some ''c'')" by code_simp
  then show ?thesis using s by (intro bexI [of _ s]) simp_all
qed

text \<open>
  Without the condition the statement fails: the two retirements of \<^verbatim>\<open>concurrent_retirements_leave_no_key\<close> as events.
\<close>

definition ex_overlap :: "key_event list" where
  "ex_overlap =
     [Call_start 1 (Retire_call ''a''), Call_start 2 (Retire_call ''b''), Call_read 1, Call_read 2, Call_write 1, Call_write 2]"

lemma overlapping_retirements:
  "\<not> no_overlap [] ex_overlap \<and>
   signing_key_of (listSigningKeys (kw_db (fold key_event_step ex_overlap (quiet_world ex_two_keys 1200)))) 1200 = None"
  by code_simp

end
