(* ===== verification/Registry.thy ===== *)
theory Registry
  imports Tables User_Types
begin

text \<open>
  The registry in D1: the tables \<^verbatim>\<open>users\<close>, \<^verbatim>\<open>groups\<close>, \<^verbatim>\<open>group_members\<close>,
  \<^verbatim>\<open>passkey_index\<close>, \<^verbatim>\<open>identity_index\<close> and \<^verbatim>\<open>invitations\<close> of
  \<^verbatim>\<open>migrations/0001_init.sql\<close> with their keys, unique indexes and foreign keys, and the statements of
  \<^verbatim>\<open>src/db/users.ts\<close>, \<^verbatim>\<open>src/db/groups.ts\<close>, \<^verbatim>\<open>src/db/identities.ts\<close> and
  \<^verbatim>\<open>src/db/invitations.ts\<close>. A statement that violates a constraint fails; a batch is one transaction.
\<close>


section \<open>Rows\<close>

datatype user_status = Creating_user | Active_user | Disabled_user | Deleting_user

record registry_user =
  ru_id :: string
  ru_email :: "string option"
  ru_email_norm :: "string option"
  ru_email_verified :: bool
  ru_display_name :: "string option"
  ru_status :: user_status
  ru_created_at :: seconds
  ru_updated_at :: seconds

record new_user_row =
  nu_id :: string
  nu_email :: "string option"
  nu_email_norm :: "string option"
  nu_email_verified :: bool
  nu_display_name :: "string option"

record group_row =
  gr_id :: string
  gr_name :: string
  gr_description :: "string option"
  gr_system :: bool
  gr_created_at :: seconds
  gr_updated_at :: seconds

record member_row =
  gm_group_id :: string
  gm_user_id :: string
  gm_added_at :: seconds

record passkey_entry =
  px_credential_id :: string
  px_user_id :: string
  px_created_at :: seconds

record identity_entry =
  ix_issuer :: string
  ix_subject :: string
  ix_user_id :: string
  ix_created_at :: seconds

datatype invitation_kind = Register_invitation | Recover_invitation

record invitation_row =
  iv_id :: string
  iv_token_hash :: bytes
  iv_kind :: invitation_kind
  iv_user_id :: "string option"
  iv_email :: "string option"
  iv_email_verified :: bool
  iv_display_name :: "string option"
  iv_groups :: "string list"
  iv_expires_at :: seconds
  iv_used_at :: "seconds option"
  iv_used_by :: "string option"
  iv_created_by :: string
  iv_created_at :: seconds

record registry =
  rg_users :: "registry_user list"
  rg_groups :: "group_row list"
  rg_members :: "member_row list"
  rg_passkeys :: "passkey_entry list"
  rg_identities :: "identity_entry list"
  rg_invitations :: "invitation_row list"

definition empty_registry :: registry where
  "empty_registry =
     \<lparr>rg_users = [], rg_groups = [], rg_members = [], rg_passkeys = [], rg_identities = [], rg_invitations = []\<rparr>"


section \<open>Statements and batches\<close>

datatype d1_error = Unique_violation string | Foreign_key_violation

type_synonym statement = "registry \<Rightarrow> d1_error + registry"

text \<open>\<^verbatim>\<open>db.batch\<close>: the first statement that fails undoes the ones before it.\<close>

fun batch :: "statement list \<Rightarrow> statement" where
  "batch [] r = Inr r"
| "batch (s # ss) r = (case s r of Inl e \<Rightarrow> Inl e | Inr r' \<Rightarrow> batch ss r')"

definition has_user :: "registry \<Rightarrow> string \<Rightarrow> bool" where
  "has_user r uid \<longleftrightarrow> list_ex (\<lambda>u. ru_id u = uid) (rg_users r)"

definition has_group :: "registry \<Rightarrow> string \<Rightarrow> bool" where
  "has_group r gid \<longleftrightarrow> list_ex (\<lambda>g. gr_id g = gid) (rg_groups r)"

text \<open>The unique index \<^verbatim>\<open>users_verified_email\<close>: two rows clash if both hold the same e-mail as verified.\<close>

definition email_clash :: "bool \<Rightarrow> string option \<Rightarrow> registry_user \<Rightarrow> bool" where
  "email_clash verified norm u \<longleftrightarrow> verified \<and> norm \<noteq> None \<and> ru_email_verified u \<and> ru_email_norm u = norm"


section \<open>Users\<close>

definition insertUserStatement :: "new_user_row \<Rightarrow> seconds \<Rightarrow> statement" where
  "insertUserStatement user now r =
     (case insert_row (\<lambda>u. ru_id u = nu_id user \<or> email_clash (nu_email_verified user) (nu_email_norm user) u)
             \<lparr>ru_id = nu_id user, ru_email = nu_email user, ru_email_norm = nu_email_norm user,
              ru_email_verified = nu_email_verified user, ru_display_name = nu_display_name user,
              ru_status = Creating_user, ru_created_at = now, ru_updated_at = now\<rparr> (rg_users r) of
        None \<Rightarrow> Inl (Unique_violation ''users'')
      | Some rows \<Rightarrow> Inr (r\<lparr>rg_users := rows\<rparr>))"

definition setUserStatusStatement :: "string \<Rightarrow> user_status \<Rightarrow> seconds \<Rightarrow> statement" where
  "setUserStatusStatement uid status now r =
     Inr (r\<lparr>rg_users := update_where (\<lambda>u. ru_id u = uid) (\<lambda>u. u\<lparr>ru_status := status, ru_updated_at := now\<rparr>) (rg_users r)\<rparr>)"

definition setUserStatus :: "string \<Rightarrow> user_status \<Rightarrow> seconds \<Rightarrow> registry \<Rightarrow> registry" where
  "setUserStatus uid status now r =
     r\<lparr>rg_users := update_where (\<lambda>u. ru_id u = uid) (\<lambda>u. u\<lparr>ru_status := status, ru_updated_at := now\<rparr>) (rg_users r)\<rparr>"

definition getUser :: "registry \<Rightarrow> string \<Rightarrow> registry_user option" where
  "getUser r uid = select_one (\<lambda>u. ru_id u = uid) (rg_users r)"

definition findVerifiedUser :: "registry \<Rightarrow> string \<Rightarrow> registry_user option" where
  "findVerifiedUser r emailNorm =
     select_one (\<lambda>u. ru_email_norm u = Some emailNorm \<and> ru_email_verified u \<and> ru_status u \<in> {Active_user, Disabled_user})
       (rg_users r)"

text \<open>A membership of an unknown user or group violates a foreign key, also under \<^verbatim>\<open>OR IGNORE\<close>.\<close>

definition insert_membership :: "bool \<Rightarrow> string \<Rightarrow> string \<Rightarrow> seconds \<Rightarrow> statement" where
  "insert_membership ignore gid uid now r =
     (if list_ex (\<lambda>m. gm_group_id m = gid \<and> gm_user_id m = uid) (rg_members r)
      then (if ignore then Inr r else Inl (Unique_violation ''group_members''))
      else if \<not> has_group r gid \<or> \<not> has_user r uid then Inl Foreign_key_violation
      else Inr (r\<lparr>rg_members := rg_members r @ [\<lparr>gm_group_id = gid, gm_user_id = uid, gm_added_at = now\<rparr>]\<rparr>))"

definition insertMembershipStatements :: "string \<Rightarrow> string list \<Rightarrow> seconds \<Rightarrow> statement list" where
  "insertMembershipStatements uid groupIds now = map (\<lambda>gid. insert_membership False gid uid now) groupIds"

definition groupIdsByName :: "registry \<Rightarrow> string \<Rightarrow> string option" where
  "groupIdsByName r name = map_of (rev (map (\<lambda>g. (gr_name g, gr_id g)) (rg_groups r))) name"

record user_mirror =
  um_email :: "string option"
  um_email_norm :: "string option"
  um_email_verified :: bool
  um_display_name :: "string option"

definition updateUserMirrorStatement :: "string \<Rightarrow> user_mirror \<Rightarrow> seconds \<Rightarrow> statement" where
  "updateUserMirrorStatement uid mirror now r =
     (if has_user r uid \<and>
         list_ex (\<lambda>u. ru_id u \<noteq> uid \<and> email_clash (um_email_verified mirror) (um_email_norm mirror) u) (rg_users r)
      then Inl (Unique_violation ''users'')
      else Inr (r\<lparr>rg_users := update_where (\<lambda>u. ru_id u = uid)
             (\<lambda>u. u\<lparr>ru_email := um_email mirror, ru_email_norm := um_email_norm mirror,
                    ru_email_verified := um_email_verified mirror, ru_display_name := um_display_name mirror,
                    ru_updated_at := now\<rparr>) (rg_users r)\<rparr>))"

text \<open>\<^verbatim>\<open>ON DELETE CASCADE\<close> takes the memberships, the index rows and the invitations bound to the user.\<close>

definition delete_users :: "string \<Rightarrow> registry \<Rightarrow> registry" where
  "delete_users uid r =
     r\<lparr>rg_users := delete_where (\<lambda>u. ru_id u = uid) (rg_users r),
       rg_members := delete_where (\<lambda>m. gm_user_id m = uid) (rg_members r),
       rg_passkeys := delete_where (\<lambda>p. px_user_id p = uid) (rg_passkeys r),
       rg_identities := delete_where (\<lambda>i. ix_user_id i = uid) (rg_identities r),
       rg_invitations := delete_where (\<lambda>i. iv_user_id i = Some uid) (rg_invitations r)\<rparr>"

definition deleteUserRow :: "string \<Rightarrow> registry \<Rightarrow> bool \<times> registry" where
  "deleteUserRow uid r =
     (has_user r uid,
      let r' = delete_users uid r
      in r'\<lparr>rg_invitations := delete_where (\<lambda>i. iv_used_by i = Some uid) (rg_invitations r')\<rparr>)"

text \<open>The filters of \<^verbatim>\<open>GET /admin/users\<close> and the keyset query behind it.\<close>

record user_filters =
  uf_email_norm :: "string option"
  uf_status :: "user_status option"
  uf_group_id :: "string option"
  uf_created_after :: "seconds option"
  uf_created_before :: "seconds option"

definition user_matches :: "user_filters \<Rightarrow> registry \<Rightarrow> registry_user \<Rightarrow> bool" where
  "user_matches f r u \<longleftrightarrow>
     (case uf_email_norm f of None \<Rightarrow> True | Some e \<Rightarrow> ru_email_norm u = Some e \<and> ru_email_verified u) \<and>
     (case uf_status f of None \<Rightarrow> ru_status u \<noteq> Creating_user | Some s \<Rightarrow> ru_status u = s) \<and>
     (case uf_group_id f of
        None \<Rightarrow> True
      | Some gid \<Rightarrow> list_ex (\<lambda>m. gm_group_id m = gid \<and> gm_user_id m = ru_id u) (rg_members r)) \<and>
     (case uf_created_after f of None \<Rightarrow> True | Some t \<Rightarrow> ru_created_at u \<ge> t) \<and>
     (case uf_created_before f of None \<Rightarrow> True | Some t \<Rightarrow> ru_created_at u \<le> t)"

type_synonym keyset = "seconds \<times> string"

definition keyset_query :: "('r \<Rightarrow> keyset) \<Rightarrow> ('r \<Rightarrow> bool) \<Rightarrow> keyset option \<Rightarrow> nat \<Rightarrow> 'r list \<Rightarrow> 'r list" where
  "keyset_query keysetOf P after limit rows =
     take limit (sort_key keysetOf
       (filter (\<lambda>r. P r \<and> (case after of None \<Rightarrow> True | Some k \<Rightarrow> keysetOf r > k)) rows))"

definition user_keyset :: "registry_user \<Rightarrow> keyset" where
  "user_keyset u = (ru_created_at u, ru_id u)"

definition listUsers :: "registry \<Rightarrow> user_filters \<Rightarrow> keyset option \<Rightarrow> nat \<Rightarrow> registry_user list" where
  "listUsers r filters after limit = keyset_query user_keyset (user_matches filters r) after limit (rg_users r)"

definition countUsersByStatus :: "registry \<Rightarrow> user_status \<Rightarrow> int" where
  "countUsersByStatus r status = count_where (\<lambda>u. ru_status u = status) (rg_users r)"


section \<open>The passkey and identity indexes\<close>

definition lookupCredential :: "registry \<Rightarrow> string \<Rightarrow> string option" where
  "lookupCredential r cid = map_option px_user_id (select_one (\<lambda>p. px_credential_id p = cid) (rg_passkeys r))"

definition claimCredential :: "string \<Rightarrow> string \<Rightarrow> seconds \<Rightarrow> registry \<Rightarrow> d1_error + bool \<times> registry" where
  "claimCredential cid uid now r =
     (if list_ex (\<lambda>p. px_credential_id p = cid) (rg_passkeys r) then Inr (False, r)
      else if \<not> has_user r uid then Inl Foreign_key_violation
      else Inr (True, r\<lparr>rg_passkeys := rg_passkeys r @ [\<lparr>px_credential_id = cid, px_user_id = uid, px_created_at = now\<rparr>]\<rparr>))"

definition releaseCredential :: "string \<Rightarrow> registry \<Rightarrow> registry" where
  "releaseCredential cid r = r\<lparr>rg_passkeys := delete_where (\<lambda>p. px_credential_id p = cid) (rg_passkeys r)\<rparr>"

definition replace_passkey :: "string \<Rightarrow> string \<Rightarrow> seconds \<Rightarrow> statement" where
  "replace_passkey cid uid now r =
     (if \<not> has_user r uid then Inl Foreign_key_violation
      else Inr (r\<lparr>rg_passkeys := delete_where (\<lambda>p. px_credential_id p = cid) (rg_passkeys r) @
                    [\<lparr>px_credential_id = cid, px_user_id = uid, px_created_at = now\<rparr>]\<rparr>))"

definition replacePasskeyIndexStatements :: "string \<Rightarrow> string list \<Rightarrow> seconds \<Rightarrow> statement list" where
  "replacePasskeyIndexStatements uid cids now =
     (\<lambda>r. Inr (r\<lparr>rg_passkeys := delete_where (\<lambda>p. px_user_id p = uid) (rg_passkeys r)\<rparr>)) #
     map (\<lambda>cid. replace_passkey cid uid now) cids"

definition replace_identity :: "string \<Rightarrow> string \<Rightarrow> string \<Rightarrow> seconds \<Rightarrow> statement" where
  "replace_identity issuer subject uid now r =
     (if \<not> has_user r uid then Inl Foreign_key_violation
      else Inr (r\<lparr>rg_identities := delete_where (\<lambda>i. ix_issuer i = issuer \<and> ix_subject i = subject) (rg_identities r) @
                    [\<lparr>ix_issuer = issuer, ix_subject = subject, ix_user_id = uid, ix_created_at = now\<rparr>]\<rparr>))"

definition replaceIdentityIndexStatements :: "string \<Rightarrow> (string \<times> string) list \<Rightarrow> seconds \<Rightarrow> statement list" where
  "replaceIdentityIndexStatements uid pairs now =
     (\<lambda>r. Inr (r\<lparr>rg_identities := delete_where (\<lambda>i. ix_user_id i = uid) (rg_identities r)\<rparr>)) #
     map (\<lambda>(issuer, subject). replace_identity issuer subject uid now) pairs"

definition insertIdentityStatement :: "string \<Rightarrow> string \<Rightarrow> string \<Rightarrow> seconds \<Rightarrow> statement" where
  "insertIdentityStatement issuer subject uid now r =
     (if list_ex (\<lambda>i. ix_issuer i = issuer \<and> ix_subject i = subject) (rg_identities r)
      then Inl (Unique_violation ''identity_index'')
      else if \<not> has_user r uid then Inl Foreign_key_violation
      else Inr (r\<lparr>rg_identities := rg_identities r @
                    [\<lparr>ix_issuer = issuer, ix_subject = subject, ix_user_id = uid, ix_created_at = now\<rparr>]\<rparr>))"

record identity_holder =
  ih_user_id :: string
  ih_status :: "user_status option"

definition lookupIdentity :: "registry \<Rightarrow> string \<Rightarrow> string \<Rightarrow> identity_holder option" where
  "lookupIdentity r issuer subject =
     map_option (\<lambda>i. \<lparr>ih_user_id = ix_user_id i, ih_status = map_option ru_status (getUser r (ix_user_id i))\<rparr>)
       (select_one (\<lambda>i. ix_issuer i = issuer \<and> ix_subject i = subject) (rg_identities r))"

definition identitiesOfUser :: "registry \<Rightarrow> string \<Rightarrow> (string \<times> string) list" where
  "identitiesOfUser r uid =
     map (\<lambda>i. (ix_issuer i, ix_subject i))
       (sort_key (\<lambda>i. (ix_created_at i, ix_issuer i, ix_subject i)) (select_where (\<lambda>i. ix_user_id i = uid) (rg_identities r)))"

definition releaseIdentity :: "string \<Rightarrow> string \<Rightarrow> registry \<Rightarrow> registry" where
  "releaseIdentity issuer subject r =
     r\<lparr>rg_identities := delete_where (\<lambda>i. ix_issuer i = issuer \<and> ix_subject i = subject) (rg_identities r)\<rparr>"


section \<open>Groups\<close>

definition insertGroup :: "string \<Rightarrow> string \<Rightarrow> string option \<Rightarrow> bool \<Rightarrow> seconds \<Rightarrow> registry \<Rightarrow> bool \<times> registry" where
  "insertGroup gid name description system now r =
     (case insert_row (\<lambda>g. gr_id g = gid \<or> gr_name g = name)
             \<lparr>gr_id = gid, gr_name = name, gr_description = description, gr_system = system,
              gr_created_at = now, gr_updated_at = now\<rparr> (rg_groups r) of
        None \<Rightarrow> (False, r)
      | Some rows \<Rightarrow> (True, r\<lparr>rg_groups := rows\<rparr>))"

definition getGroupByName :: "registry \<Rightarrow> string \<Rightarrow> group_row option" where
  "getGroupByName r name = select_one (\<lambda>g. gr_name g = name) (rg_groups r)"

definition getGroupById :: "registry \<Rightarrow> string \<Rightarrow> group_row option" where
  "getGroupById r gid = select_one (\<lambda>g. gr_id g = gid) (rg_groups r)"

datatype group_change = Group_changed | Group_not_found | System_group | Group_exists

definition deleteGroup :: "string \<Rightarrow> registry \<Rightarrow> group_change \<times> registry" where
  "deleteGroup gid r =
     (if list_ex (\<lambda>g. gr_id g = gid \<and> \<not> gr_system g) (rg_groups r)
      then (Group_changed,
            r\<lparr>rg_groups := delete_where (\<lambda>g. gr_id g = gid \<and> \<not> gr_system g) (rg_groups r),
              rg_members := delete_where (\<lambda>m. gm_group_id m = gid) (rg_members r)\<rparr>)
      else (if has_group r gid then System_group else Group_not_found, r))"

text \<open>A field of the patch that is absent is \<^term>\<open>None\<close>.\<close>

record group_patch =
  gp_name :: "string option"
  gp_description :: "string option option"

definition updateGroup :: "string \<Rightarrow> group_patch \<Rightarrow> seconds \<Rightarrow> registry \<Rightarrow> group_change \<times> registry" where
  "updateGroup gid patch now r =
     (case getGroupById r gid of
        None \<Rightarrow> (Group_not_found, r)
      | Some current \<Rightarrow>
          let name = (case gp_name patch of None \<Rightarrow> gr_name current | Some n \<Rightarrow> n) in
          if name \<noteq> gr_name current \<and> gr_system current then (System_group, r)
          else if list_ex (\<lambda>g. gr_id g \<noteq> gid \<and> gr_name g = name) (rg_groups r) then (Group_exists, r)
          else (Group_changed,
                r\<lparr>rg_groups := update_where (\<lambda>g. gr_id g = gid)
                   (\<lambda>g. g\<lparr>gr_name := name,
                          gr_description := (case gp_description patch of None \<Rightarrow> gr_description current | Some d \<Rightarrow> d),
                          gr_updated_at := now\<rparr>) (rg_groups r)\<rparr>))"

definition countMembers :: "registry \<Rightarrow> string \<Rightarrow> int" where
  "countMembers r gid = count_where (\<lambda>m. gm_group_id m = gid) (rg_members r)"

definition replaceMembershipStatements :: "string \<Rightarrow> string list \<Rightarrow> seconds \<Rightarrow> statement list" where
  "replaceMembershipStatements uid groupIds now =
     (\<lambda>r. Inr (r\<lparr>rg_members := delete_where (\<lambda>m. gm_user_id m = uid) (rg_members r)\<rparr>)) #
     map (\<lambda>gid. insert_membership False gid uid now) groupIds"

definition insertMembershipStatement :: "string \<Rightarrow> string \<Rightarrow> seconds \<Rightarrow> statement" where
  "insertMembershipStatement gid uid now = insert_membership True gid uid now"

definition deleteMembership :: "string \<Rightarrow> string \<Rightarrow> registry \<Rightarrow> registry" where
  "deleteMembership gid uid r =
     r\<lparr>rg_members := delete_where (\<lambda>m. gm_group_id m = gid \<and> gm_user_id m = uid) (rg_members r)\<rparr>"

definition memberUserIds :: "registry \<Rightarrow> string \<Rightarrow> nat \<Rightarrow> string list" where
  "memberUserIds r gid limit =
     map gm_user_id (take limit (sort_key (\<lambda>m. (gm_added_at m, gm_user_id m))
       (select_where (\<lambda>m. gm_group_id m = gid) (rg_members r))))"

definition groupNamesOfUser :: "registry \<Rightarrow> string \<Rightarrow> string list" where
  "groupNamesOfUser r uid =
     sort (map gr_name (concat (map (\<lambda>m. if gm_user_id m = uid then select_where (\<lambda>g. gr_id g = gm_group_id m) (rg_groups r) else [])
                                   (rg_members r))))"

definition listGroups :: "registry \<Rightarrow> group_row list" where
  "listGroups r = sort_key gr_name (rg_groups r)"

definition listGroupsPage :: "registry \<Rightarrow> keyset option \<Rightarrow> nat \<Rightarrow> group_row list" where
  "listGroupsPage r after limit = keyset_query (\<lambda>g. (gr_created_at g, gr_id g)) (\<lambda>_. True) after limit (rg_groups r)"


section \<open>Invitations\<close>

definition insertInvitation :: "invitation_row \<Rightarrow> statement" where
  "insertInvitation row r =
     (if list_ex (\<lambda>i. iv_id i = iv_id row \<or> iv_token_hash i = iv_token_hash row) (rg_invitations r)
      then Inl (Unique_violation ''invitations'')
      else if (case iv_user_id row of None \<Rightarrow> False | Some uid \<Rightarrow> \<not> has_user r uid) then Inl Foreign_key_violation
      else Inr (r\<lparr>rg_invitations := rg_invitations r @ [row\<lparr>iv_used_at := None, iv_used_by := None\<rparr>]\<rparr>))"

definition getInvitation :: "registry \<Rightarrow> string \<Rightarrow> invitation_row option" where
  "getInvitation r iid = select_one (\<lambda>i. iv_id i = iid) (rg_invitations r)"

definition consumable :: "string \<Rightarrow> seconds \<Rightarrow> invitation_row \<Rightarrow> bool" where
  "consumable iid now i \<longleftrightarrow> iv_id i = iid \<and> iv_used_at i = None \<and> iv_expires_at i > now"

definition consumeInvitation :: "string \<Rightarrow> string \<Rightarrow> seconds \<Rightarrow> registry \<Rightarrow> bool \<times> registry" where
  "consumeInvitation iid usedBy now r =
     (count_where (consumable iid now) (rg_invitations r) = 1,
      r\<lparr>rg_invitations := update_where (consumable iid now)
          (\<lambda>i. i\<lparr>iv_used_at := Some now, iv_used_by := Some usedBy\<rparr>) (rg_invitations r)\<rparr>)"

definition deleteInvitation :: "string \<Rightarrow> registry \<Rightarrow> bool \<times> registry" where
  "deleteInvitation iid r =
     (list_ex (\<lambda>i. iv_id i = iid) (rg_invitations r),
      r\<lparr>rg_invitations := delete_where (\<lambda>i. iv_id i = iid) (rg_invitations r)\<rparr>)"

record invitation_filters =
  vf_kind :: "invitation_kind option"
  vf_user_id :: "string option"

definition invitation_matches :: "invitation_filters \<Rightarrow> invitation_row \<Rightarrow> bool" where
  "invitation_matches f i \<longleftrightarrow>
     (case vf_kind f of None \<Rightarrow> True | Some k \<Rightarrow> iv_kind i = k) \<and>
     (case vf_user_id f of None \<Rightarrow> True | Some uid \<Rightarrow> iv_user_id i = Some uid)"

definition listInvitationsPage :: "registry \<Rightarrow> invitation_filters \<Rightarrow> keyset option \<Rightarrow> nat \<Rightarrow> invitation_row list" where
  "listInvitationsPage r filters after limit =
     keyset_query (\<lambda>i. (iv_created_at i, iv_id i)) (invitation_matches filters) after limit (rg_invitations r)"

definition spent_before :: "seconds \<Rightarrow> invitation_row \<Rightarrow> bool" where
  "spent_before cutoff i \<longleftrightarrow> iv_expires_at i < cutoff \<or> (case iv_used_at i of None \<Rightarrow> False | Some t \<Rightarrow> t < cutoff)"

definition deleteSpentInvitations :: "seconds \<Rightarrow> registry \<Rightarrow> int \<times> registry" where
  "deleteSpentInvitations cutoff r =
     (count_where (spent_before cutoff) (rg_invitations r),
      r\<lparr>rg_invitations := delete_where (spent_before cutoff) (rg_invitations r)\<rparr>)"

end
