(* ===== verification/Registry_Safety.thy ===== *)
theory Registry_Safety
  imports Registry Machines
begin

text \<open>
  The constraints of the registry: every statement keeps the keys unique and the references resolved, and an invitation
  is consumed at most once.
\<close>


section \<open>The constraints\<close>

text \<open>The unique index on verified addresses: the rows that hold the same one are one row.\<close>

definition holds_email :: "string \<Rightarrow> registry_user \<Rightarrow> bool" where
  "holds_email e u \<longleftrightarrow> ru_email_verified u \<and> ru_email_norm u = Some e"

definition emails_unique :: "registry_user list \<Rightarrow> bool" where
  "emails_unique us \<longleftrightarrow>
     (\<forall>e u v. u \<in> set us \<and> v \<in> set us \<and> holds_email e u \<and> holds_email e v \<longrightarrow> ru_id u = ru_id v)"

definition users_unique :: "registry \<Rightarrow> bool" where
  "users_unique r \<longleftrightarrow> distinct (map ru_id (rg_users r)) \<and> emails_unique (rg_users r)"

definition groups_unique :: "registry \<Rightarrow> bool" where
  "groups_unique r \<longleftrightarrow> distinct (map gr_id (rg_groups r)) \<and> distinct (map gr_name (rg_groups r))"

definition members_wf :: "registry \<Rightarrow> bool" where
  "members_wf r \<longleftrightarrow>
     distinct (map (\<lambda>m. (gm_group_id m, gm_user_id m)) (rg_members r)) \<and>
     (\<forall>m \<in> set (rg_members r). has_group r (gm_group_id m) \<and> has_user r (gm_user_id m))"

definition indexes_wf :: "registry \<Rightarrow> bool" where
  "indexes_wf r \<longleftrightarrow>
     distinct (map px_credential_id (rg_passkeys r)) \<and> distinct (map (\<lambda>i. (ix_issuer i, ix_subject i)) (rg_identities r)) \<and>
     (\<forall>p \<in> set (rg_passkeys r). has_user r (px_user_id p)) \<and> (\<forall>i \<in> set (rg_identities r). has_user r (ix_user_id i))"

definition invitations_wf :: "registry \<Rightarrow> bool" where
  "invitations_wf r \<longleftrightarrow>
     distinct (map iv_id (rg_invitations r)) \<and> distinct (map iv_token_hash (rg_invitations r)) \<and>
     (\<forall>i \<in> set (rg_invitations r). \<forall>uid. iv_user_id i = Some uid \<longrightarrow> has_user r uid)"

definition registry_wf :: "registry \<Rightarrow> bool" where
  "registry_wf r \<longleftrightarrow> users_unique r \<and> groups_unique r \<and> members_wf r \<and> indexes_wf r \<and> invitations_wf r"

lemmas wf_defs = users_unique_def groups_unique_def members_wf_def indexes_wf_def invitations_wf_def

lemma empty_registry_wf: "registry_wf empty_registry"
  by (simp add: registry_wf_def wf_defs emails_unique_def empty_registry_def)

text \<open>What the constraints read of the other tables: the ids of users and groups.\<close>

lemma has_user_ids: "has_user r uid \<longleftrightarrow> uid \<in> ru_id ` set (rg_users r)"
  by (auto simp: has_user_def list_ex_iff)

lemma has_group_ids: "has_group r gid \<longleftrightarrow> gid \<in> gr_id ` set (rg_groups r)"
  by (auto simp: has_group_def list_ex_iff)

lemma has_user_cong: "ru_id ` set (rg_users r') = ru_id ` set (rg_users r) \<Longrightarrow> has_user r' = has_user r"
  by (auto simp: has_user_ids fun_eq_iff)

lemma has_user_update [simp]:
  "has_user (r\<lparr>rg_members := ms\<rparr>) = has_user r" "has_user (r\<lparr>rg_passkeys := ps\<rparr>) = has_user r"
  "has_user (r\<lparr>rg_identities := is\<rparr>) = has_user r" "has_user (r\<lparr>rg_invitations := vs\<rparr>) = has_user r"
  "has_user (r\<lparr>rg_groups := gs\<rparr>) = has_user r"
  by (simp_all add: has_user_def fun_eq_iff)

lemma has_group_update [simp]:
  "has_group (r\<lparr>rg_members := ms\<rparr>) = has_group r" "has_group (r\<lparr>rg_passkeys := ps\<rparr>) = has_group r"
  "has_group (r\<lparr>rg_identities := is\<rparr>) = has_group r" "has_group (r\<lparr>rg_invitations := vs\<rparr>) = has_group r"
  "has_group (r\<lparr>rg_users := us\<rparr>) = has_group r"
  by (simp_all add: has_group_def fun_eq_iff)

lemma wf_frame [simp]:
  "users_unique (r\<lparr>rg_members := ms\<rparr>) = users_unique r" "users_unique (r\<lparr>rg_passkeys := ps\<rparr>) = users_unique r"
  "users_unique (r\<lparr>rg_identities := is\<rparr>) = users_unique r" "users_unique (r\<lparr>rg_invitations := vs\<rparr>) = users_unique r"
  "users_unique (r\<lparr>rg_groups := gs\<rparr>) = users_unique r"
  "groups_unique (r\<lparr>rg_members := ms\<rparr>) = groups_unique r" "groups_unique (r\<lparr>rg_passkeys := ps\<rparr>) = groups_unique r"
  "groups_unique (r\<lparr>rg_identities := is\<rparr>) = groups_unique r" "groups_unique (r\<lparr>rg_invitations := vs\<rparr>) = groups_unique r"
  "groups_unique (r\<lparr>rg_users := us\<rparr>) = groups_unique r"
  "members_wf (r\<lparr>rg_passkeys := ps\<rparr>) = members_wf r" "members_wf (r\<lparr>rg_identities := is\<rparr>) = members_wf r"
  "members_wf (r\<lparr>rg_invitations := vs\<rparr>) = members_wf r"
  "indexes_wf (r\<lparr>rg_members := ms\<rparr>) = indexes_wf r" "indexes_wf (r\<lparr>rg_invitations := vs\<rparr>) = indexes_wf r"
  "indexes_wf (r\<lparr>rg_groups := gs\<rparr>) = indexes_wf r"
  "invitations_wf (r\<lparr>rg_members := ms\<rparr>) = invitations_wf r" "invitations_wf (r\<lparr>rg_passkeys := ps\<rparr>) = invitations_wf r"
  "invitations_wf (r\<lparr>rg_identities := is\<rparr>) = invitations_wf r" "invitations_wf (r\<lparr>rg_groups := gs\<rparr>) = invitations_wf r"
  by (simp_all add: wf_defs)

text \<open>The clauses that a write of one table leaves to be shown.\<close>

lemma registry_wf_members: "registry_wf r \<Longrightarrow> members_wf (r\<lparr>rg_members := ms\<rparr>) \<Longrightarrow> registry_wf (r\<lparr>rg_members := ms\<rparr>)"
  by (simp add: registry_wf_def)

lemma registry_wf_passkeys: "registry_wf r \<Longrightarrow> indexes_wf (r\<lparr>rg_passkeys := ps\<rparr>) \<Longrightarrow> registry_wf (r\<lparr>rg_passkeys := ps\<rparr>)"
  by (simp add: registry_wf_def)

lemma registry_wf_identities: "registry_wf r \<Longrightarrow> indexes_wf (r\<lparr>rg_identities := is\<rparr>) \<Longrightarrow> registry_wf (r\<lparr>rg_identities := is\<rparr>)"
  by (simp add: registry_wf_def)

lemma registry_wf_invitations:
  "registry_wf r \<Longrightarrow> invitations_wf (r\<lparr>rg_invitations := vs\<rparr>) \<Longrightarrow> registry_wf (r\<lparr>rg_invitations := vs\<rparr>)"
  by (simp add: registry_wf_def)

lemma registry_wf_users:
  assumes "registry_wf r" and "ru_id ` set (rg_users r) \<subseteq> ru_id ` set us" and "users_unique (r\<lparr>rg_users := us\<rparr>)"
  shows "registry_wf (r\<lparr>rg_users := us\<rparr>)"
proof -
  have "has_user r uid \<Longrightarrow> has_user (r\<lparr>rg_users := us\<rparr>) uid" for uid using assms(2) by (auto simp: has_user_ids)
  then show ?thesis using assms(1,3) by (auto simp: registry_wf_def wf_defs)
qed


section \<open>The statements\<close>

definition keeps_wf :: "statement \<Rightarrow> bool" where
  "keeps_wf s \<longleftrightarrow> (\<forall>r r'. registry_wf r \<longrightarrow> s r = Inr r' \<longrightarrow> registry_wf r')"

lemma keeps_wfD: "keeps_wf s \<Longrightarrow> registry_wf r \<Longrightarrow> s r = Inr r' \<Longrightarrow> registry_wf r'"
  by (auto simp: keeps_wf_def)

lemma batch_wf:
  assumes "\<forall>s \<in> set ss. keeps_wf s" and "registry_wf r" and "batch ss r = Inr r'"
  shows "registry_wf r'"
  using assms
proof (induction ss arbitrary: r)
  case (Cons s ss)
  then obtain r1 where "s r = Inr r1" "batch ss r1 = Inr r'" by (auto split: sum.splits)
  then show ?case using Cons keeps_wfD [of s r r1] by simp
qed simp

lemma batch_append: "batch (ss @ ts) r = (case batch ss r of Inl e \<Rightarrow> Inl e | Inr r' \<Rightarrow> batch ts r')"
  by (induction ss arbitrary: r) (auto split: sum.splits)

lemma emails_uniqueI:
  "(\<And>e u v. u \<in> set us \<Longrightarrow> v \<in> set us \<Longrightarrow> holds_email e u \<Longrightarrow> holds_email e v \<Longrightarrow> ru_id u = ru_id v) \<Longrightarrow> emails_unique us"
  unfolding emails_unique_def by blast

lemma emails_uniqueD:
  "emails_unique us \<Longrightarrow> u \<in> set us \<Longrightarrow> v \<in> set us \<Longrightarrow> holds_email e u \<Longrightarrow> holds_email e v \<Longrightarrow> ru_id u = ru_id v"
  unfolding emails_unique_def by blast

lemma emails_unique_snoc:
  assumes "emails_unique us" and "\<And>e v. v \<in> set us \<Longrightarrow> holds_email e u \<Longrightarrow> \<not> holds_email e v"
  shows "emails_unique (us @ [u])"
proof (rule emails_uniqueI)
  fix e a b
  assume "a \<in> set (us @ [u])" "b \<in> set (us @ [u])" "holds_email e a" "holds_email e b"
  then show "ru_id a = ru_id b" using emails_uniqueD [OF assms(1)] assms(2) by (auto; blast)
qed

lemma emails_unique_update:
  assumes "emails_unique us" and "\<And>u. ru_id (f u) = ru_id u"
    and "\<And>e u v. u \<in> set us \<Longrightarrow> P u \<Longrightarrow> v \<in> set us \<Longrightarrow> holds_email e (f u) \<Longrightarrow>
           (\<not> P v \<longrightarrow> \<not> holds_email e v) \<and> (P v \<longrightarrow> holds_email e (f v) \<longrightarrow> ru_id u = ru_id v)"
  shows "emails_unique (update_where P f us)"
proof (rule emails_uniqueI)
  fix e a b
  assume "a \<in> set (update_where P f us)" "b \<in> set (update_where P f us)" and h: "holds_email e a" "holds_email e b"
  then obtain u v where uv: "u \<in> set us" "v \<in> set us" "a = (if P u then f u else u)" "b = (if P v then f v else v)"
    by (auto simp: set_update_where)
  then show "ru_id a = ru_id b"
    using h assms(2) assms(3) [of u v e] assms(3) [of v u e] emails_uniqueD [OF assms(1) uv(1,2)] by (auto split: if_splits)
qed

lemma insertUser_wf: "keeps_wf (insertUserStatement user now)"
proof (unfold keeps_wf_def, intro allI impI)
  fix r r'
  assume wf: "registry_wf r" and r': "insertUserStatement user now r = Inr r'"
  let ?u = "\<lparr>ru_id = nu_id user, ru_email = nu_email user, ru_email_norm = nu_email_norm user,
      ru_email_verified = nu_email_verified user, ru_display_name = nu_display_name user,
      ru_status = Creating_user, ru_created_at = now, ru_updated_at = now\<rparr>"
  have eq: "r' = r\<lparr>rg_users := rg_users r @ [?u]\<rparr>"
    and fresh: "\<forall>u \<in> set (rg_users r). ru_id u \<noteq> nu_id user \<and> \<not> email_clash (nu_email_verified user) (nu_email_norm user) u"
    using r' by (auto simp: insertUserStatement_def insert_row_Some split: option.splits)
  have "users_unique r'"
    using wf fresh unfolding eq users_unique_def registry_wf_def
    by (auto simp: holds_email_def email_clash_def intro!: emails_unique_snoc)
  then show "registry_wf r'" using wf unfolding eq by (intro registry_wf_users) auto
qed

lemma update_users_ids:
  "(\<And>u. ru_id (f u) = ru_id u) \<Longrightarrow> ru_id ` set (update_where P f us) = ru_id ` set us"
  by (metis list.set_map map_update_where)

lemma setUserStatus_wf:
  assumes "registry_wf r"
  shows "registry_wf (setUserStatus uid status now r)"
proof -
  have "emails_unique (rg_users r)" using assms by (simp add: registry_wf_def users_unique_def)
  then have "emails_unique (update_where (\<lambda>u. ru_id u = uid) (\<lambda>u. u\<lparr>ru_status := status, ru_updated_at := now\<rparr>) (rg_users r))"
    by (rule emails_unique_update) (auto simp: holds_email_def dest: emails_uniqueD [OF \<open>emails_unique (rg_users r)\<close>])
  then have "users_unique (setUserStatus uid status now r)"
    using assms by (simp add: registry_wf_def users_unique_def setUserStatus_def)
  then show ?thesis
    unfolding setUserStatus_def by (intro registry_wf_users assms) (simp_all add: update_users_ids)
qed

lemma updateUserMirror_wf: "keeps_wf (updateUserMirrorStatement uid mirror now)"
proof (unfold keeps_wf_def, intro allI impI)
  fix r r'
  assume wf: "registry_wf r" and r': "updateUserMirrorStatement uid mirror now r = Inr r'"
  let ?f = "\<lambda>u. u\<lparr>ru_email := um_email mirror, ru_email_norm := um_email_norm mirror,
      ru_email_verified := um_email_verified mirror, ru_display_name := um_display_name mirror, ru_updated_at := now\<rparr>"
  have eq: "r' = r\<lparr>rg_users := update_where (\<lambda>u. ru_id u = uid) ?f (rg_users r)\<rparr>"
    using r' by (auto simp: updateUserMirrorStatement_def split: if_splits)
  have fresh: "\<not> email_clash (um_email_verified mirror) (um_email_norm mirror) v"
    if "u \<in> set (rg_users r)" "ru_id u = uid" "v \<in> set (rg_users r)" "ru_id v \<noteq> uid" for u v
    using r' that by (auto simp: updateUserMirrorStatement_def list_ex_iff has_user_def split: if_splits)
  have "emails_unique (update_where (\<lambda>u. ru_id u = uid) ?f (rg_users r))"
    using wf fresh
    by (intro emails_unique_update) (auto simp: registry_wf_def users_unique_def holds_email_def email_clash_def)
  then have "users_unique r'" using wf unfolding eq registry_wf_def users_unique_def by simp
  then show "registry_wf r'" unfolding eq by (intro registry_wf_users wf) (simp_all add: eq update_users_ids)
qed

lemma insert_membership_wf: "keeps_wf (insert_membership ignore gid uid now)"
proof (unfold keeps_wf_def, intro allI impI)
  fix r r'
  assume wf: "registry_wf r" and r': "insert_membership ignore gid uid now r = Inr r'"
  let ?ms = "rg_members r @ [\<lparr>gm_group_id = gid, gm_user_id = uid, gm_added_at = now\<rparr>]"
  have "r' = r \<or> r' = r\<lparr>rg_members := ?ms\<rparr> \<and> members_wf (r\<lparr>rg_members := ?ms\<rparr>)"
    using wf r' by (auto simp: insert_membership_def registry_wf_def members_wf_def list_ex_iff image_iff split: if_splits)
  then show "registry_wf r'" using wf registry_wf_members by blast
qed

lemma delete_members_wf: "registry_wf r \<Longrightarrow> registry_wf (r\<lparr>rg_members := delete_where P (rg_members r)\<rparr>)"
  by (rule registry_wf_members) (auto simp: registry_wf_def members_wf_def)

lemma delete_passkeys_wf: "registry_wf r \<Longrightarrow> registry_wf (r\<lparr>rg_passkeys := delete_where P (rg_passkeys r)\<rparr>)"
  by (rule registry_wf_passkeys) (auto simp: registry_wf_def indexes_wf_def)

lemma delete_identities_wf: "registry_wf r \<Longrightarrow> registry_wf (r\<lparr>rg_identities := delete_where P (rg_identities r)\<rparr>)"
  by (rule registry_wf_identities) (auto simp: registry_wf_def indexes_wf_def)

lemma delete_invitations_wf: "registry_wf r \<Longrightarrow> registry_wf (r\<lparr>rg_invitations := delete_where P (rg_invitations r)\<rparr>)"
  by (rule registry_wf_invitations) (auto simp: registry_wf_def invitations_wf_def)

lemma delete_users_wf:
  assumes "registry_wf r"
  shows "registry_wf (delete_users uid r)"
proof -
  have users: "has_user (delete_users uid r) u \<longleftrightarrow> has_user r u \<and> u \<noteq> uid" for u
    by (auto simp: has_user_ids delete_users_def)
  have groups: "has_group (delete_users uid r) = has_group r" by (simp add: delete_users_def has_group_def fun_eq_iff)
  have "emails_unique (delete_where P (rg_users r))" for P
    using assms unfolding registry_wf_def users_unique_def by (auto intro!: emails_uniqueI dest: emails_uniqueD)
  then show ?thesis
    using assms unfolding registry_wf_def wf_defs users groups
    by (auto simp: delete_users_def)
qed

lemma deleteUserRow_wf: "registry_wf r \<Longrightarrow> registry_wf (snd (deleteUserRow uid r))"
  by (simp add: deleteUserRow_def Let_def delete_invitations_wf delete_users_wf)

lemma claimCredential_wf: "registry_wf r \<Longrightarrow> claimCredential cid uid now r = Inr (won, r') \<Longrightarrow> registry_wf r'"
  by (auto simp: claimCredential_def registry_wf_def indexes_wf_def list_ex_iff split: if_splits
      intro!: registry_wf_passkeys)

lemma replace_passkey_wf: "keeps_wf (replace_passkey cid uid now)"
  unfolding keeps_wf_def
  by (auto simp: replace_passkey_def registry_wf_def indexes_wf_def split: if_splits intro!: registry_wf_passkeys)

lemma replace_identity_wf: "keeps_wf (replace_identity issuer subject uid now)"
  unfolding keeps_wf_def
  by (auto simp: replace_identity_def registry_wf_def indexes_wf_def split: if_splits intro!: registry_wf_identities)

lemma insertIdentity_wf: "keeps_wf (insertIdentityStatement issuer subject uid now)"
  unfolding keeps_wf_def
  by (auto simp: insertIdentityStatement_def registry_wf_def indexes_wf_def list_ex_iff split: if_splits
      intro!: registry_wf_identities)

lemma insertGroup_wf: "registry_wf r \<Longrightarrow> registry_wf (snd (insertGroup gid name description system now r))"
proof (cases "fst (insertGroup gid name description system now r)")
  case True
  assume wf: "registry_wf r"
  let ?g = "\<lparr>gr_id = gid, gr_name = name, gr_description = description, gr_system = system, gr_created_at = now, gr_updated_at = now\<rparr>"
  have eq: "snd (insertGroup gid name description system now r) = r\<lparr>rg_groups := rg_groups r @ [?g]\<rparr>"
    and fresh: "\<forall>g \<in> set (rg_groups r). gr_id g \<noteq> gid \<and> gr_name g \<noteq> name"
    using True by (auto simp: insertGroup_def insert_row_def list_ex_iff split: option.splits if_splits)
  show ?thesis
    using wf fresh unfolding eq registry_wf_def by (auto simp: groups_unique_def members_wf_def has_group_def)
qed (auto simp: insertGroup_def split: option.splits)

lemma deleteGroup_wf:
  assumes "registry_wf r"
  shows "registry_wf (snd (deleteGroup gid r))"
proof (cases "list_ex (\<lambda>g. gr_id g = gid \<and> \<not> gr_system g) (rg_groups r)")
  case True
  let ?gs = "delete_where (\<lambda>g. gr_id g = gid \<and> \<not> gr_system g) (rg_groups r)"
  let ?ms = "delete_where (\<lambda>m. gm_group_id m = gid) (rg_members r)"
  let ?r = "r\<lparr>rg_groups := ?gs, rg_members := ?ms\<rparr>"
  have kept: "has_group ?r g" if "has_group r g" "g \<noteq> gid" for g using that by (auto simp: has_group_def list_ex_iff)
  have "has_user ?r = has_user r" by (simp add: has_user_def fun_eq_iff)
  moreover have "distinct (map (\<lambda>m. (gm_group_id m, gm_user_id m)) ?ms)"
    using assms by (auto simp: registry_wf_def members_wf_def)
  ultimately have "members_wf ?r"
    using assms kept unfolding registry_wf_def members_wf_def by (simp only: registry.simps registry.ext_inject) auto
  moreover have "groups_unique ?r" using assms by (auto simp: registry_wf_def groups_unique_def)
  moreover have "users_unique ?r" "indexes_wf ?r" "invitations_wf ?r" using assms by (simp_all add: registry_wf_def)
  ultimately show ?thesis using True by (simp add: deleteGroup_def registry_wf_def)
qed (simp add: deleteGroup_def assms)

lemma updateGroup_wf:
  assumes "registry_wf r"
  shows "registry_wf (snd (updateGroup gid patch now r))"
proof (cases "fst (updateGroup gid patch now r) = Group_changed")
  case True
  then obtain current name description where
      eq: "snd (updateGroup gid patch now r) = r\<lparr>rg_groups := update_where (\<lambda>g. gr_id g = gid)
        (\<lambda>g. g\<lparr>gr_name := name, gr_description := description, gr_updated_at := now\<rparr>) (rg_groups r)\<rparr>"
    and fresh: "\<forall>g \<in> set (rg_groups r). gr_id g \<noteq> gid \<longrightarrow> gr_name g \<noteq> name"
    by (auto simp: updateGroup_def Let_def list_ex_iff split: option.splits if_splits)
  let ?gs = "update_where (\<lambda>g. gr_id g = gid) (\<lambda>g. g\<lparr>gr_name := name, gr_description := description, gr_updated_at := now\<rparr>)
      (rg_groups r)"
  have "map gr_id ?gs = map gr_id (rg_groups r)" by simp
  then have ids: "gr_id ` set ?gs = gr_id ` set (rg_groups r)" by (metis list.set_map)
  have "distinct (map gr_name ?gs)"
    using assms fresh by (intro distinct_update_fresh) (auto simp: registry_wf_def groups_unique_def)
  then show ?thesis
    using assms ids unfolding eq by (simp add: registry_wf_def groups_unique_def members_wf_def has_group_ids)
qed (use assms in \<open>auto simp: updateGroup_def Let_def split: option.splits if_splits\<close>)

lemma insertInvitation_wf: "keeps_wf (insertInvitation row)"
  unfolding keeps_wf_def
  by (auto simp: insertInvitation_def registry_wf_def invitations_wf_def list_ex_iff split: if_splits option.splits)

lemma consumeInvitation_wf: "registry_wf r \<Longrightarrow> registry_wf (snd (consumeInvitation iid usedBy now r))"
  by (auto simp: consumeInvitation_def registry_wf_def invitations_wf_def set_update_where)


section \<open>The registry as a machine\<close>

text \<open>The statements the code puts into batches, and the writes it makes on their own.\<close>

datatype statement_call =
    Insert_user new_user_row seconds
  | Set_status string user_status seconds
  | Insert_member bool string string seconds
  | Update_mirror string user_mirror seconds
  | Replace_passkeys string "string list" seconds
  | Replace_identities string "(string \<times> string) list" seconds
  | Replace_memberships string "string list" seconds
  | Insert_identity string string string seconds
  | Insert_invitation invitation_row

fun call_statements :: "statement_call \<Rightarrow> statement list" where
  "call_statements (Insert_user u now) = [insertUserStatement u now]"
| "call_statements (Set_status uid st now) = [setUserStatusStatement uid st now]"
| "call_statements (Insert_member ignore gid uid now) = [insert_membership ignore gid uid now]"
| "call_statements (Update_mirror uid m now) = [updateUserMirrorStatement uid m now]"
| "call_statements (Replace_passkeys uid cids now) = replacePasskeyIndexStatements uid cids now"
| "call_statements (Replace_identities uid pairs now) = replaceIdentityIndexStatements uid pairs now"
| "call_statements (Replace_memberships uid gids now) = replaceMembershipStatements uid gids now"
| "call_statements (Insert_identity issuer subject uid now) = [insertIdentityStatement issuer subject uid now]"
| "call_statements (Insert_invitation row) = [insertInvitation row]"

datatype registry_write =
    In_batch "statement_call list"
  | Claim_credential string string seconds
  | Release_credential string
  | Release_identity string string
  | Insert_group string string "string option" bool seconds
  | Delete_group string
  | Update_group string group_patch seconds
  | Delete_membership string string
  | Delete_user string
  | Consume_invitation string string seconds
  | Delete_invitation string
  | Delete_spent seconds

fun registry_step :: "registry_write \<Rightarrow> registry \<Rightarrow> registry" where
  "registry_step (In_batch calls) r = (case batch (concat (map call_statements calls)) r of Inl _ \<Rightarrow> r | Inr r' \<Rightarrow> r')"
| "registry_step (Claim_credential cid uid now) r = (case claimCredential cid uid now r of Inl _ \<Rightarrow> r | Inr x \<Rightarrow> snd x)"
| "registry_step (Release_credential cid) r = releaseCredential cid r"
| "registry_step (Release_identity issuer subject) r = releaseIdentity issuer subject r"
| "registry_step (Insert_group gid name d system now) r = snd (insertGroup gid name d system now r)"
| "registry_step (Delete_group gid) r = snd (deleteGroup gid r)"
| "registry_step (Update_group gid patch now) r = snd (updateGroup gid patch now r)"
| "registry_step (Delete_membership gid uid) r = deleteMembership gid uid r"
| "registry_step (Delete_user uid) r = snd (deleteUserRow uid r)"
| "registry_step (Consume_invitation iid usedBy now) r = snd (consumeInvitation iid usedBy now r)"
| "registry_step (Delete_invitation iid) r = snd (deleteInvitation iid r)"
| "registry_step (Delete_spent cutoff) r = snd (deleteSpentInvitations cutoff r)"

lemma keeps_wf_total: "(\<And>r. registry_wf r \<Longrightarrow> registry_wf (f r)) \<Longrightarrow> keeps_wf (\<lambda>r. Inr (f r))"
  by (auto simp: keeps_wf_def)

lemma setUserStatusStatement_wf: "keeps_wf (setUserStatusStatement uid st now)"
proof -
  have "setUserStatusStatement uid st now = (\<lambda>r. Inr (setUserStatus uid st now r))"
    by (simp add: setUserStatusStatement_def setUserStatus_def fun_eq_iff)
  then show ?thesis by (simp add: keeps_wf_total setUserStatus_wf)
qed

lemma call_statements_wf: "s \<in> set (call_statements x) \<Longrightarrow> keeps_wf s"
  by (cases x)
    (auto simp: insertUser_wf setUserStatusStatement_wf insert_membership_wf updateUserMirror_wf insertIdentity_wf
      insertInvitation_wf replacePasskeyIndexStatements_def replaceIdentityIndexStatements_def
      replaceMembershipStatements_def replace_passkey_wf replace_identity_wf keeps_wf_total delete_members_wf
      delete_passkeys_wf delete_identities_wf)

lemma batch_calls_wf:
  "registry_wf r \<Longrightarrow> batch (concat (map call_statements calls)) r = Inr r' \<Longrightarrow> registry_wf r'"
  by (rule batch_wf [of "concat (map call_statements calls)" r]) (auto dest: call_statements_wf)

lemma registry_step_wf: "registry_wf r \<Longrightarrow> registry_wf (registry_step w r)"
  by (cases w)
    (auto simp: releaseCredential_def releaseIdentity_def deleteMembership_def deleteInvitation_def deleteSpentInvitations_def
      delete_members_wf delete_passkeys_wf delete_identities_wf delete_invitations_wf insertGroup_wf deleteGroup_wf
      updateGroup_wf deleteUserRow_wf consumeInvitation_wf
      split: sum.splits dest: batch_calls_wf claimCredential_wf)

interpretation registry: object_machine registry_step registry_wf
  by unfold_locales (rule registry_step_wf)


section \<open>One holder for every identifier\<close>

text \<open>
  The guarantees a client of the registry relies on: whichever writes happened before, an address that is verified, a
  credential id and an identity name one user, a name one group, and what refers to a user or a group finds it.
\<close>

lemma distinct_map_inj: "distinct (map f xs) \<Longrightarrow> x \<in> set xs \<Longrightarrow> y \<in> set xs \<Longrightarrow> f x = f y \<Longrightarrow> x = y"
  by (auto simp: distinct_map dest: inj_onD)

lemma getUser_iff:
  "registry_wf r \<Longrightarrow> getUser r uid = Some u \<longleftrightarrow> u \<in> set (rg_users r) \<and> ru_id u = uid"
proof
  assume wf: "registry_wf r" and "u \<in> set (rg_users r) \<and> ru_id u = uid"
  then obtain v where "getUser r uid = Some v" "v \<in> set (rg_users r)" "ru_id v = uid"
    unfolding getUser_def by (metis (mono_tags, lifting) not_None_eq select_one_None select_one_SomeD)
  then show "getUser r uid = Some u"
    using wf \<open>u \<in> _ \<and> _\<close> by (auto simp: registry_wf_def users_unique_def dest: distinct_map_inj)
qed (auto simp: getUser_def dest: select_one_SomeD)

lemma has_user_getUser: "has_user r uid \<longleftrightarrow> (\<exists>u. getUser r uid = Some u)"
  unfolding getUser_def has_user_def list_ex_iff by (metis (mono_tags, lifting) not_None_eq select_one_None)

text \<open>
  C33. Whatever sequence of writes the registry has seen from empty, and however their batches failed, every verified
  address, every credential id and every upstream identity belongs to one user only, and that user has a row: the
  credential and the identity that a login looks up resolve to an account that exists.
\<close>

theorem one_holder_per_identifier:
  assumes "r = fold registry_step writes empty_registry"
  shows "(\<forall>e u v. u \<in> set (rg_users r) \<and> v \<in> set (rg_users r) \<and> holds_email e u \<and> holds_email e v \<longrightarrow> u = v) \<and>
    (\<forall>cid uid. lookupCredential r cid = Some uid \<longrightarrow> getUser r uid \<noteq> None \<and>
       (\<forall>p \<in> set (rg_passkeys r). px_credential_id p = cid \<longrightarrow> px_user_id p = uid)) \<and>
    (\<forall>issuer subject h. lookupIdentity r issuer subject = Some h \<longrightarrow> ih_status h \<noteq> None \<and>
       (\<forall>i \<in> set (rg_identities r). ix_issuer i = issuer \<and> ix_subject i = subject \<longrightarrow> ix_user_id i = ih_user_id h))"
proof -
  have wf: "registry_wf r" unfolding assms by (rule registry.inv_run [OF empty_registry_wf])
  have ids: "distinct (map ru_id (rg_users r))" and emails: "emails_unique (rg_users r)"
    using wf by (simp_all add: registry_wf_def users_unique_def)
  have "u = v" if "u \<in> set (rg_users r) \<and> v \<in> set (rg_users r) \<and> holds_email e u \<and> holds_email e v" for e u v
    using that emails_uniqueD [OF emails, of u v e] distinct_map_inj [OF ids, of u v] by simp
  moreover have "getUser r uid \<noteq> None \<and> (\<forall>p \<in> set (rg_passkeys r). px_credential_id p = cid \<longrightarrow> px_user_id p = uid)"
    if l: "lookupCredential r cid = Some uid" for cid uid
  proof -
    obtain p where p: "p \<in> set (rg_passkeys r)" "px_credential_id p = cid" "px_user_id p = uid"
      using l by (auto simp: lookupCredential_def dest: select_one_SomeD)
    have "distinct (map px_credential_id (rg_passkeys r))" using wf by (simp add: registry_wf_def indexes_wf_def)
    moreover have "has_user r uid" using wf p by (auto simp: registry_wf_def indexes_wf_def)
    ultimately have "getUser r uid \<noteq> None" and "q = p" if "q \<in> set (rg_passkeys r)" "px_credential_id q = cid" for q
      using p that distinct_map_inj [of px_credential_id "rg_passkeys r" q p] by (simp_all add: has_user_getUser)
    then show ?thesis using p by blast
  qed
  moreover have "ih_status h \<noteq> None \<and>
      (\<forall>i \<in> set (rg_identities r). ix_issuer i = issuer \<and> ix_subject i = subject \<longrightarrow> ix_user_id i = ih_user_id h)"
    if l: "lookupIdentity r issuer subject = Some h" for issuer subject h
  proof -
    obtain i where i: "i \<in> set (rg_identities r)" "ix_issuer i = issuer" "ix_subject i = subject"
      and h: "h = \<lparr>ih_user_id = ix_user_id i, ih_status = map_option ru_status (getUser r (ix_user_id i))\<rparr>"
      using l by (auto simp: lookupIdentity_def dest: select_one_SomeD)
    have dist: "distinct (map (\<lambda>i. (ix_issuer i, ix_subject i)) (rg_identities r))"
      using wf by (simp add: registry_wf_def indexes_wf_def)
    have "has_user r (ix_user_id i)" using wf i by (auto simp: registry_wf_def indexes_wf_def)
    then have "getUser r (ix_user_id i) \<noteq> None" by (simp add: has_user_getUser)
    moreover have "j = i" if "j \<in> set (rg_identities r)" "ix_issuer j = issuer \<and> ix_subject j = subject" for j
      using distinct_map_inj [OF dist, of j i] i that by simp
    ultimately show ?thesis using h by auto
  qed
  ultimately show ?thesis by blast
qed

definition sample_user_row :: "string \<Rightarrow> new_user_row" where
  "sample_user_row uid =
     \<lparr>nu_id = uid, nu_email = Some ''a@b'', nu_email_norm = Some ''a@b'', nu_email_verified = True, nu_display_name = None\<rparr>"

definition sample_writes :: "registry_write list" where
  "sample_writes =
     [In_batch [Insert_user (sample_user_row ''u1'') 1], In_batch [Insert_user (sample_user_row ''u2'') 2],
      Claim_credential ''c1'' ''u1'' 3, Claim_credential ''c1'' ''u2'' 4]"

text \<open>The witness: a second user with the same verified address is refused, and the credential stays with the first.\<close>

theorem one_holder_witness:
  "let r = fold registry_step sample_writes empty_registry
   in lookupCredential r ''c1'' = Some ''u1'' \<and> getUser r ''u1'' \<noteq> None \<and> getUser r ''u2'' = None"
proof -
  let ?r = "fold registry_step sample_writes empty_registry"
  have l: "lookupCredential ?r ''c1'' = Some ''u1''" and n: "getUser ?r ''u2'' = None" by code_simp+
  from one_holder_per_identifier [of ?r sample_writes] l have "getUser ?r ''u1'' \<noteq> None" by simp
  then show ?thesis using l n by (simp add: Let_def)
qed


section \<open>Invitations are used once\<close>

definition insertion_of :: "string \<Rightarrow> statement_call \<Rightarrow> bool" where
  "insertion_of iid x \<longleftrightarrow> (case x of Insert_invitation row \<Rightarrow> iv_id row = iid | _ \<Rightarrow> False)"

definition inserts_invitation :: "string \<Rightarrow> registry_write \<Rightarrow> bool" where
  "inserts_invitation iid w \<longleftrightarrow> (case w of In_batch calls \<Rightarrow> list_ex (insertion_of iid) calls | _ \<Rightarrow> False)"

definition invitation_spent :: "string \<Rightarrow> registry \<Rightarrow> bool" where
  "invitation_spent iid r \<longleftrightarrow> (\<forall>i \<in> set (rg_invitations r). iv_id i = iid \<longrightarrow> iv_used_at i \<noteq> None)"

definition consumes_invitation :: "string \<Rightarrow> registry_write \<Rightarrow> registry \<Rightarrow> bool" where
  "consumes_invitation iid w r \<longleftrightarrow>
     (case w of Consume_invitation iid' usedBy now \<Rightarrow> iid' = iid \<and> fst (consumeInvitation iid' usedBy now r) | _ \<Rightarrow> False)"

definition keeps_spent :: "string \<Rightarrow> statement \<Rightarrow> bool" where
  "keeps_spent iid s \<longleftrightarrow> (\<forall>r r'. s r = Inr r' \<longrightarrow> invitation_spent iid r \<longrightarrow> invitation_spent iid r')"

lemma spent_frame: "rg_invitations r' = rg_invitations r \<Longrightarrow> invitation_spent iid r' = invitation_spent iid r"
  by (simp add: invitation_spent_def)

lemma batch_keeps_spent:
  assumes "\<forall>s \<in> set ss. keeps_spent iid s" and "batch ss r = Inr r'" and "invitation_spent iid r"
  shows "invitation_spent iid r'"
  using assms
proof (induction ss arbitrary: r)
  case (Cons s ss)
  then obtain r1 where "s r = Inr r1" "batch ss r1 = Inr r'" by (auto split: sum.splits)
  then show ?case using Cons by (auto simp: keeps_spent_def)
qed simp

lemma call_keeps_spent: "\<not> insertion_of iid x \<Longrightarrow> s \<in> set (call_statements x) \<Longrightarrow> keeps_spent iid s"
  by (cases x)
    (auto simp: keeps_spent_def invitation_spent_def insertion_of_def insertUserStatement_def setUserStatusStatement_def
      insert_membership_def updateUserMirrorStatement_def replacePasskeyIndexStatements_def replace_passkey_def
      replaceIdentityIndexStatements_def replace_identity_def replaceMembershipStatements_def insertIdentityStatement_def
      insertInvitation_def
      split: if_splits option.splits)

lemma step_keeps_spent: "\<not> inserts_invitation iid w \<Longrightarrow> invitation_spent iid r \<Longrightarrow> invitation_spent iid (registry_step w r)"
proof (cases w)
  case (In_batch calls)
  assume ni: "\<not> inserts_invitation iid w" and sp: "invitation_spent iid r"
  have "\<forall>s \<in> set (concat (map call_statements calls)). keeps_spent iid s"
    using ni In_batch by (auto simp: inserts_invitation_def list_ex_iff intro: call_keeps_spent)
  from batch_keeps_spent [OF this _ sp] show ?thesis using In_batch sp by (auto split: sum.splits)
qed (auto simp: invitation_spent_def claimCredential_def releaseCredential_def releaseIdentity_def insertGroup_def
    deleteGroup_def updateGroup_def Let_def deleteMembership_def deleteUserRow_def delete_users_def consumeInvitation_def
    set_update_where deleteInvitation_def deleteSpentInvitations_def split: sum.splits option.splits if_splits)

lemma count_one: "count_where P xs = 1 \<Longrightarrow> \<exists>x \<in> set xs. P x"
  by (auto simp: count_where_def length_Suc_conv filter_eq_Cons_iff)

lemma consume_needs_unspent: "consumes_invitation iid w r \<Longrightarrow> \<not> invitation_spent iid r"
  by (auto simp: consumes_invitation_def consumeInvitation_def invitation_spent_def consumable_def dest!: count_one
      split: registry_write.splits)

lemma consume_spends_invitation:
  assumes wf: "registry_wf r" and "consumes_invitation iid w r"
  shows "invitation_spent iid (registry_step w r)"
proof -
  obtain usedBy now where w: "w = Consume_invitation iid usedBy now" and one: "count_where (consumable iid now) (rg_invitations r) = 1"
    using assms(2) by (auto simp: consumes_invitation_def consumeInvitation_def split: registry_write.splits)
  obtain i where i: "i \<in> set (rg_invitations r)" "consumable iid now i" using count_one [OF one] by blast
  have "distinct (map iv_id (rg_invitations r))" using wf by (simp add: registry_wf_def invitations_wf_def)
  then have "consumable iid now j" if "j \<in> set (rg_invitations r)" "iv_id j = iid" for j
    using distinct_map_inj [of iv_id "rg_invitations r" i j] i that by (simp add: consumable_def)
  then show ?thesis
    unfolding w invitation_spent_def
    by (auto simp: consumeInvitation_def set_update_where)
qed

interpretation invitation: single_use registry_step registry_wf "\<lambda>w. \<not> inserts_invitation iid w" "invitation_spent iid"
    "consumes_invitation iid" for iid
  by unfold_locales (auto intro: step_keeps_spent consume_needs_unspent consume_spends_invitation dest: consume_needs_unspent)

text \<open>
  An invitation is consumed at most once. In every sequence of writes that follows a well-formed registry and inserts
  no row under the same (random) id, at most one conditional update of that invitation reports that it won.
\<close>

theorem invitation_consumed_at_most_once:
  assumes "registry_wf r" and "list_all (\<lambda>w. \<not> inserts_invitation iid w) writes"
  shows "run_wins registry_step (consumes_invitation iid) writes r \<le> 1"
  by (rule invitation.at_most_once [OF assms])

definition sample_invitation :: invitation_row where
  "sample_invitation =
     \<lparr>iv_id = ''i1'', iv_token_hash = [], iv_kind = Register_invitation, iv_user_id = None, iv_email = None,
      iv_email_verified = False, iv_display_name = None, iv_groups = [], iv_expires_at = 100, iv_used_at = None,
      iv_used_by = None, iv_created_by = ''admin'', iv_created_at = 0\<rparr>"

text \<open>The witness: of two requests that consume the same invitation, one wins.\<close>

theorem invitation_consumed_witness:
  "let r = registry_step (In_batch [Insert_invitation sample_invitation]) empty_registry;
       writes = [Consume_invitation ''i1'' ''u1'' 10, Consume_invitation ''i1'' ''u2'' 11]
   in run_wins registry_step (consumes_invitation ''i1'') writes r \<le> 1 \<and>
      run_wins registry_step (consumes_invitation ''i1'') writes r = 1"
proof -
  let ?r = "registry_step (In_batch [Insert_invitation sample_invitation]) empty_registry"
  let ?ws = "[Consume_invitation ''i1'' ''u1'' 10, Consume_invitation ''i1'' ''u2'' 11]"
  have "registry_wf ?r" by (rule registry_step_wf [OF empty_registry_wf])
  moreover have "list_all (\<lambda>w. \<not> inserts_invitation ''i1'' w) ?ws" by (simp add: inserts_invitation_def)
  ultimately have "run_wins registry_step (consumes_invitation ''i1'') ?ws ?r \<le> 1"
    by (rule invitation_consumed_at_most_once)
  moreover have "run_wins registry_step (consumes_invitation ''i1'') ?ws ?r = 1" by code_simp
  ultimately show ?thesis by (simp only: Let_def)
qed

end
