(* ===== verification/Pagination.thy ===== *)
theory Pagination
  imports Registry Authorize_Request Interaction "HOL-Library.Countable"
begin

text \<open>
  Keyset pagination of the listings (\<^verbatim>\<open>src/admin/pagination.ts\<close>): limits, pages and signed cursors, and what
  a caller that follows the cursors obtains. The HMAC under the cursor key of a version, \<^verbatim>\<open>JSON.stringify\<close> of a
  cursor payload and its parsing with the schema are fields of a library; \<open>cursor_ok\<close> are their laws.
\<close>

definition DEFAULT_LIMIT :: int where "DEFAULT_LIMIT = 50"
definition MAX_LIMIT :: int where "MAX_LIMIT = 200"
definition CURSOR_TTL_SECONDS :: seconds where "CURSOR_TTL_SECONDS = 3600"
definition MAC_BYTES :: nat where "MAC_BYTES = 16"

type_synonym cursor_payload = "string \<times> seconds \<times> string \<times> seconds"

text \<open>\<open>cu_hmac\<close> is \<^term>\<open>None\<close> for a version without a key.\<close>

record cursor_library =
  cu_active :: byte
  cu_hmac :: "int \<Rightarrow> bytes \<Rightarrow> bytes option"
  cu_print :: "cursor_payload \<Rightarrow> string"
  cu_parse :: "bytes \<Rightarrow> cursor_payload option"

definition cursor_ok :: "cursor_library \<Rightarrow> bool" where
  "cursor_ok lib \<longleftrightarrow>
     (\<forall>payload. cu_parse lib (utf8 (cu_print lib payload)) = Some payload) \<and>
     (\<forall>text. cu_hmac lib (uint (cu_active lib)) text \<noteq> None)"

definition cursor_mac :: "cursor_library \<Rightarrow> int \<Rightarrow> string \<Rightarrow> bytes option" where
  "cursor_mac lib version payload = map_option (take MAC_BYTES) (cu_hmac lib version (utf8 payload))"

text \<open>A number of at most three digits in a template string.\<close>

definition digit_char :: "nat \<Rightarrow> char" where
  "digit_char n = char_of (48 + n mod 10)"

definition number_text :: "nat \<Rightarrow> string" where
  "number_text n =
     (if n < 10 then [digit_char n]
      else if n < 100 then [digit_char (n div 10), digit_char n]
      else [digit_char (n div 100), digit_char (n div 10), digit_char n])"

definition version_text :: "byte \<Rightarrow> string" where
  "version_text v = number_text (unat v)"

text \<open>\<^term>\<open>None\<close> where the active version has no key, which the configuration excludes.\<close>

definition sealCursor :: "cursor_library \<Rightarrow> string \<Rightarrow> keyset \<Rightarrow> seconds \<Rightarrow> string option" where
  "sealCursor lib listing keyset now =
     (let payload = encodeBase64Url (utf8 (cu_print lib (listing, fst keyset, snd keyset, now + CURSOR_TTL_SECONDS))) in
      map_option (\<lambda>tag. version_text (cu_active lib) @ ''.'' @ payload @ ''.'' @ encodeBase64Url tag)
        (cursor_mac lib (uint (cu_active lib)) payload))"

definition short_number :: "string \<Rightarrow> bool" where
  "short_number v \<longleftrightarrow> 1 \<le> length v \<and> length v \<le> 3 \<and> list_all is_digit v"

definition openCursor :: "cursor_library \<Rightarrow> string \<Rightarrow> string \<Rightarrow> seconds \<Rightarrow> keyset option" where
  "openCursor lib listing cursor now =
     (case js_split (CHR ''.'') cursor of
        [version, payload, tag] \<Rightarrow>
          if \<not> short_number version then None
          else
            (case (decodeBase64Url tag, decodeBase64Url payload) of
               (Some presented, Some bytes) \<Rightarrow>
                 (case cursor_mac lib (decimal_value version) payload of
                    None \<Rightarrow> None
                  | Some expected \<Rightarrow>
                      if \<not> secretsEqual presented expected then None
                      else
                        (case cu_parse lib bytes of
                           None \<Rightarrow> None
                         | Some (owner, createdAt, cid, expiresAt) \<Rightarrow>
                             if owner \<noteq> listing \<or> expiresAt \<le> now then None else Some (createdAt, cid)))
             | _ \<Rightarrow> None)
      | _ \<Rightarrow> None)"

definition parseLimit :: "string option \<Rightarrow> int option" where
  "parseLimit raw =
     (case raw of
        None \<Rightarrow> Some DEFAULT_LIMIT
      | Some text \<Rightarrow>
          if \<not> short_number text then None
          else let limit = decimal_value text in if 1 \<le> limit \<and> limit \<le> MAX_LIMIT then Some limit else None)"

definition page :: "'r list \<Rightarrow> nat \<Rightarrow> ('r \<Rightarrow> keyset) \<Rightarrow> (keyset \<Rightarrow> string option) \<Rightarrow> 'r list \<times> string option" where
  "page rows limit keysetOf seal =
     (let items = take limit rows in
      (items, if length rows > limit \<and> items \<noteq> [] then seal (keysetOf (last items)) else None))"

text \<open>
  A listing endpoint past the check of its parameters: the cursor, the query for one row more than the page holds, the
  page. \<^term>\<open>None\<close> is the refusal of the cursor.
\<close>

definition list_page ::
  "cursor_library \<Rightarrow> string \<Rightarrow> ('r \<Rightarrow> keyset) \<Rightarrow> ('r \<Rightarrow> bool) \<Rightarrow> nat \<Rightarrow> 'r list \<Rightarrow> seconds \<Rightarrow> string option \<Rightarrow>
   ('r list \<times> string option) option" where
  "list_page lib listing keysetOf P limit rows now cursor =
     (case cursor of
        None \<Rightarrow> Some (page (keyset_query keysetOf P None (limit + 1) rows) limit keysetOf (\<lambda>k. sealCursor lib listing k now))
      | Some text \<Rightarrow>
          (case openCursor lib listing text now of
             None \<Rightarrow> None
           | Some after \<Rightarrow>
               Some (page (keyset_query keysetOf P (Some after) (limit + 1) rows) limit keysetOf
                       (\<lambda>k. sealCursor lib listing k now))))"

text \<open>
  A caller that follows the cursors: the \<open>n\<close>-th request is made at time \<open>at n\<close>, when the table holds \<open>rows n\<close>. The
  walk may not end, while rows keep being added.
\<close>

partial_function (option) follow ::
  "(nat \<Rightarrow> string option \<Rightarrow> ('r list \<times> string option) option) \<Rightarrow> nat \<Rightarrow> string option \<Rightarrow> 'r list option" where
  "follow fetch n cursor =
     (case fetch n cursor of
        None \<Rightarrow> None
      | Some (items, next) \<Rightarrow>
          (case next of
             None \<Rightarrow> Some items
           | Some c \<Rightarrow> Option.bind (follow fetch (Suc n) (Some c)) (\<lambda>rest. Some (items @ rest))))"


section \<open>Cursors\<close>

lemma digit_char_code: "of_char (digit_char n) = (48 + n mod 10 :: nat)" "of_char (digit_char n) = (48 + int (n mod 10))"
proof -
  show *: "of_char (digit_char n) = (48 + n mod 10 :: nat)"
    by (simp add: digit_char_def)
  have "of_char (digit_char n) = int (of_char (digit_char n))" by (simp only: of_nat_of_char)
  then show "of_char (digit_char n) = (48 + int (n mod 10))" unfolding * by simp
qed

lemma digit_char_digit: "is_digit (digit_char n)"
  by (simp add: is_digit_def less_eq_char_def digit_char_code)

lemma digit_char_no_dot: "digit_char n \<noteq> CHR ''.''"
  using digit_char_code(1) [of n] by auto

lemma number_text_value:
  assumes "n < 1000"
  shows "decimal_value (number_text n) = int n"
proof -
  have one: "10 * int (k div 10) + int (k mod 10) = int k" for k
    by (metis mult_div_mod_eq of_nat_add of_nat_mult of_nat_numeral)
  have two: "10 * int (k div 10 mod 10) + int (k mod 10) = int k" if "k < 100" for k
    using one [of k] that by (simp add: less_mult_imp_div_less)
  have three: "10 * (10 * int (k div 100 mod 10) + int (k div 10 mod 10)) + int (k mod 10) = int k" if "k < 1000" for k
  proof -
    have "k div 100 = k div 10 div 10" by (simp flip: div_mult2_eq)
    then show ?thesis using two [of "k div 10"] one [of k] that by (simp add: less_mult_imp_div_less)
  qed
  show ?thesis
    using two [of n] three [of n] assms
    by (auto simp: number_text_def decimal_value_def digit_char_code simp del: of_nat_mod of_nat_div)
qed

lemma version_round_trip:
  "short_number (version_text v) \<and> decimal_value (version_text v) = uint v \<and> CHR ''.'' \<notin> set (version_text v)"
proof -
  have "unat v < 1000" using byte_lt [of v] by simp
  moreover have "CHR ''.'' \<notin> set (number_text n)" for n
    using digit_char_no_dot by (auto simp: number_text_def) (metis digit_char_no_dot)+
  ultimately show ?thesis
    by (auto simp: version_text_def number_text_value) (simp add: number_text_def short_number_def digit_char_digit)
qed

lemma no_dot_encoded: "CHR ''.'' \<notin> set (encodeBase64Url bs)"
  using encode_alphabet [of bs] by (auto simp: list_all_iff is_b64url_char_def)

lemma cursor_round_trip:
  assumes "cursor_ok lib" and "now < at + CURSOR_TTL_SECONDS"
  shows "\<exists>c. sealCursor lib listing k at = Some c \<and> openCursor lib listing c now = Some k"
proof -
  let ?payload = "encodeBase64Url (utf8 (cu_print lib (listing, fst k, snd k, at + CURSOR_TTL_SECONDS)))"
  obtain tag where tag: "cursor_mac lib (uint (cu_active lib)) ?payload = Some tag"
    using assms(1) by (fastforce simp: cursor_ok_def cursor_mac_def)
  let ?c = "version_text (cu_active lib) @ ''.'' @ ?payload @ ''.'' @ encodeBase64Url tag"
  have "js_split (CHR ''.'') ?c = [version_text (cu_active lib), ?payload, encodeBase64Url tag]"
    using version_round_trip [of "cu_active lib"] no_dot_encoded by (simp add: js_simps)
  then have "openCursor lib listing ?c now = Some k"
    using assms tag version_round_trip [of "cu_active lib"]
    by (simp add: openCursor_def decode_encode_base64url cursor_ok_def secretsEqual_def)
  then show ?thesis using tag by (simp add: sealCursor_def Let_def)
qed


section \<open>Following the cursors\<close>

text \<open>What one query returns: the rows after the cursor, strictly increasing in the keyset, cut at the limit.\<close>

definition matching :: "('r \<Rightarrow> keyset) \<Rightarrow> ('r \<Rightarrow> bool) \<Rightarrow> keyset option \<Rightarrow> 'r list \<Rightarrow> 'r list" where
  "matching keysetOf P after rows =
     sort_key keysetOf (filter (\<lambda>r. P r \<and> (case after of None \<Rightarrow> True | Some k \<Rightarrow> keysetOf r > k)) rows)"

lemma keyset_query_matching: "keyset_query keysetOf P after limit rows = take limit (matching keysetOf P after rows)"
  by (simp add: keyset_query_def matching_def)

lemma matching_sorted:
  assumes "distinct (map keysetOf rows)"
  shows "sorted_wrt (<) (map keysetOf (matching keysetOf P after rows))"
proof -
  let ?rows = "filter (\<lambda>r. P r \<and> (case after of None \<Rightarrow> True | Some k \<Rightarrow> keysetOf r > k)) rows"
  have "distinct (map keysetOf ?rows)" using assms by (rule distinct_map_filter)
  then have "distinct (map keysetOf (sort_key keysetOf ?rows))" by (simp add: distinct_map)
  then show ?thesis unfolding matching_def strict_sorted_iff by simp
qed

lemma set_matching:
  "set (matching keysetOf P after rows) =
     {r \<in> set rows. P r \<and> (case after of None \<Rightarrow> True | Some k \<Rightarrow> keysetOf r > k)}"
  by (simp add: matching_def)

lemma strict_sorted_map_unique:
  fixes f :: "'r \<Rightarrow> 'k :: linorder"
  assumes "sorted_wrt (<) (map f xs)" and "sorted_wrt (<) (map f ys)" and "set xs = set ys" and "inj_on f (set xs)"
  shows "xs = ys"
proof -
  have "map f xs = map f ys"
    using assms by (intro strict_sorted_equal) auto
  then show ?thesis using assms(3,4) by (simp add: inj_on_map_eq_map)
qed

text \<open>A page ends at its last row: the rows of the page are up to it, the others after it.\<close>

lemma page_boundary:
  assumes "distinct (map keysetOf rows)" and "0 < limit" and "limit < length (matching keysetOf P after rows)"
  defines "m \<equiv> matching keysetOf P after rows"
  shows "last (take limit m) \<in> set (take limit m)"
    and "r \<in> set (take limit m) \<Longrightarrow> keysetOf r \<le> keysetOf (last (take limit m))"
    and "r \<in> set (drop limit m) \<Longrightarrow> keysetOf r > keysetOf (last (take limit m))"
proof -
  have sorted: "sorted_wrt (<) (map keysetOf m)" unfolding m_def using assms(1) by (rule matching_sorted)
  have split: "m = take limit m @ drop limit m" by simp
  show last: "last (take limit m) \<in> set (take limit m)" using assms(2,3) m_def by (intro last_in_set) auto
  have "sorted_wrt (<) (map keysetOf (take limit m))" using sorted by (simp add: sorted_wrt_take flip: take_map)
  then show "r \<in> set (take limit m) \<Longrightarrow> keysetOf r \<le> keysetOf (last (take limit m))"
    by (cases "take limit m" rule: rev_cases) (auto simp: sorted_wrt_append intro: less_imp_le)
  show "r \<in> set (drop limit m) \<Longrightarrow> keysetOf r > keysetOf (last (take limit m))"
    using sorted last by (subst (asm) split) (auto simp: sorted_wrt_append simp del: append_take_drop_id)
qed

text \<open>The rows after the last one of a page are the rest of the matching ones.\<close>

lemma matching_rest:
  assumes d: "distinct (map keysetOf rows)" and n: "0 < limit" "limit < length (matching keysetOf P after rows)"
  shows "matching keysetOf P (Some (keysetOf (last (take limit (matching keysetOf P after rows))))) rows =
           drop limit (matching keysetOf P after rows)"
proof -
  let ?m = "matching keysetOf P after rows"
  let ?k = "keysetOf (last (take limit ?m))"
  note last = page_boundary(1) [OF d n] and before = page_boundary(2) [OF d n] and later = page_boundary(3) [OF d n]
  have split: "?m = take limit ?m @ drop limit ?m" by simp
  have sorted: "sorted_wrt (<) (map keysetOf ?m)" using d by (rule matching_sorted)
  have after_k: "case after of None \<Rightarrow> True | Some a \<Rightarrow> keysetOf r > a" if "keysetOf r > ?k" for r
    using last that set_take_subset [of limit ?m] set_matching [of keysetOf P after rows]
    by (fastforce split: option.splits)
  have "set (drop limit ?m) = {r \<in> set rows. P r \<and> keysetOf r > ?k}"
  proof (intro set_eqI iffI)
    fix r
    assume "r \<in> set (drop limit ?m)"
    then show "r \<in> {r \<in> set rows. P r \<and> keysetOf r > ?k}"
      using later set_drop_subset [of limit ?m] by (auto simp: set_matching)
  next
    fix r
    assume r: "r \<in> {r \<in> set rows. P r \<and> keysetOf r > ?k}"
    then have "r \<in> set ?m" using after_k by (simp add: set_matching)
    then have "r \<in> set (take limit ?m) \<or> r \<in> set (drop limit ?m)" using split by (metis Un_iff set_append)
    moreover have "r \<notin> set (take limit ?m)" using before [of r] r by auto
    ultimately show "r \<in> set (drop limit ?m)" by blast
  qed
  then have eq: "set (matching keysetOf P (Some ?k) rows) = set (drop limit ?m)" by (simp add: set_matching)
  have "sorted_wrt (<) (map keysetOf (drop limit ?m))" using sorted by (simp add: sorted_wrt_drop flip: drop_map)
  moreover have "inj_on keysetOf (set (matching keysetOf P (Some ?k) rows))"
    using d by (auto simp: distinct_map set_matching intro: inj_on_subset)
  ultimately show ?thesis
    using strict_sorted_map_unique [OF matching_sorted [OF d] _ eq] by blast
qed


definition cursor_at :: "cursor_library \<Rightarrow> string \<Rightarrow> seconds \<Rightarrow> string option \<Rightarrow> keyset option \<Rightarrow> bool" where
  "cursor_at lib listing now cursor after \<longleftrightarrow>
     (case cursor of None \<Rightarrow> after = None | Some c \<Rightarrow> after \<noteq> None \<and> openCursor lib listing c now = after)"

lemma list_page_at:
  assumes "cursor_at lib listing now cursor after"
  shows "list_page lib listing keysetOf P limit rows now cursor =
     Some (take limit (matching keysetOf P after rows),
           if length (matching keysetOf P after rows) > limit \<and> 0 < limit
           then sealCursor lib listing (keysetOf (last (take limit (matching keysetOf P after rows)))) now else None)"
proof -
  let ?m = "matching keysetOf P after rows"
  have "list_page lib listing keysetOf P limit rows now cursor =
      Some (page (take (Suc limit) ?m) limit keysetOf (\<lambda>k. sealCursor lib listing k now))"
    using assms by (auto simp: list_page_def cursor_at_def keyset_query_matching split: option.splits)
  moreover have "take limit (take (Suc limit) ?m) = take limit ?m" by simp
  moreover have "limit < length (take (Suc limit) ?m) \<longleftrightarrow> limit < length ?m" by auto
  ultimately show ?thesis by (auto simp: page_def Let_def)
qed

lemma follow_all:
  assumes "cursor_ok lib" and "0 < limit" and "distinct (map keysetOf rows)" and "\<And>n. at (Suc n) < at n + CURSOR_TTL_SECONDS"
  shows "cursor_at lib listing (at n) cursor after \<Longrightarrow>
    follow (\<lambda>n. list_page lib listing keysetOf P limit rows (at n)) n cursor = Some (matching keysetOf P after rows)"
proof (induction "length (matching keysetOf P after rows)" arbitrary: n cursor after rule: less_induct)
  case less
  let ?fetch = "\<lambda>n. list_page lib listing keysetOf P limit rows (at n)"
  let ?m = "matching keysetOf P after rows"
  show ?case
  proof (cases "length ?m > limit")
    case False
    then show ?thesis using list_page_at [OF less.prems, of keysetOf P limit rows] by (subst follow.simps) simp
  next
    case True
    let ?k = "keysetOf (last (take limit ?m))"
    obtain c where c: "sealCursor lib listing ?k (at n) = Some c" and "openCursor lib listing c (at (Suc n)) = Some ?k"
      using cursor_round_trip [OF assms(1,4)] by blast
    then have "cursor_at lib listing (at (Suc n)) (Some c) (Some ?k)" by (simp add: cursor_at_def)
    moreover have rest: "matching keysetOf P (Some ?k) rows = drop limit ?m"
      using matching_rest [OF assms(3,2) True] .
    ultimately have "follow ?fetch (Suc n) (Some c) = Some (drop limit ?m)"
      using less.hyps [of "Some ?k" "Suc n" "Some c"] True assms(2) by simp
    then show ?thesis
      using list_page_at [OF less.prems, of keysetOf P limit rows] True assms(2) c by (subst follow.simps) simp
  qed
qed

text \<open>
  The walk over a table that changes between the requests. \<open>walked\<close>: in strictly increasing order, only rows that
  were there and match, and every row that was there all along and matches.
\<close>

definition walked ::
  "('r \<Rightarrow> keyset) \<Rightarrow> ('r \<Rightarrow> bool) \<Rightarrow> (nat \<Rightarrow> 'r list) \<Rightarrow> keyset option \<Rightarrow> 'r list \<Rightarrow> bool" where
  "walked keysetOf P rowsAt after items \<longleftrightarrow>
     sorted_wrt (<) (map keysetOf items) \<and>
     (\<forall>r \<in> set items. (\<exists>j. r \<in> set (rowsAt j)) \<and> P r \<and> (case after of None \<Rightarrow> True | Some k \<Rightarrow> keysetOf r > k)) \<and>
     (\<forall>r. (\<forall>j. r \<in> set (rowsAt j)) \<and> P r \<and> (case after of None \<Rightarrow> True | Some k \<Rightarrow> keysetOf r > k) \<longrightarrow> r \<in> set items)"

lemma walked_last:
  "distinct (map keysetOf (rowsAt n)) \<Longrightarrow> walked keysetOf P rowsAt after (matching keysetOf P after (rowsAt n))"
  by (auto simp: walked_def matching_sorted set_matching)

lemma walked_step:
  assumes d: "distinct (map keysetOf (rowsAt n))" and n: "0 < limit" "limit < length (matching keysetOf P after (rowsAt n))"
  defines "m \<equiv> matching keysetOf P after (rowsAt n)"
  assumes rest: "walked keysetOf P rowsAt (Some (keysetOf (last (take limit m)))) rest"
  shows "walked keysetOf P rowsAt after (take limit m @ rest)"
proof -
  let ?k = "keysetOf (last (take limit m))"
  note bound = page_boundary [OF d n, folded m_def]
  have m: "set m = {r \<in> set (rowsAt n). P r \<and> (case after of None \<Rightarrow> True | Some k \<Rightarrow> keysetOf r > k)}"
    by (simp add: m_def set_matching)
  have take_m: "set (take limit m) \<subseteq> set m" by (rule set_take_subset)
  have sorted: "sorted_wrt (<) (map keysetOf (take limit m))"
    using matching_sorted [OF d, of P after] by (simp add: m_def sorted_wrt_take flip: take_map)
  have rest_k: "keysetOf r > ?k" if "r \<in> set rest" for r
    using rest that unfolding walked_def option.case by blast
  have rest_after: "case after of None \<Rightarrow> True | Some k \<Rightarrow> keysetOf r > k" if "r \<in> set rest" for r
  proof -
    have "last (take limit m) \<in> set m" using take_m bound(1) by (rule subsetD)
    then have "case after of None \<Rightarrow> True | Some k \<Rightarrow> ?k > k" unfolding m by simp
    then show ?thesis using rest_k [OF that] by (auto split: option.splits)
  qed
  have "r \<in> set (take limit m @ rest)"
    if r: "\<forall>j. r \<in> set (rowsAt j)" "P r" "case after of None \<Rightarrow> True | Some k \<Rightarrow> keysetOf r > k" for r
  proof -
    have "r \<in> set (take limit m @ drop limit m)" using r m by simp
    then consider "r \<in> set (take limit m)" | "r \<in> set (drop limit m)" by (auto simp del: append_take_drop_id)
    then show ?thesis
    proof cases
      case 2
      then have "r \<in> set rest" using rest r(1,2) bound(3) unfolding walked_def option.case by blast
      then show ?thesis by simp
    qed simp
  qed
  moreover have "sorted_wrt (<) (map keysetOf (take limit m @ rest))"
  proof -
    have "sorted_wrt (<) (map keysetOf rest)" using rest unfolding walked_def by blast
    moreover have "keysetOf a < keysetOf b" if "a \<in> set (take limit m)" "b \<in> set rest" for a b
      using le_less_trans [OF bound(2) [OF that(1)] rest_k [OF that(2)]] .
    ultimately show ?thesis using sorted by (simp add: sorted_wrt_append)
  qed
  moreover have "\<forall>r \<in> set (take limit m @ rest). (\<exists>j. r \<in> set (rowsAt j)) \<and> P r \<and>
      (case after of None \<Rightarrow> True | Some k \<Rightarrow> keysetOf r > k)"
  proof
    fix r
    assume "r \<in> set (take limit m @ rest)"
    then consider "r \<in> set m" | "r \<in> set rest" using take_m by auto
    then show "(\<exists>j. r \<in> set (rowsAt j)) \<and> P r \<and> (case after of None \<Rightarrow> True | Some k \<Rightarrow> keysetOf r > k)"
    proof cases
      case 1
      then show ?thesis unfolding m by blast
    next
      case 2
      then show ?thesis using rest rest_after unfolding walked_def by blast
    qed
  qed
  ultimately show ?thesis unfolding walked_def by blast
qed

lemma follow_walked:
  assumes "cursor_ok lib" and "0 < limit" and "\<And>n. distinct (map keysetOf (rowsAt n))"
    and "\<And>n. at (Suc n) < at n + CURSOR_TTL_SECONDS"
    and "follow (\<lambda>n. list_page lib listing keysetOf P limit (rowsAt n) (at n)) n cursor = Some items"
    and "cursor_at lib listing (at n) cursor after"
  shows "walked keysetOf P rowsAt after items"
proof -
  let ?fetch = "\<lambda>n. list_page lib listing keysetOf P limit (rowsAt n) (at n)"
  define Q where "Q f n cursor items \<longleftrightarrow>
      (f = ?fetch \<longrightarrow> (\<forall>after. cursor_at lib listing (at n) cursor after \<longrightarrow> walked keysetOf P rowsAt after items))"
    for f n cursor items
  have "Q ?fetch n cursor items"
    using assms(5)
  proof (rule follow.raw_induct [where P = Q, rotated])
    fix rec f n cursor items
    assume 1: "\<And>f n cursor items. rec f n cursor = Some items \<Longrightarrow> Q f n cursor items"
      "(case f n cursor of None \<Rightarrow> None | Some (items, next) \<Rightarrow>
          (case next of None \<Rightarrow> Some items
           | Some c \<Rightarrow> Option.bind (rec f (Suc n) (Some c)) (\<lambda>rest. Some (items @ rest)))) = Some items"
    show "Q f n cursor items"
      unfolding Q_def
    proof (intro impI allI)
      fix after
      assume f: "f = ?fetch" and at: "cursor_at lib listing (at n) cursor after"
      let ?m = "matching keysetOf P after (rowsAt n)"
      let ?k = "keysetOf (last (take limit ?m))"
      note page = list_page_at [OF at, of keysetOf P limit "rowsAt n"]
      show "walked keysetOf P rowsAt after items"
      proof (cases "length ?m > limit")
        case False
        then have "items = ?m" using 1(2) page f by simp
        then show ?thesis using walked_last [of keysetOf rowsAt n P after] assms(3) by simp
      next
        case True
        obtain c where c: "sealCursor lib listing ?k (at n) = Some c" and "openCursor lib listing c (at (Suc n)) = Some ?k"
          using cursor_round_trip [OF assms(1,4)] by blast
        then have next_at: "cursor_at lib listing (at (Suc n)) (Some c) (Some ?k)" by (simp add: cursor_at_def)
        obtain rest where "rec f (Suc n) (Some c) = Some rest" and items: "items = take limit ?m @ rest"
          using 1(2) page f c True assms(2) by (auto simp: Option.bind_eq_Some_conv)
        then have "walked keysetOf P rowsAt (Some ?k) rest" using 1(1) f next_at unfolding Q_def by blast
        then show ?thesis unfolding items using walked_step [where rowsAt = rowsAt and n = n, OF assms(3,2) True] by blast
      qed
    qed
  qed
  then show ?thesis using assms(6) by (simp add: Q_def)
qed


section \<open>Properties\<close>

text \<open>
  C40. Following the cursors is equivalent to one unlimited query: on a table that does not change and whose rows differ in
  creation time or id, with any positive page size, requests less than an hour apart, and a cursor key and a JSON codec that
  do their work, the walk over the pages ends and returns exactly the matching rows, each once,
  in the order of creation.
\<close>

theorem pages_equal_one_query:
  assumes "cursor_ok lib" and "0 < limit" and "distinct (map keysetOf rows)" and "\<And>n. at (Suc n) < at n + 3600"
  shows "follow (\<lambda>n. list_page lib listing keysetOf P limit rows (at n)) 0 None =
           Some (sort_key keysetOf (filter P rows))"
proof -
  have "at (Suc n) < at n + CURSOR_TTL_SECONDS" for n using assms(4) by (simp add: CURSOR_TTL_SECONDS_def)
  from follow_all [where at = at, OF assms(1-3) this] show ?thesis by (simp add: cursor_at_def matching_def)
qed

text \<open>
  A library that satisfies the laws, for the witnesses: the payload of a listing whose keysets are the numbers up to
  nine, printed as its members with separators, and a tag made of the version.
\<close>

definition ex_cursor_library :: cursor_library where
  "ex_cursor_library =
     \<lparr>cu_active = 2, cu_hmac = (\<lambda>v text. Some (replicate 32 (word_of_int v))),
      cu_print = (\<lambda>p. replicate (to_nat p) (CHR ''x'')), cu_parse = (\<lambda>b. Some (from_nat (length b)))\<rparr>"

lemma ex_cursor_library_ok: "cursor_ok ex_cursor_library"
proof -
  have "length (utf8 (replicate n (CHR ''x''))) = n" for n
    by (induction n) (simp_all add: utf8_def)
  then show ?thesis by (simp add: cursor_ok_def ex_cursor_library_def)
qed

definition ex_listed :: "string \<Rightarrow> seconds \<Rightarrow> user_status \<Rightarrow> registry_user" where
  "ex_listed uid t status =
     \<lparr>ru_id = uid, ru_email = None, ru_email_norm = None, ru_email_verified = False, ru_display_name = None,
      ru_status = status, ru_created_at = t, ru_updated_at = t\<rparr>"

definition ex_listing :: "registry_user list" where
  "ex_listing = [ex_listed ''u3'' 7 Active_user, ex_listed ''u1'' 5 Active_user, ex_listed ''u4'' 6 Creating_user,
                 ex_listed ''u2'' 5 Disabled_user]"

lemma ex_listing_keysets: "distinct (map user_keyset ex_listing)"
  by (simp add: ex_listing_def ex_listed_def user_keyset_def)

theorem pages_equal_one_query_witness:
  "follow (\<lambda>n. list_page ex_cursor_library ''users'' user_keyset (\<lambda>u. ru_status u \<noteq> Creating_user) 1 ex_listing
             (1000 + 60 * int n)) 0 None =
   Some [ex_listed ''u1'' 5 Active_user, ex_listed ''u2'' 5 Disabled_user, ex_listed ''u3'' 7 Active_user]"
proof -
  have "sort_key user_keyset (filter (\<lambda>u. ru_status u \<noteq> Creating_user) ex_listing) =
      [ex_listed ''u1'' 5 Active_user, ex_listed ''u2'' 5 Disabled_user, ex_listed ''u3'' 7 Active_user]"
    by code_simp
  then show ?thesis
    using pages_equal_one_query [OF ex_cursor_library_ok _ ex_listing_keysets, of 1 "\<lambda>n. 1000 + 60 * int n"] by simp
qed

text \<open>
  Pages neither repeat nor skip while the table changes: if the walk ends, its rows are in strictly increasing
  order of creation time and id, so that no row is returned twice, every returned row was in the table and matches, and
  every row that matches and was in the table at each of the requests is returned.
\<close>

theorem pages_of_a_changing_table:
  assumes "cursor_ok lib" and "0 < limit" and "\<And>n. distinct (map keysetOf (rowsAt n))" and "\<And>n. at (Suc n) < at n + 3600"
    and "follow (\<lambda>n. list_page lib listing keysetOf P limit (rowsAt n) (at n)) 0 None = Some items"
  shows "sorted_wrt (<) (map keysetOf items) \<and> (\<forall>r \<in> set items. P r \<and> (\<exists>j. r \<in> set (rowsAt j))) \<and>
         {r. P r \<and> (\<forall>j. r \<in> set (rowsAt j))} \<subseteq> set items"
proof -
  have "at (Suc n) < at n + CURSOR_TTL_SECONDS" for n using assms(4) by (simp add: CURSOR_TTL_SECONDS_def)
  from follow_walked [where at = at, OF assms(1-3) this assms(5), of None] show ?thesis
    by (auto simp: cursor_at_def walked_def)
qed


theorem pages_of_a_changing_table_witness:
  "\<exists>items. follow (\<lambda>n. list_page ex_cursor_library ''users'' user_keyset (\<lambda>u. True) 2 ex_listing (1000 + 60 * int n)) 0 None =
             Some items \<and>
     sorted_wrt (<) (map user_keyset items) \<and> ex_listed ''u4'' 6 Creating_user \<in> set items"
proof -
  let ?fetch = "\<lambda>n. list_page ex_cursor_library ''users'' user_keyset (\<lambda>u. True) 2 ex_listing (1000 + 60 * int n)"
  have run: "follow ?fetch 0 None = Some (matching user_keyset (\<lambda>u. True) None ex_listing)"
    by (rule follow_all [OF ex_cursor_library_ok _ ex_listing_keysets]) (simp_all add: cursor_at_def CURSOR_TTL_SECONDS_def)
  have "ex_listed ''u4'' 6 Creating_user \<in> set ex_listing" by (simp add: ex_listing_def)
  then show ?thesis
    using pages_of_a_changing_table [where rowsAt = "\<lambda>_. ex_listing" and at = "\<lambda>n. 1000 + 60 * int n",
        OF ex_cursor_library_ok _ ex_listing_keysets _ run] run by auto
qed

end
