(* ===== verification/Users.thy ===== *)
theory Users
  imports Registry Http
begin

text \<open>
  Accounts over the registry in D1 and the user objects: e-mail addresses (\<^verbatim>\<open>src/users/email.ts\<close>), creation of
  users (\<^verbatim>\<open>src/users/create.ts\<close>), groups (\<^verbatim>\<open>src/users/groups.ts\<close>), administration
  (\<^verbatim>\<open>src/users/admin.ts\<close>), invitations (\<^verbatim>\<open>src/users/invitations.ts\<close>) and passkeys
  (\<^verbatim>\<open>src/users/passkeys.ts\<close>). A user is first claimed in D1, then initialised in its object, then activated in
  D1; the phases are separate definitions because other requests may run between them.
\<close>

record accounts =
  acc_registry :: registry
  acc_objects :: users

definition on_object :: "string \<Rightarrow> (user_do \<Rightarrow> 'r \<times> user_do) \<Rightarrow> accounts \<Rightarrow> 'r \<times> accounts" where
  "on_object uid f a = (let (x, objs) = on_user uid f (acc_objects a) in (x, a\<lparr>acc_objects := objs\<rparr>))"


section \<open>E-mail addresses\<close>

definition EMAIL_MAX_LENGTH :: nat where "EMAIL_MAX_LENGTH = 254"

definition is_alnum :: "char \<Rightarrow> bool" where
  "is_alnum ch \<longleftrightarrow> is_lower_or_upper ch \<or> is_digit ch"

definition email_label :: "string \<Rightarrow> bool" where
  "email_label l \<longleftrightarrow>
     1 \<le> length l \<and> length l \<le> 63 \<and> is_alnum (hd l) \<and> is_alnum (last l) \<and> list_all (\<lambda>ch. is_alnum ch \<or> ch = CHR ''-'') l"

text \<open>\<^verbatim>\<open>EMAIL_PATTERN\<close>: the local part has no \<^verbatim>\<open>@\<close>, so that the first one separates the parts.\<close>

definition EMAIL_PATTERN :: "string \<Rightarrow> bool" where
  "EMAIL_PATTERN text \<longleftrightarrow>
     (let local = takeWhile (\<lambda>ch. ch \<noteq> CHR ''@'') text; rest = drop (length local) text in
      local \<noteq> [] \<and> list_all (\<lambda>ch. is_alnum ch \<or> ch \<in> set ''.!#$%&'' \<or> ch = CHR 0x27 \<or> ch \<in> set ''*+/=?^_'' \<or>
                               ch = CHR 0x60 \<or> ch \<in> set ''{|}~-'') local \<and>
      rest \<noteq> [] \<and> list_all email_label (js_split (CHR ''.'') (tl rest)))"

definition isValidEmail :: "string \<Rightarrow> bool" where
  "isValidEmail email \<longleftrightarrow>
     (let trimmed = js_trim email in trimmed \<noteq> [] \<and> length trimmed \<le> EMAIL_MAX_LENGTH \<and> EMAIL_PATTERN trimmed)"

text \<open>Normalisation to NFC changes no character of the model's alphabet, and a valid address is ASCII.\<close>

definition normalizeEmail :: "string \<Rightarrow> string" where
  "normalizeEmail email = map to_lower (js_trim email)"

definition maskEmail :: "string option \<Rightarrow> string option" where
  "maskEmail email =
     map_option (\<lambda>e.
       let domain = rev (takeWhile (\<lambda>ch. ch \<noteq> CHR ''@'') (rev e)); at = length e - length domain - 1 in
       if CHR ''@'' \<notin> set e \<or> at = 0 then ''***'' else hd e # ''***@'' @ domain) email"


section \<open>Creation\<close>

record new_user =
  nw_id :: string
  nw_email :: "string option"
  nw_email_verified :: bool
  nw_display_name :: "string option"
  nw_groups :: "string list"
  nw_identities :: "new_identity list"
  nw_created_at :: "seconds option"

datatype create_failure = Email_invalid | Account_exists | Identity_already_linked | Group_unknown | Temporarily_unavailable

record prepared =
  pr_input :: new_user
  pr_email :: "string option"
  pr_email_norm :: "string option"
  pr_group_ids :: "string list"
  pr_identities :: "new_identity list"
  pr_at :: seconds

definition prepare_user :: "registry \<Rightarrow> seconds \<Rightarrow> new_user \<Rightarrow> create_failure + prepared" where
  "prepare_user r now input =
     (let email = map_option js_trim (nw_email input) in
      if (case email of None \<Rightarrow> False | Some e \<Rightarrow> \<not> isValidEmail e) then Inl Email_invalid
      else if list_ex (\<lambda>name. groupIdsByName r name = None) (nw_groups input) then Inl Group_unknown
      else Inr \<lparr>pr_input = input, pr_email = email, pr_email_norm = map_option normalizeEmail email,
                pr_group_ids = map (\<lambda>name. the (groupIdsByName r name)) (nw_groups input),
                pr_identities = nw_identities input, pr_at = or_setting (nw_created_at input) now\<rparr>)"

definition claimStatements :: "prepared \<Rightarrow> statement list" where
  "claimStatements p =
     insertUserStatement
       \<lparr>nu_id = nw_id (pr_input p), nu_email = pr_email p, nu_email_norm = pr_email_norm p,
        nu_email_verified = nw_email_verified (pr_input p), nu_display_name = nw_display_name (pr_input p)\<rparr> (pr_at p) #
     insertMembershipStatements (nw_id (pr_input p)) (pr_group_ids p) (pr_at p) @
     map (\<lambda>i. insertIdentityStatement (ni_issuer i) (ni_subject i) (nw_id (pr_input p)) (pr_at p)) (pr_identities p)"

fun uniquenessFailure :: "d1_error \<Rightarrow> create_failure option" where
  "uniquenessFailure (Unique_violation tab) =
     Some (if tab = ''identity_index'' then Identity_already_linked else Account_exists)"
| "uniquenessFailure Foreign_key_violation = None"

text \<open>Step 1. \<^term>\<open>None\<close> where the code throws.\<close>

fun claim_each :: "prepared list \<Rightarrow> registry \<Rightarrow> (create_failure option list \<times> registry) option" where
  "claim_each [] r = Some ([], r)"
| "claim_each (p # ps) r =
     (case batch (claimStatements p) r of
        Inr r' \<Rightarrow> map_option (\<lambda>(fs, r''). (None # fs, r'')) (claim_each ps r')
      | Inl e \<Rightarrow>
          (case uniquenessFailure e of
             None \<Rightarrow> None
           | Some f \<Rightarrow> map_option (\<lambda>(fs, r''). (Some f # fs, r'')) (claim_each ps r)))"

definition claim_all :: "prepared list \<Rightarrow> registry \<Rightarrow> (create_failure option list \<times> registry) option" where
  "claim_all ps r =
     (case batch (concat (map claimStatements ps)) r of
        Inr r' \<Rightarrow> Some (map (\<lambda>_. None) ps, r')
      | Inl e \<Rightarrow> (case uniquenessFailure e of None \<Rightarrow> None | Some _ \<Rightarrow> claim_each ps r))"

text \<open>
  Step 2. A call of an object may get lost before it runs, or run without its answer arriving; both throw. It is
  repeated once.
\<close>

datatype delivery = Delivered | Lost | Unanswered

definition delivered :: "delivery \<Rightarrow> (user_do \<Rightarrow> ('a, 'e) do_result \<times> user_do) \<Rightarrow> user_do \<Rightarrow> ('a, 'e) do_result \<times> user_do" where
  "delivered d f s =
     (case d of Delivered \<Rightarrow> f s | Lost \<Rightarrow> (Threw, s) | Unanswered \<Rightarrow> (Threw, snd (f s)))"

definition init_call :: "prepared \<Rightarrow> user_do \<Rightarrow> (user_profile, user_do_error) do_result \<times> user_do" where
  "init_call p =
     init \<lparr>ip_id = nw_id (pr_input p), ip_email = pr_email p, ip_email_norm = pr_email_norm p,
           ip_email_verified = nw_email_verified (pr_input p), ip_display_name = nw_display_name (pr_input p),
           ip_groups = sort (nw_groups (pr_input p))\<rparr> (pr_at p) (pr_identities p)"

definition INIT_RETRIES :: nat where "INIT_RETRIES = 1"

fun initialize_from ::
  "(nat \<Rightarrow> delivery) \<Rightarrow> prepared \<Rightarrow> nat \<Rightarrow> user_do \<Rightarrow> (create_failure + user_profile) \<times> user_do" where
  "initialize_from d p left s =
     (case delivered (d (INIT_RETRIES - left)) (init_call p) s of
        (Ok prof, s') \<Rightarrow> (Inr prof, s')
      | (Fail _, s') \<Rightarrow> (Inl Temporarily_unavailable, s')
      | (Threw, s') \<Rightarrow>
          (case left of 0 \<Rightarrow> (Inl Temporarily_unavailable, s') | Suc n \<Rightarrow> initialize_from d p n s'))"

definition initialize ::
  "(nat \<Rightarrow> delivery) \<Rightarrow> prepared \<Rightarrow> user_do \<Rightarrow> (create_failure + user_profile) \<times> user_do" where
  "initialize d p s = initialize_from d p INIT_RETRIES s"

text \<open>
  The objects are distinct, one per claimed row, so that the lanes of \<^verbatim>\<open>pooled\<close> do not interfere and the results
  keep their positions.
\<close>

fun init_each ::
  "(string \<Rightarrow> nat \<Rightarrow> delivery) \<Rightarrow> (prepared \<times> create_failure option) list \<Rightarrow> users \<Rightarrow>
   (create_failure + user_profile) list \<times> users" where
  "init_each d [] objs = ([], objs)"
| "init_each d ((p, Some f) # ps) objs = (let (rs, objs') = init_each d ps objs in (Inl f # rs, objs'))"
| "init_each d ((p, None) # ps) objs =
     (let (x, objs1) = on_user (nw_id (pr_input p)) (initialize (d (nw_id (pr_input p))) p) objs;
          (rs, objs2) = init_each d ps objs1
      in (x # rs, objs2))"

text \<open>Step 3: the rows whose object answered become visible.\<close>

fun activate_each :: "(prepared \<times> (create_failure + user_profile)) list \<Rightarrow> registry \<Rightarrow> registry" where
  "activate_each [] r = r"
| "activate_each ((p, Inl f) # ps) r = activate_each ps r"
| "activate_each ((p, Inr prof) # ps) r =
     activate_each ps (setUserStatus (nw_id (pr_input p)) Active_user (pr_at p) r)"

fun assemble :: "(create_failure + prepared) list \<Rightarrow> (create_failure + user_profile) list \<Rightarrow> (create_failure + user_profile) list" where
  "assemble [] rs = []"
| "assemble (Inl f # ps) rs = Inl f # assemble ps rs"
| "assemble (Inr p # ps) (x # rs) = x # assemble ps rs"
| "assemble (Inr p # ps) [] = []"

definition rights :: "('a + 'b) list \<Rightarrow> 'b list" where
  "rights xs = concat (map (case_sum (\<lambda>_. []) (\<lambda>b. [b])) xs)"

definition createUsers ::
  "(string \<Rightarrow> nat \<Rightarrow> delivery) \<Rightarrow> seconds \<Rightarrow> new_user list \<Rightarrow> accounts \<Rightarrow>
   ((create_failure + user_profile) list \<times> accounts) option" where
  "createUsers d now inputs a =
     (let prep = map (prepare_user (acc_registry a) now) inputs; ps = rights prep in
      (case claim_all ps (acc_registry a) of
         None \<Rightarrow> None
       | Some (claims, r1) \<Rightarrow>
           let (rs, objs) = init_each d (zip ps claims) (acc_objects a)
           in Some (assemble prep rs, \<lparr>acc_registry = activate_each (zip ps rs) r1, acc_objects = objs\<rparr>)))"

definition createUser ::
  "(string \<Rightarrow> nat \<Rightarrow> delivery) \<Rightarrow> seconds \<Rightarrow> new_user \<Rightarrow> accounts \<Rightarrow> ((create_failure + user_profile) \<times> accounts) option" where
  "createUser d now input a = map_option (\<lambda>(rs, a'). (hd rs, a')) (createUsers d now [input] a)"


section \<open>Groups\<close>

definition ADMINS_GROUP :: string where "ADMINS_GROUP = ''admins''"

definition ensureAdminsGroup :: "string \<Rightarrow> seconds \<Rightarrow> registry \<Rightarrow> group_row option \<times> registry" where
  "ensureAdminsGroup gid now r =
     (case getGroupByName r ADMINS_GROUP of
        Some existing \<Rightarrow> (Some existing, r)
      | None \<Rightarrow>
          let (_, r') = insertGroup gid ADMINS_GROUP (Some ''Administrators'') True now r
          in (getGroupByName r' ADMINS_GROUP, r'))"

text \<open>
  Results: \<open>Partial\<close> when the object was written and the mirror was not, \<open>Thrown\<close> where an exception of the object
  reaches the caller. \<open>up\<close> tells whether D1 answers the write.
\<close>

datatype ('a, 'e) account_result = Done 'a | Refused 'e | Partial 'a | Thrown

datatype groups_refusal = Unknown_group | User_not_available

definition setUserGroups ::
  "bool \<Rightarrow> string \<Rightarrow> string list \<Rightarrow> seconds \<Rightarrow> accounts \<Rightarrow> (user_profile, groups_refusal) account_result \<times> accounts" where
  "setUserGroups up uid groups now a =
     (if list_ex (\<lambda>name. groupIdsByName (acc_registry a) name = None) (js_uniq groups) then (Refused Unknown_group, a)
      else
        let groupIds = map (\<lambda>name. the (groupIdsByName (acc_registry a) name)) (js_uniq groups) in
        (case on_object uid (setGroups groups now) a of
           (Ok prof, a') \<Rightarrow>
             (case (if up then batch (replaceMembershipStatements uid groupIds now) (acc_registry a')
                    else Inl Foreign_key_violation) of
                Inr r' \<Rightarrow> (Done prof, a'\<lparr>acc_registry := r'\<rparr>)
              | Inl _ \<Rightarrow> (Partial prof, a'))
         | (Fail _, a') \<Rightarrow> (Refused User_not_available, a')
         | (Threw, a') \<Rightarrow> (Thrown, a')))"

text \<open>Adding and removing one membership: the list of the object first, if it changes, then the mirror row.\<close>

definition write_membership ::
  "string \<Rightarrow> (string list \<Rightarrow> string list option) \<Rightarrow> (registry \<Rightarrow> registry option) \<Rightarrow> seconds \<Rightarrow> accounts \<Rightarrow>
   (user_profile \<times> bool, unit) account_result \<times> accounts" where
  "write_membership uid change mirror now a =
     (case on_object uid getProfile a of
        (Ok current, a1) \<Rightarrow>
          (let wrote = (case change (p_groups current) of
                          None \<Rightarrow> (Ok current, a1)
                        | Some groups \<Rightarrow> on_object uid (setGroups groups now) a1)
           in (case wrote of
                 (Ok prof, a2) \<Rightarrow>
                   (case mirror (acc_registry a2) of
                      Some r' \<Rightarrow> (Done (prof, change (p_groups current) \<noteq> None), a2\<lparr>acc_registry := r'\<rparr>)
                    | None \<Rightarrow> (Partial (prof, change (p_groups current) \<noteq> None), a2))
               | (Fail _, a2) \<Rightarrow> (Refused (), a2)
               | (Threw, a2) \<Rightarrow> (Thrown, a2)))
      | (Fail _, a1) \<Rightarrow> (Refused (), a1)
      | (Threw, a1) \<Rightarrow> (Thrown, a1))"

definition addMembership ::
  "bool \<Rightarrow> string \<Rightarrow> group_row \<Rightarrow> seconds \<Rightarrow> accounts \<Rightarrow> (user_profile \<times> bool, unit) account_result \<times> accounts" where
  "addMembership up uid g now a =
     write_membership uid (\<lambda>gs. if gr_name g \<in> set gs then None else Some (gs @ [gr_name g]))
       (\<lambda>r. if \<not> up then None
             else case insertMembershipStatement (gr_id g) uid now r of Inl _ \<Rightarrow> None | Inr r' \<Rightarrow> Some r') now a"

definition removeMembership ::
  "bool \<Rightarrow> string \<Rightarrow> group_row \<Rightarrow> seconds \<Rightarrow> accounts \<Rightarrow> (user_profile \<times> bool, unit) account_result \<times> accounts" where
  "removeMembership up uid g now a =
     write_membership uid
       (\<lambda>gs. if gr_name g \<in> set gs then Some (filter (\<lambda>name. name \<noteq> gr_name g) gs) else None)
       (\<lambda>r. if up then Some (deleteMembership (gr_id g) uid r) else None) now a"

definition PROPAGATION_LIMIT :: nat where "PROPAGATION_LIMIT = 1000"

text \<open>One member: \<^term>\<open>True\<close> when its object could not be written.\<close>

definition propagate_one :: "(string list \<Rightarrow> string list) \<Rightarrow> seconds \<Rightarrow> string \<Rightarrow> accounts \<Rightarrow> bool \<times> accounts" where
  "propagate_one rewrite now uid a =
     (case on_object uid getProfile a of
        (Ok current, a1) \<Rightarrow>
          if js_join [CHR 0x0A] (rewrite (p_groups current)) = js_join [CHR 0x0A] (p_groups current) then (False, a1)
          else
            (case on_object uid (setGroups (rewrite (p_groups current)) now) a1 of
               (Ok _, a2) \<Rightarrow> (False, a2)
             | (_, a2) \<Rightarrow> (True, a2))
      | (Fail _, a1) \<Rightarrow> (False, a1)
      | (Threw, a1) \<Rightarrow> (True, a1))"

fun propagate_each :: "(string list \<Rightarrow> string list) \<Rightarrow> seconds \<Rightarrow> string list \<Rightarrow> accounts \<Rightarrow> string list \<times> accounts" where
  "propagate_each rewrite now [] a = ([], a)"
| "propagate_each rewrite now (uid # uids) a =
     (let (bad, a1) = propagate_one rewrite now uid a; (failed, a2) = propagate_each rewrite now uids a1
      in (if bad then uid # failed else failed, a2))"

text \<open>\<^term>\<open>None\<close> is the refusal of a group that is too large.\<close>

definition propagateToMembers ::
  "string \<Rightarrow> (string list \<Rightarrow> string list) \<Rightarrow> seconds \<Rightarrow> accounts \<Rightarrow> (nat \<times> string list) option \<times> accounts" where
  "propagateToMembers gid rewrite now a =
     (let members = memberUserIds (acc_registry a) gid (PROPAGATION_LIMIT + 1) in
      if length members > PROPAGATION_LIMIT then (None, a)
      else let (failed, a') = propagate_each rewrite now members a in (Some (length members, sort failed), a'))"


section \<open>Administration of one user\<close>

record profile_update =
  pu_email :: "string option option"
  pu_email_verified :: "bool option"
  pu_display_name :: "string option option"

datatype profile_refusal = Profile_email_invalid | Email_taken | Profile_not_available

text \<open>What the update makes of the current profile: the address, its comparison form and whether it is verified.\<close>

definition updated_email :: "user_profile \<Rightarrow> profile_update \<Rightarrow> string option" where
  "updated_email current update =
     (case pu_email update of None \<Rightarrow> p_email current | Some e \<Rightarrow> map_option js_trim e)"

definition updated_verified :: "user_profile \<Rightarrow> profile_update \<Rightarrow> bool" where
  "updated_verified current update =
     (case pu_email_verified update of
        Some v \<Rightarrow> v
      | None \<Rightarrow> if updated_email current update = p_email current then p_email_verified current else False)"

definition email_holder :: "registry \<Rightarrow> bool \<Rightarrow> string option \<Rightarrow> registry_user option" where
  "email_holder r verified emailNorm =
     (case emailNorm of None \<Rightarrow> None | Some e \<Rightarrow> if verified then findVerifiedUser r e else None)"

definition write_profile ::
  "bool \<Rightarrow> string \<Rightarrow> string option \<Rightarrow> bool \<Rightarrow> string option option \<Rightarrow> seconds \<Rightarrow> accounts \<Rightarrow>
   (user_profile, profile_refusal) account_result \<times> accounts" where
  "write_profile up uid email verified name now a =
     (let emailNorm = map_option normalizeEmail email in
      (case on_object uid
              (updateProfile \<lparr>pp_email = Some email, pp_email_norm = Some emailNorm, pp_email_verified = Some verified,
                              pp_display_name = name\<rparr> now) a of
         (Ok prof, a') \<Rightarrow>
           (case (if up then updateUserMirrorStatement uid
                        \<lparr>um_email = email, um_email_norm = emailNorm, um_email_verified = verified,
                         um_display_name = p_display_name prof\<rparr> now (acc_registry a')
                  else Inl Foreign_key_violation) of
              Inr r' \<Rightarrow> (Done prof, a'\<lparr>acc_registry := r'\<rparr>)
            | Inl _ \<Rightarrow> (Partial prof, a'))
       | (Fail _, a') \<Rightarrow> (Refused Profile_not_available, a')
       | (Threw, a') \<Rightarrow> (Thrown, a')))"

definition updateUserProfile ::
  "bool \<Rightarrow> string \<Rightarrow> profile_update \<Rightarrow> seconds \<Rightarrow> accounts \<Rightarrow>
   (user_profile, profile_refusal) account_result \<times> accounts" where
  "updateUserProfile up uid update now a =
     (case on_object uid getProfile a of
        (Ok current, a1) \<Rightarrow>
          let email = updated_email current update; verified = updated_verified current update in
          if (case email of None \<Rightarrow> False | Some e \<Rightarrow> \<not> isValidEmail e) then (Refused Profile_email_invalid, a1)
          else if (case email_holder (acc_registry a1) verified (map_option normalizeEmail email) of
                     None \<Rightarrow> False | Some holder \<Rightarrow> ru_id holder \<noteq> uid)
          then (Refused Email_taken, a1)
          else write_profile up uid email verified (pu_display_name update) now a1
      | (Fail _, a1) \<Rightarrow> (Refused Profile_not_available, a1)
      | (Threw, a1) \<Rightarrow> (Thrown, a1))"

definition setUserDisabled ::
  "bool \<Rightarrow> string \<Rightarrow> bool \<Rightarrow> seconds \<Rightarrow> accounts \<Rightarrow>
   (user_profile \<times> revoked_session list, unit) account_result \<times> accounts" where
  "setUserDisabled up uid off now a =
     (case on_object uid (setDisabled (if off then Some now else None) now) a of
        (Ok x, a') \<Rightarrow>
          if up then (Done x, a'\<lparr>acc_registry := setUserStatus uid (if off then Disabled_user else Active_user) now (acc_registry a')\<rparr>)
          else (Partial x, a')
      | (Fail _, a') \<Rightarrow> (Refused (), a')
      | (Threw, a') \<Rightarrow> (Thrown, a'))"

text \<open>Deletion in its steps: the row, the sessions, the object, the rows that reference it.\<close>

definition finish_deletion :: "string \<Rightarrow> seconds \<Rightarrow> accounts \<Rightarrow> revoked_session list option \<times> accounts" where
  "finish_deletion uid now a =
     (case on_object uid (setDisabled (Some now) now) a of
        (Threw, a1) \<Rightarrow> (None, a1)
      | (r, a1) \<Rightarrow>
          let a2 = snd (on_object uid (\<lambda>s. ((), destroy s)) a1)
          in (Some (case r of Ok (_, revoked) \<Rightarrow> revoked | _ \<Rightarrow> []),
              a2\<lparr>acc_registry := snd (deleteUserRow uid (acc_registry a2))\<rparr>))"

definition deleteUser :: "string \<Rightarrow> seconds \<Rightarrow> accounts \<Rightarrow> revoked_session list option \<times> accounts" where
  "deleteUser uid now a =
     finish_deletion uid now (a\<lparr>acc_registry := setUserStatus uid Deleting_user now (acc_registry a)\<rparr>)"

record reindex_report =
  xr_passkeys :: nat
  xr_identities :: nat
  xr_groups :: nat
  xr_unknown_groups :: "string list"

definition reindex_statements ::
  "registry \<Rightarrow> string \<Rightarrow> user_profile \<Rightarrow> passkey_record list \<Rightarrow> identity_record list \<Rightarrow> seconds \<Rightarrow> statement list" where
  "reindex_statements r uid prof pks ids now =
     updateUserMirrorStatement uid
       \<lparr>um_email = p_email prof, um_email_norm = p_email_norm prof, um_email_verified = p_email_verified prof,
        um_display_name = p_display_name prof\<rparr> now #
     replacePasskeyIndexStatements uid (map (np_credential_id \<circ> pr_passkey) pks) now @
     replaceIdentityIndexStatements uid (map (\<lambda>i. (ni_issuer (ir_identity i), ni_subject (ir_identity i))) ids) now @
     replaceMembershipStatements uid (List.map_filter (groupIdsByName r) (p_groups prof)) now"

definition reindexUser ::
  "string \<Rightarrow> seconds \<Rightarrow> accounts \<Rightarrow> (reindex_report, unit) account_result \<times> accounts" where
  "reindexUser uid now a =
     (case (on_object uid getProfile a, on_object uid listPasskeys a, on_object uid listIdentities a) of
        ((Ok prof, a1), (Ok pks, _), (Ok ids, _)) \<Rightarrow>
          let r = acc_registry a1 in
          (case batch (reindex_statements r uid prof pks ids now) r of
             Inr r' \<Rightarrow>
               (Done \<lparr>xr_passkeys = length pks, xr_identities = length ids,
                      xr_groups = length (List.map_filter (groupIdsByName r) (p_groups prof)),
                      xr_unknown_groups = filter (\<lambda>name. groupIdsByName r name = None) (p_groups prof)\<rparr>,
                a1\<lparr>acc_registry := r'\<rparr>)
           | Inl _ \<Rightarrow> (Thrown, a1))
      | ((_, a1), _, _) \<Rightarrow> (Refused (), a1))"


section \<open>Invitations\<close>

definition INVITATION_DEFAULT_TTL :: seconds where "INVITATION_DEFAULT_TTL = 7 * 86400"
definition INVITATION_MIN_TTL :: seconds where "INVITATION_MIN_TTL = 3600"
definition INVITATION_MAX_TTL :: seconds where "INVITATION_MAX_TTL = 90 * 86400"

record new_invitation =
  nv_kind :: invitation_kind
  nv_user_id :: "string option"
  nv_email :: "string option"
  nv_email_verified :: bool
  nv_display_name :: "string option"
  nv_groups :: "string list"
  nv_expires_in :: "seconds option"
  nv_created_by :: string

datatype invitation_refusal = Invitation_email_invalid | Expires_in_out_of_bounds | User_required

definition invitation_of :: "new_invitation \<Rightarrow> string \<Rightarrow> bytes \<Rightarrow> seconds \<Rightarrow> seconds \<Rightarrow> invitation_row" where
  "invitation_of input iid hash lifetime now =
     \<lparr>iv_id = iid, iv_token_hash = hash, iv_kind = nv_kind input,
      iv_user_id = (if nv_kind input = Recover_invitation then nv_user_id input else None),
      iv_email = map_option js_trim (nv_email input), iv_email_verified = nv_email_verified input,
      iv_display_name = nv_display_name input, iv_groups = sort (js_uniq (nv_groups input)),
      iv_expires_at = now + lifetime, iv_used_at = None, iv_used_by = None, iv_created_by = nv_created_by input,
      iv_created_at = now\<rparr>"

text \<open>\<open>iid\<close> and \<open>secret\<close> are the drawn id and secret; \<open>Thrown\<close> where the insertion or the sealing throws.\<close>

definition createInvitation ::
  "'key endpoint_env \<Rightarrow> bytes \<Rightarrow> string \<Rightarrow> bytes \<Rightarrow> new_invitation \<Rightarrow> registry \<Rightarrow>
   (invitation_row \<times> string, invitation_refusal) account_result \<times> registry" where
  "createInvitation env nonce iid secret input r =
     (let lifetime = or_setting (nv_expires_in input) INVITATION_DEFAULT_TTL in
      if (case map_option js_trim (nv_email input) of None \<Rightarrow> False | Some e \<Rightarrow> \<not> isValidEmail e)
      then (Refused Invitation_email_invalid, r)
      else if lifetime < INVITATION_MIN_TTL \<or> lifetime > INVITATION_MAX_TTL then (Refused Expires_in_out_of_bounds, r)
      else if nv_kind input = Recover_invitation \<and> nv_user_id input = None then (Refused User_required, r)
      else
        let row = invitation_of input iid (ee_sha256 env secret) lifetime (ee_now env) in
        (case insertInvitation row r of
           Inl _ \<Rightarrow> (Thrown, r)
         | Inr r' \<Rightarrow>
             (case sealInvitationHandle (ee_keys env) (ee_uuid env) nonce iid secret of
                None \<Rightarrow> (Thrown, r')
              | Some token \<Rightarrow> (Done (row, token), r'))))"

datatype invitation_state = Invitation_invalid | Invitation_expired | Invitation_used

definition openInvitation :: "'key endpoint_env \<Rightarrow> string \<Rightarrow> registry \<Rightarrow> invitation_state + invitation_row" where
  "openInvitation env token r =
     (case openInvitationHandle (ee_keys env) (ee_uuid env) (ee_sha256 env) token of
        None \<Rightarrow> Inl Invitation_invalid
      | Some ref \<Rightarrow>
          (case getInvitation r (in_invitation_id ref) of
             None \<Rightarrow> Inl Invitation_invalid
           | Some invitation \<Rightarrow>
               if \<not> secretsEqual (iv_token_hash invitation) (in_secret_hash ref) then Inl Invitation_invalid
               else if iv_used_at invitation \<noteq> None then Inl Invitation_used
               else if iv_expires_at invitation \<le> ee_now env then Inl Invitation_expired
               else Inr invitation))"


section \<open>Passkeys\<close>

datatype passkey_refusal = Passkey_taken | Passkey_limit | Passkey_user_not_available | Passkey_unavailable

text \<open>\<open>up n\<close> tells whether D1 answers the \<open>n\<close>-th claim; a failed one is repeated once.\<close>

definition claim_credential_twice :: "(nat \<Rightarrow> bool) \<Rightarrow> string \<Rightarrow> string \<Rightarrow> seconds \<Rightarrow> registry \<Rightarrow> bool option \<times> registry" where
  "claim_credential_twice up cid uid now r =
     (let claim = (\<lambda>n. if up n then claimCredential cid uid now r else Inl Foreign_key_violation) in
      (case claim 0 of
         Inr (won, r') \<Rightarrow> (Some won, r')
       | Inl _ \<Rightarrow> (case claim 1 of Inr (won, r') \<Rightarrow> (Some won, r') | Inl _ \<Rightarrow> (None, r))))"

definition registerPasskey ::
  "(nat \<Rightarrow> bool) \<Rightarrow> string \<Rightarrow> new_passkey \<Rightarrow> seconds \<Rightarrow> int \<Rightarrow> accounts \<Rightarrow>
   (passkey_record, passkey_refusal) account_result \<times> accounts" where
  "registerPasskey up uid passkey now maxPerUser a =
     (if lookupCredential (acc_registry a) (np_credential_id passkey) \<noteq> None then (Refused Passkey_taken, a)
      else
        (case on_object uid (addPasskey passkey now maxPerUser) a of
           (Ok rec, a1) \<Rightarrow>
             (case claim_credential_twice up (np_credential_id passkey) uid now (acc_registry a1) of
                (Some True, r') \<Rightarrow> (Done rec, a1\<lparr>acc_registry := r'\<rparr>)
              | (taken, _) \<Rightarrow>
                  (case on_object uid (removePasskey (np_id passkey) Admin) a1 of
                     (Threw, a2) \<Rightarrow> (Thrown, a2)
                   | (_, a2) \<Rightarrow> (Refused (if taken = None then Passkey_unavailable else Passkey_taken), a2)))
         | (Fail e, a1) \<Rightarrow>
             (Refused (if e = Passkey_exists then Passkey_taken
                       else if e = Passkey_limit_reached then Passkey_limit else Passkey_user_not_available), a1)
         | (Threw, a1) \<Rightarrow> (Thrown, a1)))"

datatype unregister_result = Own_removed | Own_missing | Own_last_login_method | Own_unavailable

definition unregisterOwnPasskey :: "string \<Rightarrow> string \<Rightarrow> string \<Rightarrow> accounts \<Rightarrow> unregister_result option \<times> accounts" where
  "unregisterOwnPasskey uid pid cid a =
     (case on_object uid (removePasskey pid Self) a of
        (Ok removed, a1) \<Rightarrow>
          if \<not> removed then (Some Own_missing, a1)
          else (Some Own_removed, a1\<lparr>acc_registry := releaseCredential cid (acc_registry a1)\<rparr>)
      | (Fail e, a1) \<Rightarrow> (Some (if e = Last_login_method then Own_last_login_method else Own_unavailable), a1)
      | (Threw, a1) \<Rightarrow> (None, a1))"

definition unregisterPasskey :: "string \<Rightarrow> string \<Rightarrow> string \<Rightarrow> accounts \<Rightarrow> bool option \<times> accounts" where
  "unregisterPasskey uid pid cid a =
     (case on_object uid (removePasskey pid Admin) a of
        (Ok removed, a1) \<Rightarrow>
          if \<not> removed then (Some False, a1)
          else (Some True, a1\<lparr>acc_registry := releaseCredential cid (acc_registry a1)\<rparr>)
      | (Fail _, a1) \<Rightarrow> (Some False, a1)
      | (Threw, a1) \<Rightarrow> (None, a1))"

end
