(* ===== verification/Users_Safety.thy ===== *)
theory Users_Safety
  imports Users Registry_Safety
begin

text \<open>
  Creation of users: a group created together fares exactly as if its users had been created one after the other, and a
  creation that succeeds leaves a visible row, an initialised object and the mirrored memberships and identities.
\<close>


section \<open>Claims\<close>

text \<open>The batch of all claims and the claims one at a time agree, whichever statement fails first.\<close>

lemma claim_each_Cons:
  "claim_each (p # ps) r =
     (case batch (claimStatements p) r of
        Inr r' \<Rightarrow> map_option (\<lambda>(fs, r''). (None # fs, r'')) (claim_each ps r')
      | Inl e \<Rightarrow>
          Option.bind (uniquenessFailure e) (\<lambda>f. map_option (\<lambda>(fs, r''). (Some f # fs, r'')) (claim_each ps r)))"
  by (auto split: sum.splits option.splits)

declare claim_each.simps(2) [simp del]

lemma claim_each_batch:
  "batch (concat (map claimStatements ps)) r = Inr r' \<Longrightarrow> claim_each ps r = Some (map (\<lambda>_. None) ps, r')"
  by (induction ps arbitrary: r) (auto simp: batch_append claim_each_Cons split: sum.splits)

lemma claim_each_throws:
  "batch (concat (map claimStatements ps)) r = Inl e \<Longrightarrow> uniquenessFailure e = None \<Longrightarrow> claim_each ps r = None"
  by (induction ps arbitrary: r) (auto simp: batch_append claim_each_Cons split: sum.splits)

lemma claim_all_each: "claim_all ps r = claim_each ps r"
  unfolding claim_all_def
  by (auto simp: claim_each_batch claim_each_throws split: sum.splits option.splits)

lemma claim_each_length: "claim_each ps r = Some (fs, r') \<Longrightarrow> length fs = length ps"
proof (induction ps arbitrary: r fs r')
  case (Cons p ps)
  then show ?case
    by (cases "batch (claimStatements p) r")
      (auto simp: claim_each_Cons bind_eq_Some_conv)
qed simp

text \<open>What a claim leaves alone, and that the statuses of the rows do not matter to it.\<close>

lemma list_ex_update_where: "(\<And>v. P (f v) = P v) \<Longrightarrow> list_ex P (update_where Q f xs) = list_ex P xs"
  by (induction xs) (auto simp: update_where_def)

lemma insert_user_status:
  assumes "has_user r uid"
  shows "insertUserStatement u t (setUserStatus uid st now r) = map_sum id (setUserStatus uid st now) (insertUserStatement u t r)"
proof -
  let ?clash = "\<lambda>v. ru_id v = nu_id u \<or> email_clash (nu_email_verified u) (nu_email_norm u) v"
  have ex: "list_ex ?clash (rg_users (setUserStatus uid st now r)) = list_ex ?clash (rg_users r)"
    unfolding setUserStatus_def by (simp add: list_ex_update_where email_clash_def)
  show ?thesis
  proof (cases "list_ex ?clash (rg_users r)")
    case True
    then show ?thesis using ex by (simp add: insertUserStatement_def insert_row_def)
  next
    case False
    then have "nu_id u \<noteq> uid" using assms by (auto simp: has_user_def list_ex_iff)
    then show ?thesis
      using False ex by (simp add: insertUserStatement_def insert_row_def) (simp add: setUserStatus_def update_where_def)
  qed
qed

lemma has_user_status [simp]: "has_user (setUserStatus uid st now r) = has_user r"
  by (rule has_user_cong) (simp add: setUserStatus_def update_users_ids)

lemma has_group_status [simp]: "has_group (setUserStatus uid st now r) = has_group r"
  by (simp add: setUserStatus_def)

lemma insert_membership_status:
  "insert_membership ignore gid u t (setUserStatus uid st now r) =
     map_sum id (setUserStatus uid st now) (insert_membership ignore gid u t r)"
proof -
  have [simp]: "rg_members (setUserStatus uid st now r) = rg_members r" by (simp add: setUserStatus_def)
  show ?thesis by (auto simp: insert_membership_def) (simp_all add: setUserStatus_def)
qed

lemma insert_identity_status:
  "insertIdentityStatement iss sub u t (setUserStatus uid st now r) =
     map_sum id (setUserStatus uid st now) (insertIdentityStatement iss sub u t r)"
proof -
  have [simp]: "rg_identities (setUserStatus uid st now r) = rg_identities r" by (simp add: setUserStatus_def)
  show ?thesis by (auto simp: insertIdentityStatement_def) (simp_all add: setUserStatus_def)
qed

definition status_blind :: "string \<Rightarrow> statement \<Rightarrow> bool" where
  "status_blind uid s \<longleftrightarrow>
     (\<forall>r st now. has_user r uid \<longrightarrow> s (setUserStatus uid st now r) = map_sum id (setUserStatus uid st now) (s r)) \<and>
     (\<forall>r r'. has_user r uid \<longrightarrow> s r = Inr r' \<longrightarrow> has_user r' uid)"

lemma status_blindD:
  assumes "status_blind uid s" and "has_user r uid"
  shows "s (setUserStatus uid st now r) = map_sum id (setUserStatus uid st now) (s r)"
    and "s r = Inr r' \<Longrightarrow> has_user r' uid"
  using assms unfolding status_blind_def by blast+

lemma batch_keeps_user:
  "\<forall>s \<in> set ss. status_blind uid s \<Longrightarrow> has_user r uid \<Longrightarrow> batch ss r = Inr r' \<Longrightarrow> has_user r' uid"
proof (induction ss arbitrary: r)
  case (Cons s ss)
  then obtain r1 where r1: "s r = Inr r1" "batch ss r1 = Inr r'" by (auto split: sum.splits)
  then have "has_user r1 uid" using Cons.prems status_blindD(2) by auto
  then show ?case using Cons r1 by simp
qed simp

lemma batch_status_blind:
  assumes "\<forall>s \<in> set ss. status_blind uid s" and "has_user r uid"
  shows "batch ss (setUserStatus uid st now r) = map_sum id (setUserStatus uid st now) (batch ss r)"
  using assms
proof (induction ss arbitrary: r)
  case (Cons s ss)
  have s: "s (setUserStatus uid st now r) = map_sum id (setUserStatus uid st now) (s r)"
    by (rule status_blindD) (use Cons.prems in simp_all)
  show ?case
  proof (cases "s r")
    case (Inr r')
    have "has_user r' uid" using status_blindD(2) [where s = s and r = r] Cons.prems Inr by auto
    with Inr Cons.IH [of r'] Cons.prems s show ?thesis by simp
  qed (simp add: s)
qed simp

lemma insertUser_has_user: "insertUserStatement u t r = Inr r' \<Longrightarrow> has_user r' uid \<longleftrightarrow> has_user r uid \<or> uid = nu_id u"
  by (auto simp: insertUserStatement_def insert_row_Some has_user_def split: option.splits)

lemma insert_membership_has_user: "insert_membership ignore gid u t r = Inr r' \<Longrightarrow> has_user r' = has_user r"
  by (auto simp: insert_membership_def split: if_splits)

lemma insert_identity_has_user: "insertIdentityStatement iss sub u t r = Inr r' \<Longrightarrow> has_user r' = has_user r"
  by (auto simp: insertIdentityStatement_def split: if_splits)

lemma claim_status_blind: "s \<in> set (claimStatements p) \<Longrightarrow> status_blind uid s"
  by (auto simp: claimStatements_def insertMembershipStatements_def status_blind_def insert_user_status
      insert_membership_status insert_identity_status insertUser_has_user insert_membership_has_user insert_identity_has_user)

lemma claim_status:
  "has_user r uid \<Longrightarrow>
   batch (claimStatements p) (setUserStatus uid st now r) = map_sum id (setUserStatus uid st now) (batch (claimStatements p) r)"
  by (rule batch_status_blind) (auto intro: claim_status_blind)

lemma claim_keeps_user: "batch (claimStatements p) r = Inr r' \<Longrightarrow> has_user r uid \<Longrightarrow> has_user r' uid"
  by (rule batch_keeps_user [of "claimStatements p" uid r]) (auto intro: claim_status_blind)

lemma claim_each_status:
  assumes "has_user r uid"
  shows "claim_each ps (setUserStatus uid st now r) =
    map_option (\<lambda>(fs, r'). (fs, setUserStatus uid st now r')) (claim_each ps r)"
  using assms
proof (induction ps arbitrary: r)
  case (Cons p ps)
  show ?case
  proof (cases "batch (claimStatements p) r")
    case (Inl e)
    then show ?thesis
      using claim_status [OF Cons.prems, of p st now] Cons.IH [OF Cons.prems]
      by (cases "uniquenessFailure e") (simp_all add: claim_each_Cons option.map_comp comp_def case_prod_unfold)
  next
    case (Inr r')
    then have "has_user r' uid" using claim_keeps_user Cons.prems by blast
    with Inr show ?thesis
      using claim_status [OF Cons.prems, of p st now] Cons.IH [of r']
      by (simp add: claim_each_Cons option.map_comp comp_def case_prod_unfold)
  qed
qed simp

lemma claim_has_user: "batch (claimStatements p) r = Inr r' \<Longrightarrow> has_user r' (nw_id (pr_input p))"
proof -
  let ?u = "\<lparr>nu_id = nw_id (pr_input p), nu_email = pr_email p, nu_email_norm = pr_email_norm p,
      nu_email_verified = nw_email_verified (pr_input p), nu_display_name = nw_display_name (pr_input p)\<rparr>"
  assume b: "batch (claimStatements p) r = Inr r'"
  obtain ss where ss: "claimStatements p = insertUserStatement ?u (pr_at p) # ss" by (simp add: claimStatements_def)
  with b obtain r1 where r1: "insertUserStatement ?u (pr_at p) r = Inr r1" "batch ss r1 = Inr r'"
    by (auto split: sum.splits)
  have "has_user r1 (nw_id (pr_input p))" using insertUser_has_user [OF r1(1)] by simp
  moreover have "\<forall>s \<in> set ss. status_blind (nw_id (pr_input p)) s" using claim_status_blind [of _ p] unfolding ss by simp
  ultimately show ?thesis using batch_keeps_user r1(2) by blast
qed


section \<open>Groups are untouched by a claim\<close>

definition keeps_groups :: "statement \<Rightarrow> bool" where
  "keeps_groups s \<longleftrightarrow> (\<forall>r r'. s r = Inr r' \<longrightarrow> rg_groups r' = rg_groups r)"

lemma batch_groups: "\<forall>s \<in> set ss. keeps_groups s \<Longrightarrow> batch ss r = Inr r' \<Longrightarrow> rg_groups r' = rg_groups r"
  by (induction ss arbitrary: r) (auto simp: keeps_groups_def split: sum.splits)

lemma claim_groups: "batch (claimStatements p) r = Inr r' \<Longrightarrow> rg_groups r' = rg_groups r"
  by (rule batch_groups [of "claimStatements p"])
    (auto simp: keeps_groups_def claimStatements_def insertMembershipStatements_def insertUserStatement_def
      insert_membership_def insertIdentityStatement_def split: option.splits if_splits)

lemma prepare_user_groups: "rg_groups r' = rg_groups r \<Longrightarrow> prepare_user r' = prepare_user r"
proof -
  assume "rg_groups r' = rg_groups r"
  then have eq: "groupIdsByName r' = groupIdsByName r" by (simp add: groupIdsByName_def fun_eq_iff)
  show ?thesis unfolding prepare_user_def [abs_def] eq ..
qed


section \<open>Together or one after the other\<close>

text \<open>The reference: every user created on its own, in the order of the inputs.\<close>

fun create_in_turn ::
  "(string \<Rightarrow> nat \<Rightarrow> delivery) \<Rightarrow> seconds \<Rightarrow> new_user list \<Rightarrow> accounts \<Rightarrow>
   ((create_failure + user_profile) list \<times> accounts) option" where
  "create_in_turn d now [] a = Some ([], a)"
| "create_in_turn d now (x # xs) a =
     Option.bind (createUser d now x a)
       (\<lambda>(y, a'). map_option (\<lambda>(ys, a''). (y # ys, a'')) (create_in_turn d now xs a'))"

lemma rights_simps [simp]: "rights [] = []" "rights (Inl f # xs) = rights xs" "rights (Inr p # xs) = p # rights xs"
  by (simp_all add: rights_def)

lemma createUsers_Nil: "createUsers d now [] a = Some ([], a)"
  by (simp add: createUsers_def claim_all_each)

lemma createUsers_refused:
  "prepare_user (acc_registry a) now x = Inl f \<Longrightarrow>
   createUsers d now (x # xs) a = map_option (\<lambda>(ys, a'). (Inl f # ys, a')) (createUsers d now xs a)"
  by (simp add: createUsers_def Let_def option.map_comp split: option.splits prod.splits)

lemma createUsers_claim_fails:
  assumes "prepare_user (acc_registry a) now x = Inr p" and "batch (claimStatements p) (acc_registry a) = Inl e"
  shows "createUsers d now (x # xs) a =
    Option.bind (uniquenessFailure e) (\<lambda>f. map_option (\<lambda>(ys, a'). (Inl f # ys, a')) (createUsers d now xs a))"
proof (cases "uniquenessFailure e")
  case (Some f)
  then show ?thesis
    using assms
    by (cases "claim_each (rights (map (prepare_user (acc_registry a) now) xs)) (acc_registry a)")
      (simp_all add: createUsers_def claim_all_each claim_each_Cons Let_def split_def)
qed (use assms in \<open>simp add: createUsers_def claim_all_each claim_each_Cons\<close>)

lemma createUsers_claimed:
  assumes prep: "prepare_user (acc_registry a) now x = Inr p" and claim: "batch (claimStatements p) (acc_registry a) = Inr r1"
    and ini: "on_user (nw_id (pr_input p)) (initialize (d (nw_id (pr_input p))) p) (acc_objects a) = (y, objs)"
  shows "createUsers d now (x # xs) a =
    map_option (\<lambda>(ys, a'). (y # ys, a'))
      (createUsers d now xs \<lparr>acc_registry = activate_each [(p, y)] r1, acc_objects = objs\<rparr>)"
proof -
  define step where "step = activate_each [(p, y)]"
  have step: "step = id \<or> step = setUserStatus (nw_id (pr_input p)) Active_user (pr_at p)"
    unfolding step_def by (cases y) (simp_all add: fun_eq_iff)
  have "rg_groups (step r1) = rg_groups (acc_registry a)"
    using claim_groups [OF claim] step by (auto simp: setUserStatus_def)
  then have prep': "prepare_user (step r1) = prepare_user (acc_registry a)" by (rule prepare_user_groups)
  let ?ps = "rights (map (prepare_user (acc_registry a) now) xs)"
  have each: "claim_each ?ps (step r1) = map_option (\<lambda>(fs, r'). (fs, step r')) (claim_each ?ps r1)"
    using step
  proof
    assume "step = id"
    then show ?thesis by (cases "claim_each ?ps r1") auto
  next
    assume st: "step = setUserStatus (nw_id (pr_input p)) Active_user (pr_at p)"
    show ?thesis unfolding st by (rule claim_each_status [OF claim_has_user [OF claim]])
  qed
  have act: "activate_each ((p, y) # zs) r = activate_each zs (step r)" for zs r
    unfolding step_def by (cases y) simp_all
  show ?thesis
    unfolding step_def [symmetric] using prep claim ini each
    by (cases "claim_each ?ps r1")
      (simp_all add: createUsers_def claim_all_each claim_each_Cons prep' Let_def act split_def del: activate_each.simps)
qed

text \<open>
  C35. Creating users together is creating them one after the other, as long as no other request writes meanwhile.
  \<^verbatim>\<open>createUsers\<close> claims all rows in one batch (and
  one at a time when that batch violates a uniqueness constraint), initialises the objects, and activates the rows in one
  batch; for every list of inputs, every registry and every pattern of lost calls it returns the same results in the
  same positions and leaves the same registry and the same objects as \<^verbatim>\<open>createUser\<close> called for each input in turn.
\<close>

theorem createUsers_equals_createUser_in_turn:
  "createUsers d now inputs a = create_in_turn d now inputs a"
proof (induction inputs arbitrary: a)
  case Nil
  show ?case by (simp add: createUsers_Nil)
next
  case (Cons x xs)
  show ?case
  proof (cases "prepare_user (acc_registry a) now x")
    case (Inl f)
    then have "createUser d now x a = Some (Inl f, a)"
      using createUsers_refused [of a now x f d "[]"] by (simp add: createUser_def createUsers_Nil)
    then show ?thesis using createUsers_refused [OF Inl] Cons.IH by simp
  next
    case prep: (Inr p)
    show ?thesis
    proof (cases "batch (claimStatements p) (acc_registry a)")
      case (Inl e)
      then show ?thesis
        using createUsers_claim_fails [OF prep Inl, of d "[]"] createUsers_claim_fails [OF prep Inl, of d xs] Cons.IH
        by (cases "uniquenessFailure e") (simp_all add: createUser_def createUsers_Nil)
    next
      case claim: (Inr r1)
      obtain y objs where ini: "on_user (nw_id (pr_input p)) (initialize (d (nw_id (pr_input p))) p) (acc_objects a) = (y, objs)"
        by fastforce
      show ?thesis
        using createUsers_claimed [where d = d and xs = "[]", OF prep claim ini]
          createUsers_claimed [where d = d and xs = xs, OF prep claim ini] Cons.IH
        by (simp add: createUser_def createUsers_Nil)
    qed
  qed
qed


section \<open>A created user is complete\<close>

definition member_of :: "string \<Rightarrow> seconds \<Rightarrow> string \<Rightarrow> member_row" where
  "member_of uid t gid = \<lparr>gm_group_id = gid, gm_user_id = uid, gm_added_at = t\<rparr>"

definition index_entry :: "string \<Rightarrow> seconds \<Rightarrow> new_identity \<Rightarrow> identity_entry" where
  "index_entry uid t i = \<lparr>ix_issuer = ni_issuer i, ix_subject = ni_subject i, ix_user_id = uid, ix_created_at = t\<rparr>"

definition claimed_row :: "prepared \<Rightarrow> registry_user" where
  "claimed_row p =
     \<lparr>ru_id = nw_id (pr_input p), ru_email = pr_email p, ru_email_norm = pr_email_norm p,
      ru_email_verified = nw_email_verified (pr_input p), ru_display_name = nw_display_name (pr_input p),
      ru_status = Creating_user, ru_created_at = pr_at p, ru_updated_at = pr_at p\<rparr>"

lemma insert_membership_result:
  "insert_membership False gid uid t r = Inr r' \<Longrightarrow> r' = r\<lparr>rg_members := rg_members r @ [member_of uid t gid]\<rparr>"
  by (auto simp: insert_membership_def member_of_def split: if_splits)

lemma insert_identity_result:
  "insertIdentityStatement (ni_issuer i) (ni_subject i) uid t r = Inr r' \<Longrightarrow>
   r' = r\<lparr>rg_identities := rg_identities r @ [index_entry uid t i]\<rparr>"
  by (auto simp: insertIdentityStatement_def index_entry_def split: if_splits)

lemma memberships_result:
  "batch (insertMembershipStatements uid gids t) r = Inr r' \<Longrightarrow> r' = r\<lparr>rg_members := rg_members r @ map (member_of uid t) gids\<rparr>"
proof (induction gids arbitrary: r)
  case (Cons gid gids)
  then have "batch (insertMembershipStatements uid gids t) (r\<lparr>rg_members := rg_members r @ [member_of uid t gid]\<rparr>) = Inr r'"
    by (auto simp: insertMembershipStatements_def split: sum.splits dest: insert_membership_result)
  from Cons.IH [OF this] show ?case by simp
qed (simp add: insertMembershipStatements_def)

lemma identities_result:
  "batch (map (\<lambda>i. insertIdentityStatement (ni_issuer i) (ni_subject i) uid t) ids) r = Inr r' \<Longrightarrow>
   r' = r\<lparr>rg_identities := rg_identities r @ map (index_entry uid t) ids\<rparr>"
proof (induction ids arbitrary: r)
  case (Cons i ids)
  then have "batch (map (\<lambda>i. insertIdentityStatement (ni_issuer i) (ni_subject i) uid t) ids)
      (r\<lparr>rg_identities := rg_identities r @ [index_entry uid t i]\<rparr>) = Inr r'"
    by (auto split: sum.splits dest: insert_identity_result)
  from Cons.IH [OF this] show ?case by simp
qed simp

lemma claim_result:
  assumes "batch (claimStatements p) r = Inr r'"
  shows "r' = r\<lparr>rg_users := rg_users r @ [claimed_row p],
      rg_members := rg_members r @ map (member_of (nw_id (pr_input p)) (pr_at p)) (pr_group_ids p),
      rg_identities := rg_identities r @ map (index_entry (nw_id (pr_input p)) (pr_at p)) (pr_identities p)\<rparr>"
    and "\<not> has_user r (nw_id (pr_input p))"
proof -
  let ?u = "\<lparr>nu_id = nw_id (pr_input p), nu_email = pr_email p, nu_email_norm = pr_email_norm p,
      nu_email_verified = nw_email_verified (pr_input p), nu_display_name = nw_display_name (pr_input p)\<rparr>"
  let ?ms = "insertMembershipStatements (nw_id (pr_input p)) (pr_group_ids p) (pr_at p)"
  obtain r1 r2 where r1: "insertUserStatement ?u (pr_at p) r = Inr r1" and r2: "batch ?ms r1 = Inr r2"
    and r3: "batch (map (\<lambda>i. insertIdentityStatement (ni_issuer i) (ni_subject i) (nw_id (pr_input p)) (pr_at p)) (pr_identities p)) r2 = Inr r'"
    using assms by (auto simp: claimStatements_def batch_append split: sum.splits)
  have "r1 = r\<lparr>rg_users := rg_users r @ [claimed_row p]\<rparr>" and "\<not> has_user r (nw_id (pr_input p))"
    using r1 by (auto simp: insertUserStatement_def insert_row_Some claimed_row_def has_user_def list_ex_iff split: option.splits)
  then show "r' = r\<lparr>rg_users := rg_users r @ [claimed_row p],
      rg_members := rg_members r @ map (member_of (nw_id (pr_input p)) (pr_at p)) (pr_group_ids p),
      rg_identities := rg_identities r @ map (index_entry (nw_id (pr_input p)) (pr_at p)) (pr_identities p)\<rparr>"
    and "\<not> has_user r (nw_id (pr_input p))"
    using memberships_result [OF r2] identities_result [OF r3] by simp_all
qed

text \<open>The object: before its initialisation it holds no user, and a repeated call finds the row of the first.\<close>

definition init_profile_of :: "prepared \<Rightarrow> init_profile" where
  "init_profile_of p =
     \<lparr>ip_id = nw_id (pr_input p), ip_email = pr_email p, ip_email_norm = pr_email_norm p,
      ip_email_verified = nw_email_verified (pr_input p), ip_display_name = nw_display_name (pr_input p),
      ip_groups = sort (nw_groups (pr_input p))\<rparr>"

definition awaits :: "prepared \<Rightarrow> user_do \<Rightarrow> bool" where
  "awaits p s \<longleftrightarrow> readUser (store s) = None \<or> readUser (store s) = Some (user_of (init_profile_of p) (pr_at p))"

definition holds_created :: "prepared \<Rightarrow> user_profile \<Rightarrow> user_do \<Rightarrow> bool" where
  "holds_created p prof s \<longleftrightarrow>
     readUser (store s) = Some (user_of (init_profile_of p) (pr_at p)) \<and> \<not> destroyed s \<and>
     prof = profile (user_of (init_profile_of p) (pr_at p))"

lemma insert_identities_user: "user_tbl (snd (insert_identities ids now tb)) = user_tbl tb"
  by (induction ids arbitrary: tb) (auto simp: insert_identity_def split: option.splits)

lemma init_call_outcome:
  assumes "awaits p s" and "init_call p s = (x, s')"
  shows "awaits p s'" and "x = Ok prof \<Longrightarrow> holds_created p prof s'"
proof -
  have "awaits p s' \<and> (\<forall>prof. x = Ok prof \<longrightarrow> holds_created p prof s')"
    using assms unfolding init_call_def init_profile_of_def [symmetric]
    by (auto simp: init_def awaits_def holds_created_def Let_def split_def transactionSync_def insertUser_def insert_row_Some readUser_def
        migrate_def current_profile_def insert_identities_user
        split: if_splits option.splits list.splits do_result.splits)
  then show "awaits p s'" and "x = Ok prof \<Longrightarrow> holds_created p prof s'" by simp_all
qed

lemma initialize_from_outcome:
  assumes "awaits p s" and "initialize_from d p left s = (x, s')"
  shows "x = Inr prof \<Longrightarrow> holds_created p prof s'"
  using assms
proof (induction left arbitrary: s)
  case (Suc n)
  obtain y s1 where i: "init_call p s = (y, s1)" by fastforce
  note o = init_call_outcome [OF Suc.prems(2) i]
  show ?case
    using Suc.IH [of s1] Suc.IH [of s] Suc.prems i o
    by (cases "d (INIT_RETRIES - Suc n)"; cases y) (auto simp: delivered_def)
next
  case 0
  obtain y s1 where i: "init_call p s = (y, s1)" by fastforce
  show ?case
    using 0 i init_call_outcome(2) [OF 0(2) i]
    by (cases "d (INIT_RETRIES - 0)"; cases y) (auto simp: delivered_def)
qed

lemma initialize_outcome: "awaits p s \<Longrightarrow> initialize d p s = (Inr prof, s') \<Longrightarrow> holds_created p prof s'"
  using initialize_from_outcome [of p s d INIT_RETRIES "Inr prof" s' prof] by (simp add: initialize_def)

text \<open>The outcomes of one creation.\<close>

lemma createUser_cases:
  assumes "createUser d now x a = Some (y, a')"
  obtains (refused) f where "prepare_user (acc_registry a) now x = Inl f" "y = Inl f" "a' = a"
  | (taken) p e f where "prepare_user (acc_registry a) now x = Inr p" "batch (claimStatements p) (acc_registry a) = Inl e"
      "uniquenessFailure e = Some f" "y = Inl f" "a' = a"
  | (claimed) p r1 objs where "prepare_user (acc_registry a) now x = Inr p" "batch (claimStatements p) (acc_registry a) = Inr r1"
      "on_user (nw_id x) (initialize (d (nw_id x)) p) (acc_objects a) = (y, objs)"
      "a' = \<lparr>acc_registry = activate_each [(p, y)] r1, acc_objects = objs\<rparr>"
proof (cases "prepare_user (acc_registry a) now x")
  case (Inl f)
  have "y = Inl f" "a' = a"
    using assms createUsers_refused [OF Inl, of d "[]"] by (simp_all add: createUser_def createUsers_Nil)
  then show ?thesis using refused [OF Inl] by simp
next
  case prep: (Inr p)
  have px: "pr_input p = x" using prep by (auto simp: prepare_user_def Let_def split: if_splits)
  show ?thesis
  proof (cases "batch (claimStatements p) (acc_registry a)")
    case (Inl e)
    obtain f where f: "uniquenessFailure e = Some f"
      using assms createUsers_claim_fails [OF prep Inl, of d "[]"] by (cases "uniquenessFailure e") (simp_all add: createUser_def)
    have "y = Inl f" "a' = a"
      using assms createUsers_claim_fails [OF prep Inl, of d "[]"] f by (simp_all add: createUser_def createUsers_Nil)
    then show ?thesis using taken [OF prep Inl f] by simp
  next
    case claim: (Inr r1)
    obtain z objs where ini: "on_user (nw_id (pr_input p)) (initialize (d (nw_id (pr_input p))) p) (acc_objects a) = (z, objs)"
      by fastforce
    have "y = z" "a' = \<lparr>acc_registry = activate_each [(p, z)] r1, acc_objects = objs\<rparr>"
      using assms createUsers_claimed [where d = d and xs = "[]", OF prep claim ini]
      by (auto simp add: createUser_def createUsers_Nil simp del: activate_each.simps)
    then show ?thesis using claimed [OF prep claim] ini px by simp
  qed
qed

lemma groupIdsByName_SomeD: "groupIdsByName r name = Some gid \<Longrightarrow> \<exists>g \<in> set (rg_groups r). gr_name g = name \<and> gr_id g = gid"
  unfolding groupIdsByName_def by (drule map_of_SomeD) auto

lemma prepared_groups:
  assumes "prepare_user r now x = Inr p"
  shows "pr_input p = x" and "\<forall>name \<in> set (nw_groups x). groupIdsByName r name \<noteq> None"
    and "pr_group_ids p = map (\<lambda>name. the (groupIdsByName r name)) (nw_groups x)" and "pr_identities p = nw_identities x"
  using assms by (auto simp: prepare_user_def Let_def list_ex_iff split: if_splits)

lemma select_by_key: "distinct (map f xs) \<Longrightarrow> x \<in> set xs \<Longrightarrow> select_one (\<lambda>y. f y = f x) xs = Some x"
  by (induction xs) (auto simp: image_iff)

lemma created_registry:
  assumes "batch (claimStatements p) r = Inr r1"
  shows "activate_each [(p, Inr prof)] r1 = r\<lparr>rg_users := rg_users r @ [(claimed_row p)\<lparr>ru_status := Active_user\<rparr>],
      rg_members := rg_members r @ map (member_of (nw_id (pr_input p)) (pr_at p)) (pr_group_ids p),
      rg_identities := rg_identities r @ map (index_entry (nw_id (pr_input p)) (pr_at p)) (pr_identities p)\<rparr>"
proof -
  let ?uid = "nw_id (pr_input p)"
  let ?f = "\<lambda>u. u\<lparr>ru_status := Active_user, ru_updated_at := pr_at p\<rparr>"
  have "\<forall>u \<in> set (rg_users r). ru_id u \<noteq> ?uid" using claim_result(2) [OF assms] by (auto simp: has_user_def list_ex_iff)
  then have "update_where (\<lambda>u. ru_id u = ?uid) ?f (rg_users r) = rg_users r"
    unfolding update_where_def by (intro map_idI) auto
  moreover have "update_where (\<lambda>u. ru_id u = ?uid) ?f [claimed_row p] = [(claimed_row p)\<lparr>ru_status := Active_user\<rparr>]"
    by (simp add: update_where_def claimed_row_def)
  ultimately have "update_where (\<lambda>u. ru_id u = ?uid) ?f (rg_users r @ [claimed_row p]) =
      rg_users r @ [(claimed_row p)\<lparr>ru_status := Active_user\<rparr>]"
    by (simp add: update_where_def)
  then show ?thesis using claim_result(1) [OF assms] by (simp add: setUserStatus_def)
qed

lemma claim_wf: "registry_wf r \<Longrightarrow> batch (claimStatements p) r = Inr r' \<Longrightarrow> registry_wf r'"
  by (rule batch_wf [of "claimStatements p" r])
    (auto simp: claimStatements_def insertMembershipStatements_def insertUser_wf insert_membership_wf insertIdentity_wf)

lemma set_groupNamesOfUser:
  "set (groupNamesOfUser r uid) =
     (\<Union>m \<in> {m \<in> set (rg_members r). gm_user_id m = uid}. gr_name ` {g \<in> set (rg_groups r). gr_id g = gm_group_id m})"
  by (auto simp: groupNamesOfUser_def select_where_def split: if_splits)

lemma created_groups:
  assumes wf: "registry_wf r" and prep: "prepare_user r now x = Inr p"
    and fresh: "\<not> has_user r (nw_id x)" and ms: "rg_members r' = rg_members r @ map (member_of (nw_id x) t) (pr_group_ids p)"
    and gs: "rg_groups r' = rg_groups r"
  shows "set (groupNamesOfUser r' (nw_id x)) = set (nw_groups x)"
proof -
  note pg = prepared_groups [OF prep]
  have ids: "distinct (map gr_id (rg_groups r))" using wf by (simp add: registry_wf_def groups_unique_def)
  have old: "gm_user_id m \<noteq> nw_id x" if "m \<in> set (rg_members r)" for m
    using wf fresh that by (auto simp: registry_wf_def members_wf_def)
  have grp: "\<exists>g \<in> set (rg_groups r). gr_name g = name \<and> gr_id g = the (groupIdsByName r name)" if "name \<in> set (nw_groups x)" for name
    using pg(2) that groupIdsByName_SomeD [of r name] by (cases "groupIdsByName r name") auto
  have name: "gr_name g = name"
    if "name \<in> set (nw_groups x)" "g \<in> set (rg_groups r)" "gr_id g = the (groupIdsByName r name)" for g name
    using grp [OF that(1)] that distinct_map_inj [OF ids, of g] by metis
  have own: "{m \<in> set (rg_members r'). gm_user_id m = nw_id x} =
      (\<lambda>name. member_of (nw_id x) t (the (groupIdsByName r name))) ` set (nw_groups x)"
    unfolding ms pg(3) using old by (auto simp: member_of_def)
  have "set (groupNamesOfUser r' (nw_id x)) =
      (\<Union>name \<in> set (nw_groups x). gr_name ` {g \<in> set (rg_groups r). gr_id g = the (groupIdsByName r name)})"
    unfolding set_groupNamesOfUser own gs by (simp add: member_of_def)
  also have "\<dots> = (\<Union>name \<in> set (nw_groups x). {name})"
  proof (rule SUP_cong [OF refl])
    fix n
    assume n: "n \<in> set (nw_groups x)"
    show "gr_name ` {g \<in> set (rg_groups r). gr_id g = the (groupIdsByName r n)} = {n}"
      using grp [OF n] name [OF n] by auto
  qed
  also have "\<dots> = set (nw_groups x)" by simp
  finally show ?thesis .
qed

text \<open>
  C34. A creation that reports success has done all of it. From a well-formed registry and an object that was never
  initialised, and with no other writer between its steps, \<open>createUser\<close> returns a profile only if the user's row is active and mirrors that profile, the object answers
  with that profile, the memberships in the registry are the profile's groups, and every identity of the input resolves to
  the new, active user; the registry is well-formed again and the rows of other users are as before.
\<close>

theorem created_user_is_complete:
  assumes wf: "registry_wf (acc_registry a)" and fresh: "readUser (store (acc_objects a (nw_id x))) = None"
    and created: "createUser d now x a = Some (Inr prof, a')"
  shows "(\<exists>u. rg_users (acc_registry a') = rg_users (acc_registry a) @ [u] \<and> ru_id u = nw_id x \<and> ru_status u = Active_user \<and>
        ru_email u = p_email prof \<and> ru_email_norm u = p_email_norm prof \<and> ru_email_verified u = p_email_verified prof \<and>
        ru_display_name u = p_display_name prof) \<and>
    fst (getProfile (acc_objects a' (nw_id x))) = Ok prof \<and>
    set (groupNamesOfUser (acc_registry a') (nw_id x)) = set (p_groups prof) \<and>
    (\<forall>i \<in> set (nw_identities x). lookupIdentity (acc_registry a') (ni_issuer i) (ni_subject i) =
       Some \<lparr>ih_user_id = nw_id x, ih_status = Some Active_user\<rparr>) \<and>
    registry_wf (acc_registry a')"
  using created
proof (cases rule: createUser_cases)
  case (claimed p r1 objs)
  note pg = prepared_groups [OF claimed(1)]
  let ?u = "(claimed_row p)\<lparr>ru_status := Active_user\<rparr>"
  have reg: "acc_registry a' = (acc_registry a)\<lparr>rg_users := rg_users (acc_registry a) @ [?u],
      rg_members := rg_members (acc_registry a) @ map (member_of (nw_id x) (pr_at p)) (pr_group_ids p),
      rg_identities := rg_identities (acc_registry a) @ map (index_entry (nw_id x) (pr_at p)) (nw_identities x)\<rparr>"
    using claimed(4) created_registry [OF claimed(2)] pg by simp
  have "holds_created p prof (acc_objects a' (nw_id x))"
    using claimed(3,4) fresh initialize_outcome [of p "acc_objects a (nw_id x)" "d (nw_id x)" prof]
    by (auto simp: on_user_def awaits_def Let_def split: prod.splits)
  then have obj: "fst (getProfile (acc_objects a' (nw_id x))) = Ok prof" and prof: "prof = profile (user_of (init_profile_of p) (pr_at p))"
    by (auto simp: holds_created_def getProfile_def guarded_def guard_def migrate_def readUser_def Let_def split: list.splits)
  have wf': "registry_wf (acc_registry a')"
    using claimed(4) setUserStatus_wf [OF claim_wf [OF wf claimed(2)]] by simp
  have user: "getUser (acc_registry a') (nw_id x) = Some ?u"
    by (rule getUser_iff [OF wf', THEN iffD2]) (simp add: reg claimed_row_def pg)
  have groups: "set (groupNamesOfUser (acc_registry a') (nw_id x)) = set (p_groups prof)"
    using created_groups [OF wf claimed(1), of "acc_registry a'" "pr_at p"] claim_result(2) [OF claimed(2)] pg prof
    by (simp add: reg profile_def user_of_def init_profile_of_def)
  have "lookupIdentity (acc_registry a') (ni_issuer i) (ni_subject i) = Some \<lparr>ih_user_id = nw_id x, ih_status = Some Active_user\<rparr>"
    if "i \<in> set (nw_identities x)" for i
  proof -
    let ?e = "index_entry (nw_id x) (pr_at p) i"
    have "?e \<in> set (rg_identities (acc_registry a'))" using that by (simp add: reg)
    moreover have "distinct (map (\<lambda>i. (ix_issuer i, ix_subject i)) (rg_identities (acc_registry a')))"
      using wf' by (simp add: registry_wf_def indexes_wf_def)
    ultimately have "select_one (\<lambda>j. ix_issuer j = ni_issuer i \<and> ix_subject j = ni_subject i) (rg_identities (acc_registry a')) = Some ?e"
      using select_by_key [of "\<lambda>i. (ix_issuer i, ix_subject i)" "rg_identities (acc_registry a')" ?e] by (simp add: index_entry_def)
    then show ?thesis using user by (simp add: lookupIdentity_def index_entry_def)
  qed
  then show ?thesis
    using obj groups wf' by (auto simp: reg prof claimed_row_def profile_def user_of_def init_profile_of_def pg)
qed simp_all

definition sample_accounts :: accounts where
  "sample_accounts =
     \<lparr>acc_registry = empty_registry\<lparr>rg_groups := [\<lparr>gr_id = ''g1'', gr_name = ''staff'', gr_description = None, gr_system = False,
        gr_created_at = 0, gr_updated_at = 0\<rparr>]\<rparr>,
      acc_objects = (\<lambda>_. fresh_user_do)\<rparr>"

definition sample_new_user :: "string \<Rightarrow> string \<Rightarrow> new_user" where
  "sample_new_user uid email =
     \<lparr>nw_id = uid, nw_email = Some email, nw_email_verified = True, nw_display_name = None, nw_groups = [''staff''],
      nw_identities = [], nw_created_at = None\<rparr>"

text \<open>A first answer that gets lost, then an answer.\<close>

definition sample_delivery :: "string \<Rightarrow> nat \<Rightarrow> delivery" where
  "sample_delivery uid n = (if n = 0 then Unanswered else Delivered)"

lemma sample_accounts_wf: "registry_wf (acc_registry sample_accounts)"
  by (simp add: sample_accounts_def registry_wf_def wf_defs emails_unique_def empty_registry_def)

text \<open>The witness: the creation succeeds at the second attempt.\<close>

theorem created_user_witness:
  "\<exists>prof a'. createUser sample_delivery 10 (sample_new_user ''u1'' ''A@b.c'') sample_accounts = Some (Inr prof, a') \<and>
     set (groupNamesOfUser (acc_registry a') ''u1'') = set (p_groups prof) \<and> p_groups prof = [''staff''] \<and>
     fst (getProfile (acc_objects a' ''u1'')) = Ok prof \<and> registry_wf (acc_registry a')"
proof -
  let ?x = "sample_new_user ''u1'' ''A@b.c''"
  let ?c = "createUser sample_delivery 10 ?x sample_accounts"
  have "(case ?c of Some (Inr prof, _) \<Rightarrow> p_groups prof = [''staff''] | _ \<Rightarrow> False)" by code_simp
  then obtain prof a' where c: "?c = Some (Inr prof, a')" and g: "p_groups prof = [''staff'']"
    by (auto split: option.splits sum.splits)
  have "readUser (store (acc_objects sample_accounts (nw_id ?x))) = None" by code_simp
  from created_user_is_complete [OF sample_accounts_wf this c] c g show ?thesis by (auto simp: sample_new_user_def)
qed

text \<open>
  A creation that fails is invisible. Refused for its address, its groups, a taken address or a linked identity, it
  leaves the registry and every object as they were; given up because the object did not answer, it leaves a row that is
  still being created, which no lookup of a verified address and no default listing returns.
\<close>

theorem failed_creation_is_invisible:
  assumes "createUser d now x a = Some (Inl f, a')"
  shows "(f \<noteq> Temporarily_unavailable \<longrightarrow> a' = a) \<and>
    (\<forall>e. findVerifiedUser (acc_registry a') e = findVerifiedUser (acc_registry a) e) \<and>
    (\<forall>after limit filters. uf_status filters = None \<longrightarrow> uf_group_id filters = None \<longrightarrow>
       listUsers (acc_registry a') filters after limit = listUsers (acc_registry a) filters after limit)"
  using assms
proof (cases rule: createUser_cases)
  case (claimed p r1 objs)
  have f: "f = Temporarily_unavailable"
    using claimed(3)
    by (auto simp: on_user_def initialize_def INIT_RETRIES_def split: prod.splits do_result.splits nat.splits)
  have reg: "rg_users (acc_registry a') = rg_users (acc_registry a) @ [claimed_row p]"
    using claimed(4) claim_result(1) [OF claimed(2)] by simp
  have "findVerifiedUser (acc_registry a') e = findVerifiedUser (acc_registry a) e" for e
    by (simp add: findVerifiedUser_def reg select_one_append claimed_row_def split: option.splits)
  moreover have "listUsers (acc_registry a') filters after limit = listUsers (acc_registry a) filters after limit"
    if "uf_status filters = None" "uf_group_id filters = None" for filters after limit
  proof -
    have "user_matches filters (acc_registry a') = user_matches filters (acc_registry a)"
      using that by (simp add: user_matches_def fun_eq_iff)
    moreover have "\<not> user_matches filters (acc_registry a) (claimed_row p)"
      using that by (simp add: user_matches_def claimed_row_def)
    ultimately show ?thesis by (simp add: listUsers_def keyset_query_def reg)
  qed
  ultimately show ?thesis using f by simp
next
  case (taken p e f')
  then show ?thesis by simp
qed simp

text \<open>The witness: the object never answers.\<close>

theorem failed_creation_witness:
  "\<exists>a'. createUser (\<lambda>_ _. Unanswered) 10 (sample_new_user ''u1'' ''A@b.c'') sample_accounts = Some (Inl Temporarily_unavailable, a') \<and>
     findVerifiedUser (acc_registry a') ''a@b.c'' = None \<and> rg_users (acc_registry a') \<noteq> []"
proof -
  let ?c = "createUser (\<lambda>_ _. Unanswered) 10 (sample_new_user ''u1'' ''A@b.c'') sample_accounts"
  have ok: "(case ?c of Some (Inl f, a') \<Rightarrow> f = Temporarily_unavailable \<and> rg_users (acc_registry a') \<noteq> [] | _ \<Rightarrow> False)" by code_simp
  then obtain z a' where z: "?c = Some (z, a')" by (cases ?c) auto
  with ok have c: "?c = Some (Inl Temporarily_unavailable, a')" and r: "rg_users (acc_registry a') \<noteq> []"
    by (cases z; simp)+
  have "findVerifiedUser (acc_registry sample_accounts) ''a@b.c'' = None" by code_simp
  then show ?thesis using c r failed_creation_is_invisible [OF c] by auto
qed


section \<open>A verified address in two objects\<close>

text \<open>
  \<^verbatim>\<open>updateUserProfile\<close> checks the address against active and disabled users only and writes the object before the row, so
  that an address held by a row that is still being created is not refused: the object keeps it although the registry
  rejects it, reindexing fails on the same constraint, and once the other row is activated two objects hold the address
  as verified.
\<close>

definition creation_pending :: accounts where
  "creation_pending =
     (let input = sample_new_user ''u2'' ''new@b.c'';
          a = (case createUser (\<lambda>_ _. Delivered) 10 (sample_new_user ''u1'' ''old@b.c'') sample_accounts of
                 Some (_, a') \<Rightarrow> a' | None \<Rightarrow> sample_accounts);
          r = (case prepare_user (acc_registry a) 11 input of Inl _ \<Rightarrow> acc_registry a
               | Inr p \<Rightarrow> (case batch (claimStatements p) (acc_registry a) of Inl _ \<Rightarrow> acc_registry a | Inr r' \<Rightarrow> r'))
      in a\<lparr>acc_registry := r\<rparr>)"

theorem rejected_email_stays_in_the_object:
  "let (res, a) = updateUserProfile True ''u1''
         \<lparr>pu_email = Some (Some ''new@b.c''), pu_email_verified = Some True, pu_display_name = None\<rparr> 12 creation_pending
   in (\<exists>prof. res = Partial prof) \<and>
      map_option u_email_norm (readUser (store (acc_objects a ''u1''))) = Some (Some ''new@b.c'') \<and>
      map_option u_email_verified (readUser (store (acc_objects a ''u1''))) = Some True \<and>
      map_option ru_email_norm (getUser (acc_registry a) ''u1'') = Some (Some ''old@b.c'') \<and>
      fst (reindexUser ''u1'' 13 a) = Thrown"
proof -
  let ?x = "updateUserProfile True ''u1''
      \<lparr>pu_email = Some (Some ''new@b.c''), pu_email_verified = Some True, pu_display_name = None\<rparr> 12 creation_pending"
  have "(case fst ?x of Partial prof \<Rightarrow> True | _ \<Rightarrow> False)" by code_simp
  then have "\<exists>prof. fst ?x = Partial prof" by (simp split: account_result.splits)
  moreover have "map_option u_email_norm (readUser (store (acc_objects (snd ?x) ''u1''))) = Some (Some ''new@b.c'')" by code_simp
  moreover have "map_option u_email_verified (readUser (store (acc_objects (snd ?x) ''u1''))) = Some True" by code_simp
  moreover have "map_option ru_email_norm (getUser (acc_registry (snd ?x)) ''u1'') = Some (Some ''old@b.c'')" by code_simp
  moreover have "fst (reindexUser ''u1'' 13 (snd ?x)) = Thrown" by code_simp
  ultimately show ?thesis by (simp add: split_def)
qed

end
