(* ===== verification/Audit_Trail.thy ===== *)
theory Audit_Trail
  imports Registry Users
begin

text \<open>
  Audit: the catalogue of event types (\<^verbatim>\<open>src/audit/catalog.ts\<close>), redaction (\<^verbatim>\<open>src/audit/redact.ts\<close>), the
  diff of an administrative change (\<^verbatim>\<open>src/audit/diff.ts\<close>), the events of one request
  (\<^verbatim>\<open>src/audit/events.ts\<close>), the table \<^verbatim>\<open>audit_hot\<close> (\<^verbatim>\<open>src/db/audit.ts\<close>) and the sink behind the
  queue (\<^verbatim>\<open>src/audit/sink.ts\<close>).
\<close>


section \<open>JSON values\<close>

datatype json =
    JNull
  | JBool bool
  | JNum int
  | JStr string
  | JArr "json list"
  | JObj "(string \<times> json) list"

fun digits_of :: "nat \<Rightarrow> string" where
  "digits_of n = (if n < 10 then [char_of (48 + n)] else digits_of (n div 10) @ [char_of (48 + n mod 10)])"

declare digits_of.simps [simp del]

definition int_text :: "int \<Rightarrow> string" where
  "int_text i = (if i < 0 then ''-'' @ digits_of (nat (- i)) else digits_of (nat i))"

definition hex_char :: "nat \<Rightarrow> char" where
  "hex_char n = (if n < 10 then char_of (48 + n) else char_of (87 + n))"

text \<open>\<^verbatim>\<open>JSON.stringify\<close>: quotes, backslashes and control characters are escaped.\<close>

definition escape_char :: "char \<Rightarrow> string" where
  "escape_char c =
     (let n = (of_char c :: nat) in
      if n = 0x22 \<or> n = 0x5C then [CHR 0x5C, c]
      else if n = 8 then [CHR 0x5C, CHR ''b''] else if n = 9 then [CHR 0x5C, CHR ''t'']
      else if n = 10 then [CHR 0x5C, CHR ''n''] else if n = 12 then [CHR 0x5C, CHR ''f'']
      else if n = 13 then [CHR 0x5C, CHR ''r'']
      else if n < 32 then [CHR 0x5C, CHR ''u'', CHR ''0'', CHR ''0'', hex_char (n div 16), hex_char (n mod 16)]
      else [c])"

definition quote_text :: "string \<Rightarrow> string" where
  "quote_text s = [CHR 0x22] @ concat (map escape_char s) @ [CHR 0x22]"

fun stringify :: "json \<Rightarrow> string" where
  "stringify JNull = ''null''"
| "stringify (JBool b) = (if b then ''true'' else ''false'')"
| "stringify (JNum i) = int_text i"
| "stringify (JStr s) = quote_text s"
| "stringify (JArr xs) = ''['' @ js_join '','' (map stringify xs) @ '']''"
| "stringify (JObj fs) = ''{'' @ js_join '','' (map (\<lambda>(k, v). quote_text k @ '':'' @ stringify v) fs) @ ''}''"

text \<open>\<^verbatim>\<open>new TextEncoder().encode(text).length\<close> of a text of characters below 256.\<close>

definition utf8_length :: "string \<Rightarrow> nat" where
  "utf8_length s = sum_list (map (\<lambda>c. if (of_char c :: nat) < 128 then 1 else 2) s)"


section \<open>The catalogue\<close>

definition ADMIN :: "string list" where "ADMIN = [''target'', ''diff'']"

definition AUDIT_CATALOG :: "(string \<times> string list) list" where
  "AUDIT_CATALOG =
     [(''user.created'', ADMIN @ [''via'', ''invitation'', ''identities'', ''import_line'']),
      (''user.updated'', ADMIN @ [''fields'', ''bookmark_time'']),
      (''user.disabled'', ADMIN @ [''sessions_revoked'', ''import_line'']),
      (''user.enabled'', ADMIN @ [''sessions_revoked'']),
      (''user.deleted'', ADMIN @ [''sessions_revoked'', ''via'']),
      (''user.reindexed'', ADMIN @ [''passkeys'', ''identities'', ''groups'', ''unknown_groups'']),
      (''user.exported'', ADMIN @ [''passkeys'', ''identities'', ''sessions'', ''refresh_families'', ''grants'']),
      (''user.group_added'', ADMIN @ [''group'']),
      (''user.group_removed'', ADMIN @ [''group'']),
      (''group.created'', ADMIN),
      (''group.updated'', ADMIN @ [''propagation'']),
      (''group.deleted'', ADMIN @ [''propagation'']),
      (''passkey.registered'', ADMIN @ [''passkey_id'', ''via'']),
      (''passkey.renamed'', ADMIN @ [''passkey_id'']),
      (''passkey.deleted'', ADMIN @ [''passkey_id'']),
      (''passkey.auth_succeeded'', [''passkey_id'']),
      (''passkey.auth_failed'', [''step'']),
      (''passkey.clone_suspected'', [''passkey_id'', ''stored'', ''observed'']),
      (''identity.linked'', ADMIN @ [''issuer'', ''via'']),
      (''identity.unlinked'', ADMIN @ [''issuer'', ''identity_id'']),
      (''identity.login_succeeded'', []),
      (''identity.login_failed'', []),
      (''invitation.created'', ADMIN @ [''kind'', ''groups'', ''expires_at'', ''import_line'']),
      (''invitation.used'', [''kind'', ''via'']),
      (''invitation.revoked'', ADMIN @ [''kind'', ''used'']),
      (''interaction.created'', [''kind'', ''status'']),
      (''interaction.failed'', [''kind'', ''error'']),
      (''interaction.completed'', [''kind'']),
      (''authz.code_issued'', [''scopes'', ''session_hit'']),
      (''authz.denied'', [''error'']),
      (''consent.granted'', [''scopes'']),
      (''consent.denied'', []),
      (''consent.revoked'', ADMIN @ [''grant_client_id'']),
      (''token.issued'', [''grant_type'', ''scopes'', ''kind'']),
      (''token.refreshed'', [''scopes'', ''kind'']),
      (''token.refresh_reuse'', [''revoked_session_clients'']),
      (''token.code_replay'', []),
      (''token.client_auth_failed'', [''method'']),
      (''token.revoked'', ADMIN @ [''family'', ''families'', ''hint'']),
      (''token.revoke_foreign'', [''hint'']),
      (''session.created'', [''amr'', ''acr'', ''upstream'']),
      (''session.rotated'', [''amr'', ''acr'', ''upstream'']),
      (''session.revoked'', ADMIN @ [''clients'']),
      (''session.expired'', []),
      (''logout.rp_initiated'', [''registered_redirect'']),
      (''logout.confirmed'', []),
      (''logout.backchannel_sent'', [''jti'']),
      (''logout.backchannel_failed'', [''jti'', ''attempts'']),
      (''client.created'', ADMIN),
      (''client.updated'', ADMIN @ [''secret_issued'']),
      (''client.secret_rotated'', ADMIN),
      (''client.disabled'', ADMIN),
      (''client.enabled'', ADMIN),
      (''client.deleted'', ADMIN),
      (''upstream.created'', ADMIN),
      (''upstream.updated'', ADMIN @ [''secret_replaced'', ''jwk_replaced'']),
      (''upstream.deleted'', ADMIN),
      (''upstream.discovery_failed'', ADMIN @ [''issuer'', ''step'']),
      (''key.created'', ADMIN @ [''activates_at'', ''immediate'', ''via'']),
      (''key.retired'', ADMIN @ [''emergency'', ''via'']),
      (''key.deleted'', [''kid'', ''via'']),
      (''masterkey.rekeyed'', ADMIN @ [''signing_keys'', ''upstreams'', ''unrecoverable'']),
      (''settings.updated'', ADMIN @ [''keys'']),
      (''admin.bootstrap'', [''client_id'']),
      (''admin.import_batch'', ADMIN @ [''lines'', ''created'', ''unchanged'', ''conflict'', ''error'']),
      (''ratelimit.exceeded'', [''class'']),
      (''system.cron_run'',
        [''audit_rows_purged'', ''audit_hot_rows'', ''invitations_deleted'', ''users_repaired'', ''users_dropped'',
         ''users_deleted'', ''keys'', ''rekeyed'', ''skipped'', ''duration_ms'']),
      (''system.repair'', ADMIN @ [''processed'', ''failed'', ''more''])]"

definition ARCHIVE_ONLY_TYPES :: "string list" where
  "ARCHIVE_ONLY_TYPES =
     [''interaction.created'', ''interaction.completed'', ''authz.code_issued'', ''token.issued'', ''token.refreshed'',
      ''passkey.auth_succeeded'', ''identity.login_succeeded'', ''session.expired'', ''ratelimit.exceeded'']"

definition isHotType :: "string \<Rightarrow> bool" where
  "isHotType type = (type \<notin> set ARCHIVE_ONLY_TYPES)"

definition isAuditType :: "string \<Rightarrow> bool" where
  "isAuditType type = (map_of AUDIT_CATALOG type \<noteq> None)"

definition allowedDataKeys :: "string \<Rightarrow> string list" where
  "allowedDataKeys type = (case map_of AUDIT_CATALOG type of None \<Rightarrow> [] | Some keys \<Rightarrow> keys)"


section \<open>Redaction\<close>

definition REDACTED :: string where "REDACTED = ''[redacted]''"

definition SECRET_KEYS :: "string list" where
  "SECRET_KEYS =
     [''token'', ''tokens'', ''access_token'', ''refresh_token'', ''id_token'', ''logout_token'', ''code'', ''secret'',
      ''client_secret'', ''secret_hash'', ''hash'', ''challenge'', ''password'', ''response'', ''assertion'',
      ''client_assertion'', ''private_jwk'', ''private_key'', ''cookie'', ''authorization'', ''state'', ''nonce'',
      ''code_verifier'', ''user_agent'', ''ip'', ''error_description'']"

text \<open>A pattern without anchors matches at some position.\<close>

fun anywhere :: "(string \<Rightarrow> bool) \<Rightarrow> string \<Rightarrow> bool" where
  "anywhere P [] = P []"
| "anywhere P (x # xs) \<longleftrightarrow> P (x # xs) \<or> anywhere P xs"

definition is_lower_letter :: "char \<Rightarrow> bool" where
  "is_lower_letter c \<longleftrightarrow> CHR ''a'' \<le> c \<and> c \<le> CHR ''z''"

definition is_hex :: "char \<Rightarrow> bool" where
  "is_hex c \<longleftrightarrow> is_digit c \<or> CHR ''a'' \<le> c \<and> c \<le> CHR ''f'' \<or> CHR ''A'' \<le> c \<and> c \<le> CHR ''F''"

definition has_prefix :: "string \<Rightarrow> string \<Rightarrow> bool" where
  "has_prefix p s \<longleftrightarrow> take (length p) s = p"

definition handle_here :: "string \<Rightarrow> bool" where
  "handle_here s \<longleftrightarrow>
     has_prefix ''tio_'' s \<and> length s \<ge> 7 \<and> is_lower_letter (s ! 4) \<and> is_lower_letter (s ! 5) \<and> s ! 6 = CHR ''_''"

definition HANDLE :: "string \<Rightarrow> bool" where
  "HANDLE s = anywhere handle_here s"

definition JWT :: "string \<Rightarrow> bool" where
  "JWT s \<longleftrightarrow>
     (case js_split (CHR ''.'') s of
        [h, p, g] \<Rightarrow> length h \<ge> 8 \<and> length p \<ge> 8 \<and> list_all is_b64url_char (h @ p @ g)
      | _ \<Rightarrow> False)"

definition UUID :: "string \<Rightarrow> bool" where
  "UUID s \<longleftrightarrow> map length (js_split (CHR ''-'') s) = [8, 4, 4, 4, 12] \<and> list_all (list_all is_hex) (js_split (CHR ''-'') s)"

definition OPAQUE :: "string \<Rightarrow> bool" where
  "OPAQUE s \<longleftrightarrow> length s \<ge> 32 \<and> list_all is_b64url_char s"

definition IPV4 :: "string \<Rightarrow> bool" where
  "IPV4 s \<longleftrightarrow>
     length (js_split (CHR ''.'') s) = 4 \<and>
     list_all (\<lambda>w. 1 \<le> length w \<and> length w \<le> 3 \<and> list_all is_digit w) (js_split (CHR ''.'') s)"

definition IPV6 :: "string \<Rightarrow> bool" where
  "IPV6 s \<longleftrightarrow>
     list_ex is_hex s \<and> list_all (\<lambda>c. is_hex c \<or> c = CHR '':'') s \<and>
     2 \<le> length (filter (\<lambda>c. c = CHR '':'') s) \<and> length (filter (\<lambda>c. c = CHR '':'') s) \<le> 7"

definition USER_AGENT :: "string \<Rightarrow> bool" where
  "USER_AGENT s =
     anywhere (\<lambda>t. list_ex (\<lambda>p. has_prefix p t) [''Mozilla/'', ''AppleWebKit'', ''Chrome/'', ''Safari/'', ''Firefox/'']) s"

definition EMAIL :: "string \<Rightarrow> bool" where
  "EMAIL s \<longleftrightarrow>
     (case js_split (CHR ''@'') s of
        [local, domain] \<Rightarrow>
          local \<noteq> [] \<and> length domain \<ge> 3 \<and> CHR ''.'' \<in> set (butlast (tl domain)) \<and> list_all (\<lambda>c. \<not> is_space c) s
      | _ \<Rightarrow> False)"

definition scrubString :: "string \<Rightarrow> string" where
  "scrubString v =
     (if HANDLE v \<or> JWT v \<or> USER_AGENT v then REDACTED
      else if \<not> UUID v \<and> OPAQUE v then REDACTED
      else if IPV4 v \<or> IPV6 v then REDACTED
      else if EMAIL v then the (maskEmail (Some v))
      else v)"

fun scrub :: "json \<Rightarrow> json" where
  "scrub (JStr s) = JStr (scrubString s)"
| "scrub (JArr xs) = JArr (map scrub xs)"
| "scrub (JObj fs) = JObj (map (\<lambda>(k, v). (k, if k \<in> set SECRET_KEYS then JStr REDACTED else scrub v)) fs)"
| "scrub v = v"

definition redactData :: "(string \<times> json) list \<Rightarrow> (string \<times> json) list" where
  "redactData data = map (\<lambda>(k, v). (k, if k \<in> set SECRET_KEYS then JStr REDACTED else scrub v)) data"

definition redactReason :: "string option \<Rightarrow> string option" where
  "redactReason reason = map_option scrubString reason"


section \<open>Differences\<close>

definition SECRET_FIELDS :: "string list" where
  "SECRET_FIELDS =
     [''client_secret'', ''client_secret_hash'', ''client_secret_enc'', ''private_jwk'', ''jwks'', ''jwks_enc'', ''secret'',
      ''secret_hash'', ''public_key'', ''token'', ''token_hash'']"

definition PERSONAL_FIELDS :: "string list" where
  "PERSONAL_FIELDS = [''email'', ''email_norm'', ''display_name'']"

definition MAX_DIFF_FIELDS :: nat where "MAX_DIFF_FIELDS = 32"
definition MAX_DIFF_VALUE_CHARS :: nat where "MAX_DIFF_VALUE_CHARS = 256"

datatype field_change = From_to json json | Changed

text \<open>
  The ellipsis that ends a cut text and names the entry past the cap is one character outside the model's alphabet;
  code 0x85 stands for it.
\<close>

definition ELLIPSIS :: string where "ELLIPSIS = [CHR 0x85]"

definition bounded :: "json option \<Rightarrow> json" where
  "bounded v =
     (case v of
        None \<Rightarrow> JNull
      | Some x \<Rightarrow>
          if length (stringify x) \<le> MAX_DIFF_VALUE_CHARS then x
          else JStr (take MAX_DIFF_VALUE_CHARS (stringify x) @ ELLIPSIS))"

definition or_null :: "json option \<Rightarrow> json" where
  "or_null v = (case v of None \<Rightarrow> JNull | Some x \<Rightarrow> x)"

fun diff_from ::
  "string list \<Rightarrow> (string \<rightharpoonup> json) \<Rightarrow> (string \<rightharpoonup> json) \<Rightarrow> nat \<Rightarrow> string list \<Rightarrow> (string \<times> field_change) list" where
  "diff_from masked old new n [] = []"
| "diff_from masked old new n (key # keys) =
     (if stringify (or_null (old key)) = stringify (or_null (new key)) then diff_from masked old new n keys
      else if n = MAX_DIFF_FIELDS then [(ELLIPSIS, Changed)]
      else (key, if key \<in> set SECRET_FIELDS \<or> key \<in> set masked then Changed
                 else From_to (bounded (old key)) (bounded (new key))) #
           diff_from masked old new (n + 1) keys)"

definition boundedDiff ::
  "(string \<times> json) list option \<Rightarrow> (string \<times> json) list option \<Rightarrow> string list \<Rightarrow> (string \<times> field_change) list" where
  "boundedDiff old new masked =
     diff_from masked (map_of (or_setting old [])) (map_of (or_setting new [])) 0
       (sort (js_uniq (map fst (or_setting old []) @ map fst (or_setting new []))))"


section \<open>Events of a request\<close>

record audit_actor =
  aa_kind :: string
  aa_id :: "string option"

record audit_row =
  au_id :: string
  au_ts :: seconds
  au_type :: string
  au_success :: bool
  au_actor :: audit_actor
  au_user_id :: "string option"
  au_client_id :: "string option"
  au_upstream :: "string option"
  au_sid :: "string option"
  au_interaction_id :: "string option"
  au_ip_hash :: "string option"
  au_country :: "string option"
  au_ua_family :: "string option"
  au_request_id :: string
  au_reason :: "string option"
  au_data :: "(string \<times> json) list"

record audit_input =
  ai_type :: string
  ai_success :: bool
  ai_actor :: audit_actor
  ai_user_id :: "string option"
  ai_client_id :: "string option"
  ai_upstream :: "string option"
  ai_sid :: "string option"
  ai_interaction_id :: "string option"
  ai_reason :: "string option"
  ai_data :: "(string \<times> json) list"

record request_context =
  rc_request_id :: string
  rc_ip_hash :: "string option"
  rc_country :: "string option"
  rc_ua_family :: "string option"

record auditor =
  an_events :: "audit_row list"
  an_dropped :: "(string \<times> string list) list"

definition MAX_DATA_BYTES :: nat where "MAX_DATA_BYTES = 4096"

definition dataSize :: "(string \<times> json) list \<Rightarrow> nat" where
  "dataSize data = utf8_length (stringify (JObj data))"

definition event_data :: "audit_input \<Rightarrow> (string \<times> json) list" where
  "event_data input =
     (let data = redactData (filter (\<lambda>(k, v). k \<in> set (allowedDataKeys (ai_type input))) (ai_data input)) in
      if dataSize data \<le> MAX_DATA_BYTES then data else [(''truncated'', JBool True)])"

definition emit :: "request_context \<Rightarrow> string \<Rightarrow> seconds \<Rightarrow> audit_input \<Rightarrow> auditor \<Rightarrow> audit_row \<times> auditor" where
  "emit ctx uuid now input a =
     (let dropped = map fst (filter (\<lambda>(k, v). k \<notin> set (allowedDataKeys (ai_type input))) (ai_data input));
          event = \<lparr>au_id = uuid, au_ts = now, au_type = ai_type input, au_success = ai_success input,
                   au_actor = ai_actor input, au_user_id = ai_user_id input, au_client_id = ai_client_id input,
                   au_upstream = ai_upstream input, au_sid = ai_sid input, au_interaction_id = ai_interaction_id input,
                   au_ip_hash = rc_ip_hash ctx, au_country = rc_country ctx, au_ua_family = rc_ua_family ctx,
                   au_request_id = rc_request_id ctx, au_reason = redactReason (ai_reason input),
                   au_data = event_data input\<rparr>
      in (event,
          a\<lparr>an_events := an_events a @ [event],
            an_dropped := an_dropped a @
              (if dropped \<noteq> [] \<or> \<not> isAuditType (ai_type input) then [(ai_type input, dropped)] else [])\<rparr>))"


section \<open>The hot table\<close>

text \<open>The rows with their rowids; SQLite gives a new row the largest rowid in use plus one.\<close>

type_synonym audit_table = "(int \<times> audit_row) list"

definition max_rowid :: "audit_table \<Rightarrow> int" where
  "max_rowid t = foldr max (map fst t) 0"

definition min_rowid :: "audit_table \<Rightarrow> int" where
  "min_rowid t = foldr min (map fst t) (max_rowid t)"

text \<open>\<^verbatim>\<open>INSERT OR IGNORE\<close> of several rows: a row whose id is present, also from the same statement, is left out.\<close>

definition insert_audit :: "audit_row \<Rightarrow> audit_table \<Rightarrow> audit_table" where
  "insert_audit e t =
     (if list_ex (\<lambda>(_, r). au_id r = au_id e) t then t else t @ [(max_rowid t + 1, e)])"

definition insertAuditStatement :: "audit_row list \<Rightarrow> audit_table \<Rightarrow> audit_table" where
  "insertAuditStatement events t = fold insert_audit events t"

text \<open>The inner query has no order; the model takes the rows in the order of the table.\<close>

definition purgeAuditBatch :: "seconds \<Rightarrow> nat \<Rightarrow> audit_table \<Rightarrow> nat \<times> audit_table" where
  "purgeAuditBatch cutoff limit t =
     (let gone = map (au_id \<circ> snd) (take limit (filter (\<lambda>(_, r). au_ts r < cutoff) t)) in
      (length (filter (\<lambda>(_, r). au_id r \<in> set gone) t), filter (\<lambda>(_, r). au_id r \<notin> set gone) t))"

definition estimateAuditRows :: "audit_table \<Rightarrow> int" where
  "estimateAuditRows t = (if t = [] then 0 else max_rowid t - min_rowid t + 1)"

definition countAuditRows :: "audit_table \<Rightarrow> int" where
  "countAuditRows t = int (length t)"

record audit_filters =
  af_type :: "string option"
  af_user_id :: "string option"
  af_client_id :: "string option"
  af_actor_id :: "string option"
  af_success :: "bool option"
  af_since :: "seconds option"
  af_until :: "seconds option"

definition audit_matches :: "audit_filters \<Rightarrow> (seconds \<times> string) option \<Rightarrow> audit_row \<Rightarrow> bool" where
  "audit_matches f after r \<longleftrightarrow>
     (case af_type f of None \<Rightarrow> True | Some v \<Rightarrow> au_type r = v) \<and>
     (case af_user_id f of None \<Rightarrow> True | Some v \<Rightarrow> au_user_id r = Some v) \<and>
     (case af_client_id f of None \<Rightarrow> True | Some v \<Rightarrow> au_client_id r = Some v) \<and>
     (case af_actor_id f of None \<Rightarrow> True | Some v \<Rightarrow> aa_id (au_actor r) = Some v) \<and>
     (case af_success f of None \<Rightarrow> True | Some v \<Rightarrow> au_success r = v) \<and>
     (case af_since f of None \<Rightarrow> True | Some v \<Rightarrow> au_ts r \<ge> v) \<and>
     (case af_until f of None \<Rightarrow> True | Some v \<Rightarrow> au_ts r \<le> v) \<and>
     (case after of None \<Rightarrow> True | Some (ts, i) \<Rightarrow> au_ts r < ts \<or> au_ts r = ts \<and> au_id r < i)"

definition listAuditPage :: "audit_table \<Rightarrow> audit_filters \<Rightarrow> (seconds \<times> string) option \<Rightarrow> nat \<Rightarrow> audit_row list" where
  "listAuditPage t filters after limit =
     take limit (rev (sort_key (\<lambda>r. (au_ts r, au_id r)) (filter (audit_matches filters after) (map snd t))))"


section \<open>The sink behind the queue\<close>

definition AUDIT_BATCH_SIZE :: nat where "AUDIT_BATCH_SIZE = 50"
definition AUDIT_BATCH_BYTES :: nat where "AUDIT_BATCH_BYTES = 120000"
definition AUDIT_ROWS_PER_STATEMENT :: nat where "AUDIT_ROWS_PER_STATEMENT = 5"

definition text_or_null :: "string option \<Rightarrow> json" where
  "text_or_null v = (case v of None \<Rightarrow> JNull | Some s \<Rightarrow> JStr s)"

definition event_json :: "audit_row \<Rightarrow> json" where
  "event_json e =
     JObj [(''id'', JStr (au_id e)), (''ts'', JNum (au_ts e)), (''type'', JStr (au_type e)),
           (''outcome'', JStr (if au_success e then ''success'' else ''failure'')),
           (''actor'', JObj [(''kind'', JStr (aa_kind (au_actor e))), (''id'', text_or_null (aa_id (au_actor e)))]),
           (''user_id'', text_or_null (au_user_id e)), (''client_id'', text_or_null (au_client_id e)),
           (''upstream'', text_or_null (au_upstream e)), (''sid'', text_or_null (au_sid e)),
           (''interaction_id'', text_or_null (au_interaction_id e)), (''ip_hash'', text_or_null (au_ip_hash e)),
           (''country'', text_or_null (au_country e)), (''ua_family'', text_or_null (au_ua_family e)),
           (''request_id'', JStr (au_request_id e)), (''reason'', text_or_null (au_reason e)),
           (''data'', JObj (au_data e))]"

definition event_size :: "audit_row \<Rightarrow> nat" where
  "event_size e = utf8_length (stringify (event_json e)) + 1"

fun batches_from :: "audit_row list \<Rightarrow> nat \<Rightarrow> audit_row list \<Rightarrow> audit_row list list" where
  "batches_from current bytes [] = (if current = [] then [] else [current])"
| "batches_from current bytes (e # es) =
     (if length current = AUDIT_BATCH_SIZE \<or> current \<noteq> [] \<and> bytes + event_size e > AUDIT_BATCH_BYTES
      then current # batches_from [e] (event_size e) es
      else batches_from (current @ [e]) (bytes + event_size e) es)"

definition auditBatches :: "audit_row list \<Rightarrow> audit_row list list" where
  "auditBatches events = batches_from [] 0 events"

text \<open>The date of a time in seconds (\<^verbatim>\<open>dateOf\<close> and the UTC getters), by the days since 0000-03-01.\<close>

definition civil_from_days :: "int \<Rightarrow> int \<times> int \<times> int" where
  "civil_from_days days =
     (let z = days + 719468; era = z div 146097; doe = z mod 146097;
          yoe = (doe - doe div 1460 + doe div 36524 - doe div 146096) div 365;
          doy = doe - (365 * yoe + yoe div 4 - yoe div 100);
          mp = (5 * doy + 2) div 153;
          d = doy - (153 * mp + 2) div 5 + 1;
          m = (if mp < 10 then mp + 3 else mp - 9)
      in (yoe + era * 400 + (if m \<le> 2 then 1 else 0), m, d))"

definition pad2 :: "int \<Rightarrow> string" where
  "pad2 n = (let t = int_text n in if length t < 2 then ''0'' @ t else t)"

definition archiveKey :: "audit_row \<Rightarrow> string \<Rightarrow> string" where
  "archiveKey first att =
     (let (y, m, d) = civil_from_days (au_ts first div 86400) in
      ''audit/year='' @ int_text y @ ''/month='' @ pad2 m @ ''/day='' @ pad2 d @ ''/hour='' @
      pad2 ((au_ts first mod 86400) div 3600) @ ''/'' @ au_id first @ ''-'' @ att @ ''.ndjson.gz'')"

definition archiveDayPrefix :: "string \<Rightarrow> string" where
  "archiveDayPrefix day =
     (case js_split (CHR ''-'') day of
        y # m # d # _ \<Rightarrow> ''audit/year='' @ y @ ''/month='' @ m @ ''/day='' @ d @ ''/''
      | _ \<Rightarrow> [])"

definition hotStatementsFor :: "audit_row list \<Rightarrow> nat" where
  "hotStatementsFor events =
     (length (filter (isHotType \<circ> au_type) events) + AUDIT_ROWS_PER_STATEMENT - 1) div AUDIT_ROWS_PER_STATEMENT"

text \<open>The archive, an object store: the events of every object by its key.\<close>

record audit_store =
  as_hot :: audit_table
  as_archive :: "string \<rightharpoonup> audit_row list"

fun hot_chunks :: "nat \<Rightarrow> audit_row list \<Rightarrow> audit_row list list" where
  "hot_chunks n es = (if n = 0 \<or> es = [] then [] else take n es # hot_chunks n (drop n es))"

declare hot_chunks.simps [simp del]

text \<open>\<open>db\<close> and \<open>bucket\<close> tell whether the batch and the upload succeed; the failure of either throws.\<close>

definition storeAuditBatch :: "bool \<Rightarrow> bool \<Rightarrow> audit_row list \<Rightarrow> string \<Rightarrow> audit_store \<Rightarrow> bool \<times> audit_store" where
  "storeAuditBatch db bucket events att st =
     (let hot = filter (isHotType \<circ> au_type) events; chunks = hot_chunks AUDIT_ROWS_PER_STATEMENT hot in
      if chunks \<noteq> [] \<and> \<not> db then (False, st)
      else
        let st1 = st\<lparr>as_hot := fold insertAuditStatement chunks (as_hot st)\<rparr> in
        if \<not> bucket then (False, st1)
        else (True, st1\<lparr>as_archive := (as_archive st1)(archiveKey (hd events) att \<mapsto> events)\<rparr>))"

end
