(* ===== verification/Audit_Safety.thy ===== *)
theory Audit_Safety
  imports Audit_Trail
begin

text \<open>
  What reaches an audit sink: redaction leaves nothing it would redact again and is idempotent, the batches handed to the
  queue are the events in order and within the bounds of a message, and a batch that is delivered again adds no row.
\<close>


section \<open>Redaction\<close>

lemma anywhere_append: "anywhere P ys \<Longrightarrow> anywhere P (xs @ ys)"
  by (induction xs) auto

lemma starts_withD: "has_prefix p s \<Longrightarrow> \<exists>rest. s = p @ rest"
  unfolding has_prefix_def by (metis append_take_drop_id)

lemma b64url_at: "\<not> is_b64url_char (CHR ''@'')" "\<not> is_b64url_char (CHR ''*'')"
  by code_simp+

lemma split_chars:
  assumes "\<forall>w \<in> set (js_split c s). \<forall>x \<in> set w. P x" and "x \<in> set s"
  shows "P x \<or> x = c"
  using assms
proof (induction s)
  case (Cons y ys)
  obtain w ws where w: "js_split c ys = w # ws" by (cases "js_split c ys") auto
  show ?case using Cons w by (auto split: if_splits)
qed simp

lemma JWT_chars: "JWT s \<Longrightarrow> x \<in> set s \<Longrightarrow> is_b64url_char x \<or> x = CHR ''.''"
  by (rule split_chars) (auto simp: JWT_def list_all_iff split: list.splits)

lemma IPV4_chars: "IPV4 s \<Longrightarrow> x \<in> set s \<Longrightarrow> is_digit x \<or> x = CHR ''.''"
  by (rule split_chars) (auto simp: IPV4_def list_all_iff)

text \<open>What the mask makes of an address \<open>l @ d\<close>: the first character of the local part and the domain.\<close>

lemma maskEmail_parts:
  assumes "l \<noteq> []" and "CHR ''@'' \<notin> set d"
  shows "maskEmail (Some (l @ CHR ''@'' # d)) = Some (hd l # ''***@'' @ d)"
proof -
  have "takeWhile (\<lambda>ch. ch \<noteq> CHR ''@'') (rev d @ CHR ''@'' # rev l) = rev d"
    by (subst takeWhile_append2) (use assms(2) in auto)
  then have "takeWhile (\<lambda>ch. ch \<noteq> CHR ''@'') (rev (l @ CHR ''@'' # d)) = rev d" by simp
  then show ?thesis using assms(1) by (simp add: maskEmail_def Let_def hd_append)
qed

lemma EMAIL_parts:
  assumes "EMAIL s"
  obtains l d where "s = l @ CHR ''@'' # d" "l \<noteq> []" "CHR ''@'' \<notin> set l" "CHR ''@'' \<notin> set d"
proof -
  obtain l d where ld: "js_split (CHR ''@'') s = [l, d]" "l \<noteq> []"
    using assms by (auto simp: EMAIL_def split: list.splits)
  have "s = l @ CHR ''@'' # d" using js_join_split [of "CHR ''@''" s] ld by simp
  moreover have "CHR ''@'' \<notin> set l" "CHR ''@'' \<notin> set d" using js_split_pieces [of _ "CHR ''@''" s] ld by auto
  ultimately show thesis using that ld by blast
qed

lemma masked_not_found:
  assumes "\<not> anywhere P (l @ CHR ''@'' # d)"
    and "\<And>t. P t \<Longrightarrow> length t \<ge> 2 \<and> hd t \<notin> set ''*@'' \<and> t ! 1 \<noteq> CHR ''*''"
  shows "\<not> anywhere P (x # ''***@'' @ d)"
proof -
  have no: "\<not> P (x # ''***@'' @ d)" "\<not> P (''***@'' @ d)" "\<not> P (''**@'' @ d)" "\<not> P (''*@'' @ d)" "\<not> P (''@'' @ d)"
    using assms(2) by force+
  have "\<not> anywhere P d" using assms(1) anywhere_append [of P d "l @ ''@''"] by auto
  then show ?thesis using no by simp
qed

lemma scrubString_idem: "scrubString (scrubString v) = scrubString v"
proof (cases "scrubString v = REDACTED \<or> scrubString v = v")
  case True
  have "scrubString REDACTED = REDACTED" by code_simp
  then show ?thesis using True by auto
next
  case False
  then have plain: "\<not> HANDLE v" "\<not> USER_AGENT v" and e: "EMAIL v" and m: "scrubString v = the (maskEmail (Some v))"
    by (auto simp: scrubString_def split: if_splits)
  obtain l d where v: "v = l @ CHR ''@'' # d" "l \<noteq> []" "CHR ''@'' \<notin> set l" "CHR ''@'' \<notin> set d" using EMAIL_parts [OF e] .
  let ?m = "hd l # ''***@'' @ d"
  have sm: "scrubString v = ?m" using m maskEmail_parts [OF v(2,4)] v(1) by simp
  have at: "CHR ''@'' \<in> set ?m" by simp
  have "\<not> HANDLE ?m" using plain(1) unfolding HANDLE_def v(1)
    by (rule masked_not_found) (auto simp: handle_here_def dest!: starts_withD)
  moreover have "\<not> USER_AGENT ?m" using plain(2) unfolding USER_AGENT_def v(1)
    by (rule masked_not_found) (auto dest!: starts_withD)
  moreover have "\<not> JWT ?m" using JWT_chars [OF _ at] b64url_at by auto
  moreover have "\<not> OPAQUE ?m" using b64url_at by (simp add: OPAQUE_def)
  moreover have "\<not> IPV4 ?m" using IPV4_chars [OF _ at] by (auto simp: is_digit_def)
  moreover have "\<not> IPV6 ?m" by (simp add: IPV6_def is_hex_def is_digit_def)
  moreover have "maskEmail (Some ?m) = Some ?m" using maskEmail_parts [of "hd l # ''***''" d] v(4) by simp
  ultimately show ?thesis unfolding sm by (simp add: scrubString_def)
qed

text \<open>A value that redaction has nothing to do with: no suspicious text at any depth, no value under a secret's name.\<close>

fun clean :: "json \<Rightarrow> bool" where
  "clean (JStr s) \<longleftrightarrow> scrubString s = s"
| "clean (JArr xs) \<longleftrightarrow> (\<forall>x \<in> set xs. clean x)"
| "clean (JObj fs) \<longleftrightarrow> (\<forall>(k, v) \<in> set fs. clean v \<and> (k \<in> set SECRET_KEYS \<longrightarrow> v = JStr REDACTED))"
| "clean v \<longleftrightarrow> True"

lemma scrub_clean: "clean (scrub v)"
proof (induction v rule: scrub.induct)
  case (3 fs)
  have "scrubString REDACTED = REDACTED" by code_simp
  then show ?case using 3 by auto
qed (auto simp: scrubString_idem)

lemma clean_scrub: "clean v \<Longrightarrow> scrub v = v"
proof (induction v rule: scrub.induct)
  case (2 xs)
  then show ?case by (simp add: map_idI)
next
  case (3 fs)
  have "(\<lambda>(k, v). (k, if k \<in> set SECRET_KEYS then JStr REDACTED else scrub v)) p = p" if "p \<in> set fs" for p
    using 3 that by (cases p) auto
  then show ?case by (simp add: map_idI)
qed simp_all

text \<open>
  C39. What an event carries. Whatever an emitter passes, the data of the event has only keys the catalogue allows for its
  type (or is the mark of a payload that was too large), no text that redaction would change and no value under the name of a secret at any depth, and at most 4096 bytes
  when serialised; the reason too is a text redaction leaves alone, and redacting again changes nothing.
\<close>

theorem audit_event_is_clean:
  "(set (map fst (event_data input)) \<subseteq> set (allowedDataKeys (ai_type input)) \<or> event_data input = [(''truncated'', JBool True)]) \<and>
   clean (JObj (event_data input)) \<and> redactData (event_data input) = event_data input \<and>
   dataSize (event_data input) \<le> MAX_DATA_BYTES \<and>
   redactReason (redactReason (ai_reason input)) = redactReason (ai_reason input)"
proof -
  let ?kept = "filter (\<lambda>(k, v). k \<in> set (allowedDataKeys (ai_type input))) (ai_data input)"
  have scrubbed: "JObj (redactData fs) = scrub (JObj fs)" for fs by (simp add: redactData_def)
  have small: "dataSize [(''truncated'', JBool True)] \<le> MAX_DATA_BYTES" by code_simp
  have cases: "event_data input = redactData ?kept \<and> dataSize (redactData ?kept) \<le> MAX_DATA_BYTES \<or>
      event_data input = [(''truncated'', JBool True)]"
    by (simp add: event_data_def Let_def)
  have keys: "set (map fst (redactData ?kept)) \<subseteq> set (allowedDataKeys (ai_type input))"
    by (auto simp: redactData_def)
  have flag: "''truncated'' \<notin> set SECRET_KEYS" by code_simp
  have cl: "clean (JObj (event_data input))"
    using cases
  proof (elim disjE conjE)
    assume "event_data input = redactData ?kept"
    then show ?thesis using scrub_clean [of "JObj ?kept"] unfolding scrubbed [of ?kept, symmetric] by simp
  next
    assume "event_data input = [(''truncated'', JBool True)]"
    then show ?thesis using flag by simp
  qed
  have red: "redactData (event_data input) = event_data input"
    using clean_scrub [OF cl] unfolding scrubbed [symmetric] by simp
  have allowed: "set (map fst (event_data input)) \<subseteq> set (allowedDataKeys (ai_type input)) \<or>
      event_data input = [(''truncated'', JBool True)]"
    using cases keys by metis
  have size: "dataSize (event_data input) \<le> MAX_DATA_BYTES" using cases small by auto
  have "redactReason (redactReason (ai_reason input)) = redactReason (ai_reason input)"
    by (cases "ai_reason input") (simp_all add: redactReason_def scrubString_idem)
  then show ?thesis using allowed cl red size by blast
qed


section \<open>Batches for the queue\<close>

definition batch_bytes :: "audit_row list \<Rightarrow> nat" where
  "batch_bytes es = sum_list (map event_size es)"

lemma batches_from_spec:
  assumes "length current \<le> AUDIT_BATCH_SIZE" and "bytes = batch_bytes current"
    and "current = [] \<or> batch_bytes current \<le> AUDIT_BATCH_BYTES \<or> length current = 1"
  shows "concat (batches_from current bytes es) = current @ es \<and>
    (\<forall>b \<in> set (batches_from current bytes es). b \<noteq> [] \<and> length b \<le> AUDIT_BATCH_SIZE \<and>
       (batch_bytes b \<le> AUDIT_BATCH_BYTES \<or> length b = 1))"
  using assms
proof (induction es arbitrary: current bytes)
  case (Cons e es)
  show ?case
  proof (cases "length current = AUDIT_BATCH_SIZE \<or> current \<noteq> [] \<and> bytes + event_size e > AUDIT_BATCH_BYTES")
    case True
    have cur: "current \<noteq> []" using True by (auto simp: AUDIT_BATCH_SIZE_def)
    have "concat (batches_from [e] (event_size e) es) = [e] @ es \<and>
      (\<forall>b \<in> set (batches_from [e] (event_size e) es). b \<noteq> [] \<and> length b \<le> AUDIT_BATCH_SIZE \<and>
         (batch_bytes b \<le> AUDIT_BATCH_BYTES \<or> length b = 1))"
      by (rule Cons.IH) (simp_all add: batch_bytes_def AUDIT_BATCH_SIZE_def)
    moreover have "batches_from current bytes (e # es) = current # batches_from [e] (event_size e) es" using True by simp
    ultimately show ?thesis using cur Cons.prems by auto
  next
    case False
    have "concat (batches_from (current @ [e]) (bytes + event_size e) es) = (current @ [e]) @ es \<and>
      (\<forall>b \<in> set (batches_from (current @ [e]) (bytes + event_size e) es). b \<noteq> [] \<and> length b \<le> AUDIT_BATCH_SIZE \<and>
         (batch_bytes b \<le> AUDIT_BATCH_BYTES \<or> length b = 1))"
    proof (rule Cons.IH)
      show "length (current @ [e]) \<le> AUDIT_BATCH_SIZE" using False Cons.prems by simp
      show "bytes + event_size e = batch_bytes (current @ [e])" using Cons.prems by (simp add: batch_bytes_def)
      show "current @ [e] = [] \<or> batch_bytes (current @ [e]) \<le> AUDIT_BATCH_BYTES \<or> length (current @ [e]) = 1"
        using False Cons.prems by (cases "current = []") (auto simp: batch_bytes_def)
    qed
    moreover have "batches_from current bytes (e # es) = batches_from (current @ [e]) (bytes + event_size e) es"
      using False by auto
    ultimately show ?thesis by simp
  qed
qed auto

text \<open>
  The queue gets every event. The batches of a request's events, concatenated, are the events in their order; no
  batch is empty or holds more than 50 events, and none is larger than 120000 bytes unless it is one event that is.
\<close>

theorem audit_batches_partition:
  "concat (auditBatches events) = events \<and>
   list_all (\<lambda>b. b \<noteq> [] \<and> length b \<le> AUDIT_BATCH_SIZE \<and> (batch_bytes b \<le> AUDIT_BATCH_BYTES \<or> length b = 1)) (auditBatches events)"
  using batches_from_spec [of "[]" 0 events] by (simp add: auditBatches_def batch_bytes_def list_all_iff)


section \<open>Delivery again\<close>

definition holds_id :: "audit_table \<Rightarrow> string \<Rightarrow> bool" where
  "holds_id t i \<longleftrightarrow> i \<in> (au_id \<circ> snd) ` set t"

lemma holds_id_iff: "list_ex (\<lambda>(_, r). au_id r = i) t \<longleftrightarrow> holds_id t i"
  by (induction t) (auto simp: holds_id_def)

lemma insert_audit_present: "holds_id t (au_id e) \<Longrightarrow> insert_audit e t = t"
  by (simp add: insert_audit_def holds_id_iff)

lemma insert_audit_holds: "holds_id (insert_audit e t) i \<longleftrightarrow> holds_id t i \<or> i = au_id e"
  by (auto simp: insert_audit_def holds_id_iff) (auto simp: holds_id_def)

lemma fold_insert_present: "\<forall>e \<in> set es. holds_id t (au_id e) \<Longrightarrow> fold insert_audit es t = t"
  by (induction es) (auto simp: insert_audit_present)

lemma fold_insert_holds: "holds_id (fold insert_audit es t) i \<longleftrightarrow> holds_id t i \<or> i \<in> au_id ` set es"
  by (induction es arbitrary: t) (auto simp: insert_audit_holds)

lemma hot_chunks_concat: "n \<noteq> 0 \<Longrightarrow> concat (hot_chunks n es) = es"
proof (induction n es rule: hot_chunks.induct)
  case (1 n es)
  then show ?case by (subst hot_chunks.simps) auto
qed

lemma fold_statements: "fold insertAuditStatement css t = fold insert_audit (concat css) t"
  by (induction css arbitrary: t) (simp_all add: insertAuditStatement_def)

definition hot_of :: "audit_row list \<Rightarrow> audit_row list" where
  "hot_of es = filter (isHotType \<circ> au_type) es"

lemma store_chunks: "fold insertAuditStatement (hot_chunks AUDIT_ROWS_PER_STATEMENT (hot_of es)) t = fold insert_audit (hot_of es) t"
  unfolding fold_statements by (subst hot_chunks_concat) (simp_all add: AUDIT_ROWS_PER_STATEMENT_def)

text \<open>The table after a store, also one that failed: as before, or with the hot events of the batch.\<close>

lemma store_hot:
  assumes "storeAuditBatch db bucket es att st = (ok, st')"
  shows "as_hot st' = as_hot st \<and> \<not> ok \<or> as_hot st' = fold insert_audit (hot_of es) (as_hot st)"
  using assms store_chunks [of es "as_hot st"]
  by (auto simp: storeAuditBatch_def Let_def hot_of_def split: if_splits)

lemma store_ok:
  assumes "storeAuditBatch db bucket es att st = (True, st')"
  shows "as_hot st' = fold insert_audit (hot_of es) (as_hot st)" and "as_archive st' (archiveKey (hd es) att) = Some es"
    and "\<And>k. k \<noteq> archiveKey (hd es) att \<Longrightarrow> as_archive st' k = as_archive st k"
  using assms store_chunks [of es "as_hot st"]
  by (auto simp: storeAuditBatch_def Let_def hot_of_def split: if_splits)

lemma store_archive_frame:
  assumes "storeAuditBatch db bucket es att st = (ok, st')" and "k \<noteq> archiveKey (hd es) att"
  shows "as_archive st' k = as_archive st k"
  using assms by (auto simp: storeAuditBatch_def Let_def split: if_splits)

fun store_tries :: "audit_row list \<Rightarrow> (bool \<times> bool \<times> string) list \<Rightarrow> audit_store \<Rightarrow> audit_store" where
  "store_tries es [] st = st"
| "store_tries es ((db, bucket, att) # tries) st = store_tries es tries (snd (storeAuditBatch db bucket es att st))"

lemma store_tries_hot:
  "as_hot (store_tries es tries st) = as_hot st \<or> as_hot (store_tries es tries st) = fold insert_audit (hot_of es) (as_hot st)"
proof (induction tries arbitrary: st)
  case (Cons x tries)
  obtain db bucket att where x: "x = (db, bucket, att)" by (cases x) auto
  obtain ok st1 where s: "storeAuditBatch db bucket es att st = (ok, st1)" by fastforce
  have "as_hot st1 = as_hot st \<or> as_hot st1 = fold insert_audit (hot_of es) (as_hot st)" using store_hot [OF s] by auto
  moreover have "fold insert_audit (hot_of es) (fold insert_audit (hot_of es) (as_hot st)) = fold insert_audit (hot_of es) (as_hot st)"
    by (rule fold_insert_present) (auto simp: fold_insert_holds)
  ultimately show ?case using Cons.IH [of st1] x s by auto
qed simp

lemma store_tries_archive:
  "k \<notin> (\<lambda>(_, _, att). archiveKey (hd es) att) ` set tries \<Longrightarrow> as_archive (store_tries es tries st) k = as_archive st k"
proof (induction tries arbitrary: st)
  case (Cons x tries)
  obtain db bucket att where x: "x = (db, bucket, att)" by (cases x) auto
  obtain ok st1 where s: "storeAuditBatch db bucket es att st = (ok, st1)" by fastforce
  show ?case using Cons x s store_archive_frame [OF s, of k] by auto
qed simp

lemma archiveKey_inject: "archiveKey e att = archiveKey e att' \<Longrightarrow> att = att'"
  by (auto simp: archiveKey_def Let_def split: prod.splits)

text \<open>
  A batch that is delivered again adds nothing. However often the storing of a batch was tried before and whichever of
  the two writes failed, a try that succeeds leaves the hot table exactly as one successful store would have; its events
  are in the archive under the key of that try, and no object that the earlier tries wrote under other attempts is lost.
\<close>

theorem redelivered_batch_adds_nothing:
  assumes "storeAuditBatch db bucket es att (store_tries es tries st) = (True, st')"
    and "att \<notin> (\<lambda>(_, _, a). a) ` set tries"
  shows "as_hot st' = fold insert_audit (hot_of es) (as_hot st) \<and> as_archive st' (archiveKey (hd es) att) = Some es \<and>
    (\<forall>(_, _, a) \<in> set tries. as_archive st' (archiveKey (hd es) a) = as_archive (store_tries es tries st) (archiveKey (hd es) a))"
proof -
  have again: "fold insert_audit (hot_of es) (fold insert_audit (hot_of es) (as_hot st)) = fold insert_audit (hot_of es) (as_hot st)"
    by (rule fold_insert_present) (auto simp: fold_insert_holds)
  have "as_hot st' = fold insert_audit (hot_of es) (as_hot st)"
    using store_ok(1) [OF assms(1)] store_tries_hot [of es tries st] again by auto
  moreover have "as_archive st' (archiveKey (hd es) a) = as_archive (store_tries es tries st) (archiveKey (hd es) a)"
    if "(d, b, a) \<in> set tries" for d b a
  proof -
    have "a \<noteq> att" using assms(2) that by force
    then have "archiveKey (hd es) a \<noteq> archiveKey (hd es) att" using archiveKey_inject by blast
    then show ?thesis by (rule store_ok(3) [OF assms(1)])
  qed
  ultimately show ?thesis using store_ok(2) [OF assms(1)] by auto
qed

definition sample_event :: audit_row where
  "sample_event =
     \<lparr>au_id = ''e1'', au_ts = 1700000000, au_type = ''user.created'', au_success = True,
      au_actor = \<lparr>aa_kind = ''system'', aa_id = None\<rparr>, au_user_id = None, au_client_id = None, au_upstream = None,
      au_sid = None, au_interaction_id = None, au_ip_hash = None, au_country = None, au_ua_family = None,
      au_request_id = ''r1'', au_reason = None, au_data = []\<rparr>"

text \<open>The witness: the first try wrote the table and not the archive, the second both.\<close>

theorem redelivered_batch_witness:
  "let st0 = \<lparr>as_hot = [], as_archive = Map.empty\<rparr>;
       st' = snd (storeAuditBatch True True [sample_event] ''b'' (store_tries [sample_event] [(True, False, ''a'')] st0))
   in as_hot st' = [(1, sample_event)] \<and> as_archive st' (archiveKey sample_event ''b'') = Some [sample_event]"
proof -
  let ?st0 = "\<lparr>as_hot = [], as_archive = Map.empty\<rparr>"
  let ?x = "storeAuditBatch True True [sample_event] ''b'' (store_tries [sample_event] [(True, False, ''a'')] ?st0)"
  have "fst ?x" by (simp add: storeAuditBatch_def Let_def)
  then have x: "?x = (True, snd ?x)" by (metis prod.collapse eq_True)
  have h: "fold insert_audit (hot_of [sample_event]) [] = [(1, sample_event)]" by code_simp
  show ?thesis using redelivered_batch_adds_nothing [OF x] h by (simp add: Let_def)
qed

end
