(* ===== verification/Queue.thy ===== *)
theory Queue
  imports Audit_Trail
begin

text \<open>
  Back-channel logout (\<^verbatim>\<open>src/logout/backchannel.ts\<close>) and the consumer of the task queue
  (\<^verbatim>\<open>src/queue/consumer.ts\<close>). Signing and decoding of a JWT, the HTTP client and the queue are parameters.
\<close>


section \<open>Back-channel logout\<close>

definition RETRY_DELAYS_SECONDS :: "seconds list" where
  "RETRY_DELAYS_SECONDS = [30, 120, 600, 1800, 7200]"

definition MAX_ATTEMPTS :: int where "MAX_ATTEMPTS = int (length RETRY_DELAYS_SECONDS)"

record backchannel_task =
  bt_client_id :: string
  bt_uri :: string
  bt_token :: string
  bt_attempt :: int
  bt_sid :: string
  bt_uid :: string

text \<open>\<^verbatim>\<open>BackchannelTaskSchema\<close> on a message whose members have these types.\<close>

definition task_valid :: "backchannel_task \<Rightarrow> bool" where
  "task_valid t \<longleftrightarrow>
     bt_client_id t \<noteq> [] \<and> bt_uri t \<noteq> [] \<and> bt_token t \<noteq> [] \<and> bt_attempt t \<ge> 1 \<and> bt_sid t \<noteq> [] \<and> bt_uid t \<noteq> []"

record ended_session =
  en_uid :: string
  en_sid :: string
  en_clients :: "string list"

datatype fetch_result = Response int | Timed_out | Unreachable

definition deliverLogoutToken :: "(string \<Rightarrow> string \<Rightarrow> fetch_result) \<Rightarrow> string \<Rightarrow> string \<Rightarrow> string option" where
  "deliverLogoutToken fetch uri token =
     (case fetch uri token of
        Response status \<Rightarrow> if 200 \<le> status \<and> status \<le> 299 then None else Some (''status_'' @ int_text status)
      | Timed_out \<Rightarrow> Some ''timeout''
      | Unreachable \<Rightarrow> Some ''unreachable'')"

text \<open>What a delivery runs against. \<open>bd_decode_jti\<close> is the \<^verbatim>\<open>jti\<close> of a token that decodes.\<close>

record backchannel_deps =
  bd_sign :: "string \<Rightarrow> claims \<Rightarrow> string"
  bd_decode_jti :: "string \<Rightarrow> string option"
  bd_issuer :: string
  bd_now :: seconds
  bd_fetch :: "string \<Rightarrow> string \<Rightarrow> fetch_result"

definition mintLogoutToken :: "backchannel_deps \<Rightarrow> string \<Rightarrow> string \<Rightarrow> string \<Rightarrow> string \<Rightarrow> string" where
  "mintLogoutToken d clientId sub sid jti =
     bd_sign d ''logout+jwt''
       (logoutTokenClaims \<lparr>lt_issuer = bd_issuer d, lt_client_id = clientId, lt_sub = sub, lt_sid = sid, lt_jti = jti,
          lt_now = bd_now d\<rparr>)"

definition system_event :: "string \<Rightarrow> bool \<Rightarrow> string \<Rightarrow> string \<Rightarrow> string \<Rightarrow> string option \<Rightarrow> (string \<times> json) list \<Rightarrow> audit_input" where
  "system_event type success uid clientId sid reason data =
     \<lparr>ai_type = type, ai_success = success, ai_actor = \<lparr>aa_kind = ''system'', aa_id = None\<rparr>, ai_user_id = Some uid,
      ai_client_id = Some clientId, ai_upstream = None, ai_sid = Some sid, ai_interaction_id = None, ai_reason = reason,
      ai_data = data\<rparr>"

text \<open>
  The notification of an ended session: per client with a back-channel URI an event and a delivery; the deliveries that
  fail leave a message for the queue. \<open>uri_of\<close> is \<^term>\<open>None\<close> also when the client cannot be read; \<open>jtis\<close> are
  the ids drawn, one per notified client.
\<close>

fun notify_each ::
  "backchannel_deps \<Rightarrow> (string \<Rightarrow> string option) \<Rightarrow> (string \<Rightarrow> string) \<Rightarrow> ended_session \<Rightarrow> string list \<Rightarrow>
   audit_input list \<times> (backchannel_task \<times> seconds) list" where
  "notify_each d uri_of jtis ended [] = ([], [])"
| "notify_each d uri_of jtis ended (clientId # rest) =
     (case uri_of clientId of
        None \<Rightarrow> notify_each d uri_of jtis ended rest
      | Some uri \<Rightarrow>
          let token = mintLogoutToken d clientId (en_uid ended) (en_sid ended) (jtis clientId);
              event = system_event ''logout.backchannel_sent'' True (en_uid ended) clientId (en_sid ended) None
                        [(''jti'', JStr (jtis clientId))];
              task = \<lparr>bt_client_id = clientId, bt_uri = uri, bt_token = token, bt_attempt = 1, bt_sid = en_sid ended,
                      bt_uid = en_uid ended\<rparr>;
              (events, tasks) = notify_each d uri_of jtis ended rest
          in (event # events,
              (case deliverLogoutToken (bd_fetch d) uri token of None \<Rightarrow> [] | Some _ \<Rightarrow> [(task, RETRY_DELAYS_SECONDS ! 0)]) @ tasks))"

definition notifyClients ::
  "backchannel_deps \<Rightarrow> (string \<Rightarrow> string option) \<Rightarrow> (string \<Rightarrow> string) \<Rightarrow> ended_session \<Rightarrow>
   audit_input list \<times> (backchannel_task \<times> seconds) list" where
  "notifyClients d uri_of jtis ended = notify_each d uri_of jtis ended (en_clients ended)"

text \<open>One retry from the queue: the events and the message it sends, if any.\<close>

definition retryBackchannel ::
  "backchannel_deps \<Rightarrow> backchannel_task option \<Rightarrow> audit_input list \<times> (backchannel_task \<times> seconds) option" where
  "retryBackchannel d body =
     (case body of
        None \<Rightarrow> ([], None)
      | Some task \<Rightarrow>
          if \<not> task_valid task then ([], None)
          else
            (case bd_decode_jti d (bt_token task) of
               None \<Rightarrow> ([], None)
             | Some jti \<Rightarrow>
                 let token = mintLogoutToken d (bt_client_id task) (bt_uid task) (bt_sid task) jti in
                 (case deliverLogoutToken (bd_fetch d) (bt_uri task) token of
                    None \<Rightarrow> ([], None)
                  | Some reason \<Rightarrow>
                      if bt_attempt task \<ge> MAX_ATTEMPTS
                      then ([system_event ''logout.backchannel_failed'' False (bt_uid task) (bt_client_id task) (bt_sid task)
                               (Some reason) [(''jti'', JStr jti), (''attempts'', JNum (bt_attempt task))]], None)
                      else ([], Some (task\<lparr>bt_token := token, bt_attempt := bt_attempt task + 1\<rparr>,
                                      RETRY_DELAYS_SECONDS ! nat (bt_attempt task))))))"


section \<open>The consumer\<close>

definition ARCHIVE_GROUP_EVENTS :: nat where "ARCHIVE_GROUP_EVENTS = 1000"
definition HOT_STATEMENTS_PER_INVOCATION :: nat where "HOT_STATEMENTS_PER_INVOCATION = 800"

text \<open>The body of a message by its \<^verbatim>\<open>kind\<close>; a body of that kind that does not parse is \<^term>\<open>None\<close>.\<close>

datatype task_body =
    Audit_body "audit_row list option"
  | Backchannel_body "backchannel_task option"
  | Other_body

record queue_message =
  qm_id :: string
  qm_body :: task_body

text \<open>\<^verbatim>\<open>AuditTaskSchema\<close>: between one and 50 events with the required texts.\<close>

definition audit_task_events :: "audit_row list option \<Rightarrow> audit_row list option" where
  "audit_task_events body =
     (case body of
        None \<Rightarrow> None
      | Some es \<Rightarrow>
          if 1 \<le> length es \<and> length es \<le> AUDIT_BATCH_SIZE \<and> list_all (\<lambda>e. au_id e \<noteq> [] \<and> au_type e \<noteq> []) es
          then Some es else None)"

datatype message_verdict = Acked | Retried

text \<open>
  The first pass: audit messages are kept for the second, the others are answered. \<open>keys\<close> tells whether the signing keys
  could be read.
\<close>

fun consume_tasks ::
  "backchannel_deps \<Rightarrow> bool \<Rightarrow> queue_message list \<Rightarrow>
   (string \<times> message_verdict) list \<times> (string \<times> audit_row list) list \<times> audit_input list \<times> (backchannel_task \<times> seconds) list" where
  "consume_tasks d keys [] = ([], [], [], [])"
| "consume_tasks d keys (m # ms) =
     (let (vs, audit, events, sends) = consume_tasks d keys ms in
      (case qm_body m of
         Audit_body body \<Rightarrow>
           (case audit_task_events body of
              None \<Rightarrow> ((qm_id m, Acked) # vs, audit, events, sends)
            | Some es \<Rightarrow> (vs, (qm_id m, es) # audit, events, sends))
       | Other_body \<Rightarrow> ((qm_id m, Acked) # vs, audit, events, sends)
       | Backchannel_body body \<Rightarrow>
           if \<not> keys then ((qm_id m, Retried) # vs, audit, events, sends)
           else
             let (ev, snd_task) = retryBackchannel d body
             in ((qm_id m, Acked) # vs, audit, ev @ events, (case snd_task of None \<Rightarrow> [] | Some x \<Rightarrow> [x]) @ sends)))"

definition group_size :: "(string \<times> audit_row list) list \<Rightarrow> nat" where
  "group_size g = sum_list (map (\<lambda>(_, es). length es) g)"

fun group_audit :: "nat \<Rightarrow> (string \<times> audit_row list) list list \<Rightarrow> (string \<times> audit_row list) list \<Rightarrow> (string \<times> audit_row list) list list" where
  "group_audit bound groups [] = groups"
| "group_audit bound groups (item # items) =
     (if groups \<noteq> [] \<and> group_size (last groups) + length (snd item) \<le> bound
      then group_audit bound (butlast groups @ [last groups @ [item]]) items
      else group_audit bound (groups @ [[item]]) items)"

text \<open>
  The second pass. \<open>up n\<close> tells whether D1 and the bucket answer for the \<open>n\<close>-th group; \<open>atts\<close> are the ids drawn for the
  archive keys. The statements of a group that is deferred count against the budget too.
\<close>

fun store_groups ::
  "nat \<Rightarrow> (nat \<Rightarrow> bool \<times> bool) \<Rightarrow> (nat \<Rightarrow> string) \<Rightarrow> nat \<Rightarrow> nat \<Rightarrow> (string \<times> audit_row list) list list \<Rightarrow> audit_store \<Rightarrow>
   (string \<times> message_verdict) list \<times> audit_store" where
  "store_groups budget up atts n used [] st = ([], st)"
| "store_groups budget up atts n used (g # gs) st =
     (let events = concat (map snd g); used' = used + hotStatementsFor events in
      if used' > budget
      then (let (vs, st') = store_groups budget up atts (n + 1) used' gs st in (map (\<lambda>(i, _). (i, Retried)) g @ vs, st'))
      else
        let (ok, st1) = storeAuditBatch (fst (up n)) (snd (up n)) events (atts n) st;
            (vs, st') = store_groups budget up atts (n + 1) used' gs st1
        in (map (\<lambda>(i, _). (i, if ok then Acked else Retried)) g @ vs, st'))"

text \<open>\<open>config\<close> tells whether the configuration is valid; without it the whole batch is retried.\<close>

definition queue_handler ::
  "bool \<Rightarrow> backchannel_deps \<Rightarrow> bool \<Rightarrow> (nat \<Rightarrow> bool \<times> bool) \<Rightarrow> (nat \<Rightarrow> string) \<Rightarrow> queue_message list \<Rightarrow> audit_store \<Rightarrow>
   (string \<times> message_verdict) list \<times> audit_input list \<times> (backchannel_task \<times> seconds) list \<times> audit_store" where
  "queue_handler config d keys up atts messages st =
     (if \<not> config then (map (\<lambda>m. (qm_id m, Retried)) messages, [], [], st)
      else
        let (vs, audit, events, sends) = consume_tasks d keys messages;
            (ws, st') = store_groups HOT_STATEMENTS_PER_INVOCATION up atts 0 0 (group_audit ARCHIVE_GROUP_EVENTS [] audit) st
        in (vs @ ws, events, sends, st'))"

end
