(* ===== verification/Queue_Safety.thy ===== *)
theory Queue_Safety
  imports Queue Audit_Safety
begin

text \<open>
  Back-channel logout settles: the retries of a notification follow the schedule and end with a delivery or with the
  event of a failure. The consumer acknowledges an audit message only when its events are stored.
\<close>


section \<open>The retries of one notification\<close>

text \<open>The chain of retries: every message is consumed when its delay is over, in the network as it is at that time.\<close>

definition deps_at :: "backchannel_deps \<Rightarrow> (seconds \<Rightarrow> string \<Rightarrow> string \<Rightarrow> fetch_result) \<Rightarrow> seconds \<Rightarrow> backchannel_deps" where
  "deps_at d net t = d\<lparr>bd_now := t, bd_fetch := net t\<rparr>"

lemma retry_sends:
  assumes "retryBackchannel d (Some task) = (evs, Some (task', delay))"
  shows "bt_attempt task' = bt_attempt task + 1 \<and> bt_attempt task < MAX_ATTEMPTS"
  using assms by (auto simp: retryBackchannel_def Let_def split: if_splits option.splits)

function retry_chain ::
  "backchannel_deps \<Rightarrow> (seconds \<Rightarrow> string \<Rightarrow> string \<Rightarrow> fetch_result) \<Rightarrow> backchannel_task \<Rightarrow> seconds \<Rightarrow>
   seconds list \<times> audit_input list" where
  "retry_chain d net task t =
     (case retryBackchannel (deps_at d net t) (Some task) of
        (evs, None) \<Rightarrow> ([t], evs)
      | (evs, Some (task', delay)) \<Rightarrow>
          let (ts, evs') = retry_chain d net task' (t + delay) in (t # ts, evs @ evs'))"
  by pat_completeness auto
termination
  by (relation "measure (\<lambda>(d, net, task, t). nat (MAX_ATTEMPTS - bt_attempt task))")
    (auto dest!: retry_sends [OF sym])

declare retry_chain.simps [simp del]

text \<open>The schedule, as a specification: one delivery per delay until one arrives.\<close>

fun scheduled :: "(seconds \<Rightarrow> bool) \<Rightarrow> (seconds \<Rightarrow> 'e) \<Rightarrow> seconds list \<Rightarrow> seconds \<Rightarrow> seconds list \<times> 'e list" where
  "scheduled arrives failed [] t = ([t], if arrives t then [] else [failed t])"
| "scheduled arrives failed (delay # delays) t =
     (if arrives t then ([t], []) else let (ts, evs) = scheduled arrives failed delays (t + delay) in (t # ts, evs))"

text \<open>What the tokens of the chain have in common.\<close>

definition carries :: "backchannel_deps \<Rightarrow> backchannel_task \<Rightarrow> string \<Rightarrow> string \<Rightarrow> string \<Rightarrow> string \<Rightarrow> string \<Rightarrow> bool" where
  "carries d task cid uri uid sid jti \<longleftrightarrow>
     task_valid task \<and> bt_client_id task = cid \<and> bt_uri task = uri \<and> bt_uid task = uid \<and> bt_sid task = sid \<and>
     bd_decode_jti d (bt_token task) = Some jti"

definition arrives_at ::
  "backchannel_deps \<Rightarrow> (seconds \<Rightarrow> string \<Rightarrow> string \<Rightarrow> fetch_result) \<Rightarrow> string \<Rightarrow> string \<Rightarrow> string \<Rightarrow> string \<Rightarrow> string \<Rightarrow> seconds \<Rightarrow> bool" where
  "arrives_at d net cid uri uid sid jti t \<longleftrightarrow>
     deliverLogoutToken (net t) uri (mintLogoutToken (deps_at d net t) cid uid sid jti) = None"

definition failure_event ::
  "backchannel_deps \<Rightarrow> (seconds \<Rightarrow> string \<Rightarrow> string \<Rightarrow> fetch_result) \<Rightarrow> string \<Rightarrow> string \<Rightarrow> string \<Rightarrow> string \<Rightarrow> string \<Rightarrow> seconds \<Rightarrow> audit_input" where
  "failure_event d net cid uri uid sid jti t =
     system_event ''logout.backchannel_failed'' False uid cid sid
       (deliverLogoutToken (net t) uri (mintLogoutToken (deps_at d net t) cid uid sid jti))
       [(''jti'', JStr jti), (''attempts'', JNum MAX_ATTEMPTS)]"

text \<open>The law of the JWT library: a token that was signed is not empty and decodes to the claims that went in.\<close>

definition jwt_law :: "backchannel_deps \<Rightarrow> bool" where
  "jwt_law d \<longleftrightarrow>
     (\<forall>c j. map_of c ''jti'' = Some (Text j) \<longrightarrow> bd_decode_jti d (bd_sign d ''logout+jwt'' c) = Some j) \<and>
     (\<forall>c. bd_sign d ''logout+jwt'' c \<noteq> [])"

lemma minted_decodes:
  assumes "jwt_law d"
  shows "bd_decode_jti d (mintLogoutToken (deps_at d net t) cid uid sid jti) = Some jti"
    and "mintLogoutToken (deps_at d net t) cid uid sid jti \<noteq> []"
  using assms by (simp_all add: jwt_law_def mintLogoutToken_def deps_at_def logoutTokenClaims_def)

lemma retry_chain_scheduled:
  assumes law: "jwt_law d" and "carries d task cid uri uid sid jti" and "bt_attempt task = MAX_ATTEMPTS - int (length delays)"
    and "delays = drop (nat (bt_attempt task)) RETRY_DELAYS_SECONDS"
  shows "retry_chain d net task t =
    scheduled (arrives_at d net cid uri uid sid jti) (failure_event d net cid uri uid sid jti) delays t"
  using assms(2-)
proof (induction delays arbitrary: task t)
  case Nil
  have "retryBackchannel (deps_at d net t) (Some task) =
      (if arrives_at d net cid uri uid sid jti t then [] else [failure_event d net cid uri uid sid jti t], None)"
    using Nil by (auto simp: retryBackchannel_def carries_def arrives_at_def failure_event_def deps_at_def mintLogoutToken_def
        Let_def split: option.splits)
  then show ?case by (subst retry_chain.simps) simp
next
  case (Cons delay delays)
  let ?token = "mintLogoutToken (deps_at d net t) cid uid sid jti"
  let ?task' = "task\<lparr>bt_token := ?token, bt_attempt := bt_attempt task + 1\<rparr>"
  have one: "bt_attempt task \<ge> 1" using Cons.prems(1) by (simp add: carries_def task_valid_def)
  have less: "bt_attempt task < MAX_ATTEMPTS" using Cons.prems(2) by simp
  have "RETRY_DELAYS_SECONDS ! nat (bt_attempt task) = hd (drop (nat (bt_attempt task)) RETRY_DELAYS_SECONDS)"
    using less one by (intro hd_drop_conv_nth [symmetric]) (simp add: MAX_ATTEMPTS_def)
  then have delay: "RETRY_DELAYS_SECONDS ! nat (bt_attempt task) = delay" using Cons.prems(3) by (metis list.sel(1))
  have next_delays: "delays = drop (nat (bt_attempt ?task')) RETRY_DELAYS_SECONDS"
    using Cons.prems(3) one by (simp add: nat_add_distrib drop_Suc) (metis drop_tl list.sel(3))
  have "carries d ?task' cid uri uid sid jti"
    using Cons.prems(1) one minted_decodes [OF law] by (auto simp: carries_def task_valid_def)
  then have IH: "retry_chain d net ?task' (t + delay) =
      scheduled (arrives_at d net cid uri uid sid jti) (failure_event d net cid uri uid sid jti) delays (t + delay)"
    by (rule Cons.IH) (use Cons.prems(2) next_delays in simp_all)
  have "retryBackchannel (deps_at d net t) (Some task) =
      ([], if arrives_at d net cid uri uid sid jti t then None else Some (?task', delay))"
    using Cons.prems(1) less delay
    by (auto simp: retryBackchannel_def carries_def arrives_at_def deps_at_def mintLogoutToken_def Let_def split: option.splits)
  then show ?case using IH by (subst retry_chain.simps) (simp add: split_def)
qed

fun times_of :: "seconds list \<Rightarrow> seconds \<Rightarrow> seconds list" where
  "times_of [] t = [t]"
| "times_of (delay # delays) t = t # times_of delays (t + delay)"

lemma scheduled_times:
  "\<exists>n. fst (scheduled arrives failed delays t) = take (n + 1) (times_of delays t)"
proof (induction delays arbitrary: t)
  case (Cons delay delays)
  show ?case
  proof (cases "arrives t")
    case True
    then show ?thesis by (intro exI [of _ 0]) simp
  next
    case False
    obtain n where "fst (scheduled arrives failed delays (t + delay)) = take (n + 1) (times_of delays (t + delay))"
      using Cons.IH by blast
    then show ?thesis using False by (intro exI [of _ "n + 1"]) (simp add: split_def)
  qed
qed simp

lemma scheduled_outcome:
  "scheduled arrives failed delays t = (ts, evs) \<Longrightarrow>
   ts \<noteq> [] \<and> (\<forall>u \<in> set (butlast ts). \<not> arrives u) \<and>
   (arrives (last ts) \<and> evs = [] \<or> ts = times_of delays t \<and> evs = [failed (last ts)])"
proof (induction delays arbitrary: t ts evs)
  case (Cons delay delays)
  show ?case
  proof (cases "arrives t")
    case True
    then show ?thesis using Cons.prems by auto
  next
    case False
    obtain us where "scheduled arrives failed delays (t + delay) = (us, evs)" and ts: "ts = t # us"
      using False Cons.prems by (auto split: prod.splits)
    from Cons.IH [OF this(1)] show ?thesis using ts False by auto
  qed
qed auto

text \<open>
  C37. A notification settles. For a client that the first delivery did not reach, a queue that takes every retry and delivers
  it when it is due, and a signature whose \<^verbatim>\<open>jti\<close> can be read back, the message is retried at most five times, 30, 120, 600, 1800 and 7200 seconds apart, always with the same \<^verbatim>\<open>jti\<close>; the retries stop at the first
  one the client accepts, and only if it accepts none of them the failure is reported, once, after the fifth.
\<close>

theorem logout_notification_settles:
  assumes "jwt_law d" and "cid \<noteq> []" and "uri \<noteq> []" and "uid \<noteq> []" and "sid \<noteq> []"
    and "task = \<lparr>bt_client_id = cid, bt_uri = uri, bt_token = mintLogoutToken (deps_at d net t) cid uid sid jti, bt_attempt = 1,
           bt_sid = sid, bt_uid = uid\<rparr>"
    and "retry_chain d net task (t + 30) = (ts, evs)"
  shows "(\<exists>n. ts = take (n + 1) [t + 30, t + 150, t + 750, t + 2550, t + 9750]) \<and>
    (\<forall>u \<in> set (butlast ts). \<not> arrives_at d net cid uri uid sid jti u) \<and>
    (arrives_at d net cid uri uid sid jti (last ts) \<and> evs = [] \<or>
     ts = [t + 30, t + 150, t + 750, t + 2550, t + 9750] \<and> evs = [failure_event d net cid uri uid sid jti (t + 9750)])"
proof -
  have "carries d task cid uri uid sid jti"
    using assms(2-6) minted_decodes [OF assms(1)] by (simp add: carries_def task_valid_def)
  then have "retry_chain d net task (t + 30) = scheduled (arrives_at d net cid uri uid sid jti)
      (failure_event d net cid uri uid sid jti) [120, 600, 1800, 7200] (t + 30)"
    by (rule retry_chain_scheduled [OF assms(1)]) (simp_all add: assms(6) MAX_ATTEMPTS_def RETRY_DELAYS_SECONDS_def)
  with assms(7) have chain: "scheduled (arrives_at d net cid uri uid sid jti) (failure_event d net cid uri uid sid jti)
      [120, 600, 1800, 7200] (t + 30) = (ts, evs)"
    by (simp only:)
  have times: "times_of [120, 600, 1800, 7200] (t + 30) = [t + 30, t + 150, t + 750, t + 2550, t + 9750]" by simp
  have "\<exists>n. ts = take (n + 1) [t + 30, t + 150, t + 750, t + 2550, t + 9750]"
    using scheduled_times [of "arrives_at d net cid uri uid sid jti" "failure_event d net cid uri uid sid jti"
        "[120, 600, 1800, 7200]" "t + 30"] unfolding chain times fst_conv .
  moreover note scheduled_outcome [OF chain, unfolded times]
  moreover have "last [t + 30, t + 150, t + 750, t + 2550, t + 9750] = t + 9750" by simp
  ultimately show ?thesis by metis
qed

text \<open>A network in which the client is down until time 1000, and a signature that is the \<^verbatim>\<open>jti\<close> behind a dot.\<close>

definition sample_sign :: "string \<Rightarrow> claims \<Rightarrow> string" where
  "sample_sign typ c = (case map_of c ''jti'' of Some (Text j) \<Rightarrow> ''.'' @ j | _ \<Rightarrow> ''.'')"

definition sample_deps :: backchannel_deps where
  "sample_deps =
     \<lparr>bd_sign = sample_sign, bd_decode_jti = (\<lambda>s. if s = [] then None else Some (tl s)), bd_issuer = ''https://op'', bd_now = 0,
      bd_fetch = (\<lambda>_ _. Unreachable)\<rparr>"

definition sample_net :: "seconds \<Rightarrow> string \<Rightarrow> string \<Rightarrow> fetch_result" where
  "sample_net t uri token = (if t < 1000 then Unreachable else Response 200)"

lemma sample_jwt_law: "jwt_law sample_deps"
  by (auto simp: jwt_law_def sample_deps_def sample_sign_def split: option.splits claim.splits)

text \<open>The witness: three retries fail, the fourth arrives.\<close>

theorem logout_notification_witness:
  "let task = \<lparr>bt_client_id = ''c'', bt_uri = ''https://rp'', bt_token = mintLogoutToken (deps_at sample_deps sample_net 0) ''c'' ''u'' ''s'' ''j'',
         bt_attempt = 1, bt_sid = ''s'', bt_uid = ''u''\<rparr>;
       (ts, evs) = retry_chain sample_deps sample_net task 30
   in ts = [30, 150, 750, 2550] \<and> evs = [] \<and> arrives_at sample_deps sample_net ''c'' ''https://rp'' ''u'' ''s'' ''j'' (last ts)"
proof -
  let ?task = "\<lparr>bt_client_id = ''c'', bt_uri = ''https://rp'', bt_token = mintLogoutToken (deps_at sample_deps sample_net 0) ''c'' ''u'' ''s'' ''j'',
      bt_attempt = 1, bt_sid = ''s'', bt_uid = ''u''\<rparr>"
  have c: "retry_chain sample_deps sample_net ?task 30 = ([30, 150, 750, 2550], [])" by code_simp
  from logout_notification_settles [OF sample_jwt_law, of "''c''" "''https://rp''" "''u''" "''s''" ?task sample_net 0 "''j''"
      "[30, 150, 750, 2550]" "[]"] c
  have "arrives_at sample_deps sample_net ''c'' ''https://rp'' ''u'' ''s'' ''j'' 2550" by simp
  then show ?thesis using c by (simp add: Let_def)
qed


section \<open>The consumer\<close>

text \<open>Where the events of a message are once it was acknowledged.\<close>

definition stored_in :: "audit_store \<Rightarrow> audit_row list \<Rightarrow> bool" where
  "stored_in st es \<longleftrightarrow>
     (\<exists>k evs. as_archive st k = Some evs \<and> set es \<subseteq> set evs) \<and> (\<forall>e \<in> set es. isHotType (au_type e) \<longrightarrow> holds_id (as_hot st) (au_id e))"

lemma archiveKey_suffix: "\<exists>p. archiveKey e a = p @ a @ ''.ndjson.gz''"
proof -
  obtain y m d where ymd: "civil_from_days (au_ts e div 86400) = (y, m, d)" by (cases "civil_from_days (au_ts e div 86400)") auto
  have "archiveKey e a = (''audit/year='' @ int_text y @ ''/month='' @ pad2 m @ ''/day='' @ pad2 d @ ''/hour='' @
      pad2 ((au_ts e mod 86400) div 3600) @ ''/'' @ au_id e @ ''-'') @ a @ ''.ndjson.gz''"
    by (simp add: archiveKey_def ymd)
  then show ?thesis by blast
qed

lemma archiveKey_attempt:
  assumes "length a = length b" and "archiveKey e a = archiveKey f b"
  shows "a = b"
proof -
  obtain p where p: "archiveKey e a = p @ a @ ''.ndjson.gz''" using archiveKey_suffix by blast
  obtain q where q: "archiveKey f b = q @ b @ ''.ndjson.gz''" using archiveKey_suffix by blast
  have "(p @ a) @ ''.ndjson.gz'' = (q @ b) @ ''.ndjson.gz''" using assms(2) p q by simp
  then have "p @ a = q @ b" by (simp only: append_same_eq)
  then show ?thesis using assms(1) by (metis append_eq_append_conv)
qed

lemma store_keeps_hot:
  assumes "storeAuditBatch db bucket es att st = (ok, st')" and "holds_id (as_hot st) i"
  shows "holds_id (as_hot st') i"
  using store_hot [OF assms(1)] assms(2) by (auto simp: fold_insert_holds)

text \<open>What later groups leave of a group that was stored: their archive keys end in other ids.\<close>

lemma store_groups_keeps:
  assumes inj: "inj_on atts {..<N}" and len: "\<And>k. k < N \<Longrightarrow> length (atts k) = 36" and "n + length gs \<le> N" and "m < n"
    and "as_archive st (archiveKey e (atts m)) = Some evs" and "holds_id (as_hot st) i \<or> \<not> hot"
    and "store_groups budget up atts n used gs st = (vs, st')"
  shows "as_archive st' (archiveKey e (atts m)) = Some evs \<and> (holds_id (as_hot st') i \<or> \<not> hot)"
  using assms(3-)
proof (induction gs arbitrary: n used st vs)
  case (Cons g gs)
  let ?events = "concat (map snd g)"
  let ?used = "used + hotStatementsFor ?events"
  show ?case
  proof (cases "?used > budget")
    case True
    then obtain ws where "store_groups budget up atts (n + 1) ?used gs st = (ws, st')"
      using Cons.prems(5) by (auto simp: Let_def split: prod.splits)
    then show ?thesis using Cons.IH [of "n + 1" st ?used ws] Cons.prems by simp
  next
    case False
    obtain ok st1 where s: "storeAuditBatch (fst (up n)) (snd (up n)) ?events (atts n) st = (ok, st1)" by fastforce
    obtain ws where ws: "store_groups budget up atts (n + 1) ?used gs st1 = (ws, st')"
      using False Cons.prems(5) s by (auto simp: Let_def split: prod.splits)
    have "atts m \<noteq> atts n" using inj_onD [OF inj, of m n] Cons.prems(1,2) by auto
    then have "archiveKey e (atts m) \<noteq> archiveKey (hd ?events) (atts n)"
      using archiveKey_attempt [of "atts m" "atts n"] len [of m] len [of n] Cons.prems(1,2) by auto
    then have "as_archive st1 (archiveKey e (atts m)) = Some evs" using store_archive_frame [OF s] Cons.prems(3) by simp
    moreover have "holds_id (as_hot st1) i \<or> \<not> hot" using store_keeps_hot [OF s] Cons.prems(4) by blast
    ultimately show ?thesis using Cons.IH [of "n + 1" st1 ?used ws] Cons.prems(1,2) ws by simp
  qed
qed simp

lemma store_groups_ids: "store_groups budget up atts n used gs st = (vs, st') \<Longrightarrow> map fst vs = map fst (concat gs)"
proof (induction gs arbitrary: n used st vs)
  case (Cons g gs)
  have ids: "map (fst \<circ> (\<lambda>(i, _). (i, v))) g = map fst g" for v :: message_verdict by (induction g) auto
  show ?case
    using Cons.prems Cons.IH by (auto simp: Let_def ids split: prod.splits if_splits)
qed simp

lemma store_groups_acked:
  assumes inj: "inj_on atts {..<N}" and len: "\<And>k. k < N \<Longrightarrow> length (atts k) = 36" and "n + length gs \<le> N"
    and "store_groups budget up atts n used gs st = (vs, st')" and "distinct (map fst (concat gs))"
    and "(i, es) \<in> set (concat gs)" and "(i, Acked) \<in> set vs"
  shows "stored_in st' es"
  using assms(3-)
proof (induction gs arbitrary: n used st vs)
  case (Cons g gs)
  let ?events = "concat (map snd g)"
  let ?used = "used + hotStatementsFor ?events"
  show ?case
  proof (cases "?used > budget")
    case True
    then obtain ws where ws: "store_groups budget up atts (n + 1) ?used gs st = (ws, st')"
      and vs: "vs = map (\<lambda>(i, _). (i, Retried)) g @ ws"
      using Cons.prems(2) by (auto simp: Let_def split: prod.splits)
    have w: "(i, Acked) \<in> set ws" using Cons.prems(5) vs by auto
    then have "i \<in> fst ` set (concat gs)" using store_groups_ids [OF ws] by (metis fst_conv image_eqI list.set_map)
    then have "i \<notin> fst ` set g" using Cons.prems(3) by (auto simp: distinct_map)
    then have "(i, es) \<in> set (concat gs)" using Cons.prems(4) by force
    then show ?thesis using Cons.IH [OF _ ws] Cons.prems(1,3) w by simp
  next
    case False
    obtain ok st1 where s: "storeAuditBatch (fst (up n)) (snd (up n)) ?events (atts n) st = (ok, st1)" by fastforce
    obtain ws where ws: "store_groups budget up atts (n + 1) ?used gs st1 = (ws, st')"
      and vs: "vs = map (\<lambda>(i, _). (i, if ok then Acked else Retried)) g @ ws"
      using False Cons.prems(2) s by (auto simp: Let_def split: prod.splits)
    have idw: "map fst ws = map fst (concat gs)" by (rule store_groups_ids [OF ws])
    show ?thesis
    proof (cases "i \<in> fst ` set g")
      case False
      then have w: "(i, Acked) \<in> set ws" using Cons.prems(5) vs by force
      have "(i, es) \<in> set (concat gs)" using False Cons.prems(4) by force
      then show ?thesis using Cons.IH [OF _ ws] Cons.prems(1,3) w by simp
    next
      case True
      have "i \<notin> fst ` set (concat gs)" using True Cons.prems(3) by (auto simp: distinct_map)
      then have "i \<notin> fst ` set ws" using idw by (metis list.set_map)
      then have ok: "ok" using Cons.prems(5) vs by (cases ok) (auto simp: image_iff)
      have g: "(i, es) \<in> set g" using Cons.prems(4) \<open>i \<notin> fst ` set (concat gs)\<close> by force
      then have sub: "set es \<subseteq> set ?events" by force
      note so = store_ok [OF s [unfolded eqTrueI [OF ok]]]
      have hot: "holds_id (as_hot st1) (au_id e) \<or> \<not> isHotType (au_type e)" if "e \<in> set es" for e
        using so(1) sub that by (auto simp: fold_insert_holds hot_of_def)
      have "as_archive st' (archiveKey (hd ?events) (atts n)) = Some ?events"
        using store_groups_keeps [OF inj len, of "n + 1" gs n st1 "hd ?events" ?events i False budget up ?used ws st'] so(2) ws Cons.prems(1) by simp
      moreover have "holds_id (as_hot st') (au_id e) \<or> \<not> isHotType (au_type e)" if "e \<in> set es" for e
        using store_groups_keeps [OF inj len, of "n + 1" gs n st1 "hd ?events" ?events "au_id e" "isHotType (au_type e)" budget up ?used ws st']
          so(2) ws hot [OF that] Cons.prems(1) by simp
      ultimately show ?thesis using sub unfolding stored_in_def by blast
    qed
  qed
qed simp

lemma group_audit_length: "length (group_audit bound groups items) \<le> length groups + length items"
proof (induction items arbitrary: groups)
  case (Cons item items)
  have "length (group_audit bound (butlast groups @ [last groups @ [item]]) items) \<le> length groups + length items" if "groups \<noteq> []"
    using Cons.IH [of "butlast groups @ [last groups @ [item]]"] that by simp
  moreover have "length (group_audit bound (groups @ [[item]]) items) \<le> Suc (length groups + length items)"
    using Cons.IH [of "groups @ [[item]]"] by simp
  ultimately show ?case by fastforce
qed simp

lemma group_audit_concat: "concat (group_audit bound groups items) = concat groups @ items"
proof (induction items arbitrary: groups)
  case (Cons item items)
  have "concat (butlast groups @ [last groups @ [item]]) = concat groups @ [item]" if "groups \<noteq> []"
    using that by (cases groups rule: rev_cases) simp_all
  then show ?case using Cons.IH by simp
qed simp

definition audit_item :: "queue_message \<Rightarrow> (string \<times> audit_row list) option" where
  "audit_item m =
     (case qm_body m of Audit_body b \<Rightarrow> map_option (Pair (qm_id m)) (audit_task_events b) | _ \<Rightarrow> None)"

lemma consume_tasks_split:
  "map fst (fst (consume_tasks d keys ms)) = map qm_id (filter (\<lambda>m. audit_item m = None) ms) \<and>
   fst (snd (consume_tasks d keys ms)) = List.map_filter audit_item ms"
  by (induction ms)
    (auto simp: audit_item_def List.map_filter_simps split_def Let_def split: task_body.splits option.splits)

lemma audit_item_id: "audit_item m = Some p \<Longrightarrow> fst p = qm_id m"
  by (auto simp: audit_item_def split: task_body.splits)

lemma audit_ids: "map fst (List.map_filter audit_item ms) = map qm_id (filter (\<lambda>m. audit_item m \<noteq> None) ms)"
  by (induction ms) (auto simp: List.map_filter_simps audit_item_id split: option.splits)

text \<open>
  C38. The consumer answers every message once and loses no event. With message ids that are distinct and a fresh UUID for
  every object of the archive, each message of a
  batch gets exactly one verdict; and when an audit message is acknowledged, all of its events are in one object of the
  archive and those of a hot type in the table, whichever groups of the batch failed or were deferred.
\<close>

theorem acknowledged_audit_is_stored:
  assumes "queue_handler config d keys up atts messages st = (vs, events, sends, st')"
    and "distinct (map qm_id messages)" and "inj_on atts {..<length messages}"
    and "\<And>k. k < length messages \<Longrightarrow> length (atts k) = 36"
  shows "set (map fst vs) = set (map qm_id messages) \<and> length vs = length messages \<and>
    (\<forall>m es. m \<in> set messages \<and> qm_body m = Audit_body (Some es) \<and> audit_task_events (Some es) = Some es \<and>
       (qm_id m, Acked) \<in> set vs \<longrightarrow> stored_in st' es)"
proof (cases config)
  case False
  then show ?thesis using assms(1) by (auto simp: queue_handler_def image_comp comp_def)
next
  case True
  obtain ws audit ev1 sends1 where c: "consume_tasks d keys messages = (ws, audit, ev1, sends1)" by (metis prod_cases4)
  let ?groups = "group_audit ARCHIVE_GROUP_EVENTS [] audit"
  obtain us where u: "store_groups HOT_STATEMENTS_PER_INVOCATION up atts 0 0 ?groups st = (us, st')" and vs: "vs = ws @ us"
    using True assms(1) c by (auto simp: queue_handler_def split: prod.splits)
  have groups: "concat ?groups = audit" by (simp add: group_audit_concat)
  have idu: "map fst us = map fst audit" using store_groups_ids [OF u] groups by simp
  have wid: "map fst ws = map qm_id (filter (\<lambda>m. audit_item m = None) messages)" and audit: "audit = List.map_filter audit_item messages"
    using consume_tasks_split [of d keys messages] c by simp_all
  have aid: "map fst audit = map qm_id (filter (\<lambda>m. audit_item m \<noteq> None) messages)" using audit audit_ids by simp
  have "set messages = {m \<in> set messages. audit_item m = None} \<union> {m \<in> set messages. audit_item m \<noteq> None}" by blast
  then have ids: "set (map fst vs) = set (map qm_id messages)"
    unfolding vs map_append set_append idu wid aid set_map set_filter image_Un [symmetric] by (simp only:)
  have "length vs = length (filter (\<lambda>m. audit_item m = None) messages) + length (filter (\<lambda>m. audit_item m \<noteq> None) messages)"
    using arg_cong [OF idu, of length] arg_cong [OF wid, of length] arg_cong [OF aid, of length] vs by simp
  then have len: "length vs = length messages" by (simp only: sum_length_filter_compl)
  have "stored_in st' es"
    if m: "m \<in> set messages" "qm_body m = Audit_body (Some es)" "audit_task_events (Some es) = Some es" "(qm_id m, Acked) \<in> set vs" for m es
  proof -
    have item: "audit_item m = Some (qm_id m, es)" using m by (simp add: audit_item_def)
    then have mem: "(qm_id m, es) \<in> set (concat ?groups)" using m(1) groups audit by (force simp: List.map_filter_def)
    have "distinct (map fst audit)" unfolding aid using assms(2) by (simp add: distinct_map_filter)
    then have dist: "distinct (map fst (concat ?groups))" using groups by simp
    have "qm_id m \<notin> set (map fst ws)"
    proof
      assume "qm_id m \<in> set (map fst ws)"
      then obtain x where x: "x \<in> set messages" "audit_item x = None" "qm_id m = qm_id x" unfolding wid by auto
      then have "m = x" using inj_onD [of qm_id "set messages" m x] assms(2) m(1) by (simp add: distinct_map)
      then show False using x(2) item by simp
    qed
    then have "(qm_id m, Acked) \<in> set us" using m(4) vs by force
    moreover have "length ?groups \<le> length audit" using group_audit_length [of ARCHIVE_GROUP_EVENTS "[]" audit] by simp
    moreover have "length audit \<le> length messages"
      using arg_cong [OF aid, of length] unfolding length_map by (simp only: length_filter_le)
    ultimately show ?thesis using store_groups_acked [OF assms(3,4) _ u dist mem] by simp
  qed
  then show ?thesis using ids len by blast
qed

text \<open>Ids of 36 characters, as a UUID has.\<close>

definition sample_attempt :: "nat \<Rightarrow> string" where
  "sample_attempt n = replicate 35 (CHR ''0'') @ [char_of (97 + n)]"

definition sample_messages :: "queue_message list" where
  "sample_messages =
     [\<lparr>qm_id = ''m1'', qm_body = Audit_body (Some [sample_event])\<rparr>, \<lparr>qm_id = ''m2'', qm_body = Other_body\<rparr>]"

text \<open>The witness: an audit message and one of an unknown kind are acknowledged.\<close>

theorem acknowledged_audit_witness:
  "let (vs, _, _, st') = queue_handler True sample_deps True (\<lambda>_. (True, True)) sample_attempt sample_messages
         \<lparr>as_hot = [], as_archive = Map.empty\<rparr>
   in vs = [(''m2'', Acked), (''m1'', Acked)] \<and> stored_in st' [sample_event]"
proof -
  let ?st0 = "\<lparr>as_hot = [], as_archive = Map.empty\<rparr>"
  let ?q = "queue_handler True sample_deps True (\<lambda>_. (True, True)) sample_attempt sample_messages ?st0"
  obtain vs events sends st' where q: "?q = (vs, events, sends, st')" by (metis prod_cases4)
  have "fst ?q = [(''m2'', Acked), (''m1'', Acked)]" by code_simp
  then have vs: "vs = [(''m2'', Acked), (''m1'', Acked)]" using q by simp
  have "distinct (map qm_id sample_messages)" by code_simp
  moreover have "inj_on sample_attempt {..<length sample_messages}"
    by (auto simp: sample_messages_def sample_attempt_def lessThan_Suc numeral_2_eq_2)
  moreover have "length (sample_attempt k) = 36" for k by (simp add: sample_attempt_def)
  moreover have "audit_task_events (Some [sample_event]) = Some [sample_event]" by code_simp
  ultimately have "stored_in st' [sample_event]"
    using acknowledged_audit_is_stored [OF q, THEN conjunct2, THEN conjunct2, rule_format, of "sample_messages ! 0" "[sample_event]"] vs
    by (simp add: sample_messages_def)
  then show ?thesis using q vs by simp
qed

end
