(* ===== verification/Upstreams.thy ===== *)
theory Upstreams
  imports Keystore Audit_Trail
begin

text \<open>
  Upstream providers: the record and its rules (\<^verbatim>\<open>src/federation/upstreams.ts\<close>), the table
  \<^verbatim>\<open>upstreams\<close> (\<^verbatim>\<open>src/db/upstreams.ts\<close>) and the re-encryption of its secrets
  (\<^verbatim>\<open>rekeyUpstreams\<close> of \<^verbatim>\<open>src/maintenance/run.ts\<close>).
\<close>


section \<open>The record\<close>

datatype discovery =
    Auto
  | Manual (da_authorization: string) (da_token: string) (da_jwks: string) (da_userinfo: "string option")

datatype upstream_auth = Secret_basic | Secret_post | Private_key_jwt

record claims_map =
  cm_email :: "string option"
  cm_email_verified :: "string option"
  cm_name :: "string option"

record upstream =
  up_alias :: string
  up_issuer :: string
  up_display_name :: string
  up_client_id :: string
  up_auth_method :: upstream_auth
  up_client_secret_enc :: "bytes option"
  up_client_jwk_enc :: "bytes option"
  up_scopes :: string
  up_discovery :: discovery
  up_use_userinfo :: bool
  up_trust_email_verified :: bool
  up_claims_map :: claims_map
  up_required_claims :: "(string \<times> json) list"
  up_extra_params :: "(string \<times> string) list"
  up_forward_login_hint :: bool
  up_enabled :: bool
  up_created_at :: seconds
  up_updated_at :: seconds

text \<open>The body of a creation after its schema; \<open>ui_client_jwk\<close> is the text of the private key.\<close>

record upstream_input =
  ui_alias :: string
  ui_issuer :: string
  ui_display_name :: string
  ui_client_id :: string
  ui_auth_method :: upstream_auth
  ui_client_secret :: "string option"
  ui_client_jwk :: "string option"
  ui_scopes :: string
  ui_discovery :: discovery
  ui_use_userinfo :: bool
  ui_trust_email_verified :: bool
  ui_claims_map :: claims_map
  ui_required_claims :: "(string \<times> json) list"
  ui_extra_params :: "(string \<times> string) list"
  ui_forward_login_hint :: bool
  ui_enabled :: bool

definition is_alias_char :: "char \<Rightarrow> bool" where
  "is_alias_char c \<longleftrightarrow> CHR ''a'' \<le> c \<and> c \<le> CHR ''z'' \<or> is_digit c"

definition ALIAS_PATTERN :: "string \<Rightarrow> bool" where
  "ALIAS_PATTERN s \<longleftrightarrow>
     (case s of
        [] \<Rightarrow> False
      | c # cs \<Rightarrow> is_alias_char c \<and> length cs \<le> 31 \<and> list_all (\<lambda>x. is_alias_char x \<or> x = CHR ''_'' \<or> x = CHR ''-'') cs)"

text \<open>\<^verbatim>\<open>split(/\s+/)\<close> without the empty pieces.\<close>

fun words_from :: "string \<Rightarrow> string \<Rightarrow> string list" where
  "words_from w [] = (if w = [] then [] else [w])"
| "words_from w (c # cs) =
     (if is_space c then (if w = [] then words_from [] cs else w # words_from [] cs) else words_from (w @ [c]) cs)"

definition scope_words :: "string \<Rightarrow> string list" where
  "scope_words s = words_from [] s"

definition validateUpstreamInput :: "upstream_input \<Rightarrow> bool \<Rightarrow> bool \<Rightarrow> string list" where
  "validateUpstreamInput input hasSecret hasJwk =
     (let scopes = scope_words (ui_scopes input); secretMethod = (ui_auth_method input \<noteq> Private_key_jwt) in
      (if ''openid'' \<notin> set scopes then [''scopes: must contain openid''] else []) @
      (if length (js_uniq scopes) \<noteq> length scopes then [''scopes: duplicate values''] else []) @
      (if CHR ''#'' \<in> set (ui_issuer input) \<or> CHR ''?'' \<in> set (ui_issuer input)
       then [''issuer: must not carry a query or fragment''] else []) @
      (if secretMethod \<and> \<not> hasSecret then [''client_secret: required for this method''] else []) @
      (if \<not> secretMethod \<and> \<not> hasJwk then [''client_jwk: required for private_key_jwt''] else []) @
      (if secretMethod \<and> ui_client_jwk input \<noteq> None then [''client_jwk: only for private_key_jwt''] else []) @
      (if \<not> secretMethod \<and> ui_client_secret input \<noteq> None then [''client_secret: only for secret methods''] else []) @
      (if ui_use_userinfo input \<and>
          (case ui_discovery input of Auto \<Rightarrow> False | Manual _ _ _ u \<Rightarrow> u = None \<or> u = Some [])
       then [''discovery.userinfo_endpoint: required when use_userinfo is set''] else []))"

text \<open>What the Admin API shows: the record without the sealed material.\<close>

record public_upstream =
  pv_upstream :: upstream
  pv_has_client_secret :: bool
  pv_has_client_jwk :: bool
  pv_redirect_uri :: string

definition publicUpstream :: "upstream \<Rightarrow> string \<Rightarrow> public_upstream" where
  "publicUpstream u issuerUrl =
     \<lparr>pv_upstream = u\<lparr>up_client_secret_enc := None, up_client_jwk_enc := None\<rparr>,
      pv_has_client_secret = (up_client_secret_enc u \<noteq> None), pv_has_client_jwk = (up_client_jwk_enc u \<noteq> None),
      pv_redirect_uri = issuerUrl @ ''/federation/callback''\<rparr>"


section \<open>The table\<close>

text \<open>A row and whether its JSON columns still parse; one that does not is treated as absent.\<close>

record upstream_row =
  uw_upstream :: upstream
  uw_parses :: bool

type_synonym upstream_table = "upstream_row list"

definition decodeUpstreamRow :: "upstream_row \<Rightarrow> upstream option" where
  "decodeUpstreamRow r = (if uw_parses r then Some (uw_upstream r) else None)"

definition getUpstream :: "upstream_table \<Rightarrow> string \<Rightarrow> upstream option" where
  "getUpstream t alias = Option.bind (select_one (\<lambda>r. up_alias (uw_upstream r) = alias) t) decodeUpstreamRow"

definition insertUpstream :: "upstream \<Rightarrow> upstream_table \<Rightarrow> bool \<times> upstream_table" where
  "insertUpstream u t =
     (case insert_row (\<lambda>r. up_alias (uw_upstream r) = up_alias u \<or> up_issuer (uw_upstream r) = up_issuer u)
             \<lparr>uw_upstream = u, uw_parses = True\<rparr> t of
        None \<Rightarrow> (False, t)
      | Some t' \<Rightarrow> (True, t'))"

datatype upstream_change = Upstream_changed | Upstream_not_found | Upstream_exists

definition updateUpstream :: "upstream \<Rightarrow> seconds \<Rightarrow> upstream_table \<Rightarrow> upstream_change \<times> upstream_table" where
  "updateUpstream u now t =
     (let here = (\<lambda>r. up_alias (uw_upstream r) = up_alias u) in
      if list_ex here t \<and> list_ex (\<lambda>r. \<not> here r \<and> up_issuer (uw_upstream r) = up_issuer u) t then (Upstream_exists, t)
      else
        (if count_where here t = 1 then Upstream_changed else Upstream_not_found,
         update_where here
           (\<lambda>r. \<lparr>uw_upstream = u\<lparr>up_created_at := up_created_at (uw_upstream r), up_updated_at := now\<rparr>, uw_parses = True\<rparr>) t))"

definition deleteUpstream :: "string \<Rightarrow> upstream_table \<Rightarrow> bool \<times> upstream_table" where
  "deleteUpstream alias t =
     (count_where (\<lambda>r. up_alias (uw_upstream r) = alias) t = 1, delete_where (\<lambda>r. up_alias (uw_upstream r) = alias) t)"

definition listUpstreamsPage :: "upstream_table \<Rightarrow> keyset option \<Rightarrow> nat \<Rightarrow> (keyset \<times> upstream option) list" where
  "listUpstreamsPage t after limit =
     map (\<lambda>r. ((up_created_at (uw_upstream r), up_alias (uw_upstream r)), decodeUpstreamRow r))
       (keyset_query (\<lambda>r. (up_created_at (uw_upstream r), up_alias (uw_upstream r))) (\<lambda>_. True) after limit t)"

definition listEnabledUpstreams :: "upstream_table \<Rightarrow> upstream list" where
  "listEnabledUpstreams t =
     List.map_filter decodeUpstreamRow
       (sort_key (\<lambda>r. (up_created_at (uw_upstream r), up_alias (uw_upstream r)))
         (select_where (\<lambda>r. up_enabled (uw_upstream r)) t))"

definition listUpstreamAliases :: "upstream_table \<Rightarrow> (string \<times> string) list" where
  "listUpstreamAliases t =
     map (\<lambda>r. (up_alias (uw_upstream r), up_issuer (uw_upstream r))) (sort_key (\<lambda>r. up_alias (uw_upstream r)) t)"

definition countUpstreams :: "upstream_table \<Rightarrow> int" where
  "countUpstreams t = int (length t)"

definition listSealedUpstreams :: "upstream_table \<Rightarrow> upstream list" where
  "listSealedUpstreams t =
     List.map_filter decodeUpstreamRow
       (sort_key (\<lambda>r. up_alias (uw_upstream r))
         (select_where (\<lambda>r. up_client_secret_enc (uw_upstream r) \<noteq> None \<or> up_client_jwk_enc (uw_upstream r) \<noteq> None) t))"

definition updateUpstreamSecrets :: "string \<Rightarrow> bytes option \<Rightarrow> bytes option \<Rightarrow> upstream_table \<Rightarrow> upstream_table" where
  "updateUpstreamSecrets alias secretEnc jwkEnc t =
     update_where (\<lambda>r. up_alias (uw_upstream r) = alias)
       (\<lambda>r. r\<lparr>uw_upstream := (uw_upstream r)\<lparr>up_client_secret_enc := secretEnc, up_client_jwk_enc := jwkEnc\<rparr>\<rparr>) t"


section \<open>Re-encryption\<close>

definition stale_blob :: "'key crypto \<Rightarrow> bytes option \<Rightarrow> bool" where
  "stale_blob keys blob = (case blob of None \<Rightarrow> False | Some b \<Rightarrow> sealedUnderVersion b \<noteq> Some (k_active keys))"

definition upstream_stale :: "'key crypto \<Rightarrow> upstream \<Rightarrow> bool" where
  "upstream_stale keys u \<longleftrightarrow> stale_blob keys (up_client_secret_enc u) \<or> stale_blob keys (up_client_jwk_enc u)"

text \<open>
  \<^verbatim>\<open>reseal\<close>: the new blob, which is \<^term>\<open>None\<close> for none and for one that does not open; \<^term>\<open>None\<close> of the
  result where sealing throws.
\<close>

definition reseal :: "'key crypto \<Rightarrow> bytes \<Rightarrow> bytes option \<Rightarrow> bytes option option" where
  "reseal keys nonce blob =
     (case blob of
        None \<Rightarrow> Some None
      | Some b \<Rightarrow>
          if sealedUnderVersion b = Some (k_active keys) then Some (Some b)
          else
            (case openSecret keys b of
               None \<Rightarrow> Some None
             | Some plaintext \<Rightarrow> map_option Some (sealSecret keys nonce plaintext)))"

text \<open>The nonces drawn for the two secrets of an upstream are arguments.\<close>

fun rekey_upstreams ::
  "'key crypto \<Rightarrow> (string \<Rightarrow> bytes \<times> bytes) \<Rightarrow> upstream list \<Rightarrow> upstream_table \<Rightarrow> (nat \<times> nat \<times> upstream_table) option" where
  "rekey_upstreams keys nonces [] t = Some (0, 0, t)"
| "rekey_upstreams keys nonces (u # us) t =
     do {
       secret \<leftarrow> reseal keys (fst (nonces (up_alias u))) (up_client_secret_enc u);
       jwk \<leftarrow> reseal keys (snd (nonces (up_alias u))) (up_client_jwk_enc u);
       (if up_client_secret_enc u \<noteq> None \<and> secret = None \<or> up_client_jwk_enc u \<noteq> None \<and> jwk = None
        then map_option (\<lambda>(n, lost, t'). (n, lost + 1, t')) (rekey_upstreams keys nonces us t)
        else map_option (\<lambda>(n, lost, t'). (n + 1, lost, t'))
               (rekey_upstreams keys nonces us (updateUpstreamSecrets (up_alias u) secret jwk t)))
     }"

record rekey_counts =
  rq_rekeyed :: nat
  rq_unrecoverable :: nat
  rq_remaining :: nat

definition rekeyUpstreams ::
  "'key crypto \<Rightarrow> (string \<Rightarrow> bytes \<times> bytes) \<Rightarrow> nat \<Rightarrow> upstream_table \<Rightarrow> (rekey_counts \<times> upstream_table) option" where
  "rekeyUpstreams keys nonces limit t =
     (let stale = filter (upstream_stale keys) (listSealedUpstreams t) in
      map_option (\<lambda>(n, lost, t').
          (\<lparr>rq_rekeyed = n, rq_unrecoverable = lost, rq_remaining = length stale - limit\<rparr>, t'))
        (rekey_upstreams keys nonces (take limit stale) t))"

end
