(* ===== verification/Maintenance.thy ===== *)
theory Maintenance
  imports Upstreams Queue
begin

text \<open>
  The maintenance run (\<^verbatim>\<open>src/maintenance/run.ts\<close>): purge of the audit table, spent invitations, users whose
  creation or deletion was cut short, signing keys and re-encryption. The clock is read between steps; as it only moves
  forward, the answers of \<^verbatim>\<open>within()\<close> are as many times true as \<open>mt_checks\<close> says, and false from then on.
\<close>

definition SPENT_INVITATION_GRACE_SECONDS :: seconds where "SPENT_INVITATION_GRACE_SECONDS = 30 * 86400"
definition CREATING_REPAIR_AFTER_SECONDS :: seconds where "CREATING_REPAIR_AFTER_SECONDS = 60"
definition CREATING_DELETE_AFTER_SECONDS :: seconds where "CREATING_DELETE_AFTER_SECONDS = 3600"
definition REPAIR_BATCH :: nat where "REPAIR_BATCH = 100"
definition REKEY_CHUNK :: nat where "REKEY_CHUNK = 50"
definition PURGE_BATCH_ROWS :: nat where "PURGE_BATCH_ROWS = 1000"
definition PURGE_MAX_BATCHES :: nat where "PURGE_MAX_BATCHES = 10"

record maintenance_report =
  mp_audit_rows_purged :: nat
  mp_audit_hot_rows :: int
  mp_invitations_deleted :: int
  mp_users_repaired :: nat
  mp_users_dropped :: nat
  mp_users_deleted :: nat
  mp_keys :: maintenance_result
  mp_rekeyed_signing_keys :: nat
  mp_rekeyed_upstreams :: nat
  mp_unrecoverable :: nat
  mp_remaining :: nat
  mp_skipped :: "string list"

definition empty_report :: maintenance_report where
  "empty_report =
     \<lparr>mp_audit_rows_purged = 0, mp_audit_hot_rows = 0, mp_invitations_deleted = 0, mp_users_repaired = 0, mp_users_dropped = 0,
      mp_users_deleted = 0, mp_keys = \<lparr>mr_created = None, mr_retired = [], mr_deleted_kids = []\<rparr>,
      mp_rekeyed_signing_keys = 0, mp_rekeyed_upstreams = 0, mp_unrecoverable = 0, mp_remaining = 0, mp_skipped = []\<rparr>"

record deployment =
  dp_accounts :: accounts
  dp_keys :: key_table
  dp_upstreams :: upstream_table
  dp_audit :: audit_table
  dp_last_cron :: "seconds option"

text \<open>
  What a run draws and meets: new ids, a generated key, the nonces of re-encryption, and whether the calls of an object
  arrive.
\<close>

record 'key run_env =
  rn_keys :: "'key crypto"
  rn_settings :: settings
  rn_now :: seconds
  rn_uuids :: "string \<Rightarrow> nat \<Rightarrow> string"
  rn_generated :: generated_key
  rn_key_nonces :: "string \<Rightarrow> bytes"
  rn_upstream_nonces :: "string \<Rightarrow> bytes \<times> bytes"
  rn_delivery :: "string \<Rightarrow> delivery"

record run_state =
  mt_checks :: nat
  mt_report :: maintenance_report
  mt_deployment :: deployment
  mt_ended :: "(string \<times> revoked_session list) list"


section \<open>Creations cut short\<close>

definition stored_pair :: "string \<Rightarrow> string \<times> string \<Rightarrow> new_identity" where
  "stored_pair uuid pair =
     \<lparr>ni_id = uuid, ni_issuer = fst pair, ni_subject = snd pair, ni_email = None, ni_email_verified = None, ni_name = None\<rparr>"

fun link_pairs ::
  "'key run_env \<Rightarrow> string \<Rightarrow> nat \<Rightarrow> (string \<times> string) list \<Rightarrow> accounts \<Rightarrow> bool \<times> accounts" where
  "link_pairs env uid n [] a = (True, a)"
| "link_pairs env uid n (pair # pairs) a =
     (case on_object uid (delivered (rn_delivery env uid) (addIdentity (stored_pair (rn_uuids env uid n) pair) (rn_now env))) a of
        (Threw, a') \<Rightarrow> (False, a')
      | (Fail e, a') \<Rightarrow> if e \<noteq> Identity_exists then (False, a') else link_pairs env uid (n + 1) pairs a'
      | (Ok _, a') \<Rightarrow> link_pairs env uid (n + 1) pairs a')"

definition repairCreating :: "'key run_env \<Rightarrow> registry_user \<Rightarrow> accounts \<Rightarrow> bool \<times> accounts" where
  "repairCreating env row a =
     (case on_object (ru_id row)
             (delivered (rn_delivery env (ru_id row))
               (init \<lparr>ip_id = ru_id row, ip_email = ru_email row, ip_email_norm = ru_email_norm row,
                      ip_email_verified = ru_email_verified row, ip_display_name = ru_display_name row,
                      ip_groups = groupNamesOfUser (acc_registry a) (ru_id row)\<rparr> (rn_now env) [])) a of
        (Ok _, a1) \<Rightarrow>
          (case link_pairs env (ru_id row) 0 (identitiesOfUser (acc_registry a1) (ru_id row)) a1 of
             (True, a2) \<Rightarrow> (True, a2\<lparr>acc_registry := setUserStatus (ru_id row) Active_user (rn_now env) (acc_registry a2)\<rparr>)
           | (False, a2) \<Rightarrow> (False, a2))
      | (_, a1) \<Rightarrow> (False, a1))"

text \<open>The loop over the rows: what was dropped and repaired, and the checks that are left.\<close>

fun creating_loop :: "'key run_env \<Rightarrow> registry_user list \<Rightarrow> nat \<Rightarrow> accounts \<Rightarrow> nat \<times> nat \<times> nat \<times> accounts" where
  "creating_loop env [] n a = (0, 0, n, a)"
| "creating_loop env (row # rows) n a =
     (if n = 0 then (0, 0, 0, a)
      else if ru_created_at row < rn_now env - CREATING_DELETE_AFTER_SECONDS
      then let (dropped, repaired, n', a') =
                 creating_loop env rows (n - 1) (a\<lparr>acc_registry := snd (deleteUserRow (ru_id row) (acc_registry a))\<rparr>)
           in (dropped + 1, repaired, n', a')
      else let (ok, a1) = repairCreating env row a;
               (dropped, repaired, n', a') = creating_loop env rows (n - 1) a1
           in (dropped, (if ok then repaired + 1 else repaired), n', a'))"

definition creating_filters :: "seconds \<Rightarrow> user_filters" where
  "creating_filters now =
     \<lparr>uf_email_norm = None, uf_status = Some Creating_user, uf_group_id = None, uf_created_after = None,
      uf_created_before = Some (now - CREATING_REPAIR_AFTER_SECONDS)\<rparr>"

definition on_accounts :: "accounts \<Rightarrow> run_state \<Rightarrow> run_state" where
  "on_accounts a s = s\<lparr>mt_deployment := (mt_deployment s)\<lparr>dp_accounts := a\<rparr>\<rparr>"

definition creating_users_step :: "'key run_env \<Rightarrow> run_state \<Rightarrow> bool \<times> run_state" where
  "creating_users_step env s =
     (let a = dp_accounts (mt_deployment s);
          stale = listUsers (acc_registry a) (creating_filters (rn_now env)) None REPAIR_BATCH;
          (dropped, repaired, n, a') = creating_loop env stale (mt_checks s) a
      in (True, (on_accounts a' s)\<lparr>mt_checks := n,
                  mt_report := (mt_report s)\<lparr>mp_users_dropped := dropped, mp_users_repaired := repaired\<rparr>\<rparr>))"


section \<open>Deletions cut short\<close>

text \<open>\<^term>\<open>False\<close> when the object's call throws, which ends the run.\<close>

fun deleting_loop ::
  "'key run_env \<Rightarrow> registry_user list \<Rightarrow> nat \<Rightarrow> accounts \<Rightarrow> bool \<times> nat \<times> (string \<times> revoked_session list) list \<times> nat \<times> accounts" where
  "deleting_loop env [] n a = (True, 0, [], n, a)"
| "deleting_loop env (row # rows) n a =
     (if n = 0 then (True, 0, [], 0, a)
      else
        (case on_object (ru_id row) (delivered (rn_delivery env (ru_id row)) (setDisabled (Some (rn_now env)) (rn_now env))) a of
           (Threw, a1) \<Rightarrow> (False, 0, [], n - 1, a1)
         | (r, a1) \<Rightarrow>
             let a2 = snd (on_object (ru_id row) (\<lambda>s. ((), destroy s)) a1);
                 a3 = a2\<lparr>acc_registry := snd (deleteUserRow (ru_id row) (acc_registry a2))\<rparr>;
                 (ok, k, ended, n', a') = deleting_loop env rows (n - 1) a3
             in (ok, k + 1, (ru_id row, case r of Ok (_, revoked) \<Rightarrow> revoked | _ \<Rightarrow> []) # ended, n', a')))"

definition deleting_filters :: user_filters where
  "deleting_filters =
     \<lparr>uf_email_norm = None, uf_status = Some Deleting_user, uf_group_id = None, uf_created_after = None, uf_created_before = None\<rparr>"

definition deleting_users_step :: "'key run_env \<Rightarrow> run_state \<Rightarrow> bool \<times> run_state" where
  "deleting_users_step env s =
     (let a = dp_accounts (mt_deployment s);
          (ok, k, ended, n, a') =
            deleting_loop env (listUsers (acc_registry a) deleting_filters None REPAIR_BATCH) (mt_checks s) a
      in (ok, (on_accounts a' s)\<lparr>mt_checks := n, mt_ended := mt_ended s @ ended,
                mt_report := (mt_report s)\<lparr>mp_users_deleted := k\<rparr>\<rparr>))"


section \<open>The other steps\<close>

fun purge_loop :: "seconds \<Rightarrow> nat \<Rightarrow> nat \<Rightarrow> audit_table \<Rightarrow> nat \<times> nat \<times> audit_table" where
  "purge_loop cutoff 0 n t = (0, n, t)"
| "purge_loop cutoff (Suc i) n t =
     (if n = 0 then (0, 0, t)
      else let (purged, t') = purgeAuditBatch cutoff PURGE_BATCH_ROWS t in
           if purged < PURGE_BATCH_ROWS then (purged, n - 1, t')
           else let (more, n', t'') = purge_loop cutoff i (n - 1) t' in (purged + more, n', t''))"

definition audit_purge_step :: "'key run_env \<Rightarrow> run_state \<Rightarrow> bool \<times> run_state" where
  "audit_purge_step env s =
     (let dep = mt_deployment s;
          (purged, n, t) = purge_loop (rn_now env - st_hot_retention_days (rn_settings env) * 86400) PURGE_MAX_BATCHES (mt_checks s) (dp_audit dep)
      in (True, s\<lparr>mt_checks := n, mt_deployment := dep\<lparr>dp_audit := t\<rparr>,
                  mt_report := (mt_report s)\<lparr>mp_audit_rows_purged := purged, mp_audit_hot_rows := estimateAuditRows t\<rparr>\<rparr>))"

definition invitations_step :: "'key run_env \<Rightarrow> run_state \<Rightarrow> bool \<times> run_state" where
  "invitations_step env s =
     (let a = dp_accounts (mt_deployment s);
          (n, r) = deleteSpentInvitations (rn_now env - SPENT_INVITATION_GRACE_SECONDS) (acc_registry a)
      in (True, (on_accounts (a\<lparr>acc_registry := r\<rparr>) s)\<lparr>mt_report := (mt_report s)\<lparr>mp_invitations_deleted := n\<rparr>\<rparr>))"

definition signing_keys_step :: "'key run_env \<Rightarrow> run_state \<Rightarrow> bool \<times> run_state" where
  "signing_keys_step env s =
     (let dep = mt_deployment s in
      (case maintainSigningKeys (rn_keys env) (rn_generated env) (rn_settings env) (rn_now env) (dp_keys dep) of
         None \<Rightarrow> (False, s)
       | Some (res, keys) \<Rightarrow>
           (True, s\<lparr>mt_deployment := dep\<lparr>dp_keys := keys\<rparr>, mt_report := (mt_report s)\<lparr>mp_keys := res\<rparr>\<rparr>)))"

definition rekey_step :: "'key run_env \<Rightarrow> run_state \<Rightarrow> bool \<times> run_state" where
  "rekey_step env s =
     (let dep = mt_deployment s in
      (case rekeySigningKeys (rn_keys env) (rn_key_nonces env) REKEY_CHUNK (dp_keys dep) of
         None \<Rightarrow> (False, s)
       | Some (signing, keys) \<Rightarrow>
           let s1 = s\<lparr>mt_deployment := dep\<lparr>dp_keys := keys\<rparr>\<rparr> in
           (case rekeyUpstreams (rn_keys env) (rn_upstream_nonces env) REKEY_CHUNK (dp_upstreams dep) of
              None \<Rightarrow> (False, s1)
            | Some (ups, t) \<Rightarrow>
                (True, s1\<lparr>mt_deployment := (mt_deployment s1)\<lparr>dp_upstreams := t\<rparr>,
                          mt_report := (mt_report s)\<lparr>mp_rekeyed_signing_keys := length (rk_rekeyed signing),
                            mp_rekeyed_upstreams := rq_rekeyed ups,
                            mp_unrecoverable := length (rk_unrecoverable signing) + rq_unrecoverable ups,
                            mp_remaining := rk_remaining signing + rq_remaining ups\<rparr>\<rparr>))))"


section \<open>The run\<close>

definition maintenance_steps :: "'key run_env \<Rightarrow> (string \<times> (run_state \<Rightarrow> bool \<times> run_state)) list" where
  "maintenance_steps env =
     [(''audit_purge'', audit_purge_step env), (''invitations'', invitations_step env),
      (''creating_users'', creating_users_step env), (''deleting_users'', deleting_users_step env),
      (''signing_keys'', signing_keys_step env), (''rekey'', rekey_step env)]"

fun run_steps :: "(string \<times> (run_state \<Rightarrow> bool \<times> run_state)) list \<Rightarrow> run_state \<Rightarrow> bool \<times> run_state" where
  "run_steps [] s = (True, s)"
| "run_steps ((name, step) # steps) s =
     (if mt_checks s = 0
      then run_steps steps (s\<lparr>mt_report := (mt_report s)\<lparr>mp_skipped := mp_skipped (mt_report s) @ [name]\<rparr>\<rparr>)
      else
        (case step (s\<lparr>mt_checks := mt_checks s - 1\<rparr>) of
           (True, s') \<Rightarrow> run_steps steps s'
         | (False, s') \<Rightarrow> (False, s')))"

text \<open>\<open>checks\<close> is how many readings of the clock stay within the budget; the report is \<^term>\<open>None\<close> when a step threw.\<close>

definition runMaintenance :: "'key run_env \<Rightarrow> nat \<Rightarrow> deployment \<Rightarrow> maintenance_report option \<times> deployment" where
  "runMaintenance env checks dep =
     (case run_steps (maintenance_steps env) \<lparr>mt_checks = checks, mt_report = empty_report, mt_deployment = dep, mt_ended = []\<rparr> of
        (False, s) \<Rightarrow> (None, mt_deployment s)
      | (True, s) \<Rightarrow> (Some (mt_report s), (mt_deployment s)\<lparr>dp_last_cron := Some (rn_now env)\<rparr>))"

end
