(* ===== verification/Maintenance_Safety.thy ===== *)
theory Maintenance_Safety
  imports Maintenance Users_Safety Keystore_Safety
begin

text \<open>
  Maintenance makes progress: the rows whose creation was cut short go, a hundred per run, whatever the objects answer and
  also when a later step of the run throws.
\<close>


section \<open>Rows left behind\<close>















section \<open>One step\<close>







section \<open>The run\<close>




















section \<open>Any writes between the runs\<close>

















section \<open>No row stays in creation\<close>


definition sample_env :: "seconds \<Rightarrow> byte run_env" where
  "sample_env now =
     \<lparr>rn_keys = ex_crypto, rn_settings = ex_tight_settings, rn_now = now, rn_uuids = (\<lambda>uid n. uid),
      rn_generated = ex_generated ''a'', rn_key_nonces = (\<lambda>_. replicate 12 1), rn_upstream_nonces = (\<lambda>_. (replicate 12 1, replicate 12 2)),
      rn_delivery = (\<lambda>_. Lost)\<rparr>"





section \<open>An import meets the cron\<close>

text \<open>
  A row imported with the creation time of the system it comes from is, between its claim and its activation, already older
  than the limit of the cron. A run in between drops it, although its object answers and the creation reports success.
\<close>

definition imported :: new_user where
  "imported = (sample_new_user ''u9'' ''z@b.c'')\<lparr>nw_created_at := Some 1000\<rparr>"

definition import_beside_cron :: "(create_failure + user_profile) \<times> registry" where
  "import_beside_cron =
     (let p = projr (prepare_user (acc_registry sample_accounts) 100000 imported);
          r1 = snd (the (claim_all [p] (acc_registry sample_accounts)));
          a1 = sample_accounts\<lparr>acc_registry := r1\<rparr>;
          (_, _, _, a2) = creating_loop (sample_env 100000) (listUsers r1 (creating_filters 100000) None REPAIR_BATCH) 200 a1;
          (x, _) = on_user ''u9'' (initialize (\<lambda>_. Delivered) p) (acc_objects a2)
      in (x, activate_each [(p, x)] (acc_registry a2)))"

theorem imported_row_lost_to_the_cron:
  "\<not> isl (fst import_beside_cron) \<and> getUser (snd import_beside_cron) ''u9'' = None \<and>
   map_option (\<lambda>(x, a). (isl x, map_option ru_status (getUser (acc_registry a) ''u9'')))
     (createUser (\<lambda>_ _. Delivered) 100000 imported sample_accounts) = Some (False, Some Active_user)"
proof (intro conjI)
  show "\<not> isl (fst import_beside_cron)" by code_simp
  show "getUser (snd import_beside_cron) ''u9'' = None" by code_simp
  show "map_option (\<lambda>(x, a). (isl x, map_option ru_status (getUser (acc_registry a) ''u9'')))
     (createUser (\<lambda>_ _. Delivered) 100000 imported sample_accounts) = Some (False, Some Active_user)" by code_simp
qed

end
