(* ===== verification/Spec2Isabelle.thy ===== *)
theory Spec2Isabelle
  imports
    Credential_Safety
    Interaction_Safety
    Authorize_Safety
    Endpoint_Safety
    Navigation
    Interaction_Api
    Resource_Endpoints
    Client_Auth_Safety
    Key_Interleavings
    Registry_Safety
    Pagination
    Users_Safety
    Audit_Safety
    Queue_Safety
    Maintenance_Safety
begin

text \<open>
  Tiny OIDC, an OpenID Connect provider on a serverless platform. The worker keeps one durable object per user and one per
  interaction, a D1 database with the registry of users, clients, keys, settings and audit rows, per-isolate caches, a
  queue and a cron. This development models that code as functions on records and lists and proves what it promises.

  \<^bold>\<open>Conventions.\<close> A class or interface of the source is a \<open>record\<close>, a union a \<open>datatype\<close>; names are the source's where
  Isabelle allows it, and every theory says in its opening text which files it follows. A table is the list of its rows
  (\<open>Tables\<close>: select, insert with its constraints, update, delete), a database or an object in memory a record of tables,
  and an operation a function to its result and the next state. Errors are values: \<open>do_result\<close> has \<open>Ok\<close>, \<open>Fail\<close> and \<open>Threw\<close>;
  elsewhere \<open>option\<close> or a sum stands for an exception or a refusal. Times are integers in seconds, bytes are 8-bit words,
  texts are lists of characters. Everything is executable, and the witnesses evaluate it. \<open>Prelude\<close> and \<open>Machines\<close> hold
  what the components share: string and list lemmas, and the locales \<open>object_machine\<close>, \<open>absorbing\<close> and \<open>single_use\<close> for
  invariants and at-most-once claims over runs of operations, which the components interpret on their own steps.

  \<^bold>\<open>The user object\<close> (\<^verbatim>\<open>src/do/UserDO.ts\<close>, \<^verbatim>\<open>schema.ts\<close>). \<open>User_Types\<close> has its rows and messages, \<open>User_Core\<close> the
  life cycle, guard and purge, \<open>User_Sessions\<close>, \<open>User_Codes\<close> and \<open>User_Credentials\<close> its methods. \<open>User_Invariant\<close> and
  \<open>User_Object\<close> prove that every method keeps the tables well-formed and define \<open>user_op\<close> and \<open>user_step\<close>, the object as a
  machine; \<open>User_Evolution\<close> and \<open>User_Frames\<close> say what each method may change. An exchange is split at its \<^verbatim>\<open>await\<close>: its
  second half runs with a user row read at any earlier time. \<open>Code_Safety\<close>, \<open>Token_Safety\<close>, \<open>Session_Safety\<close> and
  \<open>Credential_Safety\<close> have the properties of codes, refresh tokens, sessions and passkeys: single use, detection of replay
  and reuse, revocation, conditions of issue, and expiry, over any run of calls. \<open>Scenario\<close> has the concrete runs of the
  witnesses. The storage transaction of the runtime, which undoes the writes of a closure that throws, is \<open>transactionSync\<close>.

  \<^bold>\<open>Interactions.\<close> \<open>Interaction\<close> has \<^verbatim>\<open>src/do/InteractionDO.ts\<close> and the transition table of
  \<^verbatim>\<open>src/interaction/state-machine.ts\<close>; the runtime lets no other call in while a method runs, so that each is one step.
  \<open>Interaction_Safety\<close> proves that the object follows the table and that completions, pushed requests and federation legs
  are taken once.

  \<^bold>\<open>Protocol.\<close> \<open>Base64url\<close> and \<open>Handles\<close> (\<^verbatim>\<open>src/crypto/envelope.ts\<close>, \<^verbatim>\<open>src/oidc/handles.ts\<close>) with
  \<open>Handle_Safety\<close>; \<open>Authorize_Request\<close> (\<^verbatim>\<open>src/oidc/authorize.ts\<close>, \<^verbatim>\<open>redirect-uri.ts\<close>) with
  \<open>Authorize_Safety\<close>; \<open>Token_Claims\<close> and \<open>Token_Endpoint\<close> (\<^verbatim>\<open>src/oidc/tokens.ts\<close>, \<^verbatim>\<open>token-endpoint.ts\<close>) with
  \<open>Endpoint_Safety\<close>, which lifts the guarantees of the objects to sequences of HTTP requests; \<open>Http\<close>, \<open>Navigation\<close>,
  \<open>Completion\<close>, \<open>Interaction_Api\<close> and \<open>Resource_Endpoints\<close> for the other endpoints. AES-GCM, SHA-256, the JOSE library, the URL
  parser and the UUID codec are parameters; the laws used of them (\<open>aead_ok\<close>, \<open>uuid_ok\<close>, \<open>jwt_law\<close>, \<open>cursor_ok\<close>) are named
  hypotheses with an instance that satisfies them.

  \<^bold>\<open>Clients, settings and keys.\<close> \<open>Clients\<close> (\<^verbatim>\<open>src/oidc/clients.ts\<close>, \<^verbatim>\<open>src/admin/clients.ts\<close>, \<^verbatim>\<open>src/db/clients.ts\<close>),
  whose handlers are split between their read and their write, with \<open>Client_Safety\<close>; \<open>Client_Auth\<close>
  (\<^verbatim>\<open>src/oidc/client-auth.ts\<close>) with \<open>Client_Auth_Safety\<close>; \<open>Settings\<close> (\<^verbatim>\<open>src/config/schema.ts\<close>, \<^verbatim>\<open>src/env.ts\<close>);
  \<open>Caches\<close> with the locale \<open>stale_cache\<close>, interpreted on all three caches; \<open>Keystore\<close> (\<^verbatim>\<open>src/crypto/keystore.ts\<close>) with
  \<open>Keystore_Safety\<close>, where operations run in turn, and \<open>Key_Interleavings\<close>, where every SQL statement of a retirement, a
  maintenance run, a rotation or a re-encryption is an event of its own. A signing key survives every such interleaving in
  which no two retirements overlap; without that condition it need not, and \<open>overlapping_retirements\<close> shows it.

  \<^bold>\<open>Registry and accounts.\<close> \<open>Registry\<close> has the tables of users, groups, index rows and invitations with their unique
  indexes, foreign keys and cascades (\<^verbatim>\<open>src/db\<close>), \<open>Registry_Safety\<close> their invariant over all writes and the single use of
  invitations. \<open>Users\<close> has the operations of \<^verbatim>\<open>src/users\<close> over the registry and the objects together; a call of an object
  may get lost or go unanswered (\<open>delivery\<close>). \<open>Users_Safety\<close> proves that creating users in a batch equals creating them in
  turn and what a creation leaves behind. \<open>Pagination\<close> proves that following cursors equals one query. In these operations
  the steps of one call are taken without another writer in between, except where a theorem says otherwise.

  \<^bold>\<open>Background work.\<close> \<open>Audit_Trail\<close> (\<^verbatim>\<open>src/audit\<close>, \<^verbatim>\<open>src/db/audit.ts\<close>) with \<open>Audit_Safety\<close>; \<open>Queue\<close>
  (\<^verbatim>\<open>src/logout/backchannel.ts\<close>, \<^verbatim>\<open>src/queue/consumer.ts\<close>) with \<open>Queue_Safety\<close>; \<open>Upstreams\<close> and \<open>Maintenance\<close>
  (\<^verbatim>\<open>src/maintenance/run.ts\<close>) with \<open>Maintenance_Safety\<close>. The budget of a maintenance run is the number of clock readings
  that stay within it; \<open>CHECKS_ENOUGH\<close>, 113, is enough for the purge and one pass over a page of a hundred rows.

  \<^bold>\<open>Termination.\<close> Loops over rows, messages and steps are structural, so that all operations are total; the walk over pages
  is a partial function proved to end, and the retries of a notification end by the attempt counter.

  \<^bold>\<open>Defects.\<close> Some theorems show where the code falls short: \<open>patch_undoes_rotation\<close>, \<open>concurrent_retirements_leave_no_key\<close>,
  \<open>client_token_outlives_its_key\<close>, \<open>tied_key_has_no_role\<close>, \<open>unrecoverable_rows_block_the_rest\<close>,
  \<open>rejected_email_stays_in_the_object\<close>, \<open>imported_row_lost_to_the_cron\<close> and \<open>nineteen_attempts_in_two_seconds\<close>.

  \<^bold>\<open>Not modelled.\<close> The federation protocol and its outbound HTTP, the WebAuthn ceremonies, the handlers of the administration
  and self-service APIs other than those of clients, the router, headers and rate limiter, the parsing of the environment,
  logging and metrics: they are input and output around the operations above, or belong to libraries.
\<close>

end
